(* ===== verification/Pages_Prelude.thy ===== *)
theory Pages_Prelude
  imports Main "HOL-Library.Sublist"
begin

text \<open>
  Shared ground of the development: the collections of simplification rules, the string
  operations of Go's package \<^verbatim>\<open>strings\<close> that the daemon uses, and generic lemmas on
  lists and options.  A Go string is a sequence of bytes; an Isabelle \<^typ>\<open>char\<close> is a byte, so
  a Go string is a \<^typ>\<open>string\<close>.  Case folding is the ASCII one: \<^verbatim>\<open>strings.ToLower\<close> on
  the host names, header names and paths of the daemon is modelled on the bytes A to Z.
\<close>

named_theorems go_simps "equations of the Go library functions"
named_theorems resp_simps "equations of the response writer"
named_theorems inv_intros "preservation of the components' invariants"

type_synonym bytes = string
type_synonym duration = int
type_synonym timestamp = int

abbreviation slash :: char where "slash \<equiv> CHR ''/''"
abbreviation colon :: char where "colon \<equiv> CHR '':''"
abbreviation dot :: char where "dot \<equiv> CHR ''.''"

section \<open>Package strings\<close>

definition HasPrefix :: "string \<Rightarrow> string \<Rightarrow> bool" where
  "HasPrefix s p \<longleftrightarrow> prefix p s"

definition HasSuffix :: "string \<Rightarrow> string \<Rightarrow> bool" where
  "HasSuffix s p \<longleftrightarrow> suffix p s"

definition TrimPrefix :: "string \<Rightarrow> string \<Rightarrow> string" where
  "TrimPrefix s p = (if HasPrefix s p then drop (length p) s else s)"

definition TrimSuffix :: "string \<Rightarrow> string \<Rightarrow> string" where
  "TrimSuffix s p = (if HasSuffix s p then take (length s - length p) s else s)"

definition TrimLeft :: "string \<Rightarrow> char list \<Rightarrow> string" where
  "TrimLeft s cutset = dropWhile (\<lambda>c. c \<in> set cutset) s"

definition TrimRight :: "string \<Rightarrow> char list \<Rightarrow> string" where
  "TrimRight s cutset = rev (dropWhile (\<lambda>c. c \<in> set cutset) (rev s))"

text \<open>\<^verbatim>\<open>strings.TrimSpace\<close>: tab, newline, vertical tab, form feed, carriage return, space.\<close>

definition space_chars :: "char list" where
  "space_chars = [CHR 0x09, CHR 0x0A, CHR 0x0B, CHR 0x0C, CHR 0x0D, CHR 0x20]"

definition TrimSpace :: "string \<Rightarrow> string" where
  "TrimSpace s = TrimRight (TrimLeft s space_chars) space_chars"

definition lower_char :: "char \<Rightarrow> char" where
  "lower_char c = (let n = (of_char c :: nat) in if 65 \<le> n \<and> n \<le> 90 then char_of (n + 32) else c)"

definition ToLower :: "string \<Rightarrow> string" where
  "ToLower s = map lower_char s"

text \<open>\<^verbatim>\<open>strings.Split\<close> on a one-byte separator, and \<^verbatim>\<open>strings.SplitN\<close>.\<close>

fun split_on :: "char \<Rightarrow> string \<Rightarrow> string list" where
  "split_on c [] = [[]]"
| "split_on c (x # xs) =
     (if x = c then [] # split_on c xs
      else (case split_on c xs of [] \<Rightarrow> [[x]] | y # ys \<Rightarrow> (x # y) # ys))"

fun splitn_on :: "char \<Rightarrow> nat \<Rightarrow> string \<Rightarrow> string list" where
  "splitn_on c 0 s = []"
| "splitn_on c (Suc 0) s = [s]"
| "splitn_on c (Suc (Suc n)) s =
     (case dropWhile (\<lambda>x. x \<noteq> c) s of
        [] \<Rightarrow> [s]
      | _ # rest \<Rightarrow> takeWhile (\<lambda>x. x \<noteq> c) s # splitn_on c (Suc n) rest)"

fun join_with :: "string \<Rightarrow> string list \<Rightarrow> string" where
  "join_with sep [] = []"
| "join_with sep [x] = x"
| "join_with sep (x # y # ys) = x @ sep @ join_with sep (y # ys)"

text \<open>\<^verbatim>\<open>strings.Contains\<close> and \<^verbatim>\<open>strings.ContainsRune\<close> (ASCII).\<close>

fun Contains :: "string \<Rightarrow> string \<Rightarrow> bool" where
  "Contains [] sub = (sub = [])"
| "Contains (x # xs) sub = (prefix sub (x # xs) \<or> Contains xs sub)"

definition ContainsByte :: "string \<Rightarrow> char \<Rightarrow> bool" where
  "ContainsByte s c \<longleftrightarrow> c \<in> set s"

text \<open>Cutting a string at the first occurrence of a byte: the part before it, and the rest
  starting with the byte (empty when the byte does not occur).\<close>

definition before_byte :: "char \<Rightarrow> string \<Rightarrow> string" where
  "before_byte c s = takeWhile (\<lambda>x. x \<noteq> c) s"

definition from_byte :: "char \<Rightarrow> string \<Rightarrow> string" where
  "from_byte c s = dropWhile (\<lambda>x. x \<noteq> c) s"

text \<open>The part after the last occurrence of a byte (the whole string when there is none) and the
  part up to and including it.\<close>

definition after_last :: "char \<Rightarrow> string \<Rightarrow> string" where
  "after_last c s = rev (takeWhile (\<lambda>x. x \<noteq> c) (rev s))"

definition upto_last :: "char \<Rightarrow> string \<Rightarrow> string" where
  "upto_last c s = rev (dropWhile (\<lambda>x. x \<noteq> c) (rev s))"

text \<open>\<^verbatim>\<open>strconv.FormatInt(n, 10)\<close> and its digit strings.\<close>

fun nat_digits :: "nat \<Rightarrow> string" where
  "nat_digits n = (if n < 10 then [char_of (48 + n)] else nat_digits (n div 10) @ [char_of (48 + n mod 10)])"

declare nat_digits.simps [simp del]

definition FormatInt :: "int \<Rightarrow> string" where
  "FormatInt i = (if i < 0 then CHR ''-'' # nat_digits (nat (- i)) else nat_digits (nat i))"

text \<open>The value an \<^verbatim>\<open>int64\<close> (an \<^verbatim>\<open>int\<close> on the 64-bit targets) keeps of an exact result.\<close>

definition wrap64 :: "int \<Rightarrow> int" where
  "wrap64 x = (x + 2 ^ 63) mod 2 ^ 64 - 2 ^ 63"

section \<open>Lemmas\<close>

lemma wrap64_id: "- (2 ^ 63) \<le> x \<Longrightarrow> x < 2 ^ 63 \<Longrightarrow> wrap64 x = x"
  by (simp add: wrap64_def)

lemma wrap64_bounds: "- (2 ^ 63) \<le> wrap64 x" "wrap64 x < 2 ^ 63"
  by (simp_all add: wrap64_def)

lemma wrap64_cong: "\<exists>k. wrap64 x = x + k * 2 ^ 64"
proof -
  have "wrap64 x = x + (- ((x + 2 ^ 63) div 2 ^ 64)) * 2 ^ 64"
    using minus_mult_div_eq_mod [of "x + 2 ^ 63" "2 ^ 64"] by (simp add: wrap64_def algebra_simps)
  then show ?thesis by blast
qed

lemma HasPrefix_append [simp]: "HasPrefix (p @ s) p"
  by (simp add: HasPrefix_def)

lemma HasPrefix_Nil [simp]: "HasPrefix s []"
  by (simp add: HasPrefix_def)

lemma HasSuffix_append [simp]: "HasSuffix (s @ p) p"
  by (auto simp: HasSuffix_def suffix_def)

lemma TrimPrefix_append [simp]: "TrimPrefix (p @ s) p = s"
  by (simp add: TrimPrefix_def)

lemma TrimSuffix_append [simp]: "TrimSuffix (s @ p) p = s"
  by (simp add: TrimSuffix_def)

lemma HasPrefix_TrimPrefix: "HasPrefix s p \<Longrightarrow> p @ TrimPrefix s p = s"
  by (auto simp: HasPrefix_def TrimPrefix_def prefix_def)

lemma HasSuffix_TrimSuffix: "HasSuffix s p \<Longrightarrow> TrimSuffix s p @ p = s"
  by (auto simp: HasSuffix_def TrimSuffix_def suffix_def)

lemma TrimPrefix_id_iff: "TrimPrefix s p = s \<longleftrightarrow> p = [] \<or> \<not> HasPrefix s p"
proof (cases "HasPrefix s p")
  case True
  then obtain t where "s = p @ t" by (auto simp: HasPrefix_def prefix_def)
  then show ?thesis by (auto simp: TrimPrefix_def)
next
  case False
  then show ?thesis by (simp add: TrimPrefix_def)
qed

lemma split_on_ne [simp]: "split_on c s \<noteq> []"
  by (induction s) (auto split: list.splits)

lemma join_split [simp]: "join_with [c] (split_on c s) = s"
proof (induction s)
  case Nil
  show ?case by simp
next
  case (Cons x xs)
  obtain y ys where s: "split_on c xs = y # ys" by (cases "split_on c xs") auto
  show ?case
  proof (cases "x = c")
    case True
    with Cons s show ?thesis by simp
  next
    case False
    from Cons s have "join_with [c] (y # ys) = xs" by simp
    with False s show ?thesis by (cases ys) auto
  qed
qed

lemma split_on_no_sep: "z \<in> set (split_on c s) \<Longrightarrow> c \<notin> set z"
proof (induction s arbitrary: z)
  case Nil
  then show ?case by simp
next
  case (Cons x xs)
  obtain y ys where s: "split_on c xs = y # ys" by (cases "split_on c xs") auto
  show ?case using Cons s by (cases "x = c") auto
qed

lemma split_on_append_sep: "c \<notin> set x \<Longrightarrow> split_on c (x @ c # s) = x # split_on c s"
  by (induction x) auto

lemma split_on_append: "split_on c (a @ c # b) = split_on c a @ split_on c b"
proof (induction a)
  case Nil
  show ?case by simp
next
  case (Cons x xs)
  obtain y ys where "split_on c xs = y # ys" by (cases "split_on c xs") auto
  with Cons show ?case by simp
qed

lemma split_on_single: "c \<notin> set x \<Longrightarrow> split_on c x = [x]"
  by (induction x) auto

lemma split_join:
  "xs \<noteq> [] \<Longrightarrow> (\<And>x. x \<in> set xs \<Longrightarrow> c \<notin> set x) \<Longrightarrow> split_on c (join_with [c] xs) = xs"
proof (induction xs rule: induct_list012)
  case 1
  then show ?case by simp
next
  case (2 x)
  then show ?case by (simp add: split_on_single)
next
  case (3 x y zs)
  then show ?case by (simp add: split_on_append_sep)
qed

lemma join_splitn: "0 < n \<Longrightarrow> join_with [c] (splitn_on c n s) = s"
proof (induction c n s rule: splitn_on.induct)
  case (1 c s)
  then show ?case by simp
next
  case (2 c s)
  then show ?case by simp
next
  case (3 c n s)
  show ?case
  proof (cases "dropWhile (\<lambda>x. x \<noteq> c) s")
    case Nil
    then show ?thesis by (simp only: splitn_on.simps list.case join_with.simps)
  next
    case (Cons d rest)
    then have d: "d = c" by (metis (mono_tags) hd_dropWhile list.distinct(1) list.sel(1))
    from 3 Cons have ih: "join_with [c] (splitn_on c (Suc n) rest) = rest" by simp
    have ne: "splitn_on c (Suc n) rest \<noteq> []" by (cases n) (auto split: list.splits)
    then obtain y ys where s: "splitn_on c (Suc n) rest = y # ys" by (cases "splitn_on c (Suc n) rest") auto
    have "takeWhile (\<lambda>x. x \<noteq> c) s @ [c] @ rest = s"
      using Cons d by (metis append_Cons append_Nil takeWhile_dropWhile_id)
    with ih s Cons show ?thesis by simp
  qed
qed

lemma splitn_ne [simp]: "splitn_on c (Suc n) s \<noteq> []"
  by (cases n) (auto split: list.splits)

lemma length_splitn_le: "length (splitn_on c n s) \<le> n"
proof (induction c n s rule: splitn_on.induct)
  case (3 c n s)
  then show ?case by (auto split: list.split)
qed auto

lemma splitn_on_sep:
  assumes "c \<notin> set x" "0 < n"
  shows "splitn_on c (Suc n) (x @ c # s) = x # splitn_on c n s"
proof -
  have "dropWhile (\<lambda>y. y \<noteq> c) (x @ c # s) = c # s" "takeWhile (\<lambda>y. y \<noteq> c) (x @ c # s) = x"
    using assms(1) by (induction x) auto
  then show ?thesis using assms(2) by (cases n) simp_all
qed

lemma splitn_on_join:
  assumes "xs \<noteq> []" "\<forall>x \<in> set xs. c \<notin> set x" "0 < n"
  shows "splitn_on c (length xs + n) (join_with [c] xs @ c # s) = xs @ splitn_on c n s"
  using assms
proof (induction xs rule: induct_list012)
  case (2 x)
  then show ?case using splitn_on_sep [of c x n s] by simp
next
  case (3 x y zs)
  have "join_with [c] (x # y # zs) @ c # s = x @ c # (join_with [c] (y # zs) @ c # s)" by simp
  then have "splitn_on c (length (x # y # zs) + n) (join_with [c] (x # y # zs) @ c # s) =
      x # splitn_on c (length (y # zs) + n) (join_with [c] (y # zs) @ c # s)"
    using 3 splitn_on_sep [of c x "length (y # zs) + n" "join_with [c] (y # zs) @ c # s"] by simp
  then show ?case using 3 by simp
qed simp

lemma splitn_on_all: "length (split_on c s) \<le> n \<Longrightarrow> splitn_on c n s = split_on c s"
proof (induction c n s rule: splitn_on.induct)
  case (1 c s)
  then show ?case by simp
next
  case (2 c s)
  have "c \<notin> set s"
  proof
    assume "c \<in> set s"
    then obtain a b where "s = a @ c # b" by (meson split_list)
    then have l: "length (split_on c s) = length (split_on c a) + length (split_on c b)" by (simp add: split_on_append)
    have "split_on c a \<noteq> []" "split_on c b \<noteq> []" by simp_all
    then have "0 < length (split_on c a)" "0 < length (split_on c b)" unfolding length_greater_0_conv .
    with l 2 show False by linarith
  qed
  then show ?case by (simp add: split_on_single)
next
  case (3 c n s)
  show ?case
  proof (cases "c \<in> set s")
    case False
    then have "dropWhile (\<lambda>x. x \<noteq> c) s = []" by (auto simp: dropWhile_eq_Nil_conv)
    then show ?thesis by (simp only: splitn_on.simps list.case split_on_single [OF False])
  next
    case True
    then obtain rest where r: "dropWhile (\<lambda>x. x \<noteq> c) s = c # rest"
      by (metis (mono_tags, lifting) dropWhile_eq_Nil_conv hd_dropWhile list.collapse)
    then have s: "s = takeWhile (\<lambda>x. x \<noteq> c) s @ c # rest" by (metis takeWhile_dropWhile_id)
    have "c \<notin> set (takeWhile (\<lambda>x. x \<noteq> c) s)" by (auto dest: set_takeWhileD)
    then have sp: "split_on c s = takeWhile (\<lambda>x. x \<noteq> c) s # split_on c rest"
      using split_on_append_sep s by metis
    then show ?thesis using 3 r by simp
  qed
qed

lemma join_with_eq_Nil_iff: "join_with [c] xs = [] \<longleftrightarrow> xs = [] \<or> xs = [[]]"
  by (cases xs rule: remdups_adj.cases) auto

lemma join_with_append:
  "xs \<noteq> [] \<Longrightarrow> ys \<noteq> [] \<Longrightarrow> join_with s (xs @ ys) = join_with s xs @ s @ join_with s ys"
proof (induction xs rule: induct_list012)
  case (2 x)
  then show ?case by (cases ys) auto
qed auto

lemma lower_char_idem [simp]: "lower_char (lower_char c) = lower_char c"
  by (auto simp: lower_char_def Let_def)

lemma ToLower_idem [simp]: "ToLower (ToLower s) = ToLower s"
  by (simp add: ToLower_def comp_def)

lemma ToLower_append [simp]: "ToLower (s @ t) = ToLower s @ ToLower t"
  by (simp add: ToLower_def)

lemma length_ToLower [simp]: "length (ToLower s) = length s"
  by (simp add: ToLower_def)

lemma ToLower_Nil_iff [simp]: "ToLower s = [] \<longleftrightarrow> s = []"
  by (simp add: ToLower_def)

lemma HasSuffix_iff: "HasSuffix s p \<longleftrightarrow> (\<exists>t. s = t @ p)"
  by (simp add: HasSuffix_def suffix_def)

lemma HasPrefix_iff: "HasPrefix s p \<longleftrightarrow> (\<exists>t. s = p @ t)"
  by (simp add: HasPrefix_def prefix_def)

lemma before_from_byte [simp]: "before_byte c s @ from_byte c s = s"
  by (simp add: before_byte_def from_byte_def)

lemma from_byte_cases: "from_byte c s = [] \<or> (\<exists>t. from_byte c s = c # t)"
  by (induction s) (simp_all add: from_byte_def)

lemma upto_after_last [simp]: "upto_last c s @ after_last c s = s"
  by (metis after_last_def upto_last_def rev_append rev_rev_ident takeWhile_dropWhile_id)

lemma after_last_no: "c \<notin> set (after_last c s)"
  by (auto simp: after_last_def dest: set_takeWhileD)

lemma last_upto_last: "c \<in> set s \<Longrightarrow> upto_last c s = butlast (upto_last c s) @ [c]"
proof -
  assume c: "c \<in> set s"
  have "dropWhile (\<lambda>x. x \<noteq> c) (rev s) \<noteq> []" using c by simp
  then obtain y ys where d: "dropWhile (\<lambda>x. x \<noteq> c) (rev s) = y # ys" by (cases "dropWhile (\<lambda>x. x \<noteq> c) (rev s)") auto
  then have "y = c" using hd_dropWhile [of "\<lambda>x. x \<noteq> c" "rev s"] by simp
  with d show ?thesis by (simp add: upto_last_def)
qed

lemma split_at_last: "c \<in> set s \<Longrightarrow> s = butlast (upto_last c s) @ [c] @ after_last c s"
  by (metis append_assoc last_upto_last upto_after_last)

lemma after_last_app: "c \<notin> set p \<Longrightarrow> after_last c (h @ c # p) = p"
  by (simp add: after_last_def takeWhile_append)

lemma upto_last_app: "c \<notin> set p \<Longrightarrow> upto_last c (h @ c # p) = h @ [c]"
  by (simp add: upto_last_def dropWhile_append)

lemma Contains_iff: "Contains s sub \<longleftrightarrow> (\<exists>a b. s = a @ sub @ b)"
proof (induction s)
  case Nil
  then show ?case by auto
next
  case (Cons x xs)
  show ?case
  proof
    assume "Contains (x # xs) sub"
    then consider "prefix sub (x # xs)" | "Contains xs sub" by auto
    then show "\<exists>a b. x # xs = a @ sub @ b"
    proof cases
      case 1
      then show ?thesis by (metis append_Nil prefix_def)
    next
      case 2
      with Cons show ?thesis by (metis append_Cons)
    qed
  next
    assume "\<exists>a b. x # xs = a @ sub @ b"
    then obtain a b where ab: "x # xs = a @ sub @ b" by blast
    then show "Contains (x # xs) sub"
    proof (cases a)
      case Nil
      with ab show ?thesis by (metis Contains.simps(2) append_Nil prefixI)
    next
      case (Cons y ys)
      with ab have "xs = ys @ sub @ b" by simp
      with Cons.IH show ?thesis by auto
    qed
  qed
qed

end
