(* ===== verification/Go_Path.thy ===== *)
theory Go_Path
  imports Pages_Prelude
begin

text \<open>
  The functions of Go's packages \<^verbatim>\<open>path\<close> and \<^verbatim>\<open>path/filepath\<close> (Unix) that the daemon
  uses: \<^verbatim>\<open>Clean\<close>, \<^verbatim>\<open>Join\<close>, \<^verbatim>\<open>Split\<close>, \<^verbatim>\<open>Base\<close>, \<^verbatim>\<open>Dir\<close>, \<^verbatim>\<open>Ext\<close>,
  \<^verbatim>\<open>IsAbs\<close>, \<^verbatim>\<open>Abs\<close> and \<^verbatim>\<open>Rel\<close>, with the facts about cleaned paths the
  containment properties rest on.
\<close>

section \<open>Definitions\<close>

text \<open>One element of a path is read by \<^verbatim>\<open>Clean\<close>; the elements kept so far are a stack,
  the last one first.\<close>

definition clean_step :: "bool \<Rightarrow> string list \<Rightarrow> string \<Rightarrow> string list" where
  "clean_step rooted st c =
     (if c = [] \<or> c = ''.'' then st
      else if c = ''..'' then
        (case st of
           [] \<Rightarrow> (if rooted then [] else [''..''])
         | hd_st # rest \<Rightarrow> (if hd_st = ''..'' then ''..'' # st else rest))
      else c # st)"

definition clean_elems :: "bool \<Rightarrow> string list \<Rightarrow> string list" where
  "clean_elems rooted cs = rev (foldl (clean_step rooted) [] cs)"

definition path_IsAbs :: "string \<Rightarrow> bool" where
  "path_IsAbs p \<longleftrightarrow> HasPrefix p ''/''"

definition path_Clean :: "string \<Rightarrow> string" where
  "path_Clean p =
     (if p = [] then ''.''
      else let body = join_with ''/'' (clean_elems (path_IsAbs p) (split_on slash p))
           in if path_IsAbs p then slash # body else if body = [] then ''.'' else body)"

definition path_Join :: "string list \<Rightarrow> string" where
  "path_Join elems =
     (case dropWhile (\<lambda>e. e = []) elems of [] \<Rightarrow> [] | es \<Rightarrow> path_Clean (join_with ''/'' es))"

definition path_Split :: "string \<Rightarrow> string \<times> string" where
  "path_Split p = (upto_last slash p, after_last slash p)"

definition path_Base :: "string \<Rightarrow> string" where
  "path_Base p =
     (if p = [] then ''.''
      else let q = TrimRight p ''/'' in if q = [] then ''/'' else after_last slash q)"

definition filepath_Dir :: "string \<Rightarrow> string" where
  "filepath_Dir p = path_Clean (upto_last slash p)"

text \<open>\<^verbatim>\<open>filepath.Ext\<close>: from the last dot of the last element.\<close>

definition filepath_Ext :: "string \<Rightarrow> string" where
  "filepath_Ext p =
     (let b = after_last slash p
      in if dot \<in> set b then dot # after_last dot b else [])"

text \<open>\<^verbatim>\<open>filepath.Abs\<close> with the working directory of the process.\<close>

definition filepath_Abs :: "string \<Rightarrow> string \<Rightarrow> string" where
  "filepath_Abs cwd p = (if path_IsAbs p then path_Clean p else path_Join [cwd, p])"

definition path_elems :: "string \<Rightarrow> string list" where
  "path_elems p = filter (\<lambda>e. e \<noteq> []) (split_on slash p)"

fun drop_common :: "string list \<Rightarrow> string list \<Rightarrow> string list \<times> string list" where
  "drop_common (x # xs) (y # ys) = (if x = y then drop_common xs ys else (x # xs, y # ys))"
| "drop_common xs ys = (xs, ys)"

definition filepath_Rel :: "string \<Rightarrow> string \<Rightarrow> string option" where
  "filepath_Rel basepath targpath =
     (let base = path_Clean basepath; targ = path_Clean targpath
      in if targ = base then Some ''.''
         else let base = (if base = ''.'' then [] else base)
         in if path_IsAbs base \<noteq> path_IsAbs targ then None
         else let (bs, ts) = drop_common (path_elems base) (path_elems targ)
         in if bs \<noteq> [] \<and> hd bs = ''..'' then None
         else Some (join_with ''/'' (map (\<lambda>_. ''..'') bs @ ts)))"

section \<open>Cleaned paths\<close>

definition clean_elem :: "string \<Rightarrow> bool" where
  "clean_elem c \<longleftrightarrow> c \<noteq> [] \<and> c \<noteq> ''.'' \<and> c \<noteq> ''..'' \<and> slash \<notin> set c"

lemma clean_step_rooted:
  "list_all clean_elem st \<Longrightarrow> slash \<notin> set c \<Longrightarrow> list_all clean_elem (clean_step True st c)"
  by (cases st) (auto simp: clean_step_def clean_elem_def)

lemma foldl_clean_rooted:
  "list_all clean_elem st \<Longrightarrow> (\<And>c. c \<in> set cs \<Longrightarrow> slash \<notin> set c) \<Longrightarrow>
     list_all clean_elem (foldl (clean_step True) st cs)"
  by (induction cs arbitrary: st) (auto simp: clean_step_rooted)

lemma clean_elems_rooted:
  assumes "\<And>c. c \<in> set cs \<Longrightarrow> slash \<notin> set c"
  shows "list_all clean_elem (clean_elems True cs)"
proof -
  have "list_all clean_elem (foldl (clean_step True) [] cs)"
    by (rule foldl_clean_rooted) (auto simp: assms)
  then show ?thesis by (simp add: clean_elems_def list_all_iff)
qed

lemma foldl_clean_id:
  "list_all clean_elem cs \<Longrightarrow> foldl (clean_step b) st cs = rev cs @ st"
  by (induction cs arbitrary: st) (auto simp: clean_step_def clean_elem_def)

lemma clean_elems_id [simp]: "list_all clean_elem cs \<Longrightarrow> clean_elems b cs = cs"
  by (simp add: clean_elems_def foldl_clean_id)

lemma clean_elems_skip [simp]: "clean_elems b ([] # cs) = clean_elems b cs"
  by (simp add: clean_elems_def clean_step_def)

lemma split_slash_no: "c \<in> set (split_on slash p) \<Longrightarrow> slash \<notin> set c"
  by (rule split_on_no_sep)

text \<open>A rooted path cleans to a slash followed by proper elements: no empty element, no dot, no
  dot-dot.\<close>

lemma path_Clean_rooted:
  assumes "path_IsAbs p"
  shows "\<exists>cs. list_all clean_elem cs \<and> path_Clean p = slash # join_with ''/'' cs"
proof -
  let ?cs = "clean_elems True (split_on slash p)"
  have "list_all clean_elem ?cs" by (rule clean_elems_rooted) (rule split_slash_no)
  moreover have "path_Clean p = slash # join_with ''/'' ?cs"
    using assms by (auto simp: path_Clean_def path_IsAbs_def HasPrefix_def Let_def)
  ultimately show ?thesis by blast
qed

lemma split_clean_elems:
  assumes "list_all clean_elem cs"
  shows "split_on slash (join_with ''/'' cs) = (if cs = [] then [[]] else cs)"
proof (cases "cs = []")
  case False
  have "split_on slash (join_with ''/'' cs) = cs"
    using assms by (intro split_join [OF False]) (auto simp: list_all_iff clean_elem_def)
  with False show ?thesis by simp
qed simp

lemma path_Clean_of_elems:
  assumes "list_all clean_elem cs"
  shows "path_Clean (slash # join_with ''/'' cs) = slash # join_with ''/'' cs"
  using assms split_clean_elems [OF assms]
  by (auto simp: path_Clean_def path_IsAbs_def HasPrefix_def Let_def clean_elems_def clean_step_def
        foldl_clean_id)

lemma path_Clean_idem_rooted: "path_IsAbs p \<Longrightarrow> path_Clean (path_Clean p) = path_Clean p"
  using path_Clean_rooted path_Clean_of_elems by metis

lemma path_Clean_IsAbs: "path_IsAbs p \<Longrightarrow> path_IsAbs (path_Clean p)"
  using path_Clean_rooted by (fastforce simp: path_IsAbs_def HasPrefix_def)

lemma IsAbs_Cons [simp]: "path_IsAbs (slash # p)"
  by (simp add: path_IsAbs_def HasPrefix_def)

lemma IsAbs_ne: "path_IsAbs p \<Longrightarrow> p \<noteq> []"
  by (auto simp: path_IsAbs_def HasPrefix_def)

lemma path_elems_of_elems:
  assumes "list_all clean_elem cs"
  shows "path_elems (slash # join_with ''/'' cs) = cs"
proof -
  have f: "filter (\<lambda>e. e \<noteq> []) cs = cs"
    using assms by (induction cs) (auto simp: clean_elem_def)
  show ?thesis using split_clean_elems [OF assms] f by (simp add: path_elems_def)
qed

text \<open>Joining a rooted directory with anything stays rooted and cleaned.\<close>

lemma path_Join_rooted:
  assumes "path_IsAbs r"
  shows "path_Join [r, p] = path_Clean (r @ ''/'' @ p)"
proof -
  from assms have "r \<noteq> []" by (rule IsAbs_ne)
  then show ?thesis by (simp add: path_Join_def)
qed

lemma IsAbs_append: "path_IsAbs r \<Longrightarrow> path_IsAbs (r @ s)"
  by (auto simp: path_IsAbs_def HasPrefix_def)

lemma path_Join_clean:
  assumes "path_IsAbs r"
  shows "\<exists>cs. list_all clean_elem cs \<and> path_Join [r, p] = slash # join_with ''/'' cs"
  using path_Clean_rooted [OF IsAbs_append [OF assms]] by (simp add: path_Join_rooted [OF assms])

text \<open>The elements of a join: those of the cleaned directory, then those of the second path read
  on top of them.\<close>

lemma clean_elems_append:
  "clean_elems b (xs @ ys) = rev (foldl (clean_step b) (rev (clean_elems b xs)) ys)"
  by (simp add: clean_elems_def)

lemma path_Join_elems:
  assumes "list_all clean_elem rs"
  shows "path_Join [slash # join_with ''/'' rs, p] =
           slash # join_with ''/'' (rev (foldl (clean_step True) (rev rs) (split_on slash p)))"
proof -
  let ?r = "slash # join_with ''/'' rs"
  have r: "clean_elems True (split_on slash ?r) = rs"
    using assms split_clean_elems [OF assms] by (simp add: clean_elems_def clean_step_def foldl_clean_id)
  have "split_on slash (?r @ slash # p) = split_on slash ?r @ split_on slash p"
    by (rule split_on_append)
  then have "clean_elems True (split_on slash (?r @ slash # p)) =
      rev (foldl (clean_step True) (rev rs) (split_on slash p))"
    using r by (simp only: clean_elems_append)
  then show ?thesis
    by (simp add: path_Join_rooted path_Clean_def IsAbs_append)
qed

text \<open>Reading elements that are all proper appends them.\<close>

lemma path_Join_proper:
  assumes "list_all clean_elem rs" and "list_all clean_elem ps"
  shows "path_Join [slash # join_with ''/'' rs, join_with ''/'' ps] = slash # join_with ''/'' (rs @ ps)"
proof (cases "ps = []")
  case True
  with assms path_Join_elems [of rs "[]"] show ?thesis by (simp add: clean_step_def)
next
  case False
  with assms path_Join_elems [of rs "join_with ''/'' ps"] split_clean_elems [OF assms(2)]
  show ?thesis by (simp add: foldl_clean_id)
qed

lemma clean_elems_inj:
  "list_all clean_elem xs \<Longrightarrow> list_all clean_elem ys \<Longrightarrow>
     join_with ''/'' xs = join_with ''/'' ys \<Longrightarrow> xs = ys"
  using path_elems_of_elems by metis

text \<open>A relative path made of proper elements is cleaned already.\<close>

lemma not_IsAbs_elems: "list_all clean_elem cs \<Longrightarrow> \<not> path_IsAbs (join_with ''/'' cs)"
proof (cases cs)
  case Nil
  then show ?thesis by (simp add: path_IsAbs_def HasPrefix_def)
next
  case (Cons e es)
  assume "list_all clean_elem cs"
  with Cons have ce: "e \<noteq> []" "slash \<notin> set e" by (auto simp: clean_elem_def)
  then have "e \<noteq> []" and "hd e \<noteq> slash" by (auto dest: hd_in_set)
  then have "hd (join_with ''/'' cs) \<noteq> slash" using Cons by (cases es) auto
  then show ?thesis by (auto simp: path_IsAbs_def HasPrefix_def prefix_def)
qed

lemma join_elems_ne: "list_all clean_elem cs \<Longrightarrow> cs \<noteq> [] \<Longrightarrow> join_with ''/'' cs \<noteq> []"
  by (auto simp: join_with_eq_Nil_iff clean_elem_def)

lemma path_Clean_relative_elems:
  assumes "list_all clean_elem cs" and "cs \<noteq> []"
  shows "path_Clean (join_with ''/'' cs) = join_with ''/'' cs"
  using assms split_clean_elems [OF assms(1)] not_IsAbs_elems [OF assms(1)] join_elems_ne [OF assms]
  by (simp add: path_Clean_def)

text \<open>\<^verbatim>\<open>filepath.Rel\<close> on cleaned rooted paths: joining the result to the base gives the target.\<close>

lemma drop_common_spec:
  "drop_common xs ys = (bs, ts) \<Longrightarrow> \<exists>zs. xs = zs @ bs \<and> ys = zs @ ts"
proof (induction xs ys arbitrary: bs ts rule: drop_common.induct)
  case (1 x xs y ys)
  show ?case
  proof (cases "x = y")
    case True
    with 1 obtain zs where "xs = zs @ bs \<and> ys = zs @ ts" by auto
    with True show ?thesis by (metis append_Cons)
  next
    case False
    with 1 show ?thesis by auto
  qed
qed auto

lemma foldl_dotdots:
  "list_all clean_elem bs \<Longrightarrow> foldl (clean_step True) (rev bs @ st) (map (\<lambda>_. ''..'') bs) = st"
proof (induction bs arbitrary: st rule: rev_induct)
  case Nil
  then show ?case by simp
next
  case (snoc b bs)
  then have "b \<noteq> ''..''" by (simp add: clean_elem_def)
  then have "clean_step True (rev (bs @ [b]) @ st) ''..'' = rev bs @ st"
    by (simp add: clean_step_def)
  moreover have "map (\<lambda>_. ''..'') (bs @ [b]) = ''..'' # map (\<lambda>_. ''..'') bs"
    by (induction bs) auto
  ultimately show ?case using snoc by (simp del: rev_append map_append)
qed

lemma split_join_elems:
  "(\<And>x. x \<in> set cs \<Longrightarrow> slash \<notin> set x) \<Longrightarrow> cs \<noteq> [] \<Longrightarrow> split_on slash (join_with ''/'' cs) = cs"
  by (rule split_join)

lemma filepath_Rel_join:
  assumes b: "list_all clean_elem bs" and t: "list_all clean_elem ts"
  shows "\<exists>rel. filepath_Rel (slash # join_with ''/'' bs) (slash # join_with ''/'' ts) = Some rel \<and>
           path_Join [slash # join_with ''/'' bs, rel] = slash # join_with ''/'' ts"
proof (cases "bs = ts")
  case True
  have "path_Join [slash # join_with ''/'' bs, ''.''] = slash # join_with ''/'' bs"
    using path_Join_elems [OF b, of "''.''"] by (simp add: clean_step_def)
  with True b show ?thesis by (simp add: filepath_Rel_def path_Clean_of_elems)
next
  case False
  obtain bs' ts' where d: "drop_common bs ts = (bs', ts')" by fastforce
  then obtain zs where z: "bs = zs @ bs'" "ts = zs @ ts'" using drop_common_spec by blast
  have ne: "join_with ''/'' ts \<noteq> join_with ''/'' bs" using False clean_elems_inj [OF b t] by metis
  have nodd: "\<not> (bs' \<noteq> [] \<and> hd bs' = ''..'')" using b z by (cases bs') (auto simp: clean_elem_def)
  let ?rel = "map (\<lambda>_. ''..'') bs' @ ts'"
  have rel: "filepath_Rel (slash # join_with ''/'' bs) (slash # join_with ''/'' ts) = Some (join_with ''/'' ?rel)"
    using ne d nodd path_elems_of_elems [OF b] path_elems_of_elems [OF t]
    by (simp add: filepath_Rel_def path_Clean_of_elems b t)
  have rne: "?rel \<noteq> []" using False z by auto
  have "split_on slash (join_with ''/'' ?rel) = ?rel"
  proof (rule split_join_elems [OF _ rne])
    fix x assume "x \<in> set ?rel"
    then have "x = ''..'' \<or> clean_elem x" using t z by (auto simp: list_all_iff)
    then show "slash \<notin> set x" by (auto simp: clean_elem_def)
  qed
  moreover have "foldl (clean_step True) (rev bs) ?rel = rev ts"
    using b t z foldl_dotdots [of bs' "rev zs"] by (simp add: foldl_clean_id)
  ultimately have "path_Join [slash # join_with ''/'' bs, join_with ''/'' ?rel] = slash # join_with ''/'' ts"
    using path_Join_elems [OF b] by simp
  with rel show ?thesis by blast
qed

end
