(* ===== verification/Go_Url.thy ===== *)
theory Go_Url
  imports Go_Path
begin

text \<open>
  Go's package \<^verbatim>\<open>net/url\<close> (Go 1.13, the version of the build): the \<^verbatim>\<open>URL\<close> structure,
  percent-encoding, \<^verbatim>\<open>Parse\<close>, \<^verbatim>\<open>String\<close> and the query values.  Parse errors carry no
  information the daemon uses, so a failed parse is \<^const>\<open>None\<close>.
\<close>

section \<open>Percent encoding\<close>

datatype encoding = encodePath | encodePathSegment | encodeHost | encodeZone
  | encodeUserPassword | encodeQueryComponent | encodeFragment

definition byte :: "char \<Rightarrow> nat" where
  "byte c = of_char c"

definition is_alpha :: "char \<Rightarrow> bool" where
  "is_alpha c \<longleftrightarrow> (97 \<le> byte c \<and> byte c \<le> 122) \<or> (65 \<le> byte c \<and> byte c \<le> 90)"

definition is_digit :: "char \<Rightarrow> bool" where
  "is_digit c \<longleftrightarrow> 48 \<le> byte c \<and> byte c \<le> 57"

definition shouldEscape :: "encoding \<Rightarrow> char \<Rightarrow> bool" where
  "shouldEscape mode c =
     (if is_alpha c \<or> is_digit c then False
      else if (mode = encodeHost \<or> mode = encodeZone) \<and> c \<in> set ''!$&'' \<union> {CHR 0x27} \<union> set ''()*+,;=:[]<>'' \<union> {CHR 0x22}
        then False
      else if c \<in> set ''-_.~'' then False
      else if c \<in> set ''$&+,/:;=?@'' then
        (case mode of
           encodePath \<Rightarrow> c = CHR ''?''
         | encodePathSegment \<Rightarrow> c \<in> set ''/;,?''
         | encodeUserPassword \<Rightarrow> c \<in> set ''@/?:''
         | encodeQueryComponent \<Rightarrow> True
         | encodeFragment \<Rightarrow> False
         | encodeHost \<Rightarrow> True
         | encodeZone \<Rightarrow> True)
      else if mode = encodeFragment \<and> c \<in> set ''!()*'' then False
      else True)"

definition hex_digit :: "nat \<Rightarrow> char" where
  "hex_digit n = (if n < 10 then char_of (48 + n) else char_of (55 + n))"

definition escape_byte :: "encoding \<Rightarrow> char \<Rightarrow> string" where
  "escape_byte mode c =
     (if c = CHR '' '' \<and> mode = encodeQueryComponent then ''+''
      else if shouldEscape mode c then [CHR ''%'', hex_digit (byte c div 16), hex_digit (byte c mod 16)]
      else [c])"

definition url_escape :: "encoding \<Rightarrow> string \<Rightarrow> string" where
  "url_escape mode s = concat (map (escape_byte mode) s)"

definition unhex :: "char \<Rightarrow> nat option" where
  "unhex c =
     (if is_digit c then Some (byte c - 48)
      else if 97 \<le> byte c \<and> byte c \<le> 102 then Some (byte c - 87)
      else if 65 \<le> byte c \<and> byte c \<le> 70 then Some (byte c - 55)
      else None)"

definition unescape_hex :: "encoding \<Rightarrow> char \<Rightarrow> char \<Rightarrow> char option" where
  "unescape_hex mode a b =
     (case (unhex a, unhex b) of
        (Some h, Some l) \<Rightarrow>
          (let v = 16 * h + l
           in if mode = encodeHost \<and> h < 8 \<and> v \<noteq> 37 then None
              else if mode = encodeZone \<and> v \<noteq> 37 \<and> v \<noteq> 32 \<and> shouldEscape encodeHost (char_of v) then None
              else Some (char_of v))
      | _ \<Rightarrow> None)"

fun url_unescape :: "encoding \<Rightarrow> string \<Rightarrow> string option" where
  "url_unescape mode [] = Some []"
| "url_unescape mode (c # cs) =
     (if c = CHR ''%'' then
        (case cs of
           a # b # rest \<Rightarrow>
             (case unescape_hex mode a b of
                None \<Rightarrow> None
              | Some v \<Rightarrow> map_option (Cons v) (url_unescape mode rest))
         | _ \<Rightarrow> None)
      else if c = CHR ''+'' \<and> mode = encodeQueryComponent then map_option (Cons (CHR '' '')) (url_unescape mode cs)
      else if (mode = encodeHost \<or> mode = encodeZone) \<and> byte c < 128 \<and> shouldEscape mode c then None
      else map_option (Cons c) (url_unescape mode cs))"

section \<open>The URL structure\<close>

record url =
  u_Scheme :: string
  u_Opaque :: string
  u_User :: "(string \<times> string option) option"
  u_Host :: string
  u_Path :: string
  u_RawPath :: string
  u_ForceQuery :: bool
  u_RawQuery :: string
  u_Fragment :: string

definition empty_url :: url where
  "empty_url = \<lparr>u_Scheme = [], u_Opaque = [], u_User = None, u_Host = [], u_Path = [], u_RawPath = [],
     u_ForceQuery = False, u_RawQuery = [], u_Fragment = []\<rparr>"

text \<open>\<^verbatim>\<open>getscheme\<close>: the scheme and the rest, \<^const>\<open>None\<close> for a missing scheme before a
  colon.\<close>

fun getscheme_from :: "string \<Rightarrow> string \<Rightarrow> string \<Rightarrow> (string \<times> string) option" where
  "getscheme_from raw acc [] = Some ([], raw)"
| "getscheme_from raw acc (c # cs) =
     (if is_alpha c then getscheme_from raw (acc @ [c]) cs
      else if is_digit c \<or> c \<in> set ''+-.'' then
        (if acc = [] then Some ([], raw) else getscheme_from raw (acc @ [c]) cs)
      else if c = colon then (if acc = [] then None else Some (acc, cs))
      else Some ([], raw))"

definition getscheme :: "string \<Rightarrow> (string \<times> string) option" where
  "getscheme raw = getscheme_from raw [] raw"

definition setPath :: "url \<Rightarrow> string \<Rightarrow> url option" where
  "setPath u p =
     (case url_unescape encodePath p of
        None \<Rightarrow> None
      | Some q \<Rightarrow> Some (u\<lparr>u_Path := q, u_RawPath := (if url_escape encodePath q = p then [] else p)\<rparr>))"

definition validOptionalPort :: "string \<Rightarrow> bool" where
  "validOptionalPort p \<longleftrightarrow> p = [] \<or> (hd p = colon \<and> list_all is_digit (tl p))"

definition index_of_sub :: "string \<Rightarrow> string \<Rightarrow> nat option" where
  "index_of_sub s sub = find (\<lambda>i. prefix sub (drop i s)) [0..<Suc (length s)]"

definition parseHost :: "string \<Rightarrow> string option" where
  "parseHost host =
     (if HasPrefix host ''['' then
        (if CHR '']'' \<notin> set host then None
         else let inside = butlast (upto_last (CHR '']'') host); tail = CHR '']'' # after_last (CHR '']'') host
         in if \<not> validOptionalPort (tl tail) then None
         else (case index_of_sub inside ''%25'' of
                 Some zone \<Rightarrow>
                   (case (url_unescape encodeHost (take zone inside), url_unescape encodeZone (drop zone inside),
                          url_unescape encodeHost tail) of
                      (Some a, Some b, Some c) \<Rightarrow> Some (a @ b @ c)
                    | _ \<Rightarrow> None)
               | None \<Rightarrow> url_unescape encodeHost host))
      else if colon \<in> set host \<and> \<not> validOptionalPort (colon # after_last colon host) then None
      else url_unescape encodeHost host)"

definition validUserinfo :: "string \<Rightarrow> bool" where
  "validUserinfo s \<longleftrightarrow> list_all (\<lambda>c. is_alpha c \<or> is_digit c \<or> c \<in> set ''-._:~!$&'' \<union> {CHR 0x27} \<union> set ''()*+,;=%@'') s"

definition parseAuthority :: "string \<Rightarrow> ((string \<times> string option) option \<times> string) option" where
  "parseAuthority authority =
     (if CHR ''@'' \<notin> set authority then map_option (\<lambda>h. (None, h)) (parseHost authority)
      else (case parseHost (after_last (CHR ''@'') authority) of
              None \<Rightarrow> None
            | Some host \<Rightarrow>
                (let userinfo = butlast (upto_last (CHR ''@'') authority)
                 in if \<not> validUserinfo userinfo then None
                    else if colon \<notin> set userinfo then
                      map_option (\<lambda>n. (Some (n, None), host)) (url_unescape encodeUserPassword userinfo)
                    else (case (url_unescape encodeUserPassword (before_byte colon userinfo),
                                url_unescape encodeUserPassword (tl (from_byte colon userinfo))) of
                            (Some n, Some p) \<Rightarrow> Some (Some (n, Some p), host)
                          | _ \<Rightarrow> None))))"

definition parse_rest :: "url \<Rightarrow> string \<Rightarrow> url option" where
  "parse_rest u rest =
     (if \<not> HasPrefix rest ''/'' \<and> u_Scheme u \<noteq> [] then Some (u\<lparr>u_Opaque := rest\<rparr>)
      else if \<not> HasPrefix rest ''/'' \<and> colon \<in> set rest \<and> slash \<notin> set (before_byte colon rest) then None
      else if (u_Scheme u \<noteq> [] \<or> \<not> HasPrefix rest ''///'') \<and> HasPrefix rest ''//'' then
        (case parseAuthority (before_byte slash (drop 2 rest)) of
           None \<Rightarrow> None
         | Some (usr, host) \<Rightarrow> setPath (u\<lparr>u_User := usr, u_Host := host\<rparr>) (from_byte slash (drop 2 rest)))
      else setPath u rest)"

definition is_ctl :: "char \<Rightarrow> bool" where
  "is_ctl c \<longleftrightarrow> byte c < 32 \<or> byte c = 127"

definition url_parse_nofrag :: "string \<Rightarrow> url option" where
  "url_parse_nofrag raw =
     (if list_ex is_ctl raw then None
      else if raw = ''*'' then Some (empty_url\<lparr>u_Path := ''*''\<rparr>)
      else (case getscheme raw of
              None \<Rightarrow> None
            | Some (scheme, rest) \<Rightarrow>
                (let u = empty_url\<lparr>u_Scheme := ToLower scheme\<rparr>
                 in if HasSuffix rest ''?'' \<and> CHR ''?'' \<notin> set (butlast rest)
                    then parse_rest (u\<lparr>u_ForceQuery := True\<rparr>) (butlast rest)
                    else parse_rest (u\<lparr>u_RawQuery := tl (from_byte (CHR ''?'') rest)\<rparr>) (before_byte (CHR ''?'') rest))))"

definition url_Parse :: "string \<Rightarrow> url option" where
  "url_Parse raw =
     (case url_parse_nofrag (before_byte (CHR ''#'') raw) of
        None \<Rightarrow> None
      | Some u \<Rightarrow>
          (let frag = tl (from_byte (CHR ''#'') raw)
           in if frag = [] then Some u
              else map_option (\<lambda>f. u\<lparr>u_Fragment := f\<rparr>) (url_unescape encodeFragment frag)))"

definition validEncodedPath :: "string \<Rightarrow> bool" where
  "validEncodedPath s \<longleftrightarrow>
     list_all (\<lambda>c. c \<in> set ''!$&'' \<union> {CHR 0x27} \<union> set ''()*+,;=:@[]%'' \<or> \<not> shouldEscape encodePath c) s"

definition EscapedPath :: "url \<Rightarrow> string" where
  "EscapedPath u =
     (if u_RawPath u \<noteq> [] \<and> validEncodedPath (u_RawPath u) \<and> url_unescape encodePath (u_RawPath u) = Some (u_Path u)
      then u_RawPath u
      else if u_Path u = ''*'' then ''*''
      else url_escape encodePath (u_Path u))"

definition userinfo_String :: "string \<times> string option \<Rightarrow> string" where
  "userinfo_String ui =
     (case ui of (n, None) \<Rightarrow> url_escape encodeUserPassword n
      | (n, Some p) \<Rightarrow> url_escape encodeUserPassword n @ '':'' @ url_escape encodeUserPassword p)"

definition url_authority :: "url \<Rightarrow> string" where
  "url_authority u =
     (if u_Scheme u \<noteq> [] \<or> u_Host u \<noteq> [] \<or> u_User u \<noteq> None then
        (if u_Host u \<noteq> [] \<or> u_Path u \<noteq> [] \<or> u_User u \<noteq> None then ''//'' else [])
        @ (case u_User u of None \<Rightarrow> [] | Some ui \<Rightarrow> userinfo_String ui @ ''@'')
        @ url_escape encodeHost (u_Host u)
      else [])"

definition url_String :: "url \<Rightarrow> string" where
  "url_String u =
     (let buf = (if u_Scheme u \<noteq> [] then u_Scheme u @ '':'' else [])
      in (if u_Opaque u \<noteq> [] then buf @ u_Opaque u
          else let path = EscapedPath u;
                   buf2 = buf @ url_authority u @ (if path \<noteq> [] \<and> hd path \<noteq> slash \<and> u_Host u \<noteq> [] then ''/'' else [])
               in buf2
                  @ (if buf2 = [] \<and> colon \<in> set path \<and> slash \<notin> set (before_byte colon path) then ''./'' else [])
                  @ path)
         @ (if u_ForceQuery u \<or> u_RawQuery u \<noteq> [] then ''?'' @ u_RawQuery u else [])
         @ (if u_Fragment u \<noteq> [] then ''#'' @ url_escape encodeFragment (u_Fragment u) else []))"

section \<open>Query values\<close>

text \<open>\<^verbatim>\<open>url.Values\<close> as an association list in the order the keys first appear.\<close>

type_synonym query_values = "(string \<times> string list) list"

fun values_add :: "string \<Rightarrow> string \<Rightarrow> query_values \<Rightarrow> query_values" where
  "values_add k v [] = [(k, [v])]"
| "values_add k v ((k', vs) # m) = (if k = k' then (k', vs @ [v]) # m else (k', vs) # values_add k v m)"

definition values_Get :: "query_values \<Rightarrow> string \<Rightarrow> string" where
  "values_Get m k = (case map_of m k of Some (v # _) \<Rightarrow> v | _ \<Rightarrow> [])"

definition values_Del :: "string \<Rightarrow> query_values \<Rightarrow> query_values" where
  "values_Del k m = filter (\<lambda>(k', _). k' \<noteq> k) m"

definition values_Set :: "string \<Rightarrow> string \<Rightarrow> query_values \<Rightarrow> query_values" where
  "values_Set k v m = (k, [v]) # values_Del k m"

text \<open>\<^verbatim>\<open>parseQuery\<close> (Go 1.13 separates pairs at ampersands and semicolons); a pair that does not
  unescape is skipped.\<close>

fun split_pairs :: "string \<Rightarrow> string list" where
  "split_pairs [] = [[]]"
| "split_pairs (c # cs) =
     (if c = CHR ''&'' \<or> c = CHR '';'' then [] # split_pairs cs
      else (case split_pairs cs of [] \<Rightarrow> [[c]] | y # ys \<Rightarrow> (c # y) # ys))"

definition parse_pair :: "string \<Rightarrow> query_values \<Rightarrow> query_values" where
  "parse_pair p m =
     (if p = [] then m
      else (case (url_unescape encodeQueryComponent (before_byte (CHR ''='') p),
                  url_unescape encodeQueryComponent (tl (from_byte (CHR ''='') p))) of
              (Some k, Some v) \<Rightarrow> values_add k v m
            | _ \<Rightarrow> m))"

definition parseQuery :: "string \<Rightarrow> query_values" where
  "parseQuery q = foldl (\<lambda>m p. parse_pair p m) [] (split_pairs q)"

definition url_Query :: "url \<Rightarrow> query_values" where
  "url_Query u = parseQuery (u_RawQuery u)"

text \<open>\<^verbatim>\<open>Values.Encode\<close>: keys in byte order.\<close>

fun str_le :: "string \<Rightarrow> string \<Rightarrow> bool" where
  "str_le [] _ = True"
| "str_le (x # xs) [] = False"
| "str_le (x # xs) (y # ys) = (byte x < byte y \<or> (x = y \<and> str_le xs ys))"

fun insert_key :: "string \<times> string list \<Rightarrow> query_values \<Rightarrow> query_values" where
  "insert_key kv [] = [kv]"
| "insert_key kv (x # xs) = (if str_le (fst kv) (fst x) then kv # x # xs else x # insert_key kv xs)"

definition sort_keys :: "query_values \<Rightarrow> query_values" where
  "sort_keys m = foldr insert_key m []"

definition QueryEscape :: "string \<Rightarrow> string" where
  "QueryEscape s = url_escape encodeQueryComponent s"

definition values_Encode :: "query_values \<Rightarrow> string" where
  "values_Encode m =
     join_with ''&'' (concat (map (\<lambda>(k, vs). map (\<lambda>v. QueryEscape k @ ''='' @ QueryEscape v) vs) (sort_keys m)))"

definition PathEscape :: "string \<Rightarrow> string" where
  "PathEscape s = url_escape encodePathSegment s"

section \<open>Lemmas\<close>

lemma unhex_hex_digit: "n < 16 \<Longrightarrow> unhex (hex_digit n) = Some n"
proof -
  assume "n < 16"
  then have "n \<in> {0, 1, 2, 3, 4, 5, 6, 7, 8, 9, 10, 11, 12, 13, 14, 15}" by (simp; presburger)
  then show ?thesis by (auto simp: unhex_def hex_digit_def is_digit_def byte_def)
qed

lemma byte_less: "byte c < 256"
  by (simp add: byte_def)

lemma char_of_byte [simp]: "char_of (byte c) = c"
  by (simp add: byte_def)

text \<open>Percent-encoding is undone by decoding in every mode but the host ones.\<close>

lemma url_unescape_escape:
  assumes "mode \<noteq> encodeHost" and "mode \<noteq> encodeZone"
  shows "url_unescape mode (url_escape mode s @ t) = map_option (\<lambda>r. s @ r) (url_unescape mode t)"
proof (induction s)
  case Nil
  then show ?case by (simp add: url_escape_def option.map_ident)
next
  case (Cons c s)
  let ?rest = "url_escape mode s @ t"
  have hex: "unescape_hex mode (hex_digit (byte c div 16)) (hex_digit (byte c mod 16)) = Some c"
    using byte_less [of c] assms by (simp add: unescape_hex_def unhex_hex_digit less_mult_imp_div_less Let_def)
  have plus: "shouldEscape encodeQueryComponent (CHR ''+'')" by code_simp
  have pc: "shouldEscape mode (CHR ''%'')"
    using assms by (cases mode) (simp_all add: shouldEscape_def is_alpha_def is_digit_def byte_def)
  have "url_escape mode (c # s) @ t = escape_byte mode c @ ?rest" by (simp add: url_escape_def)
  then show ?case
    using Cons hex plus pc assms
    by (auto simp: escape_byte_def option.map_comp comp_def)
qed

lemma url_unescape_escape_id:
  "mode \<noteq> encodeHost \<Longrightarrow> mode \<noteq> encodeZone \<Longrightarrow> url_unescape mode (url_escape mode s) = Some s"
  using url_unescape_escape [of mode s "[]"] by simp

lemma values_Get_Set [simp]: "values_Get (values_Set k v m) k = v"
  by (simp add: values_Get_def values_Set_def)

lemma map_of_values_Del: "map_of (values_Del k m) = (map_of m)(k := None)"
  by (induction m) (auto simp: values_Del_def)

lemma values_Get_Del [simp]: "values_Get (values_Del k m) k' = (if k' = k then [] else values_Get m k')"
  by (simp add: values_Get_def map_of_values_Del)

lemma values_Get_Set_other [simp]: "k' \<noteq> k \<Longrightarrow> values_Get (values_Set k v m) k' = values_Get m k'"
  by (simp add: values_Get_def values_Set_def map_of_values_Del)

end
