(* ===== verification/Http_Base.thy ===== *)
theory Http_Base
  imports Go_Url
begin

text \<open>
  What every handler of the daemon works on: errors as values, HTTP headers, requests and the
  response writer of \<^verbatim>\<open>net/http\<close>, the error pages of \<^verbatim>\<open>internal/httperrors\<close>, the host
  and scheme helpers of \<^verbatim>\<open>internal/host\<close> and \<^verbatim>\<open>internal/request\<close>, and the two
  middlewares that need nothing else: \<^verbatim>\<open>internal/rejectmethods\<close> and
  \<^verbatim>\<open>internal/middleware\<close>.

  The response writer keeps the header map the handlers edit, what \<^verbatim>\<open>WriteHeader\<close> sent (the
  status with the header map of that moment; later edits and later calls change nothing, as in
  \<^verbatim>\<open>net/http\<close>) and the body written so far.
\<close>

section \<open>Errors\<close>

text \<open>Sentinel values the code compares with \<^verbatim>\<open>==\<close> or \<^verbatim>\<open>errors.Is\<close> are constructors of
  their own; every other error is its message.\<close>

datatype go_error =
    ErrDomainDoesNotExist
  | ErrUnauthorizedAPI
  | ErrOSNotExist
  | ErrOSPermission
  | ErrVfsNotExist go_error
  | ErrInvalidPath string string
  | ErrLocationDirectory string string
  | ErrLocationFileNoExtension string
  | ErrNoRedirect
  | ErrRangeNotFound
  | ErrRangeNotSupported
  | ErrInvalidRange
  | ErrAlreadyCached
  | ErrEOF
  | ErrUnexpectedEOF
  | ErrMsg string

type_synonym 'a result = "go_error + 'a"

section \<open>Headers\<close>

type_synonym header = "string \<rightharpoonup> string list"

definition validHeaderByte :: "char \<Rightarrow> bool" where
  "validHeaderByte c \<longleftrightarrow> is_alpha c \<or> is_digit c \<or> c \<in> set ''!#$%&'' \<union> {CHR 0x27, CHR 0x60} \<union> set ''*+-.^_|~''"

definition upper_char :: "char \<Rightarrow> char" where
  "upper_char c = (if 97 \<le> byte c \<and> byte c \<le> 122 then char_of (byte c - 32) else c)"

fun canon_bytes :: "bool \<Rightarrow> string \<Rightarrow> string" where
  "canon_bytes up [] = []"
| "canon_bytes up (c # cs) = (if up then upper_char c else lower_char c) # canon_bytes (c = CHR ''-'') cs"

text \<open>\<^verbatim>\<open>CanonicalHeaderKey\<close>: keys with a byte no header name may hold are left alone.\<close>

definition CanonicalHeaderKey :: "string \<Rightarrow> string" where
  "CanonicalHeaderKey k = (if list_all validHeaderByte k then canon_bytes True k else k)"

definition header_Get :: "header \<Rightarrow> string \<Rightarrow> string" where
  "header_Get h k = (case h (CanonicalHeaderKey k) of Some (v # _) \<Rightarrow> v | _ \<Rightarrow> [])"

definition header_Set :: "string \<Rightarrow> string \<Rightarrow> header \<Rightarrow> header" where
  "header_Set k v h = h(CanonicalHeaderKey k \<mapsto> [v])"

definition header_Add :: "string \<Rightarrow> string \<Rightarrow> header \<Rightarrow> header" where
  "header_Add k v h =
     (let c = CanonicalHeaderKey k in h(c \<mapsto> (case h c of None \<Rightarrow> [] | Some vs \<Rightarrow> vs) @ [v]))"

section \<open>Requests\<close>

record request =
  r_Method :: string
  r_URL :: url
  r_Host :: string
  r_RequestURI :: string
  r_Header :: header
  r_TLS :: bool

definition SchemeHTTP :: string where "SchemeHTTP = ''http''"
definition SchemeHTTPS :: string where "SchemeHTTPS = ''https''"

definition IsHTTPS :: "request \<Rightarrow> bool" where
  "IsHTTPS r \<longleftrightarrow> u_Scheme (r_URL r) = SchemeHTTPS"

text \<open>\<^verbatim>\<open>net.SplitHostPort\<close>: host and port, \<^const>\<open>None\<close> for its address errors.  The port starts
  after the last colon; a bracketed host must be closed right before that colon.\<close>

definition SplitHostPort :: "string \<Rightarrow> (string \<times> string) option" where
  "SplitHostPort hostport =
     (if colon \<notin> set hostport then None
      else let port = after_last colon hostport; pre = butlast (upto_last colon hostport)
      in if hd hostport = CHR ''['' then
           (if CHR '']'' \<notin> set hostport then None
            else let host = before_byte (CHR '']'') (tl hostport)
            in if ''['' @ host @ '']'' = pre \<and> CHR ''['' \<notin> set (tl hostport) \<and> CHR '']'' \<notin> set port
               then Some (host, port) else None)
         else if colon \<in> set pre then None
         else if CHR ''['' \<in> set hostport then None
         else if CHR '']'' \<in> set hostport then None
         else Some (pre, port))"

definition host_FromString :: "string \<Rightarrow> string" where
  "host_FromString s =
     (let host = ToLower s
      in case SplitHostPort host of Some (h, _) \<Rightarrow> h | None \<Rightarrow> host)"

definition host_FromRequest :: "request \<Rightarrow> string" where
  "host_FromRequest r = host_FromString (r_Host r)"

definition GetHostWithoutPort :: "request \<Rightarrow> string" where
  "GetHostWithoutPort r = (case SplitHostPort (r_Host r) of None \<Rightarrow> r_Host r | Some (host, _) \<Rightarrow> host)"

section \<open>The response writer\<close>

text \<open>A piece of the response body: text, the filled-in error page of \<^verbatim>\<open>httperrors\<close>, or the
  bytes of a served file.\<close>

datatype body_chunk = Text string | ErrorHTML string string string string | FileBytes string

record resp =
  rw_header :: header
  rw_sent :: "(int \<times> header) option"
  rw_body :: "body_chunk list"

definition new_resp :: resp where
  "new_resp = \<lparr>rw_header = Map.empty, rw_sent = None, rw_body = []\<rparr>"

definition hset :: "string \<Rightarrow> string \<Rightarrow> resp \<Rightarrow> resp" where
  "hset k v w = w\<lparr>rw_header := header_Set k v (rw_header w)\<rparr>"

definition hadd :: "string \<Rightarrow> string \<Rightarrow> resp \<Rightarrow> resp" where
  "hadd k v w = w\<lparr>rw_header := header_Add k v (rw_header w)\<rparr>"

definition WriteHeader :: "int \<Rightarrow> resp \<Rightarrow> resp" where
  "WriteHeader code w = (if rw_sent w = None then w\<lparr>rw_sent := Some (code, rw_header w)\<rparr> else w)"

definition rw_Write :: "body_chunk \<Rightarrow> resp \<Rightarrow> resp" where
  "rw_Write b w = (let w' = WriteHeader 200 w in w'\<lparr>rw_body := rw_body w' @ [b]\<rparr>)"

definition rw_status :: "resp \<Rightarrow> int option" where
  "rw_status w = map_option fst (rw_sent w)"

definition sent_header :: "resp \<Rightarrow> string \<Rightarrow> string list option" where
  "sent_header w k = (case rw_sent w of None \<Rightarrow> None | Some (_, h) \<Rightarrow> h k)"

text \<open>\<^verbatim>\<open>http.Error\<close>.\<close>

definition http_Error :: "string \<Rightarrow> int \<Rightarrow> resp \<Rightarrow> resp" where
  "http_Error msg code w =
     rw_Write (Text (msg @ ''\<newline>''))
       (WriteHeader code
         (hset ''X-Content-Type-Options'' ''nosniff''
           (hset ''Content-Type'' ''text/plain; charset=utf-8'' w)))"

definition StatusText :: "int \<Rightarrow> string" where
  "StatusText code =
     (if code = 301 then ''Moved Permanently'' else if code = 302 then ''Found''
      else if code = 307 then ''Temporary Redirect'' else if code = 405 then ''Method Not Allowed''
      else [])"

definition htmlEscape :: "string \<Rightarrow> string" where
  "htmlEscape s = concat (map (\<lambda>c.
     if c = CHR ''&'' then ''&amp;'' else if c = CHR ''<'' then ''&lt;'' else if c = CHR ''>'' then ''&gt;''
     else if c = CHR 0x22 then ''&#34;'' else if c = CHR 0x27 then ''&#39;'' else [c]) s)"

definition lower_hex :: "nat \<Rightarrow> char" where
  "lower_hex n = (if n < 10 then char_of (48 + n) else char_of (87 + n))"

definition hexEscapeNonASCII :: "string \<Rightarrow> string" where
  "hexEscapeNonASCII s = concat (map (\<lambda>c.
     if 128 \<le> byte c then [CHR ''%'', lower_hex (byte c div 16), lower_hex (byte c mod 16)] else [c]) s)"

text \<open>\<^verbatim>\<open>http.Redirect\<close>: a relative target is made absolute from the request path and cleaned,
  keeping its trailing slash and query.\<close>

definition redirect_target :: "string \<Rightarrow> string \<Rightarrow> string" where
  "redirect_target oldpath target =
     (case url_Parse target of
        None \<Rightarrow> target
      | Some u \<Rightarrow>
          (if u_Scheme u = [] \<and> u_Host u = [] then
             let old = (if oldpath = [] then ''/'' else oldpath);
                 full = (if target = [] \<or> hd target \<noteq> slash then fst (path_Split old) @ target else target);
                 base = before_byte (CHR ''?'') full; query = from_byte (CHR ''?'') full;
                 cleaned = path_Clean base
             in (if HasSuffix base ''/'' \<and> \<not> HasSuffix cleaned ''/'' then cleaned @ ''/'' else cleaned) @ query
           else target))"

definition http_Redirect :: "request \<Rightarrow> string \<Rightarrow> int \<Rightarrow> resp \<Rightarrow> resp" where
  "http_Redirect r target code w =
     (let loc = redirect_target (u_Path (r_URL r)) target;
          hadCT = (rw_header w ''Content-Type'' \<noteq> None);
          w1 = hset ''Location'' (hexEscapeNonASCII loc) w;
          w2 = (if \<not> hadCT \<and> (r_Method r = ''GET'' \<or> r_Method r = ''HEAD'')
                then hset ''Content-Type'' ''text/html; charset=utf-8'' w1 else w1);
          w3 = WriteHeader code w2
      in if \<not> hadCT \<and> r_Method r = ''GET''
         then rw_Write (Text (''<a href=\"'' @ htmlEscape loc @ ''\">'' @ StatusText code @ ''</a>.\<newline>\<newline>'')) w3
         else w3)"

section \<open>Error pages (internal/httperrors)\<close>

record content =
  c_status :: int
  c_title :: string
  c_statusString :: string
  c_header :: string
  c_subHeader :: string

abbreviation "apos \<equiv> [CHR 0x27]"

definition content401 :: content where
  "content401 = \<lparr>c_status = 401, c_title = ''Unauthorized (401)'', c_statusString = ''401'',
     c_header = ''You don'' @ apos @ ''t have permission to access the resource.'',
     c_subHeader = ''<p>The resource that you are attempting to access is protected and you don'' @ apos
       @ ''t have the necessary permissions to view it.</p>''\<rparr>"

definition content404 :: content where
  "content404 = \<lparr>c_status = 404,
     c_title = ''The page you'' @ apos @ ''re looking for could not be found (404)'', c_statusString = ''404'',
     c_header = ''The page you'' @ apos @ ''re looking for could not be found.'',
     c_subHeader = ''<p>The resource that you are attempting to access does not exist or you don'' @ apos
       @ ''t have the necessary permissions to view it.</p>\<newline>     <p>Make sure the address is correct and that the page hasn'' @ apos
       @ ''t moved.</p>\<newline>     <p>Please contact your GitLab administrator if you think this is a mistake.</p>''\<rparr>"

abbreviation "sub_retry \<equiv>
  ''<p>Try refreshing the page, or going back and attempting the action again.</p>\<newline>     <p>Please contact your GitLab administrator if this problem persists.</p>''"

definition content500 :: content where
  "content500 = \<lparr>c_status = 500, c_title = ''Something went wrong (500)'', c_statusString = ''500'',
     c_header = ''Whoops, something went wrong on our end.'', c_subHeader = sub_retry\<rparr>"

definition content502 :: content where
  "content502 = \<lparr>c_status = 502, c_title = ''Something went wrong (502)'', c_statusString = ''502'',
     c_header = ''Whoops, something went wrong on our end.'', c_subHeader = sub_retry\<rparr>"

definition content503 :: content where
  "content503 = \<lparr>c_status = 503, c_title = ''Service Unavailable (503)'', c_statusString = ''503'',
     c_header = ''Whoops, something went wrong on our end.'', c_subHeader = sub_retry\<rparr>"

text \<open>The page template itself is a constant; a page is its four arguments.\<close>

definition generateErrorHTML :: "content \<Rightarrow> body_chunk" where
  "generateErrorHTML c = ErrorHTML (c_title c) (c_statusString c) (c_header c) (c_subHeader c)"

definition serveErrorPage :: "content \<Rightarrow> resp \<Rightarrow> resp" where
  "serveErrorPage c w =
     rw_Write (generateErrorHTML c)
       (WriteHeader (c_status c)
         (hset ''X-Content-Type-Options'' ''nosniff''
           (hset ''Content-Type'' ''text/html; charset=utf-8'' w)))"

definition Serve401 :: "resp \<Rightarrow> resp" where "Serve401 w = serveErrorPage content401 w"
definition Serve404 :: "resp \<Rightarrow> resp" where "Serve404 w = serveErrorPage content404 w"
definition Serve500 :: "resp \<Rightarrow> resp" where "Serve500 w = serveErrorPage content500 w"
definition Serve502 :: "resp \<Rightarrow> resp" where "Serve502 w = serveErrorPage content502 w"
definition Serve503 :: "resp \<Rightarrow> resp" where "Serve503 w = serveErrorPage content503 w"

text \<open>The request and the error only go to the log and the error tracker.\<close>

definition Serve500WithRequest :: "request \<Rightarrow> string \<Rightarrow> go_error \<Rightarrow> resp \<Rightarrow> resp" where
  "Serve500WithRequest r reason err w = serveErrorPage content500 w"

section \<open>Rejected methods and custom headers\<close>

type_synonym handler = "request \<Rightarrow> resp \<Rightarrow> resp"

definition acceptedMethods :: "string list" where
  "acceptedMethods = [''GET'', ''HEAD'', ''POST'', ''PUT'', ''PATCH'', ''DELETE'', ''CONNECT'', ''OPTIONS'', ''TRACE'']"

definition rejectmethods_NewMiddleware :: "handler \<Rightarrow> handler" where
  "rejectmethods_NewMiddleware h r w =
     (if r_Method r \<in> set acceptedMethods then h r w
      else http_Error (StatusText 405) 405 w)"

text \<open>Custom headers: a Go map ranged over in any order; the model lists its entries.\<close>

definition AddCustomHeaders :: "(string \<times> string list) list \<Rightarrow> resp \<Rightarrow> resp" where
  "AddCustomHeaders headers w = foldl (\<lambda>w (k, vs). foldl (\<lambda>w v. hadd k v w) w vs) w headers"

fun ParseHeaderString_loop :: "(string \<times> string list) list \<Rightarrow> string list \<Rightarrow> (string \<times> string list) list result" where
  "ParseHeaderString_loop headers [] = Inr headers"
| "ParseHeaderString_loop headers (kvs # rest) =
     (let keyValue = splitn_on colon 2 kvs
      in if length keyValue \<noteq> 2 then Inl (ErrMsg ''invalid syntax specified as header parameter'')
         else ParseHeaderString_loop
                (values_add (TrimSpace (keyValue ! 0)) (TrimSpace (keyValue ! 1)) headers) rest)"

definition ParseHeaderString :: "string list \<Rightarrow> (string \<times> string list) list result" where
  "ParseHeaderString customHeaders = ParseHeaderString_loop [] customHeaders"

section \<open>Lemmas on the response writer\<close>

lemma canon_literals [resp_simps]:
  "CanonicalHeaderKey ''Content-Type'' = ''Content-Type''"
  "CanonicalHeaderKey ''X-Content-Type-Options'' = ''X-Content-Type-Options''"
  "CanonicalHeaderKey ''Location'' = ''Location''"
  "CanonicalHeaderKey ''Content-Length'' = ''Content-Length''"
  "CanonicalHeaderKey ''Content-Encoding'' = ''Content-Encoding''"
  "CanonicalHeaderKey ''Cache-Control'' = ''Cache-Control''"
  "CanonicalHeaderKey ''Expires'' = ''Expires''"
  by code_simp+

lemma rw_sent_hset [resp_simps]: "rw_sent (hset k v w) = rw_sent w"
  and rw_body_hset [resp_simps]: "rw_body (hset k v w) = rw_body w"
  and rw_header_hset [resp_simps]: "rw_header (hset k v w) = (rw_header w)(CanonicalHeaderKey k \<mapsto> [v])"
  by (simp_all add: hset_def header_Set_def)

lemma rw_sent_hadd [resp_simps]: "rw_sent (hadd k v w) = rw_sent w"
  and rw_body_hadd [resp_simps]: "rw_body (hadd k v w) = rw_body w"
  by (simp_all add: hadd_def)

lemma rw_sent_WriteHeader [resp_simps]:
  "rw_sent (WriteHeader c w) = (case rw_sent w of None \<Rightarrow> Some (c, rw_header w) | Some s \<Rightarrow> Some s)"
  and rw_body_WriteHeader [resp_simps]: "rw_body (WriteHeader c w) = rw_body w"
  and rw_header_WriteHeader [resp_simps]: "rw_header (WriteHeader c w) = rw_header w"
  by (auto simp: WriteHeader_def split: option.splits)

lemma rw_sent_Write [resp_simps]:
  "rw_sent (rw_Write b w) = (case rw_sent w of None \<Rightarrow> Some (200, rw_header w) | Some s \<Rightarrow> Some s)"
  and rw_body_Write [resp_simps]: "rw_body (rw_Write b w) = rw_body w @ [b]"
  and rw_header_Write [resp_simps]: "rw_header (rw_Write b w) = rw_header w"
  by (simp_all add: rw_Write_def Let_def rw_sent_WriteHeader rw_body_WriteHeader rw_header_WriteHeader)

lemma new_resp_simps [resp_simps]:
  "rw_sent new_resp = None" "rw_body new_resp = []" "rw_header new_resp = Map.empty"
  by (simp_all add: new_resp_def)

text \<open>What was sent is never changed: the first \<^verbatim>\<open>WriteHeader\<close> decides.\<close>

lemma serveErrorPage_sent [resp_simps]:
  "rw_sent (serveErrorPage c w) =
     (case rw_sent w of
        None \<Rightarrow> Some (c_status c, (rw_header w)(''Content-Type'' \<mapsto> [''text/html; charset=utf-8''],
                                       ''X-Content-Type-Options'' \<mapsto> [''nosniff'']))
      | Some s \<Rightarrow> Some s)"
  and serveErrorPage_body [resp_simps]: "rw_body (serveErrorPage c w) = rw_body w @ [generateErrorHTML c]"
  by (auto simp: serveErrorPage_def resp_simps split: option.splits)

lemma content_status [resp_simps]:
  "c_status content401 = 401" "c_status content404 = 404" "c_status content500 = 500"
  "c_status content502 = 502" "c_status content503 = 503"
  by (simp_all add: content401_def content404_def content500_def content502_def content503_def)

lemmas Serve_defs = Serve401_def Serve404_def Serve500_def Serve502_def Serve503_def Serve500WithRequest_def

lemma rw_status_sent: "rw_sent w = None \<Longrightarrow> rw_status (serveErrorPage c w) = Some (c_status c)"
  by (simp add: rw_status_def resp_simps)

lemma http_Redirect_sent [resp_simps]:
  "rw_sent w = None \<Longrightarrow> rw_status (http_Redirect r target code w) = Some code"
  by (auto simp: http_Redirect_def Let_def rw_status_def resp_simps)

lemma http_Redirect_keeps_sent [resp_simps]:
  "rw_sent w = Some s \<Longrightarrow> rw_sent (http_Redirect r target code w) = Some s"
  by (auto simp: http_Redirect_def Let_def resp_simps)

lemma http_Redirect_Location:
  assumes "rw_sent w = None"
  shows "sent_header (http_Redirect r target code w) ''Location'' =
           Some [hexEscapeNonASCII (redirect_target (u_Path (r_URL r)) target)]"
proof -
  define ct where "ct = rw_header w ''Content-Type''"
  define m where "m = r_Method r"
  show ?thesis
    unfolding http_Redirect_def Let_def ct_def [symmetric] m_def [symmetric]
    using assms
    by (cases ct; cases "m = ''GET''"; cases "m = ''HEAD''"; simp add: sent_header_def resp_simps)
qed

lemma http_Error_sent [resp_simps]:
  "rw_sent w = None \<Longrightarrow> rw_status (http_Error msg code w) = Some code"
  by (simp add: http_Error_def rw_status_def resp_simps)

lemma SplitHostPort_parts:
  assumes "SplitHostPort hp = Some (h, p)"
  shows "(hp = h @ '':'' @ p \<or> hp = ''['' @ h @ '']:'' @ p) \<and> colon \<notin> set p"
proof -
  have c: "colon \<in> set hp" using assms by (simp add: SplitHostPort_def split: if_split_asm)
  have "p = after_last colon hp \<and> (h = butlast (upto_last colon hp) \<or> ''['' @ h @ '']'' = butlast (upto_last colon hp))"
    using assms c by (simp add: SplitHostPort_def Let_def split: if_split_asm)
  then show ?thesis using split_at_last [OF c] after_last_no
    by (metis append_Cons append_Nil append_assoc)
qed

text \<open>Splitting a bare name with a port gives the name back.\<close>

lemma SplitHostPort_plain:
  assumes "colon \<notin> set h" "colon \<notin> set p" "CHR ''['' \<notin> set (h @ p)" "CHR '']'' \<notin> set (h @ p)"
  shows "SplitHostPort (h @ '':'' @ p) = Some (h, p)"
proof -
  have "hd (h @ '':'' @ p) \<noteq> CHR ''[''" using assms(3) by (cases h) auto
  with assms show ?thesis by (simp add: SplitHostPort_def Let_def after_last_app upto_last_app)
qed

lemma SplitHostPort_none: "colon \<notin> set h \<Longrightarrow> SplitHostPort h = None"
  by (simp add: SplitHostPort_def)

end
