(* ===== verification/Vfs.thy ===== *)
theory Vfs
  imports Http_Base
begin

text \<open>
  The virtual file system of the daemon: the \<^verbatim>\<open>vfs.Root\<close> interface of \<^verbatim>\<open>internal/vfs\<close>,
  its implementation on a directory (\<^verbatim>\<open>internal/vfs/local\<close>) and the symlink walk of
  \<^verbatim>\<open>internal/serving/disk/symlink\<close>.

  A request sees one state of the file system: the operations of a root are functions of the name.
  The state of the operating system's file system is a parameter, the record \<open>os_fs\<close>: which node
  a path leads to, which opens fail, and what \<^verbatim>\<open>filepath.EvalSymlinks\<close> answers; on it
  \<^verbatim>\<open>lstat\<close>, \<^verbatim>\<open>readlink\<close> and \<^verbatim>\<open>open\<close> with \<^verbatim>\<open>O_NOFOLLOW\<close> are defined.
\<close>

section \<open>The interface vfs.Root\<close>

datatype file_mode = ModeRegular | ModeDir | ModeSymlink | ModeIrregular

record file_info =
  fi_mode :: file_mode
  fi_size :: int
  fi_modtime :: timestamp

text \<open>An open file: the bytes reading it yields, an error after them if reading fails, and whether
  it implements \<^verbatim>\<open>vfs.SeekableFile\<close>.\<close>

record vfs_file =
  vf_data :: bytes
  vf_err :: "go_error option"
  vf_seekable :: bool

record vfs_root =
  rt_Lstat :: "string \<Rightarrow> file_info result"
  rt_Readlink :: "string \<Rightarrow> string result"
  rt_Open :: "string \<Rightarrow> vfs_file result"

type_synonym vfs = "string \<Rightarrow> vfs_root result"

definition vfs_IsNotExist :: "go_error \<Rightarrow> bool" where
  "vfs_IsNotExist err = (case err of ErrVfsNotExist _ \<Rightarrow> True | _ \<Rightarrow> False)"

section \<open>The local file system (internal/vfs/local)\<close>

datatype os_node = OsRegular bytes timestamp | OsDir timestamp | OsSymlink string timestamp | OsOther timestamp

record os_fs =
  os_cwd :: string
  os_EvalSymlinks :: "string \<Rightarrow> string result"
  os_lookup :: "string \<Rightarrow> os_node result"
  os_open_error :: "string \<Rightarrow> go_error option"
  os_fstat_error :: "string \<Rightarrow> go_error option"

fun node_info :: "os_node \<Rightarrow> file_info" where
  "node_info (OsRegular d t) = \<lparr>fi_mode = ModeRegular, fi_size = int (length d), fi_modtime = t\<rparr>"
| "node_info (OsDir t) = \<lparr>fi_mode = ModeDir, fi_size = 4096, fi_modtime = t\<rparr>"
| "node_info (OsSymlink l t) = \<lparr>fi_mode = ModeSymlink, fi_size = int (length l), fi_modtime = t\<rparr>"
| "node_info (OsOther t) = \<lparr>fi_mode = ModeIrregular, fi_size = 0, fi_modtime = t\<rparr>"

definition os_Lstat :: "os_fs \<Rightarrow> string \<Rightarrow> file_info result" where
  "os_Lstat os p = (case os_lookup os p of Inl e \<Rightarrow> Inl e | Inr n \<Rightarrow> Inr (node_info n))"

definition os_Readlink :: "os_fs \<Rightarrow> string \<Rightarrow> string result" where
  "os_Readlink os p =
     (case os_lookup os p of
        Inl e \<Rightarrow> Inl e
      | Inr (OsSymlink l _) \<Rightarrow> Inr l
      | Inr _ \<Rightarrow> Inl (ErrMsg ''invalid argument''))"

text \<open>\<^verbatim>\<open>os.OpenFile\<close> with \<^verbatim>\<open>O_RDONLY|O_NOFOLLOW\<close>: a symlink as the last element is refused.\<close>

definition os_OpenNoFollow :: "os_fs \<Rightarrow> string \<Rightarrow> (os_node \<times> vfs_file) result" where
  "os_OpenNoFollow os p =
     (case os_open_error os p of
        Some e \<Rightarrow> Inl e
      | None \<Rightarrow>
          (case os_lookup os p of
             Inl e \<Rightarrow> Inl e
           | Inr (OsSymlink l t) \<Rightarrow> Inl (ErrMsg ''too many levels of symbolic links'')
           | Inr (OsRegular d t) \<Rightarrow> Inr (OsRegular d t, \<lparr>vf_data = d, vf_err = None, vf_seekable = True\<rparr>)
           | Inr n \<Rightarrow> Inr (n, \<lparr>vf_data = [], vf_err = Some (ErrMsg ''is a directory''), vf_seekable = True\<rparr>)))"

definition validatePath :: "string \<Rightarrow> string \<Rightarrow> (string \<times> string) result" where
  "validatePath rootPath path =
     (let fullPath = path_Join [rootPath, path]
      in if rootPath = fullPath then Inr (fullPath, [])
         else let vfsPath = TrimPrefix fullPath (rootPath @ ''/'')
         in if fullPath = vfsPath then Inl (ErrInvalidPath rootPath fullPath)
            else Inr (fullPath, vfsPath))"

definition local_Lstat :: "os_fs \<Rightarrow> string \<Rightarrow> string \<Rightarrow> file_info result" where
  "local_Lstat os rootPath name =
     (case validatePath rootPath name of Inl e \<Rightarrow> Inl e | Inr (fullPath, _) \<Rightarrow> os_Lstat os fullPath)"

definition local_Readlink :: "os_fs \<Rightarrow> string \<Rightarrow> string \<Rightarrow> string result" where
  "local_Readlink os rootPath name =
     (case validatePath rootPath name of
        Inl e \<Rightarrow> Inl e
      | Inr (fullPath, _) \<Rightarrow>
          (case os_Readlink os fullPath of
             Inl e \<Rightarrow> Inl e
           | Inr target \<Rightarrow>
               (if HasPrefix target (rootPath @ ''/'') then
                  (case filepath_Rel (filepath_Dir fullPath) target of
                     Some rel \<Rightarrow> Inr rel
                   | None \<Rightarrow> Inl (ErrMsg (''Rel: can'' @ apos @ ''t make '' @ target @ '' relative to '' @ filepath_Dir fullPath)))
                else if path_IsAbs target then Inr target
                else Inr target)))"

definition local_Open :: "os_fs \<Rightarrow> string \<Rightarrow> string \<Rightarrow> vfs_file result" where
  "local_Open os rootPath name =
     (case validatePath rootPath name of
        Inl e \<Rightarrow> Inl e
      | Inr (fullPath, _) \<Rightarrow>
          (case os_OpenNoFollow os fullPath of
             Inl e \<Rightarrow> Inl e
           | Inr (node, file) \<Rightarrow>
               (case os_fstat_error os fullPath of
                  Some e \<Rightarrow> Inl e
                | None \<Rightarrow>
                    (if fi_mode (node_info node) \<noteq> ModeRegular then Inl (ErrMsg ''path needs to be a file'')
                     else Inr file))))"

definition local_root :: "os_fs \<Rightarrow> string \<Rightarrow> vfs_root" where
  "local_root os rootPath =
     \<lparr>rt_Lstat = local_Lstat os rootPath, rt_Readlink = local_Readlink os rootPath, rt_Open = local_Open os rootPath\<rparr>"

text \<open>\<^verbatim>\<open>VFS.Root\<close>: the directory's resolved path.  \<^verbatim>\<open>os.IsNotExist\<close> holds of
  \<^const>\<open>ErrOSNotExist\<close>.\<close>

definition local_Root_path :: "os_fs \<Rightarrow> string \<Rightarrow> string result" where
  "local_Root_path os path =
     (let rootPath = filepath_Abs (os_cwd os) path
      in case os_EvalSymlinks os rootPath of
           Inl e \<Rightarrow> (if e = ErrOSNotExist then Inl (ErrVfsNotExist e) else Inl e)
         | Inr rootPath \<Rightarrow>
             (case os_Lstat os rootPath of
                Inl e \<Rightarrow> (if e = ErrOSNotExist then Inl (ErrVfsNotExist e) else Inl e)
              | Inr fi \<Rightarrow>
                  (if fi_mode fi \<noteq> ModeDir then Inl (ErrMsg ''path needs to be a directory'')
                   else Inr rootPath)))"

definition local_Root :: "os_fs \<Rightarrow> vfs" where
  "local_Root os path =
     (case local_Root_path os path of Inl e \<Rightarrow> Inl e | Inr rootPath \<Rightarrow> Inr (local_root os rootPath))"

section \<open>The symlink walk (internal/serving/disk/symlink)\<close>

text \<open>The last path separator of \<open>dest\<close> at or after index \<open>volLen\<close>: what stands before and after it.\<close>

definition last_sep :: "nat \<Rightarrow> string \<Rightarrow> (string \<times> string) option" where
  "last_sep volLen dest =
     (if slash \<in> set (drop volLen dest) then Some (butlast (upto_last slash dest), after_last slash dest) else None)"

text \<open>The \<open>..\<close> case of the loop: \<^const>\<open>None\<close> when it would climb above the root slash.\<close>

definition walk_dotdot :: "nat \<Rightarrow> string \<Rightarrow> string option" where
  "walk_dotdot volLen dest =
     (case last_sep volLen dest of
        None \<Rightarrow>
          (if volLen = 1 \<and> dest \<noteq> [] \<and> hd dest = slash then None
           else Some ((if length dest > volLen then dest @ ''/'' else dest) @ ''..''))
      | Some (pre, post) \<Rightarrow>
          (if post = ''..'' then Some ((if length dest > volLen then dest @ ''/'' else dest) @ ''..'')
           else Some pre))"

text \<open>The loop of \<^verbatim>\<open>walkSymlinks\<close>: \<open>rest\<close> is \<^verbatim>\<open>path[start:]\<close>.  On Unix
  \<^verbatim>\<open>volumeNameLen\<close> is 0, so the branches for volume names are dead.\<close>

function (sequential) walk_loop :: "vfs_root \<Rightarrow> string \<Rightarrow> string \<Rightarrow> string \<Rightarrow> nat \<Rightarrow> string result" where
  "walk_loop root vol rest dest linksWalked =
     (let rest1 = dropWhile (\<lambda>c. c = slash) rest;
          elem = takeWhile (\<lambda>c. c \<noteq> slash) rest1;
          rest2 = dropWhile (\<lambda>c. c \<noteq> slash) rest1
      in if elem = [] then Inr (path_Clean dest)
         else if elem = ''.'' then walk_loop root vol rest2 dest linksWalked
         else if elem = ''..'' then
           (case walk_dotdot (length vol) dest of
              None \<Rightarrow> Inl (ErrMsg ''EvalSymlinks: cannot backtrack root path'')
            | Some d \<Rightarrow> walk_loop root vol rest2 d linksWalked)
         else
           let d = (if dest \<noteq> [] \<and> last dest \<noteq> slash then dest @ ''/'' else dest) @ elem
           in case rt_Lstat root d of
                Inl e \<Rightarrow> Inl e
              | Inr fi \<Rightarrow>
                  (if fi_mode fi \<noteq> ModeSymlink then
                     (if fi_mode fi \<noteq> ModeDir \<and> rest2 \<noteq> [] then Inl (ErrMsg ''not a directory'')
                      else walk_loop root vol rest2 d linksWalked)
                   else if linksWalked + 1 > 255 then Inl (ErrMsg ''EvalSymlinks: too many links'')
                   else (case rt_Readlink root d of
                           Inl e \<Rightarrow> Inl e
                         | Inr link \<Rightarrow>
                             (if link \<noteq> [] \<and> hd link = slash
                              then walk_loop root vol (tl link @ rest2) ''/'' (linksWalked + 1)
                              else walk_loop root vol (link @ rest2)
                                     (case last_sep (length vol) d of None \<Rightarrow> vol | Some (pre, _) \<Rightarrow> pre)
                                     (linksWalked + 1)))))"
  by pat_completeness auto

lemma walk_rest_shorter:
  "takeWhile (\<lambda>c. c \<noteq> slash) (dropWhile (\<lambda>c. c = slash) rest) \<noteq> [] \<Longrightarrow>
     length (dropWhile (\<lambda>c. c \<noteq> slash) (dropWhile (\<lambda>c. c = slash) rest)) < length rest"
proof -
  let ?r1 = "dropWhile (\<lambda>c. c = slash) rest"
  assume "takeWhile (\<lambda>c. c \<noteq> slash) ?r1 \<noteq> []"
  then have "length (dropWhile (\<lambda>c. c \<noteq> slash) ?r1) < length ?r1"
    by (metis length_append length_greater_0_conv less_add_same_cancel2 takeWhile_dropWhile_id)
  then show ?thesis using length_dropWhile_le [of "\<lambda>c. c = slash" rest] by simp
qed

termination walk_loop
  by (relation "measures [\<lambda>(_, _, _, _, n). 256 - n, \<lambda>(_, _, rest, _, _). length rest]")
     (auto simp: walk_rest_shorter)

declare walk_loop.simps [simp del]

definition walkSymlinks :: "vfs_root \<Rightarrow> string \<Rightarrow> string result" where
  "walkSymlinks root path =
     (let volLen = (if path \<noteq> [] \<and> hd path = slash then 1 else 0)
      in walk_loop root (take volLen path) (drop volLen path) (take volLen path) 0)"

definition EvalSymlinks :: "vfs_root \<Rightarrow> string \<Rightarrow> string result" where
  "EvalSymlinks root path = walkSymlinks root path"

section \<open>The contract of vfs.Root\<close>

text \<open>What the code that serves files relies on, for any root: only regular files open, and only
  symlinks have a link target.\<close>

locale vfs_root_ops =
  fixes root :: vfs_root
  assumes Open_regular:
      "rt_Open root n = Inr f \<Longrightarrow> \<exists>fi. rt_Lstat root n = Inr fi \<and> fi_mode fi = ModeRegular"
    and Readlink_symlink:
      "rt_Readlink root n = Inr l \<Longrightarrow> \<exists>fi. rt_Lstat root n = Inr fi \<and> fi_mode fi = ModeSymlink"
begin

lemma Open_not_symlink: "rt_Open root n = Inr f \<Longrightarrow> \<exists>e. rt_Readlink root n = Inl e"
proof (cases "rt_Readlink root n")
  case (Inr l)
  assume "rt_Open root n = Inr f"
  with Inr Open_regular Readlink_symlink show ?thesis by fastforce
qed auto

end

lemma local_Open_regular:
  "local_Open os r n = Inr f \<Longrightarrow> \<exists>fi. local_Lstat os r n = Inr fi \<and> fi_mode fi = ModeRegular"
  by (auto simp: local_Open_def local_Lstat_def os_OpenNoFollow_def os_Lstat_def
        split: sum.splits option.splits os_node.splits if_splits)

lemma local_Readlink_symlink:
  "local_Readlink os r n = Inr l \<Longrightarrow> \<exists>fi. local_Lstat os r n = Inr fi \<and> fi_mode fi = ModeSymlink"
  by (auto simp: local_Readlink_def local_Lstat_def os_Readlink_def os_Lstat_def
        split: sum.splits os_node.splits)

interpretation local_ops: vfs_root_ops "local_root os r" for os r
  by unfold_locales (auto simp: local_root_def dest: local_Open_regular local_Readlink_symlink)

section \<open>Paths stay below the root\<close>

text \<open>The root paths \<^verbatim>\<open>VFS.Root\<close> hands out are rooted and cleaned.\<close>

definition clean_root :: "string \<Rightarrow> bool" where
  "clean_root r \<longleftrightarrow> path_IsAbs r \<and> path_Clean r = r"

lemma clean_root_elems:
  assumes "clean_root r"
  obtains rs where "list_all clean_elem rs" "r = slash # join_with ''/'' rs"
  using assms path_Clean_rooted unfolding clean_root_def by metis

lemma validatePath_cases:
  assumes "validatePath r p = Inr (full, v)"
  shows "full = path_Join [r, p] \<and> (full = r \<and> v = [] \<or> full = r @ ''/'' @ v)"
proof (cases "r = path_Join [r, p]")
  case True
  with assms show ?thesis by (simp add: validatePath_def)
next
  case False
  let ?f = "path_Join [r, p]"
  from False assms have v: "full = ?f" "v = TrimPrefix ?f (r @ ''/'')" "?f \<noteq> TrimPrefix ?f (r @ ''/'')"
    by (auto simp: validatePath_def Let_def split: if_split_asm)
  then have "HasPrefix ?f (r @ ''/'')" using TrimPrefix_id_iff by metis
  then have "(r @ ''/'') @ v = full" using v HasPrefix_TrimPrefix by metis
  with v show ?thesis by simp
qed

lemma validatePath_elems:
  assumes "clean_root r" and "validatePath r p = Inr (full, v)"
  shows "list_all clean_elem (path_elems full) \<and>
         path_elems full = path_elems r @ path_elems v \<and> path_Clean full = full"
proof -
  from assms(1) have abs: "path_IsAbs r" by (simp add: clean_root_def)
  from validatePath_cases [OF assms(2)] have f: "full = path_Join [r, p]" and
    c: "full = r \<and> v = [] \<or> full = r @ ''/'' @ v" by auto
  obtain cs where cs: "list_all clean_elem cs" "full = slash # join_with ''/'' cs"
    using path_Join_clean [OF abs] f by metis
  have e: "path_elems full = cs" using path_elems_of_elems [OF cs(1)] cs(2) by simp
  moreover have "path_elems full = path_elems r @ path_elems v"
    using c by (auto simp: path_elems_def split_on_append)
  ultimately show ?thesis using cs path_Clean_of_elems [OF cs(1)] by simp
qed

text \<open>Every proper relative path is accepted, below any root but the file system's root.\<close>

lemma validatePath_proper:
  assumes "list_all clean_elem rs" "rs \<noteq> []" and "list_all clean_elem ps" "ps \<noteq> []"
  shows "validatePath (slash # join_with ''/'' rs) (join_with ''/'' ps) =
           Inr (slash # join_with ''/'' (rs @ ps), join_with ''/'' ps)"
proof -
  let ?r = "slash # join_with ''/'' rs"
  have j: "path_Join [?r, join_with ''/'' ps] = slash # join_with ''/'' (rs @ ps)"
    by (rule path_Join_proper [OF assms(1,3)])
  have a: "slash # join_with ''/'' (rs @ ps) = (?r @ ''/'') @ join_with ''/'' ps"
    using assms by (simp add: join_with_append)
  have "TrimPrefix (slash # join_with ''/'' (rs @ ps)) (?r @ ''/'') = join_with ''/'' ps"
    unfolding a by (rule TrimPrefix_append)
  moreover have "?r \<noteq> slash # join_with ''/'' (rs @ ps)" unfolding a by simp
  moreover have "slash # join_with ''/'' (rs @ ps) \<noteq> join_with ''/'' ps"
    unfolding a by (metis append_assoc append_self_conv2 append_is_Nil_conv list.distinct(1))
  ultimately show ?thesis using j by (simp add: validatePath_def Let_def)
qed

text \<open>C6. Containment: whatever name a request leads to, a path the local root accepts and hands
  to the operating system is the root directory itself or a cleaned path below it: its elements are
  those of the root followed by those of the name below it, and none of them is empty, a dot or a
  dot-dot.\<close>

theorem validatePath_contained:
  assumes "clean_root r" and "validatePath r p = Inr (full, v)"
  shows "(full = r \<and> v = [] \<or> full = r @ ''/'' @ v) \<and>
         path_elems full = path_elems r @ path_elems v \<and>
         list_all clean_elem (path_elems full) \<and> path_Clean full = full"
  using validatePath_cases [OF assms(2)] validatePath_elems [OF assms] by blast

theorem validatePath_contained_witness:
  "validatePath ''/srv/pages'' ''a/../b//index.html'' = Inr (''/srv/pages/b/index.html'', ''b/index.html'') \<and>
   path_elems ''/srv/pages/b/index.html'' = path_elems ''/srv/pages'' @ path_elems ''b/index.html''"
proof -
  have r: "clean_root ''/srv/pages''" by code_simp
  have v: "validatePath ''/srv/pages'' ''a/../b//index.html'' = Inr (''/srv/pages/b/index.html'', ''b/index.html'')"
    by code_simp
  show ?thesis using validatePath_contained [OF r v] v by blast
qed

end
