(* ===== verification/Redirects.thy ===== *)
theory Redirects
  imports Vfs
begin

text \<open>
  The redirect rules of a site (\<^verbatim>\<open>internal/redirects\<close>): validation of the rules of a
  \<^verbatim>\<open>_redirects\<close> file, matching a request against them and rewriting its URL.  The parser of
  the rules file is the third-party package \<^verbatim>\<open>tj/go-redirects\<close>: a parameter \<open>netlify\<close>
  from the opened file to the rules, \<^const>\<open>None\<close> for its error.  \<^verbatim>\<open>URL.Parse\<close> and
  \<^verbatim>\<open>URL.ResolveReference\<close> of \<^verbatim>\<open>net/url\<close> are modelled here as the rewriting
  uses them.
\<close>

section \<open>Resolving a reference (net/url)\<close>

definition resolve_step :: "string list \<Rightarrow> string \<Rightarrow> string list" where
  "resolve_step dst elem = (if elem = ''.'' then dst else if elem = ''..'' then butlast dst else dst @ [elem])"

definition url_resolvePath :: "string \<Rightarrow> string \<Rightarrow> string" where
  "url_resolvePath base ref =
     (let full = (if ref = [] then base
                  else if hd ref \<noteq> slash then upto_last slash base @ ref
                  else ref)
      in if full = [] then []
         else let src = split_on slash full;
                  dst = foldl resolve_step [] src;
                  dst2 = (if last src = ''.'' \<or> last src = ''..'' then dst @ [[]] else dst)
              in ''/'' @ TrimPrefix (join_with ''/'' dst2) ''/'')"

text \<open>An error of \<^verbatim>\<open>setPath\<close> is ignored and leaves the URL as it was.\<close>

definition setPath_ignored :: "url \<Rightarrow> string \<Rightarrow> url" where
  "setPath_ignored u p = (case setPath u p of None \<Rightarrow> u | Some u' \<Rightarrow> u')"

definition ResolveReference :: "url \<Rightarrow> url \<Rightarrow> url" where
  "ResolveReference u ref =
     (let v = (if u_Scheme ref = [] then ref\<lparr>u_Scheme := u_Scheme u\<rparr> else ref)
      in if u_Scheme ref \<noteq> [] \<or> u_Host ref \<noteq> [] \<or> u_User ref \<noteq> None
         then setPath_ignored v (url_resolvePath (EscapedPath ref) [])
         else if u_Opaque ref \<noteq> [] then v\<lparr>u_User := None, u_Host := [], u_Path := []\<rparr>
         else let v = (if u_Path ref = [] \<and> u_RawQuery ref = [] then
                         (if u_Fragment ref = [] then v\<lparr>u_RawQuery := u_RawQuery u, u_Fragment := u_Fragment u\<rparr>
                          else v\<lparr>u_RawQuery := u_RawQuery u\<rparr>)
                       else v)
              in setPath_ignored (v\<lparr>u_Host := u_Host u, u_User := u_User u\<rparr>)
                   (url_resolvePath (EscapedPath u) (EscapedPath ref)))"

definition url_Parse_ref :: "url \<Rightarrow> string \<Rightarrow> url option" where
  "url_Parse_ref u ref = map_option (ResolveReference u) (url_Parse ref)"

section \<open>Rules and their validation\<close>

datatype redirect_error =
    errConfigNotFound | errNeedRegularFile | errFileTooLarge | errFailedToOpenConfig | errFailedToParseConfig
  | errFailedToParseURL | errNoDomainLevelRedirects | errNoStartingForwardSlashInURLPath
  | errNoSplats | errNoPlaceholders | errNoParams | errUnsupportedStatus | errNoForce

fun redirect_error_Error :: "redirect_error \<Rightarrow> string" where
  "redirect_error_Error errConfigNotFound = ''_redirects file not found''"
| "redirect_error_Error errNeedRegularFile = ''_redirects needs to be a regular file (not a directory)''"
| "redirect_error_Error errFileTooLarge = ''_redirects file too large''"
| "redirect_error_Error errFailedToOpenConfig = ''unable to open _redirects file''"
| "redirect_error_Error errFailedToParseConfig = ''failed to parse _redirects file''"
| "redirect_error_Error errFailedToParseURL = ''unable to parse URL''"
| "redirect_error_Error errNoDomainLevelRedirects = ''no domain-level redirects to outside sites''"
| "redirect_error_Error errNoStartingForwardSlashInURLPath = ''url path must start with forward slash /''"
| "redirect_error_Error errNoSplats = ''splats are not supported''"
| "redirect_error_Error errNoPlaceholders = ''placeholders are not supported''"
| "redirect_error_Error errNoParams = ''params not supported''"
| "redirect_error_Error errUnsupportedStatus = ''status not supported''"
| "redirect_error_Error errNoForce = ''force! not supported''"

definition ConfigFile :: string where "ConfigFile = ''_redirects''"

definition maxConfigSize :: int where "maxConfigSize = 64 * 1024"

text \<open>A rule as the parser returns it; \<open>ru_Params\<close> is \<^const>\<open>None\<close> for a nil map.\<close>

record rule =
  ru_From :: string
  ru_To :: string
  ru_Status :: int
  ru_Force :: bool
  ru_Params :: "(string \<times> string) list option"

record Redirects =
  rd_rules :: "rule list"
  rd_error :: "redirect_error option"

text \<open>The letters \<^verbatim>\<open>[a-z]\<close> matches under case folding: the ASCII ones, and the UTF-8 forms of
  the long s and the Kelvin sign.\<close>

definition placeholder_letter :: "string \<Rightarrow> bool" where
  "placeholder_letter s \<longleftrightarrow>
     (s \<noteq> [] \<and> is_alpha (hd s)) \<or> prefix [CHR 0xC5, CHR 0xBF] s \<or> prefix [CHR 0xE2, CHR 0x84, CHR 0xAA] s"

fun regexpPlaceholder :: "string \<Rightarrow> bool" where
  "regexpPlaceholder [] = False"
| "regexpPlaceholder (c # cs) =
     ((prefix ''/:'' (c # cs) \<and> placeholder_letter (drop 2 (c # cs))) \<or> regexpPlaceholder cs)"

definition validateURL :: "string \<Rightarrow> redirect_error option" where
  "validateURL urlText =
     (case url_Parse urlText of
        None \<Rightarrow> Some errFailedToParseURL
      | Some url \<Rightarrow>
          (if u_Host url \<noteq> [] \<or> u_Scheme url \<noteq> [] then Some errNoDomainLevelRedirects
           else if \<not> HasPrefix (u_Path url) ''/'' then Some errNoStartingForwardSlashInURLPath
           else if Contains (u_Path url) ''*'' then Some errNoSplats
           else if regexpPlaceholder (u_Path url) then Some errNoPlaceholders
           else None))"

definition validateRule :: "rule \<Rightarrow> redirect_error option" where
  "validateRule r =
     (case validateURL (ru_From r) of
        Some err \<Rightarrow> Some err
      | None \<Rightarrow>
          (case validateURL (ru_To r) of
             Some err \<Rightarrow> Some err
           | None \<Rightarrow>
               (if ru_Params r \<noteq> None then Some errNoParams
                else if ru_Status r \<noteq> 301 \<and> ru_Status r \<noteq> 302 then Some errUnsupportedStatus
                else if ru_Force r then Some errNoForce
                else None)))"

definition normalizePath :: "string \<Rightarrow> string" where
  "normalizePath path = TrimSuffix path ''/'' @ ''/''"

section \<open>Matching and rewriting\<close>

fun match_rules :: "rule list \<Rightarrow> url \<Rightarrow> rule option" where
  "match_rules [] url = None"
| "match_rules (rule # rules) url =
     (if normalizePath (ru_From rule) = normalizePath (u_Path url) \<and> validateRule rule = None
      then Some rule else match_rules rules url)"

definition redirects_match :: "Redirects \<Rightarrow> url \<Rightarrow> rule option" where
  "redirects_match r url = match_rules (rd_rules r) url"

definition Rewrite :: "Redirects \<Rightarrow> url \<Rightarrow> (url \<times> int) result" where
  "Rewrite r url =
     (case redirects_match r url of
        None \<Rightarrow> Inl ErrNoRedirect
      | Some rule \<Rightarrow>
          (case url_Parse_ref url (ru_To rule) of
             None \<Rightarrow> Inl (ErrMsg (''parse '' @ ru_To rule))
           | Some newURL \<Rightarrow> Inr (newURL, ru_Status rule)))"

definition rule_message :: "nat \<Rightarrow> rule \<Rightarrow> string" where
  "rule_message i rule =
     (case validateRule rule of
        Some err \<Rightarrow> ''rule '' @ FormatInt (int i + 1) @ '': error: '' @ redirect_error_Error err
      | None \<Rightarrow> ''rule '' @ FormatInt (int i + 1) @ '': valid'')"

definition redirects_Status :: "Redirects \<Rightarrow> string" where
  "redirects_Status r =
     (case rd_error r of
        Some err \<Rightarrow> ''parse error: '' @ redirect_error_Error err
      | None \<Rightarrow>
          join_with ''\<newline>''
            ((FormatInt (int (length (rd_rules r))) @ '' rules'')
             # map (\<lambda>(i, rule). rule_message i rule) (enumerate 0 (rd_rules r))))"

definition ParseRedirects :: "(vfs_file \<Rightarrow> rule list option) \<Rightarrow> vfs_root \<Rightarrow> Redirects" where
  "ParseRedirects netlify root =
     (case rt_Lstat root ConfigFile of
        Inl _ \<Rightarrow> \<lparr>rd_rules = [], rd_error = Some errConfigNotFound\<rparr>
      | Inr fi \<Rightarrow>
          (if fi_mode fi \<noteq> ModeRegular then \<lparr>rd_rules = [], rd_error = Some errNeedRegularFile\<rparr>
           else if fi_size fi > maxConfigSize then \<lparr>rd_rules = [], rd_error = Some errFileTooLarge\<rparr>
           else (case rt_Open root ConfigFile of
                   Inl _ \<Rightarrow> \<lparr>rd_rules = [], rd_error = Some errFailedToOpenConfig\<rparr>
                 | Inr reader \<Rightarrow>
                     (case netlify reader of
                        None \<Rightarrow> \<lparr>rd_rules = [], rd_error = Some errFailedToParseConfig\<rparr>
                      | Some redirectRules \<Rightarrow> \<lparr>rd_rules = redirectRules, rd_error = None\<rparr>))))"

section \<open>The rewritten URL\<close>

lemma unescape_slash: "url_unescape encodePath (slash # cs) = map_option (Cons slash) (url_unescape encodePath cs)"
  by simp

lemma setPath_ignored_slash:
  assumes "HasPrefix (u_Path u) ''/''"
  shows "HasPrefix (u_Path (setPath_ignored u (slash # p))) ''/''"
proof (cases "url_unescape encodePath p")
  case None
  then show ?thesis using assms unescape_slash [of p] by (simp add: setPath_ignored_def setPath_def)
next
  case (Some q)
  then have "u_Path (setPath_ignored u (slash # p)) = slash # q"
    using unescape_slash [of p] by (simp add: setPath_ignored_def setPath_def)
  then show ?thesis by (simp add: HasPrefix_def)
qed

lemma url_escape_Nil_iff [simp]: "url_escape m s = [] \<longleftrightarrow> s = []"
  by (cases s) (auto simp: url_escape_def escape_byte_def)

lemma EscapedPath_ne: "HasPrefix (u_Path u) ''/'' \<Longrightarrow> EscapedPath u \<noteq> []"
  by (auto simp: EscapedPath_def HasPrefix_def)

lemma url_resolvePath_slash:
  assumes "base \<noteq> [] \<or> ref \<noteq> []"
  shows "\<exists>p. url_resolvePath base ref = slash # p"
  using assms by (auto simp: url_resolvePath_def Let_def)

lemma parse_rest_opaque:
  "parse_rest u rest = Some u' \<Longrightarrow> u_Opaque u = [] \<Longrightarrow> u_Scheme u = [] \<Longrightarrow> u_Opaque u' = []"
  by (auto simp: parse_rest_def setPath_def split: if_split_asm option.splits prod.splits)

lemma parse_rest_scheme: "parse_rest u rest = Some u' \<Longrightarrow> u_Scheme u' = u_Scheme u"
  by (auto simp: parse_rest_def setPath_def split: if_split_asm option.splits prod.splits)

lemma url_parse_nofrag_opaque:
  assumes "url_parse_nofrag raw = Some u" "u_Scheme u = []"
  shows "u_Opaque u = []"
proof (cases "raw = ''*''")
  case True
  then show ?thesis using assms by (auto simp: url_parse_nofrag_def empty_url_def split: if_split_asm)
next
  case False
  then obtain u0 rest where p: "parse_rest u0 rest = Some u" and o: "u_Opaque u0 = []"
    using assms(1)
    by (auto simp: url_parse_nofrag_def Let_def empty_url_def split: if_split_asm option.splits prod.splits)
  then show ?thesis using assms(2) parse_rest_opaque [OF p o] parse_rest_scheme [OF p] by simp
qed

lemma url_Parse_opaque:
  assumes "url_Parse raw = Some u" "u_Scheme u = []"
  shows "u_Opaque u = []"
  using assms url_parse_nofrag_opaque
  by (fastforce simp: url_Parse_def Let_def split: if_split_asm option.splits)

lemma validateURL_None:
  assumes "validateURL t = None"
  obtains u where "url_Parse t = Some u" "u_Host u = []" "u_Scheme u = []" "HasPrefix (u_Path u) ''/''"
    "\<not> Contains (u_Path u) ''*''" "\<not> regexpPlaceholder (u_Path u)" "u_Opaque u = []"
  using assms url_Parse_opaque by (auto simp: validateURL_def split: option.splits if_split_asm)

lemma validateRule_None:
  assumes "validateRule r = None"
  shows "validateURL (ru_From r) = None" "validateURL (ru_To r) = None" "ru_Status r \<in> {301, 302}"
    "ru_Params r = None" "\<not> ru_Force r"
  using assms by (auto simp: validateRule_def split: option.splits if_split_asm)

lemma ResolveReference_path:
  assumes "HasPrefix (u_Path ref) ''/''" "u_Host ref = []" "u_Scheme ref = []" "u_Opaque ref = []"
  shows "HasPrefix (u_Path (ResolveReference u ref)) ''/''"
proof -
  have ne: "EscapedPath ref \<noteq> []" using assms(1) by (rule EscapedPath_ne)
  then obtain p p' where p: "url_resolvePath (EscapedPath ref) [] = slash # p"
    "url_resolvePath (EscapedPath u) (EscapedPath ref) = slash # p'"
    using url_resolvePath_slash by meson
  have pth: "u_Path ref \<noteq> []" using assms(1) by (auto simp: HasPrefix_def)
  show ?thesis
    using assms p pth by (cases "u_User ref") (simp_all add: ResolveReference_def setPath_ignored_slash)
qed

lemma match_rules_first:
  "match_rules rules u = None \<and>
     (\<forall>r \<in> set rules. normalizePath (ru_From r) = normalizePath (u_Path u) \<longrightarrow> validateRule r \<noteq> None) \<or>
   (\<exists>pre rule post. match_rules rules u = Some rule \<and> rules = pre @ rule # post \<and>
      normalizePath (ru_From rule) = normalizePath (u_Path u) \<and> validateRule rule = None \<and>
      (\<forall>r \<in> set pre. normalizePath (ru_From r) = normalizePath (u_Path u) \<longrightarrow> validateRule r \<noteq> None))"
proof (induction rules)
  case Nil
  then show ?case by simp
next
  case (Cons a rules)
  let ?m = "\<lambda>r. normalizePath (ru_From r) = normalizePath (u_Path u) \<and> validateRule r = None"
  show ?case
  proof (cases "?m a")
    case True
    then have "match_rules (a # rules) u = Some a \<and> a # rules = [] @ a # rules" by simp
    with True show ?thesis by (metis empty_iff empty_set)
  next
    case False
    then have eq: "match_rules (a # rules) u = match_rules rules u" by auto
    from Cons.IH show ?thesis
    proof (elim disjE exE conjE)
      fix pre rule post
      assume h: "match_rules rules u = Some rule" "rules = pre @ rule # post"
        "normalizePath (ru_From rule) = normalizePath (u_Path u)" "validateRule rule = None"
        "\<forall>r \<in> set pre. normalizePath (ru_From r) = normalizePath (u_Path u) \<longrightarrow> validateRule r \<noteq> None"
      then have "a # rules = (a # pre) @ rule # post" by simp
      with h eq False show ?thesis by (metis set_ConsD)
    qed (use eq False in auto)
  qed
qed

lemma Rewrite_cases:
  "Rewrite rd u = Inl ErrNoRedirect \<and>
     (\<forall>r \<in> set (rd_rules rd). normalizePath (ru_From r) = normalizePath (u_Path u) \<longrightarrow> validateRule r \<noteq> None) \<or>
   (\<exists>pre rule post u'. Rewrite rd u = Inr (u', ru_Status rule) \<and> rd_rules rd = pre @ rule # post \<and>
      normalizePath (ru_From rule) = normalizePath (u_Path u) \<and> validateRule rule = None \<and>
      (\<forall>r \<in> set pre. normalizePath (ru_From r) = normalizePath (u_Path u) \<longrightarrow> validateRule r \<noteq> None) \<and>
      url_Parse_ref u (ru_To rule) = Some u' \<and> HasPrefix (u_Path u') ''/'' \<and> ru_Status rule \<in> {301, 302})"
  using match_rules_first [of "rd_rules rd" u]
proof (elim disjE exE conjE)
  assume "match_rules (rd_rules rd) u = None"
    "\<forall>r \<in> set (rd_rules rd). normalizePath (ru_From r) = normalizePath (u_Path u) \<longrightarrow> validateRule r \<noteq> None"
  then show ?thesis by (simp add: Rewrite_def redirects_match_def)
next
  fix pre rule post
  assume h: "match_rules (rd_rules rd) u = Some rule" "rd_rules rd = pre @ rule # post"
    "normalizePath (ru_From rule) = normalizePath (u_Path u)" "validateRule rule = None"
    "\<forall>r \<in> set pre. normalizePath (ru_From r) = normalizePath (u_Path u) \<longrightarrow> validateRule r \<noteq> None"
  obtain ref where ref: "url_Parse (ru_To rule) = Some ref" "u_Host ref = []" "u_Scheme ref = []"
    "HasPrefix (u_Path ref) ''/''" "u_Opaque ref = []"
    using validateURL_None [OF validateRule_None(2) [OF h(4)]] by metis
  have "Rewrite rd u = Inr (ResolveReference u ref, ru_Status rule)"
    using h(1) ref(1) by (simp add: Rewrite_def redirects_match_def url_Parse_ref_def)
  moreover have "url_Parse_ref u (ru_To rule) = Some (ResolveReference u ref)" using ref(1) by (simp add: url_Parse_ref_def)
  ultimately show ?thesis
    using h ResolveReference_path [OF ref(4,2,3,5)] validateRule_None(3) [OF h(4)] by blast
qed

text \<open>C33. Rewriting a URL takes the first rule of the file that matches the path (up to one trailing
  slash) and is valid, and answers with that rule's status, 301 or 302, and a target whose path is
  rooted; it never fails in any other way than reporting that no valid rule matches.\<close>

theorem Rewrite_first_valid:
  "Rewrite rd u = Inl ErrNoRedirect \<and>
     (\<forall>r \<in> set (rd_rules rd). normalizePath (ru_From r) = normalizePath (u_Path u) \<longrightarrow> validateRule r \<noteq> None) \<or>
   (\<exists>pre rule post u'. Rewrite rd u = Inr (u', ru_Status rule) \<and> rd_rules rd = pre @ rule # post \<and>
      normalizePath (ru_From rule) = normalizePath (u_Path u) \<and> validateRule rule = None \<and>
      (\<forall>r \<in> set pre. normalizePath (ru_From r) = normalizePath (u_Path u) \<longrightarrow> validateRule r \<noteq> None) \<and>
      url_Parse_ref u (ru_To rule) = Some u' \<and> HasPrefix (u_Path u') ''/'' \<and> ru_Status rule \<in> {301, 302})"
  by (rule Rewrite_cases)

lemma Rewrite_Inr:
  assumes "Rewrite rd u = Inr (u', st)"
  shows "HasPrefix (u_Path u') ''/''" "st \<in> {301, 302}"
  using Rewrite_cases [of rd u] assms by auto

definition demo_rule :: "string \<Rightarrow> string \<Rightarrow> rule" where
  "demo_rule from to = \<lparr>ru_From = from, ru_To = to, ru_Status = 301, ru_Force = False, ru_Params = None\<rparr>"

definition demo_rules :: Redirects where
  "demo_rules = \<lparr>rd_rules = [demo_rule ''/a'' ''https://gitlab.com'', demo_rule ''/a'' ''/b.html'', demo_rule ''/a'' ''/c.html''],
     rd_error = None\<rparr>"

theorem Rewrite_first_valid_witness:
  "Rewrite demo_rules (empty_url\<lparr>u_Path := ''/a/''\<rparr>) = Inr (empty_url\<lparr>u_Path := ''/b.html''\<rparr>, 301) \<and>
   HasPrefix (u_Path (empty_url\<lparr>u_Path := ''/b.html''\<rparr>)) ''/''"
proof -
  have v: "Rewrite demo_rules (empty_url\<lparr>u_Path := ''/a/''\<rparr>) = Inr (empty_url\<lparr>u_Path := ''/b.html''\<rparr>, 301)"
    by code_simp
  show ?thesis using Rewrite_first_valid [of demo_rules "empty_url\<lparr>u_Path := ''/a/''\<rparr>"] v by auto
qed

section \<open>Where a redirect leads\<close>

text \<open>A reference a browser resolves on the host it came from: one leading slash, not two.\<close>

definition same_host_ref :: "string \<Rightarrow> bool" where
  "same_host_ref s \<longleftrightarrow> HasPrefix s ''/'' \<and> \<not> HasPrefix s ''//''"

lemma clean_rooted_same_host:
  assumes "path_IsAbs p"
  shows "same_host_ref (path_Clean p)"
proof -
  obtain cs where cs: "list_all clean_elem cs" "path_Clean p = slash # join_with ''/'' cs"
    using path_Clean_rooted [OF assms] by blast
  then show ?thesis using not_IsAbs_elems [OF cs(1)]
    by (auto simp: same_host_ref_def HasPrefix_def path_IsAbs_def prefix_def)
qed

lemma same_host_append:
  assumes "same_host_ref s" "tl s \<noteq> [] \<or> \<not> HasPrefix q ''/''"
  shows "same_host_ref (s @ q)"
  using assms by (cases s; cases "tl s") (auto simp: same_host_ref_def HasPrefix_def)

lemma same_host_hexEscape:
  assumes "same_host_ref s"
  shows "same_host_ref (hexEscapeNonASCII s)"
proof -
  obtain t where s: "s = slash # t" "t = [] \<or> hd t \<noteq> slash"
    using assms by (cases s; cases "tl s") (auto simp: same_host_ref_def HasPrefix_def)
  have "byte slash = 47" by code_simp
  then show ?thesis using s by (cases t) (auto simp: same_host_ref_def HasPrefix_def hexEscapeNonASCII_def)
qed

lemma redirect_target_same_host:
  assumes "same_host_ref t"
  shows "same_host_ref (redirect_target old t)"
proof (cases "url_Parse t")
  case None
  then show ?thesis using assms by (simp add: redirect_target_def)
next
  case (Some u)
  let ?base = "before_byte (CHR ''?'') t" and ?query = "from_byte (CHR ''?'') t"
  have t: "t \<noteq> []" "hd t = slash" using assms by (auto simp: same_host_ref_def HasPrefix_def prefix_def)
  have q: "\<not> HasPrefix ?query ''/''"
    using from_byte_cases [of "CHR ''?''" t] by (auto simp: HasPrefix_def)
  have "path_IsAbs ?base" using t by (cases t) (auto simp: path_IsAbs_def HasPrefix_def before_byte_def)
  then have c: "same_host_ref (path_Clean ?base)" by (rule clean_rooted_same_host)
  define c' where "c' = (if HasSuffix ?base ''/'' \<and> \<not> HasSuffix (path_Clean ?base) ''/'' then path_Clean ?base @ ''/'' else path_Clean ?base)"
  have "same_host_ref c'"
  proof (cases "HasSuffix (path_Clean ?base) ''/''")
    case False
    then have "tl (path_Clean ?base) \<noteq> []"
      using c by (cases "path_Clean ?base") (auto simp: same_host_ref_def HasPrefix_def HasSuffix_def suffix_def)
    with c show ?thesis by (simp add: c'_def same_host_append)
  qed (use c in \<open>simp add: c'_def\<close>)
  then have "same_host_ref (c' @ ?query)" using q by (simp add: same_host_append)
  then show ?thesis using assms Some t by (simp add: redirect_target_def Let_def c'_def)
qed

end
