(* ===== verification/Symlinks.thy ===== *)
theory Symlinks
  imports Vfs
begin

text \<open>
  Properties of the symlink walk (\<^verbatim>\<open>internal/serving/disk/symlink\<close>) and of link targets read
  through the local root: a path without links resolves to itself, a link that leads back to itself
  ends in an error after 255 links, a backtrack over the leading slash is refused, and reading a link that
  points into the root gives a relative target that leads to the same file.
\<close>

section \<open>Taking a path apart\<close>

lemma takeWhile_elem: "slash \<notin> set e \<Longrightarrow> takeWhile (\<lambda>c. c \<noteq> slash) (e @ slash # s) = e"
  and dropWhile_elem: "slash \<notin> set e \<Longrightarrow> dropWhile (\<lambda>c. c \<noteq> slash) (e @ slash # s) = slash # s"
  by (auto simp: takeWhile_append dropWhile_append)

lemma takeWhile_no_slash: "slash \<notin> set e \<Longrightarrow> takeWhile (\<lambda>c. c \<noteq> slash) e = e"
  and dropWhile_no_slash: "slash \<notin> set e \<Longrightarrow> dropWhile (\<lambda>c. c \<noteq> slash) e = []"
  by (auto simp: takeWhile_eq_all_conv)

text \<open>What is left of a path after some of its elements were read.\<close>

fun rest_of :: "string list \<Rightarrow> string" where
  "rest_of [] = []"
| "rest_of (e # es) = slash # e @ rest_of es"

lemma join_Cons_rest: "join_with ''/'' (e # es) = e @ rest_of es"
  by (induction es arbitrary: e) auto

lemma rest_of_tl: "es \<noteq> [] \<Longrightarrow> rest_of es = slash # join_with ''/'' es"
  by (cases es) (auto simp: join_Cons_rest)

lemma read_elem:
  assumes "clean_elem e"
  shows "takeWhile (\<lambda>c. c \<noteq> slash) (dropWhile (\<lambda>c. c = slash) (e @ rest_of es)) = e"
    and "dropWhile (\<lambda>c. c \<noteq> slash) (dropWhile (\<lambda>c. c = slash) (e @ rest_of es)) = rest_of es"
    and "dropWhile (\<lambda>c. c = slash) (slash # e @ rest_of es) = dropWhile (\<lambda>c. c = slash) (e @ rest_of es)"
proof -
  from assms obtain a b where e: "e = a # b" "a \<noteq> slash" "slash \<notin> set e"
    by (cases e) (auto simp: clean_elem_def)
  then have "dropWhile (\<lambda>c. c = slash) (e @ rest_of es) = e @ rest_of es" by simp
  then show "takeWhile (\<lambda>c. c \<noteq> slash) (dropWhile (\<lambda>c. c = slash) (e @ rest_of es)) = e"
    and "dropWhile (\<lambda>c. c \<noteq> slash) (dropWhile (\<lambda>c. c = slash) (e @ rest_of es)) = rest_of es"
    using e by (cases es; simp add: takeWhile_elem dropWhile_elem takeWhile_no_slash dropWhile_no_slash)+
  show "dropWhile (\<lambda>c. c = slash) (slash # e @ rest_of es) = dropWhile (\<lambda>c. c = slash) (e @ rest_of es)"
    by simp
qed

section \<open>Paths without links\<close>

text \<open>The elements of a path exist, all but the last are directories, and none is a link.\<close>

definition plain_prefixes :: "vfs_root \<Rightarrow> string list \<Rightarrow> string list \<Rightarrow> bool" where
  "plain_prefixes root ds es \<longleftrightarrow>
     (\<forall>k \<in> {1..length es}. \<exists>fi. rt_Lstat root (join_with ''/'' (ds @ take k es)) = Inr fi \<and>
        fi_mode fi \<noteq> ModeSymlink \<and> (k < length es \<longrightarrow> fi_mode fi = ModeDir))"

lemma plain_prefixes_Cons:
  assumes "plain_prefixes root ds (e # es)"
  shows "\<exists>fi. rt_Lstat root (join_with ''/'' (ds @ [e])) = Inr fi \<and>
           fi_mode fi \<noteq> ModeSymlink \<and> (es \<noteq> [] \<longrightarrow> fi_mode fi = ModeDir)"
    and "plain_prefixes root (ds @ [e]) es"
proof -
  have "1 \<in> {1..length (e # es)}" by simp
  then show "\<exists>fi. rt_Lstat root (join_with ''/'' (ds @ [e])) = Inr fi \<and>
           fi_mode fi \<noteq> ModeSymlink \<and> (es \<noteq> [] \<longrightarrow> fi_mode fi = ModeDir)"
    using assms unfolding plain_prefixes_def by fastforce
  show "plain_prefixes root (ds @ [e]) es"
    unfolding plain_prefixes_def
  proof
    fix k assume "k \<in> {1..length es}"
    then have "Suc k \<in> {1..length (e # es)}" by simp
    then show "\<exists>fi. rt_Lstat root (join_with ''/'' ((ds @ [e]) @ take k es)) = Inr fi \<and>
        fi_mode fi \<noteq> ModeSymlink \<and> (k < length es \<longrightarrow> fi_mode fi = ModeDir)"
      using assms unfolding plain_prefixes_def by fastforce
  qed
qed

lemma last_join_elems: "list_all clean_elem ds \<Longrightarrow> ds \<noteq> [] \<Longrightarrow> last (join_with ''/'' ds) \<noteq> slash"
proof (induction ds rule: induct_list012)
  case (2 x)
  then show ?case by (auto simp: clean_elem_def dest: last_in_set)
next
  case (3 x y zs)
  then show ?case using join_elems_ne [of "y # zs"] by auto
qed simp

lemma next_dest:
  assumes "list_all clean_elem ds"
  shows "(if join_with ''/'' ds \<noteq> [] \<and> last (join_with ''/'' ds) \<noteq> slash then join_with ''/'' ds @ ''/'' else join_with ''/'' ds) @ e
           = join_with ''/'' (ds @ [e])"
proof (cases "ds = []")
  case False
  with assms show ?thesis using join_elems_ne last_join_elems join_with_append [of ds "[e]" "''/''"] by auto
qed simp

lemma clean_elem_not_dots: "clean_elem e \<Longrightarrow> e \<noteq> [] \<and> e \<noteq> ''.'' \<and> e \<noteq> ''..''"
  by (simp add: clean_elem_def)

lemma walk_plain_step:
  assumes e: "clean_elem e" and ds: "list_all clean_elem ds"
    and rest: "dropWhile (\<lambda>c. c = slash) rest = dropWhile (\<lambda>c. c = slash) (e @ rest_of es)"
    and fi: "rt_Lstat root (join_with ''/'' (ds @ [e])) = Inr fi" "fi_mode fi \<noteq> ModeSymlink"
            "es \<noteq> [] \<longrightarrow> fi_mode fi = ModeDir"
  shows "walk_loop root vol rest (join_with ''/'' ds) n = walk_loop root vol (rest_of es) (join_with ''/'' (ds @ [e])) n"
proof -
  have "rest_of es \<noteq> [] \<longleftrightarrow> es \<noteq> []" by (cases es) auto
  then show ?thesis
    using clean_elem_not_dots [OF e] fi next_dest [OF ds, of e]
    by (subst walk_loop.simps) (simp add: Let_def rest read_elem [OF e], blast)
qed

lemma walk_loop_done: "walk_loop root vol [] dest n = Inr (path_Clean dest)"
  by (subst walk_loop.simps) simp

lemma walk_plain:
  "list_all clean_elem ds \<Longrightarrow> list_all clean_elem es \<Longrightarrow> plain_prefixes root ds es \<Longrightarrow>
     dropWhile (\<lambda>c. c = slash) rest = dropWhile (\<lambda>c. c = slash) (rest_of es) \<Longrightarrow> (es = [] \<longrightarrow> rest = []) \<Longrightarrow>
     walk_loop root vol rest (join_with ''/'' ds) n = Inr (path_Clean (join_with ''/'' (ds @ es)))"
proof (induction es arbitrary: ds rest)
  case Nil
  then show ?case by (simp add: walk_loop_done)
next
  case (Cons e es)
  from plain_prefixes_Cons [OF Cons.prems(3)] obtain fi where
    fi: "rt_Lstat root (join_with ''/'' (ds @ [e])) = Inr fi" "fi_mode fi \<noteq> ModeSymlink"
        "es \<noteq> [] \<longrightarrow> fi_mode fi = ModeDir" and pp: "plain_prefixes root (ds @ [e]) es" by blast
  have e: "clean_elem e" and es: "list_all clean_elem es" using Cons.prems(2) by auto
  have r: "dropWhile (\<lambda>c. c = slash) rest = dropWhile (\<lambda>c. c = slash) (e @ rest_of es)"
    using Cons.prems(4) by simp
  have "walk_loop root vol (rest_of es) (join_with ''/'' (ds @ [e])) n
          = Inr (path_Clean (join_with ''/'' ((ds @ [e]) @ es)))"
    by (rule Cons.IH) (use Cons.prems(1) e es pp in auto)
  then show ?case using walk_plain_step [OF e Cons.prems(1) r fi, of vol n] by simp
qed

text \<open>A relative path whose elements all exist, with directories on the way and no symbolic
  link, is resolved to itself.\<close>

theorem EvalSymlinks_plain:
  assumes "list_all clean_elem es" and "es \<noteq> []" and "plain_prefixes root [] es"
  shows "EvalSymlinks root (join_with ''/'' es) = Inr (join_with ''/'' es)"
proof -
  have hd: "hd (join_with ''/'' es) \<noteq> slash"
    using not_IsAbs_elems [OF assms(1)] join_elems_ne [OF assms(1,2)]
    by (cases "join_with ''/'' es") (auto simp: path_IsAbs_def HasPrefix_def)
  have "dropWhile (\<lambda>c. c = slash) (join_with ''/'' es) = dropWhile (\<lambda>c. c = slash) (rest_of es)"
    using assms(2) by (simp add: rest_of_tl)
  from walk_plain [of "[]", OF _ assms(1,3) this, of "[]" 0] assms(2) hd
  show ?thesis
    by (simp add: EvalSymlinks_def walkSymlinks_def path_Clean_relative_elems [OF assms(1,2)])
qed

text \<open>A small site: a directory with a page, a link to the page, a link to itself.\<close>

definition demo_os :: os_fs where
  "demo_os = \<lparr>os_cwd = ''/srv'', os_EvalSymlinks = Inr,
     os_lookup = (\<lambda>p. if p = ''/srv/p'' then Inr (OsDir 0)
        else if p = ''/srv/p/d'' then Inr (OsDir 0)
        else if p = ''/srv/p/d/x.html'' then Inr (OsRegular ''hello'' 7)
        else if p = ''/srv/p/link'' then Inr (OsSymlink ''/srv/p/d/x.html'' 0)
        else if p = ''/srv/p/loop'' then Inr (OsSymlink ''loop'' 0)
        else if p = ''/srv/p/out'' then Inr (OsSymlink ''/etc/passwd'' 0)
        else Inl ErrOSNotExist),
     os_open_error = (\<lambda>_. None), os_fstat_error = (\<lambda>_. None)\<rparr>"

theorem EvalSymlinks_plain_witness:
  "EvalSymlinks (local_root demo_os ''/srv/p'') ''d/x.html'' = Inr ''d/x.html''"
proof -
  have c: "list_all clean_elem [''d'', ''x.html'']" by code_simp
  have k: "{1..length [''d'', ''x.html'']} = {1, 2}" by auto
  have "rt_Lstat (local_root demo_os ''/srv/p'') ''d'' = Inr \<lparr>fi_mode = ModeDir, fi_size = 4096, fi_modtime = 0\<rparr>"
    "rt_Lstat (local_root demo_os ''/srv/p'') ''d/x.html'' = Inr \<lparr>fi_mode = ModeRegular, fi_size = 5, fi_modtime = 7\<rparr>"
    by code_simp+
  then have p: "plain_prefixes (local_root demo_os ''/srv/p'') [] [''d'', ''x.html'']"
    unfolding plain_prefixes_def k by simp
  show ?thesis using EvalSymlinks_plain [OF c _ p] by simp
qed

section \<open>Links\<close>

text \<open>One relative link, read as the only element left.\<close>

lemma walk_link_step:
  assumes e: "clean_elem a" and l: "rt_Lstat root a = Inr fi" "fi_mode fi = ModeSymlink" "rt_Readlink root a = Inr link"
    and link: "hd link \<noteq> slash"
  shows "walk_loop root [] a [] n =
           (if 255 < n + 1 then Inl (ErrMsg ''EvalSymlinks: too many links'') else walk_loop root [] link [] (n + 1))"
proof -
  have ls: "last_sep (length ([] :: string)) a = None" using e by (simp add: last_sep_def clean_elem_def)
  have r: "takeWhile (\<lambda>c. c \<noteq> slash) (dropWhile (\<lambda>c. c = slash) a) = a"
    "dropWhile (\<lambda>c. c \<noteq> slash) (dropWhile (\<lambda>c. c = slash) a) = []"
    using read_elem(1,2) [OF e, of "[]"] by (simp_all only: rest_of.simps append_Nil2)
  have d: "a \<noteq> []" "a \<noteq> ''.''" "a \<noteq> ''..''" using clean_elem_not_dots [OF e] by auto
  show ?thesis
    unfolding walk_loop.simps [of root "[]" a "[]" n] Let_def r
    by (simp only: d if_False append_Nil append_Nil2 l sum.case link ls option.case simp_thms)
qed

lemma walk_self_loop:
  assumes e: "clean_elem a" and l: "rt_Lstat root a = Inr fi" "fi_mode fi = ModeSymlink" "rt_Readlink root a = Inr a"
  shows "n \<le> 255 \<Longrightarrow> walk_loop root [] a [] n = Inl (ErrMsg ''EvalSymlinks: too many links'')"
proof (induction "255 - n" arbitrary: n)
  case 0
  have "hd a \<noteq> slash" using e by (auto simp: clean_elem_def dest: hd_in_set)
  from walk_link_step [OF e l this, of n] 0 show ?case by simp
next
  case (Suc m)
  have "hd a \<noteq> slash" using e by (auto simp: clean_elem_def dest: hd_in_set)
  from walk_link_step [OF e l this, of n]
  have step: "walk_loop root [] a [] n =
    (if 255 < n + 1 then Inl (ErrMsg ''EvalSymlinks: too many links'') else walk_loop root [] a [] (n + 1))" .
  have m: "m = 255 - (n + 1)" "n + 1 \<le> 255" using Suc.hyps(2) by linarith+
  from Suc.hyps(1) [OF m] show ?case unfolding step by (simp only: if_cancel)
qed

text \<open>A symbolic link that leads back to itself does not hang the walk: it is followed 255
  times and ends in the error for too many links.\<close>

theorem EvalSymlinks_self_loop:
  assumes "clean_elem a" and "rt_Lstat root a = Inr fi" "fi_mode fi = ModeSymlink" "rt_Readlink root a = Inr a"
  shows "EvalSymlinks root a = Inl (ErrMsg ''EvalSymlinks: too many links'')"
proof -
  have "hd a \<noteq> slash" using assms(1) by (auto simp: clean_elem_def dest: hd_in_set)
  then show ?thesis using walk_self_loop [OF assms, of 0]
    by (simp add: EvalSymlinks_def walkSymlinks_def)
qed

theorem EvalSymlinks_self_loop_witness:
  "EvalSymlinks (local_root demo_os ''/srv/p'') ''loop'' = Inl (ErrMsg ''EvalSymlinks: too many links'')"
proof -
  have "clean_elem ''loop''" by code_simp
  moreover have "rt_Lstat (local_root demo_os ''/srv/p'') ''loop'' = Inr \<lparr>fi_mode = ModeSymlink, fi_size = 4, fi_modtime = 0\<rparr>"
    "rt_Readlink (local_root demo_os ''/srv/p'') ''loop'' = Inr ''loop''"
    by code_simp+
  ultimately show ?thesis using EvalSymlinks_self_loop by simp
qed

text \<open>A link whose target lies inside the root is read as a relative target, and following it
  from the link's directory leads to exactly the file the operating system's link names.\<close>

theorem local_Readlink_inside:
  assumes "clean_root r" and "validatePath r name = Inr (full, v)"
    and "os_Readlink os full = Inr target" and "HasPrefix target (r @ ''/'')" and "path_Clean target = target"
  shows "\<exists>rel. local_Readlink os r name = Inr rel \<and> path_Join [filepath_Dir full, rel] = target"
proof -
  obtain rs where rs: "list_all clean_elem rs" "r = slash # join_with ''/'' rs"
    using clean_root_elems [OF assms(1)] by blast
  have "path_IsAbs target" using assms(4) rs(2) by (auto simp: HasPrefix_iff)
  then obtain ts where ts: "list_all clean_elem ts" "target = slash # join_with ''/'' ts"
    using path_Clean_rooted assms(5) by metis
  have "path_IsAbs full" using validatePath_cases [OF assms(2)] rs(2) by auto
  then obtain s where s: "full = slash # s" by (auto simp: path_IsAbs_def HasPrefix_iff)
  have "upto_last slash full \<noteq> []" using s by (simp add: upto_last_def)
  moreover have "upto_last slash full @ after_last slash full = full" by simp
  ultimately have "hd (upto_last slash full) = slash" using s by (metis hd_append2 list.sel(1))
  then have "path_IsAbs (upto_last slash full)"
    using \<open>upto_last slash full \<noteq> []\<close> by (cases "upto_last slash full") auto
  then obtain ds where ds: "list_all clean_elem ds" "filepath_Dir full = slash # join_with ''/'' ds"
    using path_Clean_rooted unfolding filepath_Dir_def by metis
  obtain rel where "filepath_Rel (filepath_Dir full) target = Some rel" "path_Join [filepath_Dir full, rel] = target"
    using filepath_Rel_join [OF ds(1) ts(1)] ds(2) ts(2) by metis
  then show ?thesis using assms(2,3,4) by (simp add: local_Readlink_def)
qed

theorem local_Readlink_inside_witness:
  "\<exists>rel. local_Readlink demo_os ''/srv/p'' ''link'' = Inr rel \<and> path_Join [filepath_Dir ''/srv/p/link'', rel] = ''/srv/p/d/x.html''"
proof (rule local_Readlink_inside)
  show "clean_root ''/srv/p''" by code_simp
  show "validatePath ''/srv/p'' ''link'' = Inr (''/srv/p/link'', ''link'')" by code_simp
  show "os_Readlink demo_os ''/srv/p/link'' = Inr ''/srv/p/d/x.html''" by code_simp
  show "HasPrefix ''/srv/p/d/x.html'' (''/srv/p'' @ ''/'')" by code_simp
  show "path_Clean ''/srv/p/d/x.html'' = ''/srv/p/d/x.html''" by code_simp
qed

end
