(* ===== verification/Http_Header.thy ===== *)
theory Http_Header
  imports Http_Base Complex_Main
begin

text \<open>
  Header parsing (\<^verbatim>\<open>internal/httputil/header\<close>) and content negotiation
  (\<^verbatim>\<open>internal/httputil\<close>): the octet classes, the token scanners, \<^verbatim>\<open>ParseList\<close>,
  \<^verbatim>\<open>ParseValueAndParams\<close>, \<^verbatim>\<open>ParseAccept\<close> and the two negotiation functions.

  A quality value is a \<^verbatim>\<open>float64\<close> computed from two \<^verbatim>\<open>int\<close> accumulators, which wrap at 64
  bits: the quotient is exact here (rounding is not modelled), and a zero denominator gives the
  infinities and the NaN of IEEE division.  Slices and array writes that would panic are
  \<^const>\<open>None\<close>.
\<close>

section \<open>Octets\<close>

definition oct_separators :: "char list" where
  "oct_separators = [CHR '' '', CHR 0x09, CHR 0x22] @ ''(),/:;<=>?@[]'' @ [CHR 0x5C] @ ''{}''"

definition isSpace_oct :: "char \<Rightarrow> bool" where
  "isSpace_oct c \<longleftrightarrow> c \<in> {CHR '' '', CHR 0x09, CHR 0x0D, CHR 0x0A}"

definition isToken_oct :: "char \<Rightarrow> bool" where
  "isToken_oct c \<longleftrightarrow>
     (let isCtl = (byte c \<le> 31 \<or> byte c = 127); isChar = (byte c \<le> 127); isSeparator = (c \<in> set oct_separators)
      in isChar \<and> \<not> isCtl \<and> \<not> isSeparator)"

section \<open>Scanners\<close>

definition skipSpace :: "string \<Rightarrow> string" where
  "skipSpace s = dropWhile isSpace_oct s"

definition expectToken :: "string \<Rightarrow> string \<times> string" where
  "expectToken s = (takeWhile isToken_oct s, dropWhile isToken_oct s)"

definition expectTokenSlash :: "string \<Rightarrow> string \<times> string" where
  "expectTokenSlash s =
     (takeWhile (\<lambda>b. isToken_oct b \<or> b = slash) s, dropWhile (\<lambda>b. isToken_oct b \<or> b = slash) s)"

datatype quality = Fin rat | PosInf | NegInf | NaN

fun q_less :: "quality \<Rightarrow> quality \<Rightarrow> bool" where
  "q_less (Fin a) (Fin b) = (a < b)"
| "q_less (Fin a) PosInf = True"
| "q_less NegInf (Fin b) = True"
| "q_less NegInf PosInf = True"
| "q_less _ _ = False"

definition q_div :: "int \<Rightarrow> int \<Rightarrow> int \<Rightarrow> quality" where
  "q_div q n d =
     (if d \<noteq> 0 then Fin (of_int q + of_int n / of_int d)
      else if n = 0 then NaN else if 0 < n then PosInf else NegInf)"

text \<open>The digits after the point, with the two accumulators.\<close>

fun quality_digits :: "int \<Rightarrow> int \<Rightarrow> string \<Rightarrow> int \<times> int \<times> string" where
  "quality_digits n d [] = (n, d, [])"
| "quality_digits n d (b # s) =
     (if byte b < 48 \<or> byte b > 57 then (n, d, b # s)
      else quality_digits (wrap64 (wrap64 (n * 10) + int (byte b) - 48)) (wrap64 (d * 10)) s)"

definition expectQuality :: "string \<Rightarrow> quality \<times> string" where
  "expectQuality s =
     (if s = [] then (Fin (- 1), [])
      else if hd s \<noteq> CHR ''0'' \<and> hd s \<noteq> CHR ''1'' then (Fin (- 1), [])
      else let q = (if hd s = CHR ''0'' then 0 else 1); s1 = tl s
      in if \<not> HasPrefix s1 ''.'' then (Fin (of_int q), s1)
         else let (n, d, rest) = quality_digits 0 1 (tl s1) in (q_div q n d, rest))"

section \<open>Accept headers\<close>

record AcceptSpec =
  as_Value :: string
  as_Q :: quality

text \<open>After a spec: the rest behind a comma, if there is one.\<close>

definition accept_next :: "string \<Rightarrow> string option" where
  "accept_next s = (let s1 = skipSpace s in if HasPrefix s1 '','' then Some (skipSpace (tl s1)) else None)"

text \<open>One spec at the front of a header value and what follows it; \<^const>\<open>None\<close> where the code goes
  on with the next header value.\<close>

definition accept_spec :: "string \<Rightarrow> (AcceptSpec \<times> string) option" where
  "accept_spec s =
     (let (v, s1) = expectTokenSlash s
      in if v = [] then None
         else let s2 = skipSpace s1
         in if HasPrefix s2 '';'' then
              (let s3 = skipSpace (tl s2)
               in if \<not> HasPrefix s3 ''q='' then None
                  else let (q, s4) = expectQuality (drop 2 s3)
                  in if q_less q (Fin 0) then None else Some (\<lparr>as_Value = v, as_Q = q\<rparr>, s4))
            else Some (\<lparr>as_Value = v, as_Q = Fin 1\<rparr>, s2))"

lemma length_quality_digits: "quality_digits n d s = (n', d', r) \<Longrightarrow> length r \<le> length s"
  by (induction n d s rule: quality_digits.induct) (auto split: if_splits)

lemma length_expectQuality: "expectQuality s = (q, r) \<Longrightarrow> length r \<le> length s"
  by (cases s; cases "tl s")
     (auto simp: expectQuality_def Let_def split: if_splits prod.splits dest!: length_quality_digits)

lemma length_skipSpace: "length (skipSpace s) \<le> length s"
  by (simp add: skipSpace_def length_dropWhile_le)

lemma accept_spec_shorter: "accept_spec s = Some (sp, r) \<Longrightarrow> length r < length s"
proof -
  assume a: "accept_spec s = Some (sp, r)"
  let ?P = "\<lambda>b. isToken_oct b \<or> b = slash"
  have ne: "takeWhile ?P s \<noteq> []" using a by (auto simp: accept_spec_def expectTokenSlash_def split: if_splits)
  have "length (takeWhile ?P s) + length (dropWhile ?P s) = length s"
    by (metis length_append takeWhile_dropWhile_id)
  then have d: "length (dropWhile ?P s) < length s" using ne by (cases "takeWhile ?P s") auto
  let ?s2 = "skipSpace (dropWhile ?P s)"
  have s2: "length ?s2 < length s" using d length_skipSpace [of "dropWhile ?P s"] by linarith
  show ?thesis
  proof (cases "HasPrefix ?s2 '';''")
    case True
    obtain q s4 where q: "expectQuality (drop 2 (skipSpace (tl ?s2))) = (q, s4)" by fastforce
    then have "r = s4" using a True by (auto simp: accept_spec_def expectTokenSlash_def Let_def split: if_splits)
    moreover have "length s4 \<le> length (skipSpace (tl ?s2))" using length_expectQuality [OF q] by simp
    moreover have "length (skipSpace (tl ?s2)) \<le> length ?s2" using length_skipSpace [of "tl ?s2"] by simp
    ultimately show ?thesis using s2 by simp
  next
    case False
    then have "r = ?s2" using a by (auto simp: accept_spec_def expectTokenSlash_def Let_def split: if_splits)
    then show ?thesis using s2 by simp
  qed
qed

lemma accept_next_le: "accept_next s = Some r \<Longrightarrow> length r \<le> length s"
proof -
  assume "accept_next s = Some r"
  then have "r = skipSpace (tl (skipSpace s))" by (auto simp: accept_next_def Let_def split: if_splits)
  then show ?thesis using length_skipSpace [of "tl (skipSpace s)"] length_skipSpace [of s] by simp
qed

function accept_loop :: "string \<Rightarrow> AcceptSpec list" where
  "accept_loop s =
     (case accept_spec s of
        None \<Rightarrow> []
      | Some (spec, s1) \<Rightarrow> spec # (case accept_next s1 of None \<Rightarrow> [] | Some s2 \<Rightarrow> accept_loop s2))"
  by pat_completeness auto
termination
  by (relation "measure length") (auto dest!: accept_spec_shorter accept_next_le)

declare accept_loop.simps [simp del]

definition ParseAccept :: "header \<Rightarrow> string \<Rightarrow> AcceptSpec list" where
  "ParseAccept h key = (case h key of None \<Rightarrow> [] | Some vs \<Rightarrow> concat (map accept_loop vs))"

section \<open>Comma separated lists\<close>

record list_state =
  ls_begin :: nat
  ls_end :: nat
  ls_escape :: bool
  ls_quote :: bool
  ls_result :: "string list"

text \<open>The slice \<^verbatim>\<open>s[begin:end]\<close>; out of range it panics.\<close>

definition slice :: "string \<Rightarrow> nat \<Rightarrow> nat \<Rightarrow> string option" where
  "slice s b e = (if b \<le> e \<and> e \<le> length s then Some (take (e - b) (drop b s)) else None)"

definition list_flush :: "string \<Rightarrow> list_state \<Rightarrow> list_state option" where
  "list_flush s st =
     (if ls_begin st < ls_end st then
        map_option (\<lambda>x. st\<lparr>ls_result := ls_result st @ [x]\<rparr>) (slice s (ls_begin st) (ls_end st))
      else Some st)"

definition list_step :: "string \<Rightarrow> list_state \<Rightarrow> nat \<Rightarrow> list_state option" where
  "list_step s st i =
     (let b = s ! i
      in if ls_escape st then Some (st\<lparr>ls_escape := False, ls_end := i + 1\<rparr>)
         else if ls_quote st then
           (if b = CHR 0x5C then Some (st\<lparr>ls_escape := True, ls_end := i + 1\<rparr>)
            else if b = CHR 0x22 then Some (st\<lparr>ls_quote := False, ls_end := i + 1\<rparr>)
            else Some (st\<lparr>ls_end := i + 1\<rparr>))
         else if b = CHR 0x22 then Some (st\<lparr>ls_quote := True, ls_end := i + 1\<rparr>)
         else if isSpace_oct b then
           (if ls_begin st = ls_end st then Some (st\<lparr>ls_begin := i + 1, ls_end := i + 1\<rparr>) else Some st)
         else if b = CHR '','' then
           map_option (\<lambda>st'. st'\<lparr>ls_begin := i + 1, ls_end := i + 1\<rparr>) (list_flush s st)
         else Some (st\<lparr>ls_end := i + 1\<rparr>))"

definition list_scan :: "string \<Rightarrow> string list option" where
  "list_scan s =
     (let st0 = \<lparr>ls_begin = 0, ls_end = 0, ls_escape = False, ls_quote = False, ls_result = []\<rparr>
      in case foldl (\<lambda>acc i. Option.bind acc (\<lambda>st. list_step s st i)) (Some st0) [0..<length s] of
           None \<Rightarrow> None
         | Some st \<Rightarrow> map_option ls_result (list_flush s st))"

fun scan_all :: "string list \<Rightarrow> string list option" where
  "scan_all [] = Some []"
| "scan_all (s # ss) =
     (case (list_scan s, scan_all ss) of (Some a, Some b) \<Rightarrow> Some (a @ b) | _ \<Rightarrow> None)"

definition ParseList :: "header \<Rightarrow> string \<Rightarrow> string list option" where
  "ParseList h key = (case h (CanonicalHeaderKey key) of None \<Rightarrow> Some [] | Some vs \<Rightarrow> scan_all vs)"

section \<open>Values with parameters\<close>

text \<open>The unescaping copy of a quoted string: \<open>p\<close> is the buffer of length \<open>cap\<close>, \<open>length acc\<close> is
  \<^verbatim>\<open>j\<close>.  \<^const>\<open>None\<close> is the panic of a write past the buffer; the inner \<^const>\<open>None\<close> is the end
  of the string without a closing quote.\<close>

fun unquote_copy :: "nat \<Rightarrow> bool \<Rightarrow> string \<Rightarrow> string \<Rightarrow> (string \<times> string) option option" where
  "unquote_copy cap escape acc [] = Some None"
| "unquote_copy cap escape acc (b # s) =
     (if escape then (if length acc < cap then unquote_copy cap False (acc @ [b]) s else None)
      else if b = CHR 0x5C then unquote_copy cap True acc s
      else if b = CHR 0x22 then Some (Some (acc, s))
      else if length acc < cap then unquote_copy cap False (acc @ [b]) s else None)"

fun quoted_from :: "string \<Rightarrow> string \<Rightarrow> string \<Rightarrow> (string \<times> string) option" where
  "quoted_from s seen [] = Some ([], [])"
| "quoted_from s seen (c # cs) =
     (if c = CHR 0x22 then Some (seen, cs)
      else if c = CHR 0x5C then
        (case unquote_copy (length s - 1) True seen cs of
           None \<Rightarrow> None
         | Some None \<Rightarrow> Some ([], [])
         | Some (Some r) \<Rightarrow> Some r)
      else quoted_from s (seen @ [c]) cs)"

definition expectTokenOrQuoted :: "string \<Rightarrow> (string \<times> string) option" where
  "expectTokenOrQuoted s =
     (if \<not> HasPrefix s [CHR 0x22] then Some (expectToken s) else quoted_from (tl s) [] (tl s))"

lemma unquote_copy_total:
  "length acc + length s \<le> cap \<Longrightarrow> unquote_copy cap e acc s \<noteq> None"
  by (induction cap e acc s rule: unquote_copy.induct) auto

lemma unquote_copy_rest:
  "unquote_copy cap e acc s = Some (Some (v, r)) \<Longrightarrow> length r \<le> length s"
  by (induction cap e acc s rule: unquote_copy.induct) (auto split: if_splits)

lemma quoted_from_total: "s = seen @ rest \<Longrightarrow> quoted_from s seen rest \<noteq> None"
proof (induction s seen rest rule: quoted_from.induct)
  case (2 s seen c cs)
  show ?case
  proof (cases "c = CHR 0x5C")
    case True
    have "unquote_copy (length s - 1) True seen cs \<noteq> None"
      by (rule unquote_copy_total) (simp add: 2)
    with True show ?thesis by (auto split: option.splits)
  next
    case False
    with 2 show ?thesis by auto
  qed
qed simp

lemma quoted_from_rest: "quoted_from s seen rest = Some (v, r) \<Longrightarrow> length r \<le> length rest"
  by (induction s seen rest rule: quoted_from.induct)
     (auto split: if_splits option.splits dest: unquote_copy_rest)

lemma expectTokenOrQuoted_total: "\<exists>v r. expectTokenOrQuoted s = Some (v, r) \<and> length r \<le> length s"
proof (cases "HasPrefix s [CHR 0x22]")
  case True
  obtain v r where "quoted_from (tl s) [] (tl s) = Some (v, r)"
    using quoted_from_total [of "tl s" "[]" "tl s"] by fastforce
  moreover from this have "length r \<le> length s" using quoted_from_rest by fastforce
  ultimately show ?thesis using True by (simp add: expectTokenOrQuoted_def)
next
  case False
  then show ?thesis by (auto simp: expectTokenOrQuoted_def expectToken_def length_dropWhile_le)
qed

function params_loop :: "string \<Rightarrow> (string \<rightharpoonup> string) \<Rightarrow> (string \<rightharpoonup> string) option" where
  "params_loop s params =
     (if \<not> HasPrefix s '';'' then Some params
      else let (pkey, s1) = expectToken (skipSpace (tl s))
      in if pkey = [] then Some params
         else if \<not> HasPrefix s1 ''='' then Some params
         else (case expectTokenOrQuoted (tl s1) of
                 None \<Rightarrow> None
               | Some (pvalue, s2) \<Rightarrow>
                   (if pvalue = [] then Some params
                    else params_loop (skipSpace s2) (params(ToLower pkey \<mapsto> pvalue)))))"
  by pat_completeness auto

lemma params_loop_shorter:
  assumes "HasPrefix s '';''" and "expectToken (skipSpace (tl s)) = (pkey, s1)"
    and "expectTokenOrQuoted (tl s1) = Some (v, s2)"
  shows "length (skipSpace s2) < length s"
proof -
  have "length s2 \<le> length (tl s1)" using expectTokenOrQuoted_total [of "tl s1"] assms(3) by auto
  moreover have "length s1 \<le> length (skipSpace (tl s))"
    using assms(2) by (auto simp: expectToken_def length_dropWhile_le)
  moreover have "length (skipSpace (tl s)) \<le> length (tl s)" by (rule length_skipSpace)
  moreover have "s \<noteq> []" using assms(1) by (auto simp: HasPrefix_def)
  moreover have "length (skipSpace s2) \<le> length s2" by (rule length_skipSpace)
  moreover have "length (tl s1) \<le> length s1" by simp
  moreover have "length s = Suc (length (tl s))" using \<open>s \<noteq> []\<close> by (cases s) simp_all
  ultimately show ?thesis by linarith
qed

termination params_loop
  by (relation "measure (\<lambda>(s, _). length s)") (auto intro: params_loop_shorter [OF _ sym])

declare params_loop.simps [simp del]

definition ParseValueAndParams :: "header \<Rightarrow> string \<Rightarrow> (string \<times> (string \<rightharpoonup> string)) option" where
  "ParseValueAndParams h key =
     (let (value, s) = expectTokenSlash (header_Get h key)
      in if value = [] then Some ([], Map.empty)
         else map_option (\<lambda>params. (ToLower value, params)) (params_loop (skipSpace s) Map.empty))"

section \<open>Negotiation\<close>

text \<open>The two nested loops of \<^verbatim>\<open>NegotiateContentEncoding\<close>: the best offer and quality so far.\<close>

definition encoding_step :: "string \<Rightarrow> string \<times> quality \<Rightarrow> AcceptSpec \<Rightarrow> string \<times> quality" where
  "encoding_step offer best spec =
     (if q_less (snd best) (as_Q spec) \<and> (as_Value spec = ''*'' \<or> as_Value spec = offer)
      then (offer, as_Q spec) else best)"

definition encoding_best :: "AcceptSpec list \<Rightarrow> string list \<Rightarrow> string \<times> quality" where
  "encoding_best specs offers =
     foldl (\<lambda>best offer. foldl (encoding_step offer) best specs) (''identity'', Fin (- 1)) offers"

definition NegotiateContentEncoding :: "request \<Rightarrow> string list \<Rightarrow> string" where
  "NegotiateContentEncoding r offers =
     (let (bestOffer, bestQ) = encoding_best (ParseAccept (r_Header r) ''Accept-Encoding'') offers
      in if bestQ = Fin 0 then [] else bestOffer)"

record type_best =
  tb_offer :: string
  tb_q :: quality
  tb_wild :: int

definition type_step :: "string \<Rightarrow> type_best \<Rightarrow> AcceptSpec \<Rightarrow> type_best" where
  "type_step offer b spec =
     (if as_Q spec = Fin 0 then b
      else if q_less (as_Q spec) (tb_q b) then b
      else if as_Value spec = ''*/*'' then
        (if q_less (tb_q b) (as_Q spec) \<or> tb_wild b > 2
         then \<lparr>tb_offer = offer, tb_q = as_Q spec, tb_wild = 2\<rparr> else b)
      else if HasSuffix (as_Value spec) ''/*'' then
        (if HasPrefix offer (butlast (as_Value spec)) \<and> (q_less (tb_q b) (as_Q spec) \<or> tb_wild b > 1)
         then \<lparr>tb_offer = offer, tb_q = as_Q spec, tb_wild = 1\<rparr> else b)
      else if as_Value spec = offer \<and> (q_less (tb_q b) (as_Q spec) \<or> tb_wild b > 0)
         then \<lparr>tb_offer = offer, tb_q = as_Q spec, tb_wild = 0\<rparr> else b)"

definition NegotiateContentType :: "request \<Rightarrow> string list \<Rightarrow> string \<Rightarrow> string" where
  "NegotiateContentType r offers defaultOffer =
     tb_offer (foldl (\<lambda>b offer. foldl (type_step offer) b (ParseAccept (r_Header r) ''Accept''))
       \<lparr>tb_offer = defaultOffer, tb_q = Fin (- 1), tb_wild = 3\<rparr> offers)"

section \<open>Copying headers and dates\<close>

text \<open>The loop of \<^verbatim>\<open>Copy\<close> over the entries of a header, in the order the iteration has.\<close>

fun copy_entries :: "(string \<times> string list) list \<Rightarrow> header \<Rightarrow> header" where
  "copy_entries [] h = h"
| "copy_entries ((k, vs) # entries) h = copy_entries entries (h(k \<mapsto> vs))"

definition header_Copy :: "(string \<times> string list) list \<Rightarrow> header" where
  "header_Copy entries = copy_entries entries Map.empty"

text \<open>\<^verbatim>\<open>time.Parse\<close> is a parameter; \<open>utc\<close> converts to UTC and \<open>zero\<close> is the zero time.\<close>

definition timeLayouts :: "string list" where
  "timeLayouts = [''Mon, 02 Jan 2006 15:04:05 GMT'', ''Monday, 02-Jan-06 15:04:05 MST'', ''Mon Jan _2 15:04:05 2006'']"

fun parse_layouts :: "(string \<Rightarrow> string \<Rightarrow> 't option) \<Rightarrow> string \<Rightarrow> string list \<Rightarrow> 't option" where
  "parse_layouts parse s [] = None"
| "parse_layouts parse s (layout # layouts) =
     (case parse layout s of Some t \<Rightarrow> Some t | None \<Rightarrow> parse_layouts parse s layouts)"

definition ParseTime :: "(string \<Rightarrow> string \<Rightarrow> 't option) \<Rightarrow> ('t \<Rightarrow> 't) \<Rightarrow> 't \<Rightarrow> header \<Rightarrow> string \<Rightarrow> 't" where
  "ParseTime parse utc zero h key =
     (let s = header_Get h key
      in if s \<noteq> [] then (case parse_layouts parse s timeLayouts of Some t \<Rightarrow> utc t | None \<Rightarrow> zero) else zero)"

section \<open>Scanning a list stays inside the string\<close>

definition list_inv :: "nat \<Rightarrow> list_state \<Rightarrow> bool" where
  "list_inv i st \<longleftrightarrow> ls_begin st \<le> ls_end st \<and> ls_end st \<le> i \<and> [] \<notin> set (ls_result st)"

lemma list_flush_inv:
  assumes "list_inv i st" "i \<le> length s"
  shows "\<exists>st'. list_flush s st = Some st' \<and> list_inv i st'"
  using assms by (auto simp: list_flush_def list_inv_def slice_def)

lemma list_step_inv:
  assumes "list_inv i st" "i < length s"
  shows "\<exists>st'. list_step s st i = Some st' \<and> list_inv (Suc i) st'"
proof -
  obtain st1 where f: "list_flush s st = Some st1" "list_inv i st1"
    using list_flush_inv assms by (metis less_imp_le)
  then show ?thesis using assms(1) by (auto simp: list_step_def Let_def list_inv_def)
qed

lemma list_fold_inv:
  "n \<le> length s \<Longrightarrow> list_inv 0 st0 \<Longrightarrow>
     \<exists>st. foldl (\<lambda>acc i. Option.bind acc (\<lambda>st. list_step s st i)) (Some st0) [0..<n] = Some st \<and> list_inv n st"
proof (induction n)
  case (Suc n)
  then obtain st where st: "foldl (\<lambda>acc i. Option.bind acc (\<lambda>st. list_step s st i)) (Some st0) [0..<n] = Some st"
    "list_inv n st" by auto
  with list_step_inv [of n st s] Suc.prems show ?case by auto
qed simp

lemma list_scan_total: "\<exists>xs. list_scan s = Some xs \<and> [] \<notin> set xs"
proof -
  let ?st0 = "\<lparr>ls_begin = 0, ls_end = 0, ls_escape = False, ls_quote = False, ls_result = []\<rparr>"
  obtain st where st: "foldl (\<lambda>acc i. Option.bind acc (\<lambda>st. list_step s st i)) (Some ?st0) [0..<length s] = Some st"
    "list_inv (length s) st"
    using list_fold_inv [of "length s" s ?st0] by (auto simp: list_inv_def)
  then obtain st' where "list_flush s st = Some st'" "list_inv (length s) st'" using list_flush_inv by blast
  with st show ?thesis by (auto simp: list_scan_def list_inv_def)
qed

lemma scan_all_total: "\<exists>xs. scan_all ss = Some xs \<and> [] \<notin> set xs"
proof (induction ss)
  case (Cons s ss)
  then show ?case using list_scan_total [of s] by auto
qed simp

text \<open>Parsing a comma separated header never slices out of range, whatever bytes the client
  sent, and yields no empty item.\<close>

theorem ParseList_total: "\<exists>xs. ParseList h key = Some xs \<and> [] \<notin> set xs"
  using scan_all_total by (cases "h (CanonicalHeaderKey key)") (auto simp: ParseList_def)

lemma params_loop_total: "\<exists>m. params_loop s params = Some m"
proof (induction s params rule: params_loop.induct)
  case (1 s params)
  obtain pkey s1 where t: "expectToken (skipSpace (tl s)) = (pkey, s1)" by fastforce
  obtain v s2 where q: "expectTokenOrQuoted (tl s1) = Some (v, s2)" using expectTokenOrQuoted_total by blast
  show ?case
  proof (cases "\<not> HasPrefix s '';'' \<or> pkey = [] \<or> \<not> HasPrefix s1 ''='' \<or> v = []")
    case True
    then show ?thesis using t q by (subst params_loop.simps) auto
  next
    case False
    have "\<exists>m. params_loop (skipSpace s2) (params(ToLower pkey \<mapsto> v)) = Some m"
      by (rule 1) (use t q False in auto)
    then show ?thesis using t q False by (subst params_loop.simps) auto
  qed
qed

text \<open>Parsing a header value with parameters terminates without writing past the buffer it
  allocates for an unescaped quoted string.\<close>

theorem ParseValueAndParams_total: "\<exists>v params. ParseValueAndParams h key = Some (v, params)"
proof -
  obtain v s where "expectTokenSlash (header_Get h key) = (v, s)" by fastforce
  moreover obtain m where "params_loop (skipSpace s) Map.empty = Some m" using params_loop_total by blast
  ultimately show ?thesis by (cases "v = []") (auto simp: ParseValueAndParams_def)
qed

section \<open>The negotiated encoding is the best one\<close>

definition accepts :: "AcceptSpec list \<Rightarrow> string \<Rightarrow> rat \<Rightarrow> bool" where
  "accepts specs offer q \<longleftrightarrow>
     (\<exists>s \<in> set specs. (as_Value s = ''*'' \<or> as_Value s = offer) \<and> as_Q s = Fin q)"

definition finite_specs :: "AcceptSpec list \<Rightarrow> bool" where
  "finite_specs specs \<longleftrightarrow> (\<forall>s \<in> set specs. \<exists>q \<ge> 0. as_Q s = Fin q)"

text \<open>One offer against the specs: the pair is kept, or the offer takes over with its greatest
  accepted quality.\<close>

definition offer_kept :: "AcceptSpec list \<Rightarrow> string \<Rightarrow> string \<times> rat \<Rightarrow> string \<times> rat \<Rightarrow> bool" where
  "offer_kept specs offer bq bq' \<longleftrightarrow> bq' = bq \<and> (\<forall>x. accepts specs offer x \<longrightarrow> x \<le> snd bq)"

definition offer_taken :: "AcceptSpec list \<Rightarrow> string \<Rightarrow> string \<times> rat \<Rightarrow> string \<times> rat \<Rightarrow> bool" where
  "offer_taken specs offer bq bq' \<longleftrightarrow> fst bq' = offer \<and> snd bq < snd bq' \<and>
     accepts specs offer (snd bq') \<and> (\<forall>x. accepts specs offer x \<longrightarrow> x \<le> snd bq')"

lemma accepts_Cons:
  assumes "as_Q s = Fin qs"
  shows "accepts (s # specs) offer x \<longleftrightarrow>
    ((as_Value s = ''*'' \<or> as_Value s = offer) \<and> x = qs) \<or> accepts specs offer x"
  using assms by (auto simp: accepts_def)

lemma encoding_offer:
  assumes "finite_specs specs"
  shows "\<exists>b' q'. foldl (encoding_step offer) (b, Fin q) specs = (b', Fin q') \<and>
    (offer_kept specs offer (b, q) (b', q') \<or> offer_taken specs offer (b, q) (b', q'))"
  using assms
proof (induction specs arbitrary: b q)
  case Nil
  then show ?case by (simp add: accepts_def offer_kept_def)
next
  case (Cons s specs)
  from Cons.prems obtain qs where qs: "as_Q s = Fin qs" and fs: "finite_specs specs"
    by (auto simp: finite_specs_def)
  note acc = accepts_Cons [OF qs, of specs offer]
  show ?case
  proof (cases "q < qs \<and> (as_Value s = ''*'' \<or> as_Value s = offer)")
    case True
    obtain b' q' where st: "foldl (encoding_step offer) (offer, Fin qs) specs = (b', Fin q')"
      and c: "offer_kept specs offer (offer, qs) (b', q') \<or> offer_taken specs offer (offer, qs) (b', q')"
      using Cons.IH [OF fs] by blast
    have "encoding_step offer (b, Fin q) s = (offer, Fin qs)" using qs True by (simp add: encoding_step_def)
    moreover have "offer_taken (s # specs) offer (b, q) (b', q')"
      using c True by (auto simp: offer_taken_def offer_kept_def acc)
    ultimately show ?thesis using st by auto
  next
    case False
    obtain b' q' where st: "foldl (encoding_step offer) (b, Fin q) specs = (b', Fin q')"
      and c: "offer_kept specs offer (b, q) (b', q') \<or> offer_taken specs offer (b, q) (b', q')"
      using Cons.IH [OF fs] by blast
    have "encoding_step offer (b, Fin q) s = (b, Fin q)" using qs False by (simp add: encoding_step_def)
    moreover have "offer_kept (s # specs) offer (b, q) (b', q') \<or> offer_taken (s # specs) offer (b, q) (b', q')"
      using c False by (auto simp: offer_taken_def offer_kept_def acc)
    ultimately show ?thesis using st by auto
  qed
qed

definition best_inv :: "AcceptSpec list \<Rightarrow> string list \<Rightarrow> string \<Rightarrow> rat \<Rightarrow> bool" where
  "best_inv specs offers b q \<longleftrightarrow>
     (\<forall>x \<in> set offers. \<forall>y. accepts specs x y \<longrightarrow> y \<le> q) \<and>
     (q = - 1 \<and> b = ''identity'' \<or>
      (\<exists>pre post. offers = pre @ b # post \<and> accepts specs b q \<and>
         (\<forall>x \<in> set pre. \<forall>y. accepts specs x y \<longrightarrow> y < q)))"

lemma best_inv_kept:
  assumes "best_inv specs offers b q" "offer_kept specs offer (b, q) (b', q')"
  shows "best_inv specs (offers @ [offer]) b' q'"
proof -
  have eq: "b' = b" "q' = q" and le: "\<forall>x. accepts specs offer x \<longrightarrow> x \<le> q"
    using assms(2) by (simp_all add: offer_kept_def)
  have all: "\<forall>x \<in> set (offers @ [offer]). \<forall>y. accepts specs x y \<longrightarrow> y \<le> q"
    using assms(1) le by (simp add: best_inv_def)
  consider "q = - 1 \<and> b = ''identity''"
    | pre post where "offers = pre @ b # post" "accepts specs b q" "\<forall>x \<in> set pre. \<forall>y. accepts specs x y \<longrightarrow> y < q"
    using assms(1) unfolding best_inv_def by blast
  then show ?thesis
  proof cases
    case 1
    then show ?thesis using all eq by (simp add: best_inv_def)
  next
    case (2 pre post)
    then have "offers @ [offer] = pre @ b # (post @ [offer])" by simp
    with 2 all eq show ?thesis unfolding best_inv_def by blast
  qed
qed

lemma best_inv_taken:
  assumes "best_inv specs offers b q" "offer_taken specs offer (b, q) (b', q')"
  shows "best_inv specs (offers @ [offer]) b' q'"
proof -
  have eq: "b' = offer" "q < q'" "accepts specs offer q'" and le: "\<forall>x. accepts specs offer x \<longrightarrow> x \<le> q'"
    using assms(2) by (simp_all add: offer_taken_def)
  have lt: "\<forall>x \<in> set offers. \<forall>y. accepts specs x y \<longrightarrow> y < q'"
    using assms(1) eq(2) by (meson best_inv_def order_le_less_trans)
  then have "\<forall>x \<in> set (offers @ [offer]). \<forall>y. accepts specs x y \<longrightarrow> y \<le> q'"
    using le by (simp add: less_imp_le)
  with lt eq show ?thesis unfolding best_inv_def by blast
qed

lemma encoding_best_inv:
  assumes "finite_specs specs"
  shows "\<exists>b q. encoding_best specs offers = (b, Fin q) \<and> best_inv specs offers b q"
proof (induction offers rule: rev_induct)
  case Nil
  then show ?case by (simp add: encoding_best_def best_inv_def)
next
  case (snoc offer offers)
  then obtain b q where bq: "encoding_best specs offers = (b, Fin q)" "best_inv specs offers b q" by blast
  obtain b' q' where st: "foldl (encoding_step offer) (b, Fin q) specs = (b', Fin q')"
    and c: "offer_kept specs offer (b, q) (b', q') \<or> offer_taken specs offer (b, q) (b', q')"
    using encoding_offer [OF assms] by blast
  have "encoding_best specs (offers @ [offer]) = (b', Fin q')" using bq(1) st by (simp add: encoding_best_def)
  moreover have "best_inv specs (offers @ [offer]) b' q'"
    using c best_inv_kept [OF bq(2)] best_inv_taken [OF bq(2)] by blast
  ultimately show ?case by blast
qed


definition demo_request :: "string \<Rightarrow> request" where
  "demo_request enc = \<lparr>r_Method = ''GET'', r_URL = empty_url\<lparr>u_Path := ''/index.html''\<rparr>, r_Host = ''group.example.com'',
     r_RequestURI = ''/index.html'', r_Header = [''Accept-Encoding'' \<mapsto> [enc]], r_TLS = False\<rparr>"


section \<open>Copies and dates\<close>

text \<open>A copy has the entries of the header, whatever the order of the iteration.\<close>

lemma copy_entries_map: "distinct (map fst entries) \<Longrightarrow> copy_entries entries h = h ++ map_of entries"
proof (induction entries arbitrary: h)
  case (Cons e entries)
  obtain k vs where e: "e = (k, vs)" by (cases e)
  have "map_of entries k = None" using Cons.prems e by (simp add: map_of_eq_None_iff)
  then show ?case using Cons e by (auto simp: map_add_def fun_eq_iff split: option.splits)
qed simp

lemma header_Copy_same: "distinct (map fst entries) \<Longrightarrow> map_of entries = h \<Longrightarrow> header_Copy entries = h"
  by (simp add: header_Copy_def copy_entries_map)

text \<open>A date is read with the first layout that fits it; a header without a date gives the zero time.\<close>

lemma ParseTime_first:
  assumes "timeLayouts = before @ layout # after" "\<forall>l \<in> set before. parse l (header_Get h key) = None"
    "parse layout (header_Get h key) = Some t" "header_Get h key \<noteq> []"
  shows "ParseTime parse utc zero h key = utc t"
proof -
  have "parse_layouts parse s (before @ layout # after) = Some t"
    if "\<forall>l \<in> set before. parse l s = None" "parse layout s = Some t" for s
    using that by (induction before) simp_all
  then show ?thesis using assms by (simp add: ParseTime_def)
qed

end
