(* ===== verification/Disk_Serving.thy ===== *)
theory Disk_Serving
  imports Redirects Symlinks Http_Header
begin

text \<open>
  Serving the files of a site (\<^verbatim>\<open>internal/serving\<close>, \<^verbatim>\<open>internal/serving/disk\<close>): a request
  that was looked up to a project is answered from the project's virtual file system, first as a
  file, then by the site's redirect rules, and last with the site's own or the generic 404 page.

  The process environment is the record \<open>serve_env\<close>: the environment variables, the formatted
  expiry time, and the functions whose tables or wire formats are outside the daemon: the MIME
  tables, \<^verbatim>\<open>http.ServeContent\<close> (conditional requests and byte ranges of the standard library)
  and the parser of redirect rules.  Handlers return whether they handled the request and the
  response writer they leave behind.
\<close>

section \<open>The interface of a serving (internal/serving)\<close>

record LookupPath =
  lp_ServingType :: string
  lp_Prefix :: string
  lp_Path :: string
  lp_IsNamespaceProject :: bool
  lp_IsHTTPSOnly :: bool
  lp_HasAccessControl :: bool
  lp_ProjectID :: nat

record serving_handler =
  h_Request :: request
  h_LookupPath :: LookupPath
  h_SubPath :: string

record serving =
  sv_ServeFileHTTP :: "serving_handler \<Rightarrow> resp \<Rightarrow> bool \<times> resp"
  sv_ServeNotFoundHTTP :: "serving_handler \<Rightarrow> resp \<Rightarrow> resp"

record serving_request =
  sr_Serving :: serving
  sr_LookupPath :: LookupPath
  sr_SubPath :: string

definition Request_ServeFileHTTP :: "serving_request \<Rightarrow> request \<Rightarrow> resp \<Rightarrow> bool \<times> resp" where
  "Request_ServeFileHTTP s r w =
     sv_ServeFileHTTP (sr_Serving s)
       \<lparr>h_Request = r, h_LookupPath = sr_LookupPath s, h_SubPath = sr_SubPath s\<rparr> w"

definition Request_ServeNotFoundHTTP :: "serving_request \<Rightarrow> request \<Rightarrow> resp \<Rightarrow> resp" where
  "Request_ServeNotFoundHTTP s r w =
     sv_ServeNotFoundHTTP (sr_Serving s)
       \<lparr>h_Request = r, h_LookupPath = sr_LookupPath s, h_SubPath = sr_SubPath s\<rparr> w"

section \<open>Environment and input/output\<close>

record serve_env =
  e_Getenv :: "string \<Rightarrow> string"
  e_TypeByExtension :: "string \<Rightarrow> string"
  e_DetectContentType :: "bytes \<Rightarrow> string"
  e_ExpiresIn10Minutes :: string
  e_ServeContent :: "request \<Rightarrow> string \<Rightarrow> timestamp \<Rightarrow> vfs_file \<Rightarrow> resp \<Rightarrow> resp"
  e_netlify :: "vfs_file \<Rightarrow> rule list option"

definition redirects_enabled :: "serve_env \<Rightarrow> bool" where
  "redirects_enabled env \<longleftrightarrow> e_Getenv env ''FF_ENABLE_REDIRECTS'' \<noteq> ''false''"

text \<open>\<^verbatim>\<open>io.Copy\<close> and \<^verbatim>\<open>io.CopyN\<close> from a file to the response: nothing is written for an empty
  file; fewer bytes than asked for is an error.\<close>

definition write_bytes :: "bytes \<Rightarrow> resp \<Rightarrow> resp" where
  "write_bytes d w = (if d = [] then w else rw_Write (FileBytes d) w)"

definition io_Copy :: "vfs_file \<Rightarrow> resp \<Rightarrow> resp" where
  "io_Copy f w = write_bytes (vf_data f) w"

definition io_CopyN :: "vfs_file \<Rightarrow> int \<Rightarrow> resp \<Rightarrow> go_error option \<times> resp" where
  "io_CopyN f n w =
     (let d = take (nat n) (vf_data f)
      in (if int (length d) < n then Some (case vf_err f of Some e \<Rightarrow> e | None \<Rightarrow> ErrEOF) else None,
          write_bytes d w))"

section \<open>Helpers (helpers.go)\<close>

definition compressedEncodings :: "string \<rightharpoonup> string" where
  "compressedEncodings = [''br'' \<mapsto> ''.br'', ''gzip'' \<mapsto> ''.gz'']"

definition compressedEncodingsPriority :: "string list" where
  "compressedEncodingsPriority = [''br'', ''gzip'']"

definition endsWithSlash :: "string \<Rightarrow> bool" where
  "endsWithSlash path \<longleftrightarrow> HasSuffix path ''/''"

definition endsWithoutHTMLExtension :: "string \<Rightarrow> bool" where
  "endsWithoutHTMLExtension path \<longleftrightarrow> \<not> HasSuffix path ''.html''"

definition detectContentType :: "serve_env \<Rightarrow> vfs_root \<Rightarrow> string \<Rightarrow> string result" where
  "detectContentType env rt path =
     (let contentType = e_TypeByExtension env (filepath_Ext path)
      in if contentType \<noteq> [] then Inr contentType
         else (case rt_Open rt path of
                 Inl e \<Rightarrow> Inl e
               | Inr file \<Rightarrow> Inr (e_DetectContentType env (take 512 (vf_data file)))))"

text \<open>The compressed variants present next to a file, by encoding.\<close>

definition compressed_file :: "vfs_root \<Rightarrow> string \<Rightarrow> string \<Rightarrow> file_info option" where
  "compressed_file rt fullPath encoding =
     (case compressedEncodings encoding of
        None \<Rightarrow> None
      | Some extension \<Rightarrow>
          (case rt_Lstat rt (fullPath @ extension) of
             Inl _ \<Rightarrow> None
           | Inr fi \<Rightarrow> (if fi_mode fi = ModeRegular then Some fi else None)))"

definition encoding_offers :: "vfs_root \<Rightarrow> string \<Rightarrow> string list" where
  "encoding_offers rt fullPath =
     filter (\<lambda>encoding. compressed_file rt fullPath encoding \<noteq> None) compressedEncodingsPriority @ [''identity'']"

definition handleContentEncoding :: "request \<Rightarrow> vfs_root \<Rightarrow> string \<Rightarrow> resp \<Rightarrow> string \<times> resp" where
  "handleContentEncoding r rt fullPath w =
     (if header_Get (r_Header r) ''Range'' \<noteq> [] then (fullPath, w)
      else let acceptedEncoding = NegotiateContentEncoding r (encoding_offers rt fullPath)
      in case compressed_file rt fullPath acceptedEncoding of
           None \<Rightarrow> (fullPath, w)
         | Some fi \<Rightarrow>
             (fullPath @ the (compressedEncodings acceptedEncoding),
              hset ''Content-Length'' (FormatInt (fi_size fi)) (hset ''Content-Encoding'' acceptedEncoding w)))"

section \<open>The reader (reader.go)\<close>

definition serveRedirectsStatus :: "Redirects \<Rightarrow> resp \<Rightarrow> resp" where
  "serveRedirectsStatus rd w =
     rw_Write (Text (redirects_Status rd @ ''\<newline>''))
       (WriteHeader 200
         (hset ''X-Content-Type-Options'' ''nosniff''
           (hset ''Content-Type'' ''text/plain; charset=utf-8'' w)))"

definition tryRedirects :: "serve_env \<Rightarrow> vfs \<Rightarrow> serving_handler \<Rightarrow> resp \<Rightarrow> bool \<times> resp" where
  "tryRedirects env fs h w =
     (case fs (lp_Path (h_LookupPath h)) of
        Inl err \<Rightarrow>
          (if vfs_IsNotExist err then (False, w)
           else (True, Serve500WithRequest (h_Request h) ''vfs.Root'' err w))
      | Inr rt \<Rightarrow>
          (case Rewrite (ParseRedirects (e_netlify env) rt) (r_URL (h_Request h)) of
             Inl _ \<Rightarrow> (False, w)
           | Inr (rewrittenURL, status) \<Rightarrow> (True, http_Redirect (h_Request h) (u_Path rewrittenURL) status w)))"

definition resolvePath :: "vfs_root \<Rightarrow> string list \<Rightarrow> string result" where
  "resolvePath rt subPath =
     (let testPath = join_with ''/'' subPath
      in case EvalSymlinks rt testPath of
           Inl err \<Rightarrow>
             (if endsWithoutHTMLExtension testPath then Inl (ErrLocationFileNoExtension []) else Inl err)
         | Inr fullPath \<Rightarrow>
             (case rt_Lstat rt fullPath of
                Inl err \<Rightarrow> Inl err
              | Inr fi \<Rightarrow>
                  (if fi_mode fi = ModeDir then Inl (ErrLocationDirectory fullPath testPath)
                   else if fi_mode fi \<noteq> ModeRegular then Inl (ErrMsg (fullPath @ '': is not a regular file''))
                   else Inr fullPath)))"

definition redirectPath :: "request \<Rightarrow> string" where
  "redirectPath request =
     TrimSuffix
       (url_String ((r_URL request)\<lparr>u_Scheme := [], u_Host := r_Host request,
                      u_Path := TrimPrefix (u_Path (r_URL request)) ''/'' @ ''/''\<rparr>)) ''?''"

text \<open>The tail of \<^verbatim>\<open>serveFile\<close> once the content type is known.\<close>

definition serve_open_file :: "serve_env \<Rightarrow> request \<Rightarrow> string \<Rightarrow> file_info \<Rightarrow> vfs_file \<Rightarrow> resp \<Rightarrow> resp" where
  "serve_open_file env r origPath fi file w =
     (if vf_seekable file then e_ServeContent env r origPath (fi_modtime fi) file w
      else io_Copy file (hset ''Content-Length'' (FormatInt (fi_size fi)) w))"

definition serveFile :: "serve_env \<Rightarrow> request \<Rightarrow> vfs_root \<Rightarrow> string \<Rightarrow> bool \<Rightarrow> resp \<Rightarrow> bool \<times> resp" where
  "serveFile env r rt origPath accessControl w0 =
     (let (fullPath, w) = handleContentEncoding r rt origPath w0
      in case rt_Open rt fullPath of
           Inl err \<Rightarrow> (True, Serve500WithRequest r ''root.Open'' err w)
         | Inr file \<Rightarrow>
             (case rt_Lstat rt fullPath of
                Inl err \<Rightarrow> (True, Serve500WithRequest r ''root.Lstat'' err w)
              | Inr fi \<Rightarrow>
                  (let w = (if \<not> accessControl
                            then hset ''Expires'' (e_ExpiresIn10Minutes env) (hset ''Cache-Control'' ''max-age=600'' w)
                            else w)
                   in case detectContentType env rt origPath of
                        Inl err \<Rightarrow> (True, Serve500WithRequest r ''detectContentType'' err w)
                      | Inr contentType \<Rightarrow>
                          (True, serve_open_file env r origPath fi file (hset ''Content-Type'' contentType w)))))"

definition serveCustomFile :: "serve_env \<Rightarrow> request \<Rightarrow> int \<Rightarrow> vfs_root \<Rightarrow> string \<Rightarrow> resp \<Rightarrow> go_error option \<times> resp" where
  "serveCustomFile env r code rt origPath w0 =
     (let (fullPath, w) = handleContentEncoding r rt origPath w0
      in case rt_Open rt fullPath of
           Inl err \<Rightarrow> (Some err, w)
         | Inr file \<Rightarrow>
             (case rt_Lstat rt fullPath of
                Inl err \<Rightarrow> (Some err, w)
              | Inr fi \<Rightarrow>
                  (case detectContentType env rt origPath of
                     Inl err \<Rightarrow> (Some err, w)
                   | Inr contentType \<Rightarrow>
                       (let w = WriteHeader code
                                  (hset ''Content-Length'' (FormatInt (fi_size fi))
                                    (hset ''Content-Type'' contentType w))
                        in if r_Method r \<noteq> ''HEAD'' then io_CopyN file (fi_size fi) w else (None, w)))))"

text \<open>The path \<^verbatim>\<open>tryFile\<close> settles on: the sub-path itself, its index page when it is a
  directory asked for with a trailing slash, or the sub-path with the HTML extension.
  \<^const>\<open>Inl\<close> \<^const>\<open>None\<close> is the redirect to the directory.\<close>

definition html_fallback :: "vfs_root \<Rightarrow> string \<Rightarrow> string result \<Rightarrow> string result" where
  "html_fallback rt subPath res =
     (case res of
        Inl (ErrLocationFileNoExtension _) \<Rightarrow> resolvePath rt [TrimSuffix subPath ''/'' @ ''.html'']
      | _ \<Rightarrow> res)"

definition tryFile :: "serve_env \<Rightarrow> vfs \<Rightarrow> serving_handler \<Rightarrow> resp \<Rightarrow> bool \<times> resp" where
  "tryFile env fs h w =
     (case fs (lp_Path (h_LookupPath h)) of
        Inl err \<Rightarrow>
          (if vfs_IsNotExist err then (False, w)
           else (True, Serve500WithRequest (h_Request h) ''vfs.Root'' err w))
      | Inr rt \<Rightarrow>
          (let urlPath = u_Path (r_URL (h_Request h));
               first = resolvePath rt [h_SubPath h];
               is_dir = (case first of Inl (ErrLocationDirectory _ _) \<Rightarrow> True | _ \<Rightarrow> False)
           in if is_dir \<and> \<not> endsWithSlash urlPath
              then (True, http_Redirect (h_Request h) (redirectPath (h_Request h)) 302 w)
              else let res = (if is_dir then resolvePath rt [h_SubPath h, ''index.html''] else first)
              in case html_fallback rt (h_SubPath h) res of
                   Inl _ \<Rightarrow> (False, w)
                 | Inr fullPath \<Rightarrow>
                     (if fullPath = ConfigFile then
                        (if redirects_enabled env
                         then (True, serveRedirectsStatus (ParseRedirects (e_netlify env) rt) w)
                         else (True, WriteHeader 403 w))
                      else serveFile env (h_Request h) rt fullPath (lp_HasAccessControl (h_LookupPath h)) w)))"

definition tryNotFound :: "serve_env \<Rightarrow> vfs \<Rightarrow> serving_handler \<Rightarrow> resp \<Rightarrow> bool \<times> resp" where
  "tryNotFound env fs h w =
     (case fs (lp_Path (h_LookupPath h)) of
        Inl err \<Rightarrow>
          (if vfs_IsNotExist err then (False, w)
           else (True, Serve500WithRequest (h_Request h) ''vfs.Root'' err w))
      | Inr rt \<Rightarrow>
          (case resolvePath rt [''404.html''] of
             Inl _ \<Rightarrow> (False, w)
           | Inr page404 \<Rightarrow>
               (case serveCustomFile env (h_Request h) 404 rt page404 w of
                  (Some err, w) \<Rightarrow> (True, Serve500WithRequest (h_Request h) ''serveCustomFile'' err w)
                | (None, w) \<Rightarrow> (True, w))))"

section \<open>The disk serving (serving.go)\<close>

definition Disk_ServeFileHTTP :: "serve_env \<Rightarrow> vfs \<Rightarrow> serving_handler \<Rightarrow> resp \<Rightarrow> bool \<times> resp" where
  "Disk_ServeFileHTTP env fs h w =
     (let (handled, w) = tryFile env fs h w
      in if handled then (True, w)
         else if redirects_enabled env then tryRedirects env fs h w
         else (False, w))"

definition Disk_ServeNotFoundHTTP :: "serve_env \<Rightarrow> vfs \<Rightarrow> serving_handler \<Rightarrow> resp \<Rightarrow> resp" where
  "Disk_ServeNotFoundHTTP env fs h w =
     (let (handled, w) = tryNotFound env fs h w
      in if handled then w else Serve404 w)"

text \<open>\<^verbatim>\<open>disk.New\<close>.\<close>

definition Disk_New :: "serve_env \<Rightarrow> vfs \<Rightarrow> serving" where
  "Disk_New env fs = \<lparr>sv_ServeFileHTTP = Disk_ServeFileHTTP env fs, sv_ServeNotFoundHTTP = Disk_ServeNotFoundHTTP env fs\<rparr>"

definition local_Instance :: "serve_env \<Rightarrow> os_fs \<Rightarrow> serving" where
  "local_Instance env os = Disk_New env (local_Root os)"

section \<open>Content encoding\<close>

lemma NegotiateContentEncoding_offered:
  assumes "finite_specs (ParseAccept (r_Header r) ''Accept-Encoding'')"
  shows "NegotiateContentEncoding r offers \<in> set offers \<union> {''identity'', []}"
proof -
  obtain b q where bq: "encoding_best (ParseAccept (r_Header r) ''Accept-Encoding'') offers = (b, Fin q)"
    "best_inv (ParseAccept (r_Header r) ''Accept-Encoding'') offers b q"
    using encoding_best_inv [OF assms] by blast
  then have "NegotiateContentEncoding r offers = (if q = 0 then [] else b)"
    by (simp add: NegotiateContentEncoding_def)
  moreover have "b \<in> set offers \<union> {''identity''}" using bq(2) by (auto simp: best_inv_def)
  ultimately show ?thesis by auto
qed

lemma compressed_file_Some:
  assumes "compressed_file rt p enc = Some fi"
  shows "\<exists>ext. compressedEncodings enc = Some ext \<and> rt_Lstat rt (p @ ext) = Inr fi \<and> fi_mode fi = ModeRegular"
  using assms by (auto simp: compressed_file_def split: option.splits sum.splits if_split_asm)

lemma handleContentEncoding_cases:
  "handleContentEncoding r rt p w = (p, w) \<or>
   (\<exists>enc ext fi. compressedEncodings enc = Some ext \<and> rt_Lstat rt (p @ ext) = Inr fi \<and> fi_mode fi = ModeRegular \<and>
      enc = NegotiateContentEncoding r (encoding_offers rt p) \<and> header_Get (r_Header r) ''Range'' = [] \<and>
      handleContentEncoding r rt p w =
        (p @ ext, hset ''Content-Length'' (FormatInt (fi_size fi)) (hset ''Content-Encoding'' enc w)))"
proof (cases "header_Get (r_Header r) ''Range'' = [] \<and>
    compressed_file rt p (NegotiateContentEncoding r (encoding_offers rt p)) \<noteq> None")
  case True
  then obtain fi where fi: "compressed_file rt p (NegotiateContentEncoding r (encoding_offers rt p)) = Some fi"
    by auto
  then show ?thesis
    using compressed_file_Some [OF fi] True by (auto simp: handleContentEncoding_def Let_def)
next
  case False
  then have "handleContentEncoding r rt p w = (p, w)" by (auto simp: handleContentEncoding_def Let_def)
  then show ?thesis ..
qed

lemma handleContentEncoding_sent [simp]:
  "handleContentEncoding r rt p w = (p', w') \<Longrightarrow> rw_sent w' = rw_sent w"
  using handleContentEncoding_cases [of r rt p w] by (auto simp: resp_simps)

lemma handleContentEncoding_body:
  "handleContentEncoding r rt p w = (p', w') \<Longrightarrow> rw_body w' = rw_body w"
  using handleContentEncoding_cases [of r rt p w] by (auto simp: resp_simps)

lemma handleContentEncoding_caching:
  "handleContentEncoding r rt p w = (p', w') \<Longrightarrow>
     rw_header w' ''Cache-Control'' = rw_header w ''Cache-Control'' \<and> rw_header w' ''Expires'' = rw_header w ''Expires''"
  using handleContentEncoding_cases [of r rt p w] by (auto simp: resp_simps)


section \<open>What the handlers do to the response\<close>

text \<open>What is used of \<^verbatim>\<open>http.ServeContent\<close>: on a fresh response it sends one, and leaves the
  caching headers alone.\<close>

definition serve_content_ok :: "(request \<Rightarrow> string \<Rightarrow> timestamp \<Rightarrow> vfs_file \<Rightarrow> resp \<Rightarrow> resp) \<Rightarrow> bool" where
  "serve_content_ok sc \<longleftrightarrow>
     (\<forall>r n t f w. rw_sent w = None \<longrightarrow>
        (\<exists>s h. rw_sent (sc r n t f w) = Some (s, h) \<and> h ''Cache-Control'' = rw_header w ''Cache-Control'' \<and>
               h ''Expires'' = rw_header w ''Expires''))"

lemma serveFile_handled: "fst (serveFile env r rt p ac w) = True"
  by (auto simp: serveFile_def Let_def split: prod.splits sum.splits)

lemma tryFile_False:
  assumes "tryFile env fs h w = (False, w')"
  shows "w' = w"
proof (cases "fs (lp_Path (h_LookupPath h))")
  case (Inl e)
  then show ?thesis using assms by (auto simp: tryFile_def split: if_split_asm)
next
  case (Inr rt)
  have "serveFile env r rt p ac w \<noteq> (False, w')" for r p ac
    using serveFile_handled [of env r rt p ac w] by auto
  then show ?thesis using assms Inr
    by (auto simp: tryFile_def Let_def split: if_split_asm sum.splits)
qed

lemma tryRedirects_False: "tryRedirects env fs h w = (False, w') \<Longrightarrow> w' = w"
  by (auto simp: tryRedirects_def split: sum.splits if_split_asm prod.splits)

lemma Disk_file_untouched:
  assumes "Disk_ServeFileHTTP env fs h w = (False, w')"
  shows "w' = w"
  using assms tryFile_False [of env fs h w] tryRedirects_False [of env fs h w]
  by (auto simp: Disk_ServeFileHTTP_def Let_def split: prod.splits if_split_asm)

lemma rw_sent_write_bytes [resp_simps]:
  "rw_sent w = Some s \<Longrightarrow> rw_sent (write_bytes d w) = Some s"
  by (simp add: write_bytes_def resp_simps)

lemma rw_sent_io_CopyN: "io_CopyN f n w = (e, w') \<Longrightarrow> rw_sent w = Some s \<Longrightarrow> rw_sent w' = Some s"
  by (auto simp: io_CopyN_def Let_def resp_simps)

lemma serveCustomFile_sent:
  assumes "serveCustomFile env r code rt p w = (e, w')" "rw_sent w = None"
  shows "(e \<noteq> None \<and> rw_sent w' = None) \<or> rw_status w' = Some code"
proof -
  obtain p' w1 where enc: "handleContentEncoding r rt p w = (p', w1)" by fastforce
  then have s1: "rw_sent w1 = None" using assms(2) by simp
  show ?thesis
    using assms(1) enc s1
    by (auto simp: serveCustomFile_def Let_def rw_status_def resp_simps
        split: sum.splits if_split_asm dest!: rw_sent_io_CopyN)
qed

lemma Disk_notfound_status:
  assumes "rw_sent w = None"
  shows "rw_status (Disk_ServeNotFoundHTTP env fs h w) \<in> {Some 404, Some 500}"
proof (cases "fs (lp_Path (h_LookupPath h))")
  case (Inl err)
  then show ?thesis using assms
    by (simp add: Disk_ServeNotFoundHTTP_def tryNotFound_def Serve_defs rw_status_sent content_status)
next
  case (Inr rt)
  show ?thesis
  proof (cases "resolvePath rt [''404.html'']")
    case (Inl e)
    then show ?thesis using assms Inr
      by (simp add: Disk_ServeNotFoundHTTP_def tryNotFound_def Serve_defs rw_status_sent content_status)
  next
    case p: (Inr page)
    obtain e w' where s: "serveCustomFile env (h_Request h) 404 rt page w = (e, w')" by fastforce
    have c: "(e \<noteq> None \<and> rw_sent w' = None) \<or> rw_status w' = Some 404"
      by (rule serveCustomFile_sent [OF s assms])
    show ?thesis
    proof (cases e)
      case None
      then show ?thesis using c Inr p s by (simp add: Disk_ServeNotFoundHTTP_def tryNotFound_def)
    next
      case (Some err)
      have "rw_status (serveErrorPage content500 w') \<in> {Some 404, Some 500}"
        using c by (auto simp: rw_status_def resp_simps split: option.splits)
      with Some show ?thesis using Inr p s by (simp add: Disk_ServeNotFoundHTTP_def tryNotFound_def Serve_defs)
    qed
  qed
qed

section \<open>The contract of a serving\<close>

text \<open>What the code that looks up a project relies on, for any serving: a file handler that declines
  has not touched the response, and the not-found handler answers.\<close>

locale serving_ops =
  fixes sv :: serving
  assumes file_untouched: "sv_ServeFileHTTP sv h w = (False, w') \<Longrightarrow> w' = w"
    and notfound_answers:
      "rw_sent w = None \<Longrightarrow> rw_status (sv_ServeNotFoundHTTP sv h w) \<in> {Some 404, Some 500}"
begin

lemma file_then_notfound:
  assumes "rw_sent w = None" "sv_ServeFileHTTP sv h w = (False, w')"
  shows "rw_status (sv_ServeNotFoundHTTP sv h w') \<in> {Some 404, Some 500}"
  using notfound_answers [OF assms(1)] file_untouched [OF assms(2)] by simp

end

interpretation disk_serving: serving_ops "Disk_New env fs" for env fs
  by unfold_locales (simp_all add: Disk_New_def Disk_file_untouched Disk_notfound_status [simplified])

text \<open>When the disk serving reports that it did not handle a request, it has left the response
  exactly as it was, headers included, so that the caller can go on to the not-found page.\<close>

theorem Disk_ServeFileHTTP_untouched:
  assumes "Disk_ServeFileHTTP env fs h w = (False, w')"
  shows "w' = w"
  using assms by (rule disk_serving.file_untouched [unfolded Disk_New_def serving.simps])

text \<open>The not-found handler always answers a fresh response, with status 404, or 500 when the
  site's root or its own 404 page cannot be read.\<close>

theorem Disk_ServeNotFoundHTTP_status:
  assumes "rw_sent w = None"
  shows "rw_status (Disk_ServeNotFoundHTTP env fs h w) \<in> {Some 404, Some 500}"
  using assms by (rule disk_serving.notfound_answers [unfolded Disk_New_def serving.simps])

section \<open>Redirects of a site\<close>

text \<open>A redirect rule of a site is answered with the rule's status, 301 or 302, and the browser
  stays on the host it asked, as long as the path the rule rewrites to does not begin with two
  slashes.\<close>

theorem tryRedirects_same_host:
  assumes "fs (lp_Path (h_LookupPath h)) = Inr rt"
    and "tryRedirects env fs h w = (True, w')" and "rw_sent w = None"
  shows "\<exists>u' st. Rewrite (ParseRedirects (e_netlify env) rt) (r_URL (h_Request h)) = Inr (u', st) \<and>
           st \<in> {301, 302} \<and> rw_status w' = Some st \<and>
           (\<not> HasPrefix (u_Path u') ''//'' \<longrightarrow>
              (\<exists>loc. sent_header w' ''Location'' = Some [loc] \<and> same_host_ref loc))"
proof -
  obtain u' st where rw: "Rewrite (ParseRedirects (e_netlify env) rt) (r_URL (h_Request h)) = Inr (u', st)"
    and w': "w' = http_Redirect (h_Request h) (u_Path u') st w"
    using assms(1,2) by (auto simp: tryRedirects_def split: sum.splits prod.splits)
  have "same_host_ref (hexEscapeNonASCII (redirect_target old (u_Path u')))"
    if "\<not> HasPrefix (u_Path u') ''//''" for old
  proof -
    have "same_host_ref (u_Path u')" using that Rewrite_Inr [OF rw] by (simp add: same_host_ref_def)
    then show ?thesis by (intro same_host_hexEscape redirect_target_same_host)
  qed
  then show ?thesis
    using rw w' Rewrite_Inr [OF rw] http_Redirect_sent [OF assms(3)] http_Redirect_Location [OF assms(3)] by auto
qed

definition demo_env :: "rule list \<Rightarrow> serve_env" where
  "demo_env rules = \<lparr>e_Getenv = (\<lambda>_. []), e_TypeByExtension = (\<lambda>ext. if ext = ''.html'' then ''text/html'' else []),
     e_DetectContentType = (\<lambda>_. ''text/plain''), e_ExpiresIn10Minutes = ''Thu, 01 Jan 1970 00:10:00 UTC'',
     e_ServeContent = (\<lambda>r n t f w. write_bytes (vf_data f) (WriteHeader 200 w)),
     e_netlify = (\<lambda>_. Some rules)\<rparr>"

definition demo_root :: vfs_root where
  "demo_root = \<lparr>rt_Lstat = (\<lambda>n. if n \<in> {''_redirects'', ''x.html'', ''x.html.gz''}
       then Inr \<lparr>fi_mode = ModeRegular, fi_size = 5, fi_modtime = 0\<rparr> else Inl ErrOSNotExist),
     rt_Readlink = (\<lambda>_. Inl ErrOSNotExist),
     rt_Open = (\<lambda>n. if n \<in> {''_redirects'', ''x.html''} then Inr \<lparr>vf_data = ''hello'', vf_err = None, vf_seekable = True\<rparr>
       else if n = ''x.html.gz'' then Inl ErrOSPermission else Inl ErrOSNotExist)\<rparr>"

definition demo_lookup :: LookupPath where
  "demo_lookup = \<lparr>lp_ServingType = ''file'', lp_Prefix = ''/'', lp_Path = ''site'', lp_IsNamespaceProject = False,
     lp_IsHTTPSOnly = False, lp_HasAccessControl = False, lp_ProjectID = 1\<rparr>"

definition demo_handler :: "string \<Rightarrow> serving_handler" where
  "demo_handler p = \<lparr>h_Request = (demo_request ''gzip'')\<lparr>r_URL := empty_url\<lparr>u_Path := slash # p\<rparr>\<rparr>,
     h_LookupPath = demo_lookup, h_SubPath = p\<rparr>"

theorem tryRedirects_same_host_witness:
  "\<exists>u' st. Rewrite (ParseRedirects (e_netlify (demo_env [demo_rule ''/a'' ''/b.html''])) demo_root) (r_URL (h_Request (demo_handler ''a''))) = Inr (u', st) \<and>
     st \<in> {301, 302} \<and>
     rw_status (snd (tryRedirects (demo_env [demo_rule ''/a'' ''/b.html'']) (\<lambda>_. Inr demo_root) (demo_handler ''a'') new_resp)) = Some st"
proof -
  have "fst (tryRedirects (demo_env [demo_rule ''/a'' ''/b.html'']) (\<lambda>_. Inr demo_root) (demo_handler ''a'') new_resp) = True"
    by code_simp
  then have t: "tryRedirects (demo_env [demo_rule ''/a'' ''/b.html'']) (\<lambda>_. Inr demo_root) (demo_handler ''a'') new_resp =
      (True, snd (tryRedirects (demo_env [demo_rule ''/a'' ''/b.html'']) (\<lambda>_. Inr demo_root) (demo_handler ''a'') new_resp))"
    by (metis prod.collapse)
  show ?thesis using tryRedirects_same_host [OF refl t] by (auto simp: resp_simps)
qed

text \<open>The guard of the previous property is needed: a rule whose target hides its second slash
  as \<^verbatim>\<open>%2F\<close> passes the validation against redirects to outside sites, yet the answer sends the
  browser to another host.\<close>

theorem tryRedirects_leaves_host:
  "validateRule (demo_rule ''/a'' ''/%2Fexample.org/'') = None \<and>
   sent_header (snd (tryRedirects (demo_env [demo_rule ''/a'' ''/%2Fexample.org/'']) (\<lambda>_. Inr demo_root)
     (demo_handler ''a'') new_resp)) ''Location'' = Some [''//example.org/'']"
  by code_simp

section \<open>Caching of private pages\<close>

lemma io_Copy_sent:
  "rw_sent w = None \<Longrightarrow> rw_sent (io_Copy f w) = None \<or> rw_sent (io_Copy f w) = Some (200, rw_header w)"
  by (simp add: io_Copy_def write_bytes_def resp_simps)

lemma serve_open_file_caching:
  assumes "serve_content_ok (e_ServeContent env)" "rw_sent w = None"
    and "rw_sent (serve_open_file env r p fi f w) = Some (s, hd')"
  shows "hd' ''Cache-Control'' = rw_header w ''Cache-Control''"
proof (cases "vf_seekable f")
  case True
  then obtain s' h' where "rw_sent (e_ServeContent env r p (fi_modtime fi) f w) = Some (s', h')"
    "h' ''Cache-Control'' = rw_header w ''Cache-Control''"
    using assms(1,2) unfolding serve_content_ok_def by blast
  with True assms(3) show ?thesis by (simp add: serve_open_file_def)
next
  case False
  let ?w = "hset ''Content-Length'' (FormatInt (fi_size fi)) w"
  have "rw_sent ?w = None" using assms(2) by (simp add: resp_simps)
  from io_Copy_sent [OF this, of f] False assms(3) show ?thesis
    by (auto simp: serve_open_file_def resp_simps)
qed

text \<open>A page of a project with access control is never sent with a shared-cache lifetime: the
  response carries whatever Cache-Control it had before, on success and on error.\<close>

theorem serveFile_private:
  assumes "serve_content_ok (e_ServeContent env)" and "rw_sent w = None"
    and "rw_sent (snd (serveFile env r rt p True w)) = Some (s, hd')"
  shows "hd' ''Cache-Control'' = rw_header w ''Cache-Control''"
proof -
  obtain p' w1 where enc: "handleContentEncoding r rt p w = (p', w1)" by fastforce
  have w1: "rw_sent w1 = None" "rw_header w1 ''Cache-Control'' = rw_header w ''Cache-Control''"
    using enc assms(2) handleContentEncoding_caching [OF enc] by simp_all
  have err: "rw_sent (serveErrorPage c w1) = Some (s, hd') \<Longrightarrow> hd' ''Cache-Control'' = rw_header w ''Cache-Control''" for c
    using w1 by (auto simp: resp_simps)
  have ok: "rw_sent (serve_open_file env r p fi f (hset ''Content-Type'' ct w1)) = Some (s, hd') \<Longrightarrow>
      hd' ''Cache-Control'' = rw_header w ''Cache-Control''" for fi f ct
    using serve_open_file_caching [OF assms(1), of "hset ''Content-Type'' ct w1" r p fi f] w1
    by (simp add: resp_simps)
  show ?thesis
    using assms(3) enc err ok by (auto simp: serveFile_def Serve_defs split: sum.splits)
qed

lemma demo_serve_content_ok: "serve_content_ok (e_ServeContent (demo_env rules))"
  by (auto simp: serve_content_ok_def demo_env_def resp_simps write_bytes_def)

theorem serveFile_private_witness:
  "\<exists>s hd'. rw_sent (snd (serveFile (demo_env []) (demo_request []) demo_root ''x.html'' True new_resp)) = Some (s, hd') \<and>
     hd' ''Cache-Control'' = None"
proof -
  have "rw_sent (snd (serveFile (demo_env []) (demo_request []) demo_root ''x.html'' True new_resp)) \<noteq> None"
    by code_simp
  then obtain s hd' where sent: "rw_sent (snd (serveFile (demo_env []) (demo_request []) demo_root ''x.html'' True new_resp)) = Some (s, hd')"
    by auto
  then show ?thesis using serveFile_private [OF demo_serve_content_ok _ sent] sent by (auto simp: resp_simps)
qed

theorem Disk_ServeFileHTTP_untouched_witness:
  "Disk_ServeFileHTTP (demo_env []) (\<lambda>_. Inr demo_root) (demo_handler ''none'') new_resp = (False, new_resp)"
proof -
  have "fst (Disk_ServeFileHTTP (demo_env []) (\<lambda>_. Inr demo_root) (demo_handler ''none'') new_resp) = False"
    by code_simp
  then have t: "Disk_ServeFileHTTP (demo_env []) (\<lambda>_. Inr demo_root) (demo_handler ''none'') new_resp =
      (False, snd (Disk_ServeFileHTTP (demo_env []) (\<lambda>_. Inr demo_root) (demo_handler ''none'') new_resp))"
    by (metis prod.collapse)
  show ?thesis using Disk_ServeFileHTTP_untouched [OF t] t by simp
qed

theorem Disk_ServeNotFoundHTTP_status_witness:
  "rw_status (Disk_ServeNotFoundHTTP (demo_env []) (\<lambda>_. Inr demo_root) (demo_handler ''none'') new_resp) \<in> {Some 404, Some 500}"
  by (rule Disk_ServeNotFoundHTTP_status) (simp add: resp_simps)

text \<open>An error after a compressed variant was chosen: the headers announcing that variant stay on
  the response, so the HTML of the error page is sent as if it were gzip data of the variant's
  length.\<close>

theorem serveFile_error_keeps_encoding:
  "let w = snd (serveFile (demo_env []) (demo_request ''gzip'') demo_root ''x.html'' False new_resp)
   in rw_status w = Some 500 \<and> sent_header w ''Content-Encoding'' = Some [''gzip''] \<and>
      sent_header w ''Content-Length'' = Some [''5''] \<and> rw_body w = [generateErrorHTML content500]"
  by code_simp

section \<open>Only regular files below the root are served\<close>

lemma serveFile_cases:
  "(\<exists>w0. snd (serveFile env r rt p ac w) = serveErrorPage content500 w0) \<or>
   (\<exists>p' f fi w0. rt_Open rt p' = Inr f \<and> rt_Lstat rt p' = Inr fi \<and> p' \<in> {p, p @ ''.br'', p @ ''.gz''} \<and>
      snd (serveFile env r rt p ac w) = serve_open_file env r p fi f w0)"
proof -
  obtain p' w1 where enc: "handleContentEncoding r rt p w = (p', w1)" by fastforce
  then have p': "p' \<in> {p, p @ ''.br'', p @ ''.gz''}"
    using handleContentEncoding_cases [of r rt p w] by (auto simp: compressedEncodings_def split: if_split_asm)
  show ?thesis
  proof (cases "rt_Open rt p'")
    case (Inl e)
    then show ?thesis using enc by (auto simp: serveFile_def Serve_defs)
  next
    case f: (Inr f)
    show ?thesis
    proof (cases "rt_Lstat rt p'")
      case (Inl e)
      then show ?thesis using enc f by (auto simp: serveFile_def Serve_defs)
    next
      case (Inr fi)
      have "snd (serveFile env r rt p ac w) \<in> range (serveErrorPage content500) \<union> range (serve_open_file env r p fi f)"
        using enc f Inr by (auto simp: serveFile_def Serve_defs Let_def split: sum.splits)
      then show ?thesis using f Inr p' by blast
    qed
  qed
qed

context vfs_root_ops
begin

lemma serveFile_regular:
  "(\<exists>w0. snd (serveFile env r root p ac w) = serveErrorPage content500 w0) \<or>
   (\<exists>p' f fi w0. rt_Open root p' = Inr f \<and> rt_Lstat root p' = Inr fi \<and> fi_mode fi = ModeRegular \<and>
      p' \<in> {p, p @ ''.br'', p @ ''.gz''} \<and> snd (serveFile env r root p ac w) = serve_open_file env r p fi f w0)"
  using serveFile_cases [of env r root p ac w] Open_regular by fastforce

lemma serveFile_never_Lstat_error:
  assumes "rt_Open root (fst (handleContentEncoding r root p w)) = Inr f"
    and "detectContentType env root p = Inr ct"
  shows "\<exists>fi w0. snd (serveFile env r root p ac w) = serve_open_file env r p fi f w0 \<and> fi_mode fi = ModeRegular"
proof -
  obtain p' w1 where enc: "handleContentEncoding r root p w = (p', w1)" by fastforce
  then obtain fi where "rt_Lstat root p' = Inr fi" "fi_mode fi = ModeRegular" using assms(1) Open_regular by auto
  then show ?thesis using assms enc by (auto simp: serveFile_def)
qed

end

text \<open>What \<^verbatim>\<open>tryFile\<close> can answer when it handles a request.\<close>

lemma tryFile_answers:
  assumes "fs (lp_Path (h_LookupPath h)) = Inr rt" and "tryFile env fs h w = (True, w')"
  shows "w' = http_Redirect (h_Request h) (redirectPath (h_Request h)) 302 w \<or>
    w' = serveRedirectsStatus (ParseRedirects (e_netlify env) rt) w \<or> w' = WriteHeader 403 w \<or>
    (\<exists>p. w' = snd (serveFile env (h_Request h) rt p (lp_HasAccessControl (h_LookupPath h)) w))"
proof -
  have sf: "serveFile env r rt p ac w = (True, w') \<Longrightarrow> w' = snd (serveFile env r rt p ac w)" for r p ac by simp
  show ?thesis
    using assms by (auto simp: tryFile_def Let_def split: if_split_asm sum.splits dest!: sf)
qed

lemma local_Open_contained:
  assumes "clean_root r" and "local_Open os r name = Inr f"
  shows "\<exists>full v d t. os_lookup os full = Inr (OsRegular d t) \<and> f = \<lparr>vf_data = d, vf_err = None, vf_seekable = True\<rparr> \<and>
    path_elems full = path_elems r @ path_elems v \<and> list_all clean_elem (path_elems full) \<and>
    (full = r \<or> full = r @ ''/'' @ v)"
proof -
  obtain full v where v: "validatePath r name = Inr (full, v)"
    using assms(2) by (auto simp: local_Open_def split: sum.splits)
  then obtain node where o: "os_OpenNoFollow os full = Inr (node, f)" "fi_mode (node_info node) = ModeRegular"
    using assms(2) by (auto simp: local_Open_def split: sum.splits option.splits if_split_asm)
  then obtain d t where "os_lookup os full = Inr (OsRegular d t)" "f = \<lparr>vf_data = d, vf_err = None, vf_seekable = True\<rparr>"
    by (auto simp: os_OpenNoFollow_def split: sum.splits option.splits os_node.splits)
  then show ?thesis using validatePath_cases [OF v] validatePath_elems [OF assms(1) v] by blast
qed

text \<open>C7. Whatever path a request names, the local serving answers it with a redirect, the status of
  the redirect rules, an error page, or the content of a regular file that lies at a cleaned path
  below the site's root: a device, a directory, a symlink or a path outside the root is never opened
  for it.\<close>

theorem local_tryFile_contained:
  assumes "clean_root r" and "local_Root_path os (lp_Path (h_LookupPath h)) = Inr r"
    and "tryFile env (local_Root os) h w = (True, w')"
  shows "w' = http_Redirect (h_Request h) (redirectPath (h_Request h)) 302 w \<or>
    w' = serveRedirectsStatus (ParseRedirects (e_netlify env) (local_root os r)) w \<or> w' = WriteHeader 403 w \<or>
    (\<exists>w0. w' = serveErrorPage content500 w0) \<or>
    (\<exists>full v d t name fi w0. os_lookup os full = Inr (OsRegular d t) \<and>
       path_elems full = path_elems r @ path_elems v \<and> list_all clean_elem (path_elems full) \<and>
       (full = r \<or> full = r @ ''/'' @ v) \<and>
       w' = serve_open_file env (h_Request h) name fi \<lparr>vf_data = d, vf_err = None, vf_seekable = True\<rparr> w0)"
proof -
  have rt: "local_Root os (lp_Path (h_LookupPath h)) = Inr (local_root os r)"
    using assms(2) by (simp add: local_Root_def)
  have sfile: "(\<exists>w0. snd (serveFile env q (local_root os r) p ac w) = serveErrorPage content500 w0) \<or>
    (\<exists>full v d t fi w0. os_lookup os full = Inr (OsRegular d t) \<and>
       path_elems full = path_elems r @ path_elems v \<and> list_all clean_elem (path_elems full) \<and>
       (full = r \<or> full = r @ ''/'' @ v) \<and>
       snd (serveFile env q (local_root os r) p ac w) =
         serve_open_file env q p fi \<lparr>vf_data = d, vf_err = None, vf_seekable = True\<rparr> w0)" for q p ac
    using local_ops.serveFile_regular [of env q os r p ac w]
  proof (elim disjE exE conjE)
    fix p' f fi w0
    assume "rt_Open (local_root os r) p' = Inr f"
      and s: "snd (serveFile env q (local_root os r) p ac w) = serve_open_file env q p fi f w0"
    then have "local_Open os r p' = Inr f" by (simp add: local_root_def)
    from local_Open_contained [OF assms(1) this] s show ?thesis by blast
  qed blast
  from tryFile_answers [of "local_Root os" h "local_root os r" env w w', OF rt assms(3)] sfile show ?thesis by metis
qed

text \<open>A response with status 200 and the bytes of a file is none of the other answers.\<close>

lemma file_not_other_answer:
  assumes "rw_body w' = [FileBytes d]" "rw_status w' = Some 200"
  shows "w' \<noteq> http_Redirect r target 302 new_resp" "w' \<noteq> serveErrorPage content500 w0"
    "w' \<noteq> serveRedirectsStatus x new_resp" "w' \<noteq> WriteHeader 403 new_resp"
proof -
  show "w' \<noteq> http_Redirect r target 302 new_resp"
    using assms(2) http_Redirect_sent [of new_resp] by (auto simp: resp_simps)
  show "w' \<noteq> serveErrorPage content500 w0"
    using assms(1) serveErrorPage_body [of content500 w0] by (auto simp: generateErrorHTML_def)
  show "w' \<noteq> serveRedirectsStatus x new_resp" "w' \<noteq> WriteHeader 403 new_resp"
    using assms(1) by (auto simp: serveRedirectsStatus_def resp_simps)
qed

definition demo_local :: serving_handler where
  "demo_local = (demo_handler ''d/x.html'')\<lparr>h_LookupPath := demo_lookup\<lparr>lp_Path := ''/srv/p''\<rparr>\<rparr>"

theorem local_tryFile_contained_witness:
  "let w' = snd (tryFile (demo_env []) (local_Root demo_os) demo_local new_resp)
   in rw_body w' = [FileBytes ''hello''] \<and>
      (\<exists>full v d t name fi w0. os_lookup demo_os full = Inr (OsRegular d t) \<and>
         path_elems full = path_elems ''/srv/p'' @ path_elems v \<and>
         w' = serve_open_file (demo_env []) (h_Request demo_local) name fi \<lparr>vf_data = d, vf_err = None, vf_seekable = True\<rparr> w0)"
proof -
  let ?w = "snd (tryFile (demo_env []) (local_Root demo_os) demo_local new_resp)"
  have h: "fst (tryFile (demo_env []) (local_Root demo_os) demo_local new_resp) = True" by code_simp
  then have t: "tryFile (demo_env []) (local_Root demo_os) demo_local new_resp = (True, ?w)" by (metis prod.collapse)
  have r: "clean_root ''/srv/p''" by code_simp
  have l: "local_Root_path demo_os (lp_Path (h_LookupPath demo_local)) = Inr ''/srv/p''" by code_simp
  have b: "rw_body ?w = [FileBytes ''hello'']" by code_simp
  have "rw_status ?w = Some 200" by code_simp
  note other = file_not_other_answer [OF b this]
  show ?thesis using local_tryFile_contained [OF r l t] b other unfolding Let_def by metis
qed

end
