(* ===== verification/Domain.thy ===== *)
theory Domain
  imports Disk_Serving
begin

text \<open>
  A domain the daemon serves (\<^verbatim>\<open>internal/domain\<close>): its name, its certificate pair and the
  resolver that finds the project a request is for.  \<^verbatim>\<open>Resolver\<close> is an interface: a domain is
  parameterised by the type of its resolvers, and the operations take the \<^verbatim>\<open>Resolve\<close> method as
  their first argument.  A nil \<^verbatim>\<open>*Domain\<close> is \<^const>\<open>None\<close>.
\<close>

section \<open>Domains\<close>

text \<open>\<open>d_once\<close> is what \<^verbatim>\<open>certificateOnce\<close> left in \<^verbatim>\<open>certificate\<close> and
  \<^verbatim>\<open>certificateError\<close>.\<close>

type_synonym certificate = string

record 'r domain =
  d_Name :: string
  d_CertificateCert :: string
  d_CertificateKey :: string
  d_Resolver :: 'r
  d_once :: "certificate result option"

type_synonym 'r resolve_fn = "'r \<Rightarrow> request \<Rightarrow> serving_request result"

definition domain_New :: "string \<Rightarrow> string \<Rightarrow> string \<Rightarrow> 'r \<Rightarrow> 'r domain" where
  "domain_New name cert key resolver =
     \<lparr>d_Name = name, d_CertificateCert = cert, d_CertificateKey = key, d_Resolver = resolver, d_once = None\<rparr>"

definition domain_resolve :: "'r resolve_fn \<Rightarrow> 'r domain option \<Rightarrow> request \<Rightarrow> serving_request result" where
  "domain_resolve Resolve d r =
     (case d of None \<Rightarrow> Inl ErrDomainDoesNotExist | Some d \<Rightarrow> Resolve (d_Resolver d) r)"

definition GetLookupPath :: "'r resolve_fn \<Rightarrow> 'r domain option \<Rightarrow> request \<Rightarrow> LookupPath result" where
  "GetLookupPath Resolve d r =
     (case domain_resolve Resolve d r of Inl err \<Rightarrow> Inl err | Inr servingReq \<Rightarrow> Inr (sr_LookupPath servingReq))"

definition IsHTTPSOnly :: "'r resolve_fn \<Rightarrow> 'r domain option \<Rightarrow> request \<Rightarrow> bool" where
  "IsHTTPSOnly Resolve d r =
     (case GetLookupPath Resolve d r of Inr lookupPath \<Rightarrow> lp_IsHTTPSOnly lookupPath | Inl _ \<Rightarrow> False)"

definition IsAccessControlEnabled :: "'r resolve_fn \<Rightarrow> 'r domain option \<Rightarrow> request \<Rightarrow> bool" where
  "IsAccessControlEnabled Resolve d r =
     (case GetLookupPath Resolve d r of Inr lookupPath \<Rightarrow> lp_HasAccessControl lookupPath | Inl _ \<Rightarrow> False)"

definition IsNamespaceProject :: "'r resolve_fn \<Rightarrow> 'r domain option \<Rightarrow> request \<Rightarrow> bool" where
  "IsNamespaceProject Resolve d r =
     (case GetLookupPath Resolve d r of Inr lookupPath \<Rightarrow> lp_IsNamespaceProject lookupPath | Inl _ \<Rightarrow> False)"

definition GetProjectID :: "'r resolve_fn \<Rightarrow> 'r domain option \<Rightarrow> request \<Rightarrow> nat" where
  "GetProjectID Resolve d r =
     (case GetLookupPath Resolve d r of Inr lookupPath \<Rightarrow> lp_ProjectID lookupPath | Inl _ \<Rightarrow> 0)"

definition HasLookupPath :: "'r resolve_fn \<Rightarrow> 'r domain option \<Rightarrow> request \<Rightarrow> bool" where
  "HasLookupPath Resolve d r =
     (case d of None \<Rightarrow> False | Some _ \<Rightarrow> (case GetLookupPath Resolve d r of Inl _ \<Rightarrow> False | Inr _ \<Rightarrow> True))"

text \<open>\<^verbatim>\<open>EnsureCertificate\<close> parses the pair once (\<open>x509\<close> is \<^verbatim>\<open>tls.X509KeyPair\<close>) and
  remembers the outcome in the domain.\<close>

definition EnsureCertificate ::
  "(string \<Rightarrow> string \<Rightarrow> certificate result) \<Rightarrow> 'r domain option \<Rightarrow> certificate result \<times> 'r domain option" where
  "EnsureCertificate x509 d =
     (case d of
        None \<Rightarrow> (Inl (ErrMsg ''tls certificates can be loaded only for pages with configuration''), None)
      | Some dm \<Rightarrow>
          (if d_CertificateKey dm = [] \<or> d_CertificateCert dm = []
           then (Inl (ErrMsg ''tls certificates can be loaded only for pages with configuration''), Some dm)
           else (case d_once dm of
                   Some res \<Rightarrow> (res, Some dm)
                 | None \<Rightarrow>
                     (let res = x509 (d_CertificateCert dm) (d_CertificateKey dm)
                      in (res, Some (dm\<lparr>d_once := Some res\<rparr>))))))"

section \<open>Serving a domain\<close>

definition resolve_failed :: "go_error \<Rightarrow> resp \<Rightarrow> resp" where
  "resolve_failed err w = (if err = ErrDomainDoesNotExist then Serve404 w else Serve503 w)"

definition domain_ServeFileHTTP :: "'r resolve_fn \<Rightarrow> 'r domain option \<Rightarrow> request \<Rightarrow> resp \<Rightarrow> bool \<times> resp" where
  "domain_ServeFileHTTP Resolve d r w =
     (case domain_resolve Resolve d r of
        Inl err \<Rightarrow> (True, resolve_failed err w)
      | Inr request \<Rightarrow> Request_ServeFileHTTP request r w)"

definition domain_ServeNotFoundHTTP :: "'r resolve_fn \<Rightarrow> 'r domain option \<Rightarrow> request \<Rightarrow> resp \<Rightarrow> resp" where
  "domain_ServeNotFoundHTTP Resolve d r w =
     (case domain_resolve Resolve d r of
        Inl err \<Rightarrow> resolve_failed err w
      | Inr request \<Rightarrow> Request_ServeNotFoundHTTP request r w)"

definition serveNamespaceNotFound :: "'r resolve_fn \<Rightarrow> 'r domain \<Rightarrow> request \<Rightarrow> resp \<Rightarrow> resp" where
  "serveNamespaceNotFound Resolve d r w =
     (let clonedReq = r\<lparr>r_URL := (r_URL r)\<lparr>u_Path := ''/''\<rparr>\<rparr>
      in case Resolve (d_Resolver d) clonedReq of
           Inl err \<Rightarrow> resolve_failed err w
         | Inr namespaceDomain \<Rightarrow>
             (if \<not> lp_HasAccessControl (sr_LookupPath namespaceDomain)
              then Request_ServeNotFoundHTTP namespaceDomain r w
              else Serve404 w))"

definition ServeNotFoundAuthFailed :: "'r resolve_fn \<Rightarrow> 'r domain option \<Rightarrow> request \<Rightarrow> resp \<Rightarrow> resp" where
  "ServeNotFoundAuthFailed Resolve d r w =
     (case (GetLookupPath Resolve d r, d) of
        (Inr lookupPath, Some dm) \<Rightarrow>
          (if IsNamespaceProject Resolve d r \<and> \<not> lp_HasAccessControl lookupPath
           then domain_ServeNotFoundHTTP Resolve d r w
           else serveNamespaceNotFound Resolve dm r w)
      | _ \<Rightarrow> Serve404 w)"

section \<open>The contract of a resolver\<close>

text \<open>What serving a domain needs of its resolver: the requests it hands out go to servings that keep
  the contract of a serving.\<close>

locale resolver_ops =
  fixes Resolve :: "'r \<Rightarrow> request \<Rightarrow> serving_request result"
  assumes Resolve_serving: "Resolve R r = Inr s \<Longrightarrow> serving_ops (sr_Serving s)"
begin

lemma domain_file_untouched:
  assumes "domain_ServeFileHTTP Resolve d r w = (False, w')"
  shows "w' = w"
proof -
  obtain s where "domain_resolve Resolve d r = Inr s" "Request_ServeFileHTTP s r w = (False, w')"
    using assms by (auto simp: domain_ServeFileHTTP_def split: sum.splits)
  then show ?thesis
    using serving_ops.file_untouched [OF Resolve_serving]
    by (auto simp: domain_resolve_def Request_ServeFileHTTP_def split: option.splits)
qed

lemma domain_notfound_answers:
  assumes "rw_sent w = None"
  shows "rw_status (domain_ServeNotFoundHTTP Resolve d r w) \<in> {Some 404, Some 500, Some 503}"
proof (cases "domain_resolve Resolve d r")
  case (Inl err)
  then show ?thesis using assms
    by (simp add: domain_ServeNotFoundHTTP_def resolve_failed_def Serve_defs rw_status_sent content_status)
next
  case (Inr s)
  then have "serving_ops (sr_Serving s)" using Resolve_serving by (auto simp: domain_resolve_def split: option.splits)
  from serving_ops.notfound_answers [OF this assms] Inr show ?thesis
    by (auto simp: domain_ServeNotFoundHTTP_def Request_ServeNotFoundHTTP_def)
qed

text \<open>Serving a file and falling back to the not-found page, as the daemon chains them, always
  answers.\<close>

lemma domain_answers:
  assumes "rw_sent w = None" "domain_ServeFileHTTP Resolve d r w = (False, w')"
  shows "rw_status (domain_ServeNotFoundHTTP Resolve d r w') \<in> {Some 404, Some 500, Some 503}"
  using domain_notfound_answers [OF assms(1)] domain_file_untouched [OF assms(2)] by simp

lemma namespace_notfound_answers:
  assumes "rw_sent w = None"
  shows "rw_status (serveNamespaceNotFound Resolve d r w) \<in> {Some 404, Some 500, Some 503}"
proof (cases "Resolve (d_Resolver d) (r\<lparr>r_URL := (r_URL r)\<lparr>u_Path := ''/''\<rparr>\<rparr>)")
  case (Inl err)
  then show ?thesis using assms
    by (simp add: serveNamespaceNotFound_def resolve_failed_def Serve_defs rw_status_sent content_status)
next
  case (Inr s)
  from serving_ops.notfound_answers [OF Resolve_serving [OF Inr] assms] Inr assms show ?thesis
    by (auto simp: serveNamespaceNotFound_def Request_ServeNotFoundHTTP_def Serve_defs rw_status_sent content_status)
qed

lemma auth_failed_answers:
  assumes "rw_sent w = None"
  shows "rw_status (ServeNotFoundAuthFailed Resolve d r w) \<in> {Some 404, Some 500, Some 503}"
proof (cases "GetLookupPath Resolve d r")
  case (Inl err)
  then show ?thesis using assms by (simp add: ServeNotFoundAuthFailed_def Serve_defs rw_status_sent content_status)
next
  case (Inr lp)
  then show ?thesis
  proof (cases d)
    case None
    with Inr show ?thesis by (simp add: GetLookupPath_def domain_resolve_def)
  next
    case (Some dm)
    with Inr show ?thesis
      using domain_notfound_answers [OF assms, of d r] namespace_notfound_answers [OF assms, of dm r]
      by (simp add: ServeNotFoundAuthFailed_def split: if_split)
  qed
qed

end

section \<open>Properties\<close>

text \<open>C14. After a failed authentication no page of a protected project is shown: the answer is a
  generic 404 or 503 page, or the not-found page of a project without access control.\<close>

theorem ServeNotFoundAuthFailed_public:
  "ServeNotFoundAuthFailed Resolve d r w \<in> {Serve404 w, Serve503 w} \<or>
   (\<exists>s. \<not> lp_HasAccessControl (sr_LookupPath s) \<and>
      ServeNotFoundAuthFailed Resolve d r w = Request_ServeNotFoundHTTP s r w \<and>
      (\<exists>dm q. d = Some dm \<and> (q = r \<or> q = r\<lparr>r_URL := (r_URL r)\<lparr>u_Path := ''/''\<rparr>\<rparr>) \<and>
         Resolve (d_Resolver dm) q = Inr s))"
proof (cases d)
  case None
  then show ?thesis by (simp add: ServeNotFoundAuthFailed_def split: sum.splits)
next
  case (Some dm)
  let ?q = "r\<lparr>r_URL := (r_URL r)\<lparr>u_Path := ''/''\<rparr>\<rparr>"
  have ns: "serveNamespaceNotFound Resolve dm r w \<in> {Serve404 w, Serve503 w} \<or>
      (\<exists>s. \<not> lp_HasAccessControl (sr_LookupPath s) \<and> Resolve (d_Resolver dm) ?q = Inr s \<and>
         serveNamespaceNotFound Resolve dm r w = Request_ServeNotFoundHTTP s r w)"
    by (auto simp: serveNamespaceNotFound_def Let_def resolve_failed_def split: sum.splits)
  show ?thesis
  proof (cases "Resolve (d_Resolver dm) r")
    case (Inl e)
    then show ?thesis using Some by (simp add: ServeNotFoundAuthFailed_def GetLookupPath_def domain_resolve_def)
  next
    case (Inr s)
    then have "ServeNotFoundAuthFailed Resolve d r w =
        (if lp_IsNamespaceProject (sr_LookupPath s) \<and> \<not> lp_HasAccessControl (sr_LookupPath s)
         then Request_ServeNotFoundHTTP s r w else serveNamespaceNotFound Resolve dm r w)"
      using Some by (simp add: ServeNotFoundAuthFailed_def GetLookupPath_def domain_resolve_def IsNamespaceProject_def
          domain_ServeNotFoundHTTP_def)
    then show ?thesis using ns Inr Some by (auto split: if_split_asm)
  qed
qed

text \<open>The certificate of a domain is parsed at most once: after the first call every later call
  returns the same result, whatever the parser would answer then, and leaves the domain alone.\<close>

theorem EnsureCertificate_once:
  "EnsureCertificate x509' (snd (EnsureCertificate x509 d)) = EnsureCertificate x509 d"
  by (simp add: EnsureCertificate_def Let_def split: option.splits)

end
