(* ===== verification/Auth.thy ===== *)
theory Auth
  imports Domain
begin

text \<open>
  Authentication of visitors against GitLab (\<^verbatim>\<open>internal/auth\<close>): the OAuth flow over the session
  cookie, the proxying of the flow through the pages domain, the encrypted and signed code handed to
  custom domains (\<^verbatim>\<open>auth_code.go\<close>), and the access check of a project.

  The packages the code calls are parameters, fields of the record \<open>auth_env\<close>: the cookie store of
  \<^verbatim>\<open>gorilla/sessions\<close> (it always returns a session, with an error when the cookie does not
  decode), saving a session (which adds the cookie to the response and may fail), the HTTP client,
  the JSON decoders, random strings, HKDF, AES-GCM and the JWT library.  What the code relies on of
  the cryptographic ones is stated as the predicate \<open>crypto_ok\<close>.  Logging and error tracking are
  left out.
\<close>

section \<open>Sessions and environment\<close>

record session =
  se_Values :: "string \<rightharpoonup> string"
  se_Path :: string
  se_HttpOnly :: bool
  se_Secure :: bool
  se_MaxAge :: int

record oauth_request =
  oq_Method :: string
  oq_URL :: string
  oq_Body :: string
  oq_Bearer :: "string option"

record oauth_response =
  or_StatusCode :: int
  or_Body :: bytes

text \<open>The claims of a code token; a claim that is missing or not a string is \<^const>\<open>None\<close>.\<close>

record claims =
  cm_iss :: string
  cm_iat :: timestamp
  cm_exp :: timestamp
  cm_domain :: "string option"
  cm_code :: "string option"
  cm_nonce :: "string option"

record auth_env =
  av_store_Get :: "request \<Rightarrow> session \<times> go_error option"
  av_Save :: "session \<Rightarrow> request \<Rightarrow> resp \<Rightarrow> go_error option \<times> resp"
  av_Do :: "oauth_request \<Rightarrow> oauth_response result"
  av_decode_token :: "bytes \<Rightarrow> string result"
  av_decode_error :: "bytes \<Rightarrow> string result"
  av_random :: string
  av_now :: timestamp
  av_hkdf :: "string \<Rightarrow> string \<Rightarrow> string \<Rightarrow> bytes result"
  av_seal :: "bytes \<Rightarrow> string \<Rightarrow> string \<Rightarrow> bytes"
  av_open :: "bytes \<Rightarrow> string \<Rightarrow> bytes \<Rightarrow> string result"
  av_cipher :: "bytes \<Rightarrow> nat \<Rightarrow> go_error option"
  av_jwt_sign :: "bytes \<Rightarrow> claims \<Rightarrow> string result"
  av_jwt_parse :: "bytes \<Rightarrow> timestamp \<Rightarrow> string \<Rightarrow> claims result"

record Auth =
  au_pagesDomain :: string
  au_clientID :: string
  au_clientSecret :: string
  au_redirectURI :: string
  au_gitLabServer :: string
  au_authSecret :: string
  au_authScope :: string
  au_jwtSigningKey :: bytes
  au_jwtExpiry :: duration

text \<open>Times are in nanoseconds, as in Go; \<^verbatim>\<open>Unix()\<close> is in seconds.\<close>

abbreviation second :: int where "second \<equiv> 1000000000"

definition callbackPath :: string where "callbackPath = ''/auth''"
definition authSessionMaxAge :: int where "authSessionMaxAge = 60 * 10"

definition generateKeys :: "auth_env \<Rightarrow> string \<Rightarrow> bytes result" where
  "generateKeys env secret = av_hkdf env secret [] ''PAGES_SIGNING_AND_ENCRYPTION_KEY''"

text \<open>\<^verbatim>\<open>New\<close>: the HKDF stream is read as three keys of 32 bytes, of which the third signs tokens (the
  first two go to the cookie store).\<close>

definition auth_New :: "auth_env \<Rightarrow> string \<Rightarrow> string \<Rightarrow> string \<Rightarrow> string \<Rightarrow> string \<Rightarrow> string \<Rightarrow> string \<Rightarrow> Auth result" where
  "auth_New env pagesDomain storeSecret clientID clientSecret redirectURI gitLabServer authScope =
     (case generateKeys env storeSecret of
        Inl err \<Rightarrow> Inl err
      | Inr stream \<Rightarrow>
          Inr \<lparr>au_pagesDomain = pagesDomain, au_clientID = clientID, au_clientSecret = clientSecret,
               au_redirectURI = redirectURI, au_gitLabServer = TrimRight gitLabServer ''/'',
               au_authSecret = storeSecret, au_authScope = authScope,
               au_jwtSigningKey = take 32 (drop 64 stream), au_jwtExpiry = 60 * second\<rparr>)"

section \<open>The secure code (auth_code.go)\<close>

definition hex_EncodeToString :: "bytes \<Rightarrow> string" where
  "hex_EncodeToString s = concat (map (\<lambda>c. [lower_hex (byte c div 16), lower_hex (byte c mod 16)]) s)"

fun hex_DecodeString :: "string \<Rightarrow> bytes result" where
  "hex_DecodeString [] = Inr []"
| "hex_DecodeString [c] = Inl (ErrMsg ''encoding/hex: odd length hex string'')"
| "hex_DecodeString (a # b # rest) =
     (case (unhex a, unhex b) of
        (Some h, Some l) \<Rightarrow> (case hex_DecodeString rest of Inl e \<Rightarrow> Inl e | Inr s \<Rightarrow> Inr (char_of (16 * h + l) # s))
      | _ \<Rightarrow> Inl (ErrMsg ''encoding/hex: invalid byte''))"

definition codeKey :: "auth_env \<Rightarrow> Auth \<Rightarrow> string \<Rightarrow> bytes result" where
  "codeKey env a domain = av_hkdf env (au_authSecret a) domain ''PAGES_AUTH_CODE_ENCRYPTION_KEY''"

text \<open>The key of the cipher, when the cipher can be made for it and for nonces of this length.\<close>

definition newAesGcmCipher :: "auth_env \<Rightarrow> Auth \<Rightarrow> string \<Rightarrow> string \<Rightarrow> bytes result" where
  "newAesGcmCipher env a domain nonce =
     (case codeKey env a domain of
        Inl err \<Rightarrow> Inl err
      | Inr stream \<Rightarrow>
          (let key = take 32 stream
           in case av_cipher env key (length nonce) of Some err \<Rightarrow> Inl err | None \<Rightarrow> Inr key))"

definition EncryptAndSignCode :: "auth_env \<Rightarrow> Auth \<Rightarrow> string \<Rightarrow> string \<Rightarrow> string result" where
  "EncryptAndSignCode env a domain code =
     (if domain = [] \<or> code = [] then Inl (ErrMsg ''empty domain or code'')
      else let nonce = av_random env
      in case newAesGcmCipher env a domain nonce of
           Inl err \<Rightarrow> Inl err
         | Inr key \<Rightarrow>
             (let encryptedCode = av_seal env key nonce code
              in av_jwt_sign env (au_jwtSigningKey a)
                   \<lparr>cm_iss = ''gitlab-pages'', cm_iat = av_now env div second, cm_exp = (av_now env + au_jwtExpiry a) div second,
                    cm_domain = Some domain, cm_code = Some (hex_EncodeToString encryptedCode), cm_nonce = Some nonce\<rparr>))"

definition parseJWTClaims :: "auth_env \<Rightarrow> Auth \<Rightarrow> string \<Rightarrow> claims result" where
  "parseJWTClaims env a secureCode = av_jwt_parse env (au_jwtSigningKey a) (av_now env) secureCode"

definition DecryptCode :: "auth_env \<Rightarrow> Auth \<Rightarrow> string \<Rightarrow> string \<Rightarrow> string result" where
  "DecryptCode env a jwt domain =
     (case parseJWTClaims env a jwt of
        Inl err \<Rightarrow> Inl err
      | Inr claims \<Rightarrow>
          (case cm_nonce claims of
             None \<Rightarrow> Inl (ErrMsg ''invalid nonce'')
           | Some nonce \<Rightarrow>
               (case cm_code claims of
                  None \<Rightarrow> Inl (ErrMsg ''invalid code'')
                | Some encryptedCode \<Rightarrow>
                    (case hex_DecodeString encryptedCode of
                       Inl err \<Rightarrow> Inl err
                     | Inr cipherText \<Rightarrow>
                         (case newAesGcmCipher env a domain nonce of
                            Inl err \<Rightarrow> Inl err
                          | Inr key \<Rightarrow> av_open env key nonce cipherText)))))"

section \<open>Helpers of the flow\<close>

definition getRequestAddress :: "request \<Rightarrow> string" where
  "getRequestAddress r = (if IsHTTPS r then ''https://'' @ r_Host r @ r_RequestURI r else ''http://'' @ r_Host r @ r_RequestURI r)"

definition getRequestDomain :: "request \<Rightarrow> string" where
  "getRequestDomain r = (if IsHTTPS r then ''https://'' @ r_Host r else ''http://'' @ r_Host r)"

definition query_Get :: "request \<Rightarrow> string \<Rightarrow> string" where
  "query_Get r k = values_Get (url_Query (r_URL r)) k"

definition shouldProxyAuthToGitlab :: "request \<Rightarrow> bool" where
  "shouldProxyAuthToGitlab r \<longleftrightarrow> query_Get r ''domain'' \<noteq> [] \<and> query_Get r ''state'' \<noteq> []"

definition shouldProxyCallbackToCustomDomain :: "session \<Rightarrow> bool" where
  "shouldProxyCallbackToCustomDomain s \<longleftrightarrow> se_Values s ''proxy_auth_domain'' \<noteq> None"

definition validateState :: "request \<Rightarrow> session \<Rightarrow> bool" where
  "validateState r s =
     (let state = query_Get r ''state''
      in if state = [] then False else se_Values s ''state'' = Some state)"

definition verifyCodeAndStateGiven :: "request \<Rightarrow> bool" where
  "verifyCodeAndStateGiven r \<longleftrightarrow> query_Get r ''code'' \<noteq> [] \<and> query_Get r ''state'' \<noteq> []"

definition authorizeURL :: "Auth \<Rightarrow> string \<Rightarrow> string" where
  "authorizeURL a state =
     au_gitLabServer a @ ''/oauth/authorize?client_id='' @ au_clientID a @ ''&redirect_uri='' @ au_redirectURI a
     @ ''&response_type=code&state='' @ state @ ''&scope='' @ au_authScope a"

definition getProxyAddress :: "Auth \<Rightarrow> request \<Rightarrow> string \<Rightarrow> string" where
  "getProxyAddress a r state = au_redirectURI a @ ''?domain='' @ getRequestDomain r @ ''&state='' @ state"

section \<open>Session handling\<close>

definition getSessionFromStore :: "auth_env \<Rightarrow> request \<Rightarrow> session \<times> go_error option" where
  "getSessionFromStore env r =
     (let (s, err) = av_store_Get env r
      in (s\<lparr>se_Path := ''/'', se_HttpOnly := True, se_Secure := IsHTTPS r, se_MaxAge := authSessionMaxAge\<rparr>, err))"

text \<open>\<^verbatim>\<open>checkSession\<close>: the session, or an error after the response was written.\<close>

definition checkSession :: "auth_env \<Rightarrow> request \<Rightarrow> resp \<Rightarrow> session result \<times> resp" where
  "checkSession env r w =
     (case getSessionFromStore env r of
        (s, None) \<Rightarrow> (Inr s, w)
      | (s, Some errsession) \<Rightarrow>
          (case av_Save env s r w of
             (Some errsave, w) \<Rightarrow> (Inl errsave, Serve500 w)
           | (None, w) \<Rightarrow> (Inl errsession, http_Redirect r (getRequestAddress r) 302 w)))"

definition domainAllowed :: "Auth \<Rightarrow> (string \<Rightarrow> 'd option result) \<Rightarrow> string \<Rightarrow> bool" where
  "domainAllowed a getDomain name =
     (if name = au_pagesDomain a \<or> HasSuffix (''.'' @ name) (au_pagesDomain a) then True
      else (case getDomain name of Inr (Some _) \<Rightarrow> True | _ \<Rightarrow> False))"

definition fetchAccessToken :: "auth_env \<Rightarrow> Auth \<Rightarrow> string \<Rightarrow> string result" where
  "fetchAccessToken env a code =
     (let url = au_gitLabServer a @ ''/oauth/token'';
          content = ''client_id='' @ au_clientID a @ ''&client_secret='' @ au_clientSecret a @ ''&code='' @ code
            @ ''&grant_type=authorization_code&redirect_uri='' @ au_redirectURI a
      in if url_Parse url = None then Inl (ErrMsg (''parse '' @ url))
         else (case av_Do env \<lparr>oq_Method = ''POST'', oq_URL = url, oq_Body = content, oq_Bearer = None\<rparr> of
                 Inl err \<Rightarrow> Inl err
               | Inr resp \<Rightarrow>
                   (if or_StatusCode resp \<noteq> 200 then Inl (ErrMsg ''response was not ok'')
                    else av_decode_token env (or_Body resp))))"

section \<open>The callback\<close>

definition checkAuthenticationResponse :: "auth_env \<Rightarrow> Auth \<Rightarrow> session \<Rightarrow> request \<Rightarrow> resp \<Rightarrow> resp" where
  "checkAuthenticationResponse env a s r w =
     (if \<not> validateState r s then Serve401 w
      else (case se_Values s ''uri'' of
              None \<Rightarrow> Serve500 w
            | Some redirectURI \<Rightarrow>
                (case DecryptCode env a (query_Get r ''code'') (getRequestDomain r) of
                   Inl err \<Rightarrow> Serve500 w
                 | Inr decryptedCode \<Rightarrow>
                     (case fetchAccessToken env a decryptedCode of
                        Inl err \<Rightarrow> Serve503 w
                      | Inr token \<Rightarrow>
                          (case av_Save env (s\<lparr>se_Values := (se_Values s)(''access_token'' \<mapsto> token)\<rparr>) r w of
                             (Some err, w) \<Rightarrow> Serve500 w
                           | (None, w) \<Rightarrow> http_Redirect r redirectURI 302 w)))))"

definition proxy_to_gitlab :: "auth_env \<Rightarrow> Auth \<Rightarrow> (string \<Rightarrow> 'd option result) \<Rightarrow> session \<Rightarrow> request \<Rightarrow> resp \<Rightarrow> resp" where
  "proxy_to_gitlab env a getDomain s r w =
     (let domain = query_Get r ''domain''; state = query_Get r ''state''
      in case url_Parse domain of
           None \<Rightarrow> Serve500 w
         | Some proxyurl \<Rightarrow>
             (let host = (case SplitHostPort (u_Host proxyurl) of Some (h, _) \<Rightarrow> h | None \<Rightarrow> u_Host proxyurl)
              in if \<not> domainAllowed a getDomain host then Serve401 w
                 else (case av_Save env (s\<lparr>se_Values := (se_Values s)(''proxy_auth_domain'' \<mapsto> domain)\<rparr>) r w of
                         (Some err, w) \<Rightarrow> Serve500 w
                       | (None, w) \<Rightarrow> http_Redirect r (authorizeURL a state) 302 w)))"

definition proxy_callback :: "auth_env \<Rightarrow> Auth \<Rightarrow> session \<Rightarrow> string \<Rightarrow> request \<Rightarrow> resp \<Rightarrow> resp" where
  "proxy_callback env a s proxyDomain r w =
     (case av_Save env (s\<lparr>se_Values := (se_Values s)(''proxy_auth_domain'' := None)\<rparr>) r w of
        (Some err, w) \<Rightarrow> Serve500 w
      | (None, w) \<Rightarrow>
          (let query = url_Query (r_URL r)
           in case EncryptAndSignCode env a proxyDomain (values_Get query ''code'') of
                Inl err \<Rightarrow> Serve503 w
              | Inr signedCode \<Rightarrow>
                  http_Redirect r
                    (proxyDomain @ u_Path (r_URL r) @ ''?''
                     @ values_Encode (values_Set ''code'' signedCode (values_Del ''token'' query))) 302 w))"

definition handleProxyingAuth ::
  "auth_env \<Rightarrow> Auth \<Rightarrow> (string \<Rightarrow> 'd option result) \<Rightarrow> session \<Rightarrow> request \<Rightarrow> resp \<Rightarrow> bool \<times> resp" where
  "handleProxyingAuth env a getDomain s r w =
     (if shouldProxyAuthToGitlab r then (True, proxy_to_gitlab env a getDomain s r w)
      else (case se_Values s ''proxy_auth_domain'' of
              Some proxyDomain \<Rightarrow> (True, proxy_callback env a s proxyDomain r w)
            | None \<Rightarrow> (False, w)))"

definition TryAuthenticate ::
  "auth_env \<Rightarrow> Auth option \<Rightarrow> (string \<Rightarrow> 'd option result) \<Rightarrow> request \<Rightarrow> resp \<Rightarrow> bool \<times> resp" where
  "TryAuthenticate env auth getDomain r w =
     (case auth of
        None \<Rightarrow> (False, w)
      | Some a \<Rightarrow>
          (case checkSession env r w of
             (Inl err, w) \<Rightarrow> (True, w)
           | (Inr s, w) \<Rightarrow>
               (if u_Path (r_URL r) \<noteq> callbackPath then (False, w)
                else let (proxied, w) = handleProxyingAuth env a getDomain s r w
                in if proxied then (True, w)
                   else if query_Get r ''error'' \<noteq> [] then (True, Serve401 w)
                   else if verifyCodeAndStateGiven r then (True, checkAuthenticationResponse env a s r w)
                   else (False, w))))"

section \<open>The access check\<close>

definition checkTokenExists :: "auth_env \<Rightarrow> Auth \<Rightarrow> session \<Rightarrow> request \<Rightarrow> resp \<Rightarrow> bool \<times> resp" where
  "checkTokenExists env a s r w =
     (if se_Values s ''access_token'' = None then
        (let state = av_random env;
             s' = s\<lparr>se_Values := (se_Values s)(''state'' \<mapsto> state, ''uri'' \<mapsto> getRequestAddress r, ''proxy_auth_domain'' := None)\<rparr>
         in case av_Save env s' r w of
              (Some err, w) \<Rightarrow> (True, Serve500 w)
            | (None, w) \<Rightarrow> (True, http_Redirect r (getProxyAddress a r state) 302 w))
      else (False, w))"

definition checkSessionIsValid :: "auth_env \<Rightarrow> Auth \<Rightarrow> request \<Rightarrow> resp \<Rightarrow> session option \<times> resp" where
  "checkSessionIsValid env a r w =
     (case checkSession env r w of
        (Inl err, w) \<Rightarrow> (None, w)
      | (Inr s, w) \<Rightarrow>
          (case checkTokenExists env a s r w of (True, w) \<Rightarrow> (None, w) | (False, w) \<Rightarrow> (Some s, w)))"

definition destroySession :: "auth_env \<Rightarrow> session \<Rightarrow> request \<Rightarrow> resp \<Rightarrow> resp" where
  "destroySession env s r w =
     (case av_Save env (s\<lparr>se_Values := (se_Values s)(''access_token'' := None)\<rparr>) r w of
        (Some err, w) \<Rightarrow> Serve500 w
      | (None, w) \<Rightarrow> http_Redirect r (getRequestAddress r) 302 w)"

definition checkResponseForInvalidToken :: "auth_env \<Rightarrow> oauth_response \<Rightarrow> session \<Rightarrow> request \<Rightarrow> resp \<Rightarrow> bool \<times> resp" where
  "checkResponseForInvalidToken env resp s r w =
     (if or_StatusCode resp = 401 then
        (case av_decode_error env (or_Body resp) of
           Inl err \<Rightarrow> (False, w)
         | Inr e \<Rightarrow> (if e = ''invalid_token'' then (True, destroySession env s r w) else (False, w)))
      else (False, w))"

definition access_url :: "Auth \<Rightarrow> nat \<Rightarrow> string" where
  "access_url a projectID =
     (if projectID > 0 then au_gitLabServer a @ ''/api/v4/projects/'' @ FormatInt (int projectID) @ ''/pages_access''
      else au_gitLabServer a @ ''/api/v4/user'')"

text \<open>\<open>token\<close> is read from the session that passed \<^verbatim>\<open>checkSessionIsValid\<close>.\<close>

definition checkAuthentication ::
  "auth_env \<Rightarrow> Auth \<Rightarrow> 'r resolve_fn \<Rightarrow> 'r domain option \<Rightarrow> request \<Rightarrow> resp \<Rightarrow> bool \<times> resp" where
  "checkAuthentication env a Resolve d r w =
     (case checkSessionIsValid env a r w of
        (None, w) \<Rightarrow> (True, w)
      | (Some s, w) \<Rightarrow>
          (let url = access_url a (GetProjectID Resolve d r); token = the (se_Values s ''access_token'')
           in if url_Parse url = None then (True, Serve500 w)
              else (case av_Do env \<lparr>oq_Method = ''GET'', oq_URL = url, oq_Body = [], oq_Bearer = Some token\<rparr> of
                      Inl err \<Rightarrow> (True, ServeNotFoundAuthFailed Resolve d r w)
                    | Inr resp \<Rightarrow>
                        (case checkResponseForInvalidToken env resp s r w of
                           (True, w) \<Rightarrow> (True, w)
                         | (False, w) \<Rightarrow>
                             (if or_StatusCode resp \<noteq> 200 then (True, ServeNotFoundAuthFailed Resolve d r w)
                              else (False, w))))))"

definition CheckAuthenticationWithoutProject ::
  "auth_env \<Rightarrow> Auth option \<Rightarrow> 'r resolve_fn \<Rightarrow> 'r domain option \<Rightarrow> request \<Rightarrow> resp \<Rightarrow> bool \<times> resp" where
  "CheckAuthenticationWithoutProject env auth Resolve d r w =
     (case auth of None \<Rightarrow> (False, w) | Some a \<Rightarrow> checkAuthentication env a Resolve d r w)"

definition CheckAuthentication ::
  "auth_env \<Rightarrow> Auth option \<Rightarrow> 'r resolve_fn \<Rightarrow> 'r domain option \<Rightarrow> request \<Rightarrow> resp \<Rightarrow> bool \<times> resp" where
  "CheckAuthentication env auth Resolve d r w =
     (case auth of None \<Rightarrow> (True, Serve500 w) | Some a \<Rightarrow> checkAuthentication env a Resolve d r w)"

definition GetTokenIfExists :: "auth_env \<Rightarrow> Auth option \<Rightarrow> request \<Rightarrow> resp \<Rightarrow> string result \<times> resp" where
  "GetTokenIfExists env auth r w =
     (case auth of
        None \<Rightarrow> (Inr [], w)
      | Some a \<Rightarrow>
          (case checkSession env r w of
             (Inl err, w) \<Rightarrow> (Inl (ErrMsg ''Error retrieving the session''), w)
           | (Inr s, w) \<Rightarrow> (Inr (case se_Values s ''access_token'' of Some t \<Rightarrow> t | None \<Rightarrow> []), w)))"

definition RequireAuth :: "auth_env \<Rightarrow> Auth \<Rightarrow> request \<Rightarrow> resp \<Rightarrow> bool \<times> resp" where
  "RequireAuth env a r w = (case checkSessionIsValid env a r w of (None, w) \<Rightarrow> (True, w) | (Some _, w) \<Rightarrow> (False, w))"

definition CheckResponseForInvalidToken ::
  "auth_env \<Rightarrow> Auth option \<Rightarrow> oauth_response \<Rightarrow> request \<Rightarrow> resp \<Rightarrow> bool \<times> resp" where
  "CheckResponseForInvalidToken env auth resp r w =
     (case auth of
        None \<Rightarrow> (False, w)
      | Some a \<Rightarrow>
          (case checkSession env r w of
             (Inl err, w) \<Rightarrow> (True, w)
           | (Inr s, w) \<Rightarrow> checkResponseForInvalidToken env resp s r w))"

definition IsAuthSupported :: "Auth option \<Rightarrow> bool" where
  "IsAuthSupported auth \<longleftrightarrow> auth \<noteq> None"

section \<open>Properties of the secure code\<close>

text \<open>What is used of the cryptographic packages: AES-GCM opens what it sealed under the same key and
  nonce, and a token the JWT library signed parses back to its claims until it expires.  That AES-GCM
  refuses a text sealed under another key, and that HKDF gives two domains different keys, are
  stated for the texts and domains at hand.\<close>

definition crypto_ok :: "auth_env \<Rightarrow> bool" where
  "crypto_ok env \<longleftrightarrow>
     (\<forall>k n p. av_open env k n (av_seal env k n p) = Inr p) \<and>
     (\<forall>k c t now. av_jwt_sign env k c = Inr t \<longrightarrow> cm_iat c \<le> now div second \<longrightarrow> now div second \<le> cm_exp c \<longrightarrow>
        av_jwt_parse env k now t = Inr c)"

definition aead_rejects :: "auth_env \<Rightarrow> string \<Rightarrow> bool" where
  "aead_rejects env code \<longleftrightarrow>
     (\<forall>k k'. k \<noteq> k' \<longrightarrow> (\<exists>e. av_open env k' (av_random env) (av_seal env k (av_random env) code) = Inl e))"

definition keys_differ :: "auth_env \<Rightarrow> Auth \<Rightarrow> string \<Rightarrow> string \<Rightarrow> bool" where
  "keys_differ env a domain domain' \<longleftrightarrow>
     (\<forall>s s'. codeKey env a domain = Inr s \<longrightarrow> codeKey env a domain' = Inr s' \<longrightarrow> take 32 s \<noteq> take 32 s')"

lemma unhex_lower_hex: "n < 16 \<Longrightarrow> unhex (lower_hex n) = Some n"
proof -
  assume "n < 16"
  then have "n \<in> {0, 1, 2, 3, 4, 5, 6, 7, 8, 9, 10, 11, 12, 13, 14, 15}" by (simp; presburger)
  then show ?thesis by (auto simp: unhex_def lower_hex_def is_digit_def byte_def)
qed

lemma hex_roundtrip: "hex_DecodeString (hex_EncodeToString s) = Inr s"
proof (induction s)
  case (Cons c s)
  have h: "byte c div 16 < 16" "byte c mod 16 < 16" using byte_less [of c] by auto
  have "hex_EncodeToString (c # s) = lower_hex (byte c div 16) # lower_hex (byte c mod 16) # hex_EncodeToString s"
    by (simp add: hex_EncodeToString_def)
  moreover have "16 * (byte c div 16) + byte c mod 16 = byte c" by simp
  ultimately show ?case using Cons h by (simp add: unhex_lower_hex del: div_mult_mod_eq mult_div_mod_eq)
qed (simp add: hex_EncodeToString_def)

lemma cipher_at [simp]: "newAesGcmCipher (env\<lparr>av_now := t\<rparr>) a domain nonce = newAesGcmCipher env a domain nonce"
  by (simp add: newAesGcmCipher_def codeKey_def Let_def split: sum.splits option.splits)

lemma EncryptAndSignCode_Inr:
  assumes "EncryptAndSignCode env a domain code = Inr token"
  obtains key where "newAesGcmCipher env a domain (av_random env) = Inr key"
    "av_jwt_sign env (au_jwtSigningKey a)
       \<lparr>cm_iss = ''gitlab-pages'', cm_iat = av_now env div second, cm_exp = (av_now env + au_jwtExpiry a) div second,
        cm_domain = Some domain, cm_code = Some (hex_EncodeToString (av_seal env key (av_random env) code)),
        cm_nonce = Some (av_random env)\<rparr> = Inr token"
  using assms by (auto simp: EncryptAndSignCode_def Let_def split: if_split_asm sum.splits)

lemma DecryptCode_of_encrypted:
  assumes "crypto_ok env" "EncryptAndSignCode env a domain code = Inr token"
    and "av_now env \<le> now'" "now' \<le> av_now env + au_jwtExpiry a"
  shows "\<exists>key. newAesGcmCipher env a domain (av_random env) = Inr key \<and>
    DecryptCode (env\<lparr>av_now := now'\<rparr>) a token domain' =
      (case newAesGcmCipher env a domain' (av_random env) of
         Inl err \<Rightarrow> Inl err
       | Inr key' \<Rightarrow> av_open env key' (av_random env) (av_seal env key (av_random env) code))"
proof -
  obtain key where k: "newAesGcmCipher env a domain (av_random env) = Inr key"
    "av_jwt_sign env (au_jwtSigningKey a)
       \<lparr>cm_iss = ''gitlab-pages'', cm_iat = av_now env div second, cm_exp = (av_now env + au_jwtExpiry a) div second,
        cm_domain = Some domain, cm_code = Some (hex_EncodeToString (av_seal env key (av_random env) code)),
        cm_nonce = Some (av_random env)\<rparr> = Inr token"
    using EncryptAndSignCode_Inr [OF assms(2)] by blast
  have t: "av_now env div second \<le> now' div second" "now' div second \<le> (av_now env + au_jwtExpiry a) div second"
    using assms(3,4) by (simp_all add: zdiv_mono1)
  have "av_jwt_parse env (au_jwtSigningKey a) now' token = Inr
      \<lparr>cm_iss = ''gitlab-pages'', cm_iat = av_now env div second, cm_exp = (av_now env + au_jwtExpiry a) div second,
        cm_domain = Some domain, cm_code = Some (hex_EncodeToString (av_seal env key (av_random env) code)),
        cm_nonce = Some (av_random env)\<rparr>"
    using assms(1) k(2) t unfolding crypto_ok_def by simp
  then show ?thesis
    using k(1)
    by (simp add: DecryptCode_def parseJWTClaims_def hex_roundtrip split: sum.splits)
qed

lemma DecryptCode_other_domain:
  assumes "crypto_ok env" "EncryptAndSignCode env a domain code = Inr token"
    and "av_now env \<le> now'" "now' \<le> av_now env + au_jwtExpiry a"
    and "aead_rejects env code" "keys_differ env a domain domain'"
  shows "\<exists>err. DecryptCode (env\<lparr>av_now := now'\<rparr>) a token domain' = Inl err"
proof -
  obtain key where key: "newAesGcmCipher env a domain (av_random env) = Inr key"
    and d: "DecryptCode (env\<lparr>av_now := now'\<rparr>) a token domain' =
      (case newAesGcmCipher env a domain' (av_random env) of
         Inl err \<Rightarrow> Inl err
       | Inr key' \<Rightarrow> av_open env key' (av_random env) (av_seal env key (av_random env) code))"
    using DecryptCode_of_encrypted [OF assms(1-4)] by blast
  show ?thesis
  proof (cases "newAesGcmCipher env a domain' (av_random env)")
    case (Inr key')
    have "key \<noteq> key'"
      using key Inr assms(6)
      by (auto simp: newAesGcmCipher_def keys_differ_def Let_def split: sum.splits option.splits)
    then show ?thesis using assms(5) d Inr by (simp add: aead_rejects_def)
  qed (use d in simp)
qed

text \<open>C21. Round trip of the secure code: until it expires, what was encrypted and signed for a domain is
  decrypted by that domain to the code that went in.\<close>

theorem secure_code_roundtrip:
  assumes "crypto_ok env" and "EncryptAndSignCode env a domain code = Inr token"
    and "av_now env \<le> now'" "now' \<le> av_now env + au_jwtExpiry a"
  shows "DecryptCode (env\<lparr>av_now := now'\<rparr>) a token domain = Inr code"
  using DecryptCode_of_encrypted [OF assms, of domain] assms(1) by (auto simp: crypto_ok_def)

section \<open>Properties of the flow\<close>

lemma checkAuthenticationResponse_cases:
  "checkAuthenticationResponse env a s r w \<in> {Serve401 w, Serve500 w, Serve503 w} \<or>
   (\<exists>uri code token w1. query_Get r ''state'' \<noteq> [] \<and> se_Values s ''state'' = Some (query_Get r ''state'') \<and>
      se_Values s ''uri'' = Some uri \<and>
      DecryptCode env a (query_Get r ''code'') (getRequestDomain r) = Inr code \<and> fetchAccessToken env a code = Inr token \<and>
      w1 = snd (av_Save env (s\<lparr>se_Values := (se_Values s)(''access_token'' \<mapsto> token)\<rparr>) r w) \<and>
      checkAuthenticationResponse env a s r w \<in> {Serve500 w1, http_Redirect r uri 302 w1})"
proof (cases "validateState r s")
  case False
  then show ?thesis by (simp add: checkAuthenticationResponse_def)
next
  case True
  then have st: "query_Get r ''state'' \<noteq> []" "se_Values s ''state'' = Some (query_Get r ''state'')"
    by (auto simp: validateState_def Let_def split: if_split_asm)
  show ?thesis
  proof (cases "se_Values s ''uri''")
    case None
    then show ?thesis using True by (simp add: checkAuthenticationResponse_def)
  next
    case (Some uri)
    show ?thesis
    proof (cases "DecryptCode env a (query_Get r ''code'') (getRequestDomain r)")
      case (Inl e)
      then show ?thesis using True Some by (simp add: checkAuthenticationResponse_def)
    next
      case code: (Inr code)
      show ?thesis
      proof (cases "fetchAccessToken env a code")
        case (Inl e)
        then show ?thesis using True Some code by (simp add: checkAuthenticationResponse_def)
      next
        case tok: (Inr token)
        let ?save = "av_Save env (s\<lparr>se_Values := (se_Values s)(''access_token'' \<mapsto> token)\<rparr>) r w"
        have "checkAuthenticationResponse env a s r w \<in> {Serve500 (snd ?save), http_Redirect r uri 302 (snd ?save)}"
          using True Some code tok by (simp add: checkAuthenticationResponse_def split: prod.splits option.splits)
        then show ?thesis using st Some code tok by blast
      qed
    qed
  qed
qed

text \<open>C11. The callback stores an access token and sends the visitor on only when the state it was given
  is the one of the visitor's own session, the code decrypts for the host the callback came to, and
  GitLab exchanged it for a token; then it goes to the address the session remembers.  Otherwise the
  answer is an error page.\<close>

theorem checkAuthenticationResponse_sound:
  "checkAuthenticationResponse env a s r w \<in> {Serve401 w, Serve500 w, Serve503 w} \<or>
   (\<exists>uri code token w1. query_Get r ''state'' \<noteq> [] \<and> se_Values s ''state'' = Some (query_Get r ''state'') \<and>
      se_Values s ''uri'' = Some uri \<and>
      DecryptCode env a (query_Get r ''code'') (getRequestDomain r) = Inr code \<and> fetchAccessToken env a code = Inr token \<and>
      w1 = snd (av_Save env (s\<lparr>se_Values := (se_Values s)(''access_token'' \<mapsto> token)\<rparr>) r w) \<and>
      checkAuthenticationResponse env a s r w \<in> {Serve500 w1, http_Redirect r uri 302 w1})"
  by (rule checkAuthenticationResponse_cases)


text \<open>Proxying the callback to a custom domain never forwards an access token: the query it sends on
  has no such parameter, and its code is the one encrypted for that domain.\<close>

theorem proxy_callback_no_token:
  "\<exists>w1. proxy_callback env a s proxyDomain r w \<in> {Serve500 w1, Serve503 w1} \<or>
     (\<exists>q sc. EncryptAndSignCode env a proxyDomain (query_Get r ''code'') = Inr sc \<and> values_Get q ''code'' = sc \<and>
        ''token'' \<notin> fst ` set q \<and>
        proxy_callback env a s proxyDomain r w =
          http_Redirect r (proxyDomain @ u_Path (r_URL r) @ ''?'' @ values_Encode q) 302 w1)"
proof -
  obtain e w1 where sv: "av_Save env (s\<lparr>se_Values := (se_Values s)(''proxy_auth_domain'' := None)\<rparr>) r w = (e, w1)" by fastforce
  show ?thesis
  proof (cases "e = None \<and> (\<exists>sc. EncryptAndSignCode env a proxyDomain (query_Get r ''code'') = Inr sc)")
    case True
    then obtain sc where sc: "EncryptAndSignCode env a proxyDomain (query_Get r ''code'') = Inr sc" by blast
    let ?q = "values_Set ''code'' sc (values_Del ''token'' (url_Query (r_URL r)))"
    have "''token'' \<notin> fst ` set ?q" by (auto simp: values_Set_def values_Del_def)
    moreover have "proxy_callback env a s proxyDomain r w =
        http_Redirect r (proxyDomain @ u_Path (r_URL r) @ ''?'' @ values_Encode ?q) 302 w1"
      using True sv sc by (simp add: proxy_callback_def query_Get_def)
    ultimately show ?thesis using sc values_Get_Set by blast
  next
    case False
    then have "proxy_callback env a s proxyDomain r w \<in> {Serve500 w1, Serve503 w1}"
      using sv by (cases e; cases "EncryptAndSignCode env a proxyDomain (query_Get r ''code'')")
        (auto simp: proxy_callback_def query_Get_def)
    then show ?thesis by blast
  qed
qed

text \<open>When the check lets a request pass.\<close>

definition access_granted :: "auth_env \<Rightarrow> Auth \<Rightarrow> nat \<Rightarrow> request \<Rightarrow> bool" where
  "access_granted env a projectID r \<longleftrightarrow>
     (\<exists>s token resp. getSessionFromStore env r = (s, None) \<and> se_Values s ''access_token'' = Some token \<and>
        or_StatusCode resp = 200 \<and>
        av_Do env \<lparr>oq_Method = ''GET'', oq_URL = access_url a projectID, oq_Body = [], oq_Bearer = Some token\<rparr> = Inr resp)"

lemma checkAuthentication_granted:
  assumes "checkAuthentication env a Resolve d r w = (False, w')"
  shows "w' = w \<and> access_granted env a (GetProjectID Resolve d r) r"
proof -
  note c = assms
  obtain s w1 where v: "checkSessionIsValid env a r w = (Some s, w1)"
    using c by (cases "checkSessionIsValid env a r w"; cases "fst (checkSessionIsValid env a r w)")
      (auto simp: checkAuthentication_def)
  then have s: "getSessionFromStore env r = (s, None)" "se_Values s ''access_token'' \<noteq> None" "w1 = w"
    by (auto simp: checkSessionIsValid_def checkSession_def checkTokenExists_def Let_def
        split: prod.splits option.splits sum.splits bool.splits if_split_asm)
  then obtain token where t: "se_Values s ''access_token'' = Some token" by auto
  let ?req = "\<lparr>oq_Method = ''GET'', oq_URL = access_url a (GetProjectID Resolve d r), oq_Body = [], oq_Bearer = Some token\<rparr>"
  obtain resp where resp: "av_Do env ?req = Inr resp"
    using c v t by (auto simp: checkAuthentication_def Let_def split: if_split_asm sum.splits)
  have "or_StatusCode resp = 200 \<and> w' = w"
    using c v t resp s(3)
    by (auto simp: checkAuthentication_def Let_def checkResponseForInvalidToken_def
        split: if_split_asm sum.splits prod.splits bool.splits)
  then show ?thesis using s t resp unfolding access_granted_def by blast
qed

text \<open>C8. Access to a protected project is granted only to a visitor whose session holds a token with
  which GitLab answered 200 for that very project; the response is then untouched.\<close>

theorem CheckAuthentication_sound:
  assumes "CheckAuthentication env auth Resolve d r w = (False, w')"
  shows "w' = w \<and> (\<exists>a s token resp. auth = Some a \<and> getSessionFromStore env r = (s, None) \<and>
    se_Values s ''access_token'' = Some token \<and> or_StatusCode resp = 200 \<and>
    av_Do env \<lparr>oq_Method = ''GET'', oq_URL = access_url a (GetProjectID Resolve d r), oq_Body = [], oq_Bearer = Some token\<rparr> = Inr resp)"
proof (cases auth)
  case None
  with assms show ?thesis by (simp add: CheckAuthentication_def)
next
  case (Some a)
  then have "checkAuthentication env a Resolve d r w = (False, w')" using assms by (simp add: CheckAuthentication_def)
  from checkAuthentication_granted [OF this] Some show ?thesis unfolding access_granted_def by blast
qed

text \<open>A foreign domain that merely ends with the letters of the pages domain passes as a domain of
  the instance, without any source knowing it.\<close>

theorem domainAllowed_lookalike:
  "au_pagesDomain a = ''example.com'' \<Longrightarrow> domainAllowed a getDomain ''evilexample.com''"
  by (simp add: domainAllowed_def HasSuffix_def suffix_def)

section \<open>Witnesses\<close>

text \<open>A toy instance of the cryptographic packages: a sealed text is the key, spelled out, in front of
  the text, and the only token is that of one set of claims.\<close>

definition demo_key :: "bytes \<Rightarrow> bytes" where
  "demo_key k = concat (map (\<lambda>c. [CHR 0x01, c]) k) @ [CHR 0x00]"

lemma demo_key_prefix: "prefix (demo_key k) (demo_key k' @ p) \<longleftrightarrow> k = k'"
proof (induction k arbitrary: k')
  case Nil
  then show ?case by (cases k') (auto simp: demo_key_def)
next
  case (Cons c k)
  then show ?case by (cases k') (auto simp: demo_key_def)
qed

definition demo_claims :: claims where
  "demo_claims = \<lparr>cm_iss = ''gitlab-pages'', cm_iat = 0, cm_exp = 60, cm_domain = Some ''http://a.io'',
     cm_code = Some (hex_EncodeToString (demo_key ''A'' @ ''c'')), cm_nonce = Some ''n''\<rparr>"

definition demo_auth :: Auth where
  "demo_auth = \<lparr>au_pagesDomain = ''example.com'', au_clientID = ''id'', au_clientSecret = ''s'',
     au_redirectURI = ''https://example.com/auth'', au_gitLabServer = ''https://gitlab.com'', au_authSecret = ''secret'',
     au_authScope = ''api'', au_jwtSigningKey = ''key'', au_jwtExpiry = 60 * second\<rparr>"

definition demo_session :: session where
  "demo_session = \<lparr>se_Values = [''access_token'' \<mapsto> ''t''], se_Path = ''/'', se_HttpOnly = True, se_Secure = False, se_MaxAge = 600\<rparr>"

definition demo_auth_env :: "int \<Rightarrow> auth_env" where
  "demo_auth_env status = \<lparr>av_store_Get = (\<lambda>_. (demo_session, None)), av_Save = (\<lambda>s r w. (None, w)),
     av_Do = (\<lambda>_. Inr \<lparr>or_StatusCode = status, or_Body = []\<rparr>), av_decode_token = (\<lambda>_. Inr ''t''),
     av_decode_error = (\<lambda>_. Inr []), av_random = ''n'', av_now = 0,
     av_hkdf = (\<lambda>secret salt info. Inr (if salt = ''http://a.io'' then ''A'' else ''B'')),
     av_seal = (\<lambda>k n p. demo_key k @ p),
     av_open = (\<lambda>k n c. if prefix (demo_key k) c then Inr (drop (length (demo_key k)) c)
        else Inl (ErrMsg ''cipher: message authentication failed'')),
     av_cipher = (\<lambda>_ _. None),
     av_jwt_sign = (\<lambda>k c. if c = demo_claims then Inr ''tok'' else Inl (ErrMsg ''cannot sign'')),
     av_jwt_parse = (\<lambda>k now t. if t = ''tok'' then Inr demo_claims else Inl (ErrMsg ''signature is invalid''))\<rparr>"

lemma demo_crypto: "crypto_ok (demo_auth_env n)" "aead_rejects (demo_auth_env n) code"
  by (auto simp: crypto_ok_def aead_rejects_def demo_auth_env_def demo_key_prefix split: if_split_asm)

lemma demo_encrypted: "EncryptAndSignCode (demo_auth_env n) demo_auth ''http://a.io'' ''c'' = Inr ''tok''"
  by (simp add: EncryptAndSignCode_def newAesGcmCipher_def codeKey_def demo_auth_env_def demo_claims_def demo_auth_def)

theorem secure_code_roundtrip_witness:
  "DecryptCode ((demo_auth_env 200)\<lparr>av_now := second\<rparr>) demo_auth ''tok'' ''http://a.io'' = Inr ''c''"
  by (rule secure_code_roundtrip [OF demo_crypto(1) demo_encrypted]) (simp_all add: demo_auth_env_def demo_auth_def)

definition demo_callback :: request where
  "demo_callback = (demo_request [])\<lparr>r_Host := ''b.io'', r_URL := empty_url\<lparr>u_Path := ''/auth'', u_RawQuery := ''code=tok&state=x''\<rparr>\<rparr>"


theorem CheckAuthentication_sound_witness:
  "\<exists>a token resp. Some demo_auth = Some a \<and> or_StatusCode resp = 200 \<and>
     av_Do (demo_auth_env 200) \<lparr>oq_Method = ''GET'', oq_URL = access_url a
       (GetProjectID (\<lambda>_ _. Inl ErrDomainDoesNotExist) (None :: unit domain option) (demo_request [])), oq_Body = [], oq_Bearer = Some token\<rparr> = Inr resp"
proof -
  let ?c = "CheckAuthentication (demo_auth_env 200) (Some demo_auth) (\<lambda>_ _. Inl ErrDomainDoesNotExist) (None :: unit domain option) (demo_request []) new_resp"
  have "fst ?c = False" by code_simp
  then have "?c = (False, snd ?c)" by (metis prod.collapse)
  from CheckAuthentication_sound [OF this] show ?thesis by blast
qed

theorem domainAllowed_lookalike_witness: "domainAllowed demo_auth (\<lambda>_. Inr (None :: unit option)) ''evilexample.com''"
  by (rule domainAllowed_lookalike) (simp add: demo_auth_def)

end
