(* ===== verification/Artifact.thy ===== *)
theory Artifact
  imports Auth
begin

text \<open>
  The handlers beside static content: the proxy to the artifacts of a job
  (\<^verbatim>\<open>internal/artifact\<close>), its combination with the visitor's token
  (\<^verbatim>\<open>internal/handlers\<close>), and the redirection of ACME challenges (\<^verbatim>\<open>internal/acme\<close>).
  The HTTP client of the artifact proxy is a parameter.  The regular expression of artifact paths is
  matched up to ASCII letter case.
\<close>

section \<open>The artifact proxy\<close>

record Artifact =
  ar_server :: string
  ar_suffix :: string

definition artifact_New :: "string \<Rightarrow> string \<Rightarrow> Artifact" where
  "artifact_New server pagesDomain = \<lparr>ar_server = TrimRight server ''/'', ar_suffix = ''.'' @ ToLower pagesDomain\<rparr>"

definition prefix_fold :: "string \<Rightarrow> string \<Rightarrow> bool" where
  "prefix_fold p s \<longleftrightarrow> prefix (ToLower p) (ToLower s)"

text \<open>The end of the expression: \<^verbatim>\<open>/-/jobs/(\d+)/artifacts(/[^?]*)\z\<close>.\<close>

definition extract_tail :: "string \<Rightarrow> (string \<times> string) option" where
  "extract_tail s =
     (if \<not> prefix_fold ''/-/jobs/'' s then None
      else let digits = takeWhile is_digit (drop 8 s); rest = dropWhile is_digit (drop 8 s)
      in if digits = [] \<or> \<not> prefix_fold ''/artifacts'' rest then None
         else let art = drop 10 rest
         in if HasPrefix art ''/'' \<and> CHR ''?'' \<notin> set art then Some (digits, art) else None)"

text \<open>The first group is greedy: the candidates for its length, longest first.\<close>

fun extract_from :: "string \<Rightarrow> nat list \<Rightarrow> (string \<times> string \<times> string) option" where
  "extract_from s [] = None"
| "extract_from s (i # is) =
     (if CHR ''\<newline>'' \<in> set (take i s) then extract_from s is
      else (case extract_tail (drop i s) of
              Some (job, art) \<Rightarrow> Some (take i s, job, art)
            | None \<Rightarrow> extract_from s is))"

definition pathExtractor :: "string \<Rightarrow> (string \<times> string \<times> string) option" where
  "pathExtractor p =
     (if HasPrefix p ''/-/'' then extract_from (drop 3 p) (rev [0..<Suc (length (drop 3 p))]) else None)"

definition encodePathSegments :: "string \<Rightarrow> string" where
  "encodePathSegments path = join_with ''/'' (map PathEscape (split_on slash path))"

definition artifact_url :: "string \<Rightarrow> string \<Rightarrow> string \<Rightarrow> string \<Rightarrow> string" where
  "artifact_url server projectID jobID artifactPath =
     server @ ''/projects/'' @ projectID @ ''/jobs/'' @ jobID @ ''/artifacts'' @ artifactPath"

definition BuildURL :: "Artifact \<Rightarrow> string \<Rightarrow> string \<Rightarrow> url option" where
  "BuildURL a host requestPath =
     (if \<not> HasSuffix (ToLower host) (ar_suffix a) then None
      else let topGroup = take (length host - length (ar_suffix a)) host
      in case pathExtractor requestPath of
           None \<Rightarrow> None
         | Some (grp, jobID, art) \<Rightarrow>
             (let restOfPath = TrimLeft (TrimRight grp ''/'') ''/''
              in if restOfPath = [] then None
                 else url_Parse (artifact_url (ar_server a) (PathEscape (path_Join [topGroup, restOfPath])) jobID
                        (encodePathSegments art))))"

record artifact_response =
  aw_base :: oauth_response
  aw_ContentType :: string
  aw_ContentLength :: int

abbreviation "aw_StatusCode resp \<equiv> or_StatusCode (aw_base resp)"

definition addCacheHeader :: "artifact_response \<Rightarrow> resp \<Rightarrow> resp" where
  "addCacheHeader response w =
     (if 200 \<le> aw_StatusCode response \<and> aw_StatusCode response \<le> 299
      then hset ''Cache-Control'' ''max-age=3600'' w else w)"

type_synonym artifact_client = "string \<Rightarrow> string option \<Rightarrow> artifact_response result"

definition makeRequest ::
  "artifact_client \<Rightarrow> url \<Rightarrow> string \<Rightarrow> (artifact_response \<Rightarrow> resp \<Rightarrow> bool \<times> resp) \<Rightarrow> resp \<Rightarrow> resp" where
  "makeRequest clnt reqURL token additionalHandler w =
     (if url_Parse (url_String reqURL) = None then Serve500 w
      else (case clnt (url_String reqURL) (if token \<noteq> [] then Some token else None) of
              Inl err \<Rightarrow> Serve502 w
            | Inr response \<Rightarrow>
                (case additionalHandler response w of
                   (True, w) \<Rightarrow> w
                 | (False, w) \<Rightarrow>
                     (if aw_StatusCode response = 404 then Serve404 w
                      else if aw_StatusCode response = 500 then Serve500 w
                      else let w = (if token = [] then addCacheHeader response w else w)
                      in (let body = or_Body (aw_base response);
                              w = WriteHeader (aw_StatusCode response)
                                    (hset ''Content-Length'' (FormatInt (aw_ContentLength response))
                                      (hset ''Content-Type'' (aw_ContentType response) w))
                          in if body = [] then w else rw_Write (FileBytes body) w)))))"

definition TryMakeRequest ::
  "artifact_client \<Rightarrow> Artifact option \<Rightarrow> string \<Rightarrow> request \<Rightarrow> string \<Rightarrow>
   (artifact_response \<Rightarrow> resp \<Rightarrow> bool \<times> resp) \<Rightarrow> resp \<Rightarrow> bool \<times> resp" where
  "TryMakeRequest clnt artifact host r token additionalHandler w =
     (case artifact of
        None \<Rightarrow> (False, w)
      | Some a \<Rightarrow>
          (if ar_server a = [] \<or> host = [] then (False, w)
           else (case BuildURL a host (u_Path (r_URL r)) of
                   None \<Rightarrow> (False, w)
                 | Some reqURL \<Rightarrow> (True, makeRequest clnt reqURL token additionalHandler w))))"

section \<open>Artifacts with the visitor's token (internal/handlers)\<close>

record Handlers =
  ha_env :: auth_env
  ha_Auth :: "Auth option"
  ha_client :: artifact_client
  ha_Artifact :: "Artifact option"

definition checkIfLoginRequiredOrInvalidToken ::
  "Handlers \<Rightarrow> request \<Rightarrow> string \<Rightarrow> artifact_response \<Rightarrow> resp \<Rightarrow> bool \<times> resp" where
  "checkIfLoginRequiredOrInvalidToken a r token response w =
     (let invalid = (\<lambda>w. CheckResponseForInvalidToken (ha_env a) (ha_Auth a) (aw_base response) r w)
      in if aw_StatusCode response = 404 \<and> token = [] then
           (case ha_Auth a of
              None \<Rightarrow> (False, w)
            | Some auth \<Rightarrow>
                (case RequireAuth (ha_env a) auth r w of (True, w) \<Rightarrow> (True, w) | (False, w) \<Rightarrow> invalid w))
         else invalid w)"

definition HandleArtifactRequest :: "Handlers \<Rightarrow> string \<Rightarrow> request \<Rightarrow> resp \<Rightarrow> bool \<times> resp" where
  "HandleArtifactRequest a host r w =
     (case GetTokenIfExists (ha_env a) (ha_Auth a) r w of
        (Inl err, w) \<Rightarrow> (True, w)
      | (Inr token, w) \<Rightarrow>
          TryMakeRequest (ha_client a) (ha_Artifact a) host r token (checkIfLoginRequiredOrInvalidToken a r token) w)"

section \<open>ACME challenges (internal/acme)\<close>

definition isAcmeChallenge :: "string \<Rightarrow> bool" where
  "isAcmeChallenge path \<longleftrightarrow> HasPrefix (path_Clean path) ''/.well-known/acme-challenge/''"

definition redirectToGitlab :: "string \<Rightarrow> request \<Rightarrow> resp \<Rightarrow> bool \<times> resp" where
  "redirectToGitlab gitlabURL r w =
     (case url_Parse gitlabURL of
        None \<Rightarrow> (False, w)
      | Some u \<Rightarrow>
          (let redirectURL = u\<lparr>u_Path := ''/-/acme-challenge''\<rparr>;
               query = values_Set ''token'' (path_Base (u_Path (r_URL r)))
                         (values_Set ''domain'' (host_FromRequest r) (url_Query redirectURL))
           in (True, http_Redirect r (url_String (redirectURL\<lparr>u_RawQuery := values_Encode query\<rparr>)) 307 w)))"

text \<open>\<open>fileHandler\<close> is the domain's \<^verbatim>\<open>ServeFileHTTP\<close>.\<close>

definition ServeAcmeChallenges ::
  "string option \<Rightarrow> (request \<Rightarrow> resp \<Rightarrow> bool \<times> resp) \<Rightarrow> request \<Rightarrow> resp \<Rightarrow> bool \<times> resp" where
  "ServeAcmeChallenges m fileHandler r w =
     (case m of
        None \<Rightarrow> (False, w)
      | Some gitlabURL \<Rightarrow>
          (if \<not> isAcmeChallenge (u_Path (r_URL r)) then (False, w)
           else let (served, w) = fileHandler r w
           in if served then (False, w) else redirectToGitlab gitlabURL r w))"

section \<open>Properties\<close>

lemma PathEscape_bytes:
  assumes "c \<in> set (PathEscape s)"
  shows "c \<notin> {slash, CHR ''?'', CHR ''#''}"
proof -
  have "shouldEscape encodePathSegment slash" "shouldEscape encodePathSegment (CHR ''?'')"
    "shouldEscape encodePathSegment (CHR ''#'')" by code_simp+
  moreover have "hex_digit n \<notin> {slash, CHR ''?'', CHR ''#''}" if "n < 16" for n
  proof -
    have "list_all (\<lambda>n. hex_digit n \<noteq> slash \<and> hex_digit n \<noteq> CHR ''?'' \<and> hex_digit n \<noteq> CHR ''#'') [0..<16]"
      by code_simp
    then show ?thesis using that by (simp add: list_all_iff)
  qed
  moreover have "byte x div 16 < 16" "byte x mod 16 < 16" for x using byte_less [of x] by auto
  ultimately show ?thesis
    using assms by (auto simp: PathEscape_def url_escape_def escape_byte_def split: if_split_asm)
qed

lemma extract_from_digits:
  "extract_from s is = Some (g, job, art) \<Longrightarrow> job \<noteq> [] \<and> list_all is_digit job \<and> HasPrefix art ''/''"
proof (induction "is")
  case (Cons i "is")
  then show ?case
    by (auto simp: extract_tail_def Let_def list_all_iff dest: set_takeWhileD split: if_split_asm option.splits)
qed simp

lemma join_with_bytes: "c \<in> set (join_with sep xs) \<Longrightarrow> c \<in> set sep \<or> (\<exists>x \<in> set xs. c \<in> set x)"
  by (induction sep xs rule: join_with.induct) auto

text \<open>An artifact request is sent to the configured server and stays inside the URL it was built
  from: the group and project form one path segment, the job is a number, and nothing the visitor
  wrote opens a query or a fragment.\<close>

theorem BuildURL_shape:
  assumes "BuildURL a host p = Some u"
  shows "\<exists>pid job art. url_Parse (artifact_url (ar_server a) pid job art) = Some u \<and>
    slash \<notin> set pid \<and> job \<noteq> [] \<and> list_all is_digit job \<and>
    (\<forall>c \<in> set (pid @ art). c \<noteq> CHR ''?'' \<and> c \<noteq> CHR ''#'') \<and> HasSuffix (ToLower host) (ar_suffix a)"
proof -
  obtain grp job art where e: "pathExtractor p = Some (grp, job, art)"
    and u: "url_Parse (artifact_url (ar_server a)
        (PathEscape (path_Join [take (length host - length (ar_suffix a)) host, TrimLeft (TrimRight grp ''/'') ''/'']))
        job (encodePathSegments art)) = Some u"
    and h: "HasSuffix (ToLower host) (ar_suffix a)"
    using assms by (auto simp: BuildURL_def Let_def split: if_split_asm option.splits prod.splits)
  have "extract_from (drop 3 p) (rev [0..<Suc (length (drop 3 p))]) = Some (grp, job, art)"
    using e unfolding pathExtractor_def by (metis option.distinct(1))
  then have job: "job \<noteq> []" "list_all is_digit job"
    using extract_from_digits by blast+
  have pid: "c \<notin> {slash, CHR ''?'', CHR ''#''}" if "c \<in> set (PathEscape x)" for c x
    using PathEscape_bytes that by blast
  have art: "c \<noteq> CHR ''?'' \<and> c \<noteq> CHR ''#''" if "c \<in> set (encodePathSegments art)" for c
    using join_with_bytes [of c "''/''" "map PathEscape (split_on slash art)"] that pid
    by (auto simp: encodePathSegments_def)
  show ?thesis using u h job pid art by (metis (no_types, lifting) Un_iff insert_iff set_append)
qed

text \<open>The answer to an artifact request made with a visitor's token is never marked as cacheable: its
  Cache-Control is what the response had before.\<close>

theorem makeRequest_private:
  assumes "token \<noteq> []" and "rw_sent w = None" and "clnt (url_String u) (Some token) = Inr response"
    and "extra response w = (False, w')" and "rw_header w' = rw_header w" and "rw_sent w' = None"
    and "rw_sent (makeRequest clnt u token extra w) = Some (code, hd')"
  shows "hd' ''Cache-Control'' = rw_header w ''Cache-Control''"
proof (cases "url_Parse (url_String u) = None")
  case True
  then show ?thesis using assms(2,7) by (auto simp: makeRequest_def Serve_defs resp_simps)
next
  case False
  then have m: "makeRequest clnt u token extra w =
      (if aw_StatusCode response = 404 then Serve404 w' else if aw_StatusCode response = 500 then Serve500 w'
       else let w2 = WriteHeader (aw_StatusCode response)
                       (hset ''Content-Length'' (FormatInt (aw_ContentLength response)) (hset ''Content-Type'' (aw_ContentType response) w'))
            in if or_Body (aw_base response) = [] then w2 else rw_Write (FileBytes (or_Body (aw_base response))) w2)"
    using assms(1,3,4) False unfolding makeRequest_def Let_def
    by (simp del: not_None_eq not_Some_eq)
  show ?thesis
    using assms(5-7) unfolding m by (auto simp: Serve_defs resp_simps Let_def split: if_split_asm)
qed

section \<open>Witnesses\<close>

definition demo_artifact :: Artifact where
  "demo_artifact = artifact_New ''http://gl/'' ''io''"

theorem BuildURL_shape_witness:
  "\<exists>u pid job art. BuildURL demo_artifact ''g.io'' ''/-/p/-/jobs/1/artifacts/a b'' = Some u \<and>
     url_Parse (artifact_url (ar_server demo_artifact) pid job art) = Some u \<and> slash \<notin> set pid"
proof -
  have "BuildURL demo_artifact ''g.io'' ''/-/p/-/jobs/1/artifacts/a b'' \<noteq> None" by code_simp
  then obtain u where u: "BuildURL demo_artifact ''g.io'' ''/-/p/-/jobs/1/artifacts/a b'' = Some u"
    by blast
  then obtain pid job art where "url_Parse (artifact_url (ar_server demo_artifact) pid job art) = Some u" "slash \<notin> set pid"
    using BuildURL_shape [OF u] by (elim exE conjE)
  with u show ?thesis by (intro exI conjI)
qed

definition demo_artifact_client :: artifact_client where
  "demo_artifact_client u token =
     Inr \<lparr>aw_base = \<lparr>or_StatusCode = 200, or_Body = ''x''\<rparr>, aw_ContentType = ''text/html'', aw_ContentLength = 1\<rparr>"

theorem makeRequest_private_witness:
  "\<exists>code hd'. rw_sent (makeRequest demo_artifact_client empty_url ''t'' (\<lambda>_ w. (False, w)) new_resp) = Some (code, hd') \<and>
     hd' ''Cache-Control'' = None"
proof -
  have "rw_sent (makeRequest demo_artifact_client empty_url ''t'' (\<lambda>_ w. (False, w)) new_resp) \<noteq> None" by code_simp
  then obtain code hd' where
    s: "rw_sent (makeRequest demo_artifact_client empty_url ''t'' (\<lambda>_ w. (False, w)) new_resp) = Some (code, hd')"
    by (metis not_None_eq prod.collapse)
  have "hd' ''Cache-Control'' = rw_header new_resp ''Cache-Control''"
    by (rule makeRequest_private [where clnt = demo_artifact_client and u = empty_url and token = "''t''" and w = new_resp
          and w' = new_resp and extra = "\<lambda>_ w. (False, w)", OF _ _ _ _ _ _ s])
       (simp_all add: demo_artifact_client_def resp_simps)
  then show ?thesis using s by (simp add: resp_simps)
qed

end
