(* ===== verification/Disk_Source.thy ===== *)
theory Disk_Source
  imports Domain
begin

text \<open>
  The disk source of domains (\<^verbatim>\<open>internal/source/disk\<close>): the tree of groups, subgroups and
  projects built from the pages directory, the custom domains of the projects' \<^verbatim>\<open>config.json\<close>
  files, and the lookup of a request in it.

  The groups are objects the map points to and updates in place; every group is reachable under one
  name only, so the model keeps them as a tree of values and an update rebuilds the path to the
  updated project.  The pages directory is the record \<open>pages_dir\<close>: which paths exist, what
  \<^verbatim>\<open>godirwalk.ReadDirents\<close> lists (name and whether it is a directory) and the decoded
  \<^verbatim>\<open>config.json\<close> files.  The workers of \<^verbatim>\<open>ReadGroups\<close> send their results over one channel
  to one consumer: the model consumes any interleaving of the groups' result lists.
\<close>

section \<open>Configuration (config.go)\<close>

record domainConfig =
  dc_Domain :: string
  dc_Certificate :: string
  dc_Key :: string
  dc_HTTPSOnly :: bool
  dc_ID :: nat
  dc_AccessControl :: bool

record multiDomainConfig =
  mc_Domains :: "domainConfig list"
  mc_HTTPSOnly :: bool
  mc_ID :: nat
  mc_AccessControl :: bool

record projectConfig =
  pc_NamespaceProject :: bool
  pc_HTTPSOnly :: bool
  pc_AccessControl :: bool
  pc_ID :: nat

definition domainConfig_Valid :: "domainConfig \<Rightarrow> string \<Rightarrow> bool" where
  "domainConfig_Valid c rootDomain =
     (if dc_Domain c = [] then False
      else \<not> HasSuffix (ToLower (dc_Domain c)) (''.'' @ rootDomain))"

section \<open>Groups (group.go)\<close>

definition subgroupScanLimit :: nat where "subgroupScanLimit = 21"
definition maxProjectDepth :: nat where "maxProjectDepth = subgroupScanLimit + 3"

datatype group = Group (g_name: string) (g_subgroups: "string \<Rightarrow> group option") (g_projects: "string \<Rightarrow> projectConfig option")

fun digProjectWithSubpath :: "group \<Rightarrow> string \<Rightarrow> string list \<Rightarrow> (projectConfig \<times> string \<times> string) option" where
  "digProjectWithSubpath g parentPath [] = None"
| "digProjectWithSubpath g parentPath (head # tail) =
     (let currentPath = path_Join [parentPath, head];
          search = ToLower head
      in case g_projects g search of
           Some project \<Rightarrow> Some (project, currentPath, path_Join tail)
         | None \<Rightarrow>
             (case g_subgroups g search of
                Some subgroup \<Rightarrow> digProjectWithSubpath subgroup currentPath tail
              | None \<Rightarrow> None))"

definition getProjectConfigWithSubpath ::
  "group \<Rightarrow> request \<Rightarrow> (projectConfig \<times> string \<times> string \<times> string) option" where
  "getProjectConfigWithSubpath g r =
     (let split = splitn_on slash maxProjectDepth (u_Path (r_URL r));
          group_project =
            (let host = host_FromRequest r
             in if host \<noteq> [] then
                  (case g_projects g host of
                     Some groupProject \<Rightarrow> Some (groupProject, ''/'', host, join_with ''/'' (tl split))
                   | None \<Rightarrow> None)
                else None)
      in if length split \<ge> 2 then
           (case digProjectWithSubpath g [] (tl split) of
              Some (projectConfig, projectPath, urlPath) \<Rightarrow>
                Some (projectConfig, ''/'' @ projectPath, projectPath, urlPath)
            | None \<Rightarrow> group_project)
         else group_project)"

definition Group_Resolve :: "serving \<Rightarrow> group \<Rightarrow> request \<Rightarrow> serving_request result" where
  "Group_Resolve local g r =
     (case getProjectConfigWithSubpath g r of
        None \<Rightarrow> Inl ErrDomainDoesNotExist
      | Some (projectConfig, pfx, projectPath, subPath) \<Rightarrow>
          Inr \<lparr>sr_Serving = local,
               sr_LookupPath =
                 \<lparr>lp_ServingType = ''file'', lp_Prefix = pfx,
                  lp_Path = path_Join [g_name g, projectPath, ''public''] @ ''/'',
                  lp_IsNamespaceProject = pc_NamespaceProject projectConfig,
                  lp_IsHTTPSOnly = pc_HTTPSOnly projectConfig,
                  lp_HasAccessControl = pc_AccessControl projectConfig,
                  lp_ProjectID = pc_ID projectConfig\<rparr>,
               sr_SubPath = subPath\<rparr>)"

section \<open>Custom domains (custom.go)\<close>

definition custom_Resolve :: "serving \<Rightarrow> domainConfig option \<Rightarrow> string \<Rightarrow> request \<Rightarrow> serving_request result" where
  "custom_Resolve local config path r =
     (case config of
        None \<Rightarrow> Inl ErrDomainDoesNotExist
      | Some c \<Rightarrow>
          Inr \<lparr>sr_Serving = local,
               sr_LookupPath =
                 \<lparr>lp_ServingType = ''file'', lp_Prefix = ''/'', lp_Path = path, lp_IsNamespaceProject = False,
                  lp_IsHTTPSOnly = dc_HTTPSOnly c, lp_HasAccessControl = dc_AccessControl c,
                  lp_ProjectID = dc_ID c\<rparr>,
               sr_SubPath = u_Path (r_URL r)\<rparr>)"

text \<open>The resolvers of the disk source and their \<^verbatim>\<open>Resolve\<close> method.\<close>

datatype disk_resolver = GroupResolver group | CustomResolver "domainConfig option" string

fun disk_Resolve :: "serving \<Rightarrow> disk_resolver \<Rightarrow> request \<Rightarrow> serving_request result" where
  "disk_Resolve local (GroupResolver g) r = Group_Resolve local g r"
| "disk_Resolve local (CustomResolver config path) r = custom_Resolve local config path r"

section \<open>The map of domains (map.go)\<close>

type_synonym disk_domain = "disk_resolver domain"
type_synonym domain_map = "string \<rightharpoonup> disk_domain"

definition skipHashedDir :: string where "skipHashedDir = ''@hashed''"

text \<open>A duplicate is logged and replaced.\<close>

definition updateDomainMap :: "domain_map \<Rightarrow> string \<Rightarrow> disk_domain \<Rightarrow> domain_map" where
  "updateDomainMap dm domainName d = dm(domainName \<mapsto> d)"

definition addDomain :: "domain_map \<Rightarrow> string \<Rightarrow> string \<Rightarrow> string \<Rightarrow> domainConfig \<Rightarrow> domain_map" where
  "addDomain dm rootDomain groupName projectName config =
     (let newDomain = domain_New (ToLower (dc_Domain config)) (dc_Certificate config) (dc_Key config)
                        (CustomResolver (Some config) (path_Join [groupName, projectName, ''public'']))
      in updateDomainMap dm (d_Name newDomain) newDomain)"

definition new_group :: "string \<Rightarrow> group" where
  "new_group name = Group name Map.empty Map.empty"

text \<open>The loop of \<^verbatim>\<open>updateGroupDomain\<close> down the subgroups, creating the missing ones, and the
  assignment of the project at its end.\<close>

fun group_insert :: "group \<Rightarrow> string list \<Rightarrow> projectConfig \<Rightarrow> group" where
  "group_insert g [] pc = g"
| "group_insert g [projectName] pc = Group (g_name g) (g_subgroups g) ((g_projects g)(projectName \<mapsto> pc))"
| "group_insert g (subgroupName # rest) pc =
     (let subgroup = (case g_subgroups g subgroupName of None \<Rightarrow> new_group subgroupName | Some sg \<Rightarrow> sg)
      in Group (g_name g) ((g_subgroups g)(subgroupName \<mapsto> group_insert subgroup rest pc)) (g_projects g))"

text \<open>\<^const>\<open>None\<close> is the panic of the type assertion \<^verbatim>\<open>Resolver.(*Group)\<close>.\<close>

definition updateGroupDomain ::
  "domain_map \<Rightarrow> string \<Rightarrow> string \<Rightarrow> string \<Rightarrow> bool \<Rightarrow> bool \<Rightarrow> nat \<Rightarrow> domain_map option" where
  "updateGroupDomain dm rootDomain groupName projectPath httpsOnly accessControl ident =
     (let domainName = ToLower (groupName @ ''.'' @ rootDomain);
          groupDomain = (case dm domainName of
                           None \<Rightarrow> domain_New domainName [] [] (GroupResolver (new_group groupName))
                         | Some d \<Rightarrow> d);
          split = splitn_on slash maxProjectDepth (ToLower projectPath);
          projectName = last split
      in case d_Resolver groupDomain of
           CustomResolver _ _ \<Rightarrow> None
         | GroupResolver g \<Rightarrow>
             Some (dm(domainName \<mapsto> groupDomain\<lparr>d_Resolver := GroupResolver
               (group_insert g split
                  \<lparr>pc_NamespaceProject = (domainName = projectName), pc_HTTPSOnly = httpsOnly,
                   pc_AccessControl = accessControl, pc_ID = ident\<rparr>)\<rparr>)))"

definition readProjectConfig ::
  "string \<Rightarrow> domain_map \<Rightarrow> string \<Rightarrow> string \<Rightarrow> multiDomainConfig option \<Rightarrow> domain_map option" where
  "readProjectConfig rootDomain dm grp projectName config =
     (case config of
        None \<Rightarrow> updateGroupDomain dm rootDomain grp projectName False False 0
      | Some c \<Rightarrow>
          map_option
            (\<lambda>dm. foldl (\<lambda>dm dc. if domainConfig_Valid dc rootDomain then addDomain dm rootDomain grp projectName dc else dm)
                     dm (mc_Domains c))
            (updateGroupDomain dm rootDomain grp projectName (mc_HTTPSOnly c) (mc_AccessControl c) (mc_ID c)))"

section \<open>Scanning the pages directory\<close>

record pages_dir =
  pd_exists :: "string \<Rightarrow> bool"
  pd_ReadDirents :: "string \<Rightarrow> (string \<times> bool) list option"
  pd_config :: "string \<Rightarrow> multiDomainConfig option"

record jobResult =
  jr_group :: string
  jr_project :: string
  jr_config :: "multiDomainConfig option"

definition multiDomainConfig_Read :: "pages_dir \<Rightarrow> string \<Rightarrow> string \<Rightarrow> multiDomainConfig option" where
  "multiDomainConfig_Read fs grp project = pd_config fs (path_Join [grp, project, ''config.json''])"

function (sequential) readProject :: "pages_dir \<Rightarrow> string \<Rightarrow> string \<Rightarrow> string \<Rightarrow> nat \<Rightarrow> jobResult list"
  and readProjects :: "pages_dir \<Rightarrow> string \<Rightarrow> string \<Rightarrow> nat \<Rightarrow> jobResult list" where
  "readProject fs grp parent projectName level =
     (if HasPrefix projectName ''.'' then []
      else if HasSuffix projectName ''.deleted'' then []
      else let projectPath = path_Join [parent, projectName]
      in if \<not> pd_exists fs (path_Join [grp, projectPath, ''public'']) then
           (if level \<le> subgroupScanLimit then readProjects fs grp projectPath (level + 1) else [])
         else [\<lparr>jr_group = grp, jr_project = projectPath, jr_config = multiDomainConfig_Read fs grp projectPath\<rparr>])"
| "readProjects fs grp parent level =
     (case pd_ReadDirents fs (path_Join [grp, parent]) of
        None \<Rightarrow> []
      | Some fis \<Rightarrow>
          concat (map (\<lambda>(name, isDir). if \<not> isDir then [] else readProject fs grp parent name level) fis))"
  by pat_completeness auto

termination
  by (relation "measure (\<lambda>x. case x of Inl (_, _, _, _, level) \<Rightarrow> 2 * (23 - level)
        | Inr (_, _, _, level) \<Rightarrow> 2 * (23 - level) + 1)")
     (auto simp: subgroupScanLimit_def)

declare readProject.simps [simp del] readProjects.simps [simp del]

text \<open>The groups \<^verbatim>\<open>ReadGroups\<close> hands to its workers, and what a worker sends for a group.\<close>

definition fan_out :: "(string \<times> bool) list \<Rightarrow> string list" where
  "fan_out fis = map fst (filter (\<lambda>(name, isDir). isDir \<and> \<not> HasPrefix name ''.'') fis)"

definition worker_results :: "pages_dir \<Rightarrow> string \<Rightarrow> jobResult list" where
  "worker_results fs grp = (if grp = skipHashedDir then [] else readProjects fs grp [] 0)"

text \<open>Interleavings of several result lists, each kept in its own order.\<close>

inductive interleaving :: "'a list list \<Rightarrow> 'a list \<Rightarrow> bool" where
  drained: "list_all (\<lambda>l. l = []) ls \<Longrightarrow> interleaving ls []"
| send: "i < length ls \<Longrightarrow> ls ! i = x # xs \<Longrightarrow> interleaving (ls[i := xs]) ys \<Longrightarrow> interleaving ls (x # ys)"

text \<open>The consumer.\<close>

fun consume :: "string \<Rightarrow> domain_map \<Rightarrow> jobResult list \<Rightarrow> domain_map option" where
  "consume rootDomain dm [] = Some dm"
| "consume rootDomain dm (result # results) =
     (case readProjectConfig rootDomain dm (jr_group result) (jr_project result) (jr_config result) of
        None \<Rightarrow> None
      | Some dm' \<Rightarrow> consume rootDomain dm' results)"

definition ReadGroups :: "pages_dir \<Rightarrow> string \<Rightarrow> domain_map \<Rightarrow> (string \<times> bool) list \<Rightarrow> domain_map option \<Rightarrow> bool" where
  "ReadGroups fs rootDomain dm fis res \<longleftrightarrow>
     (\<exists>results. interleaving (map (worker_results fs) (fan_out fis)) results \<and> res = consume rootDomain dm results)"

section \<open>The disk source (disk.go)\<close>

record disk =
  dk_dm :: "domain_map option"

definition disk_New :: disk where
  "disk_New = \<lparr>dk_dm = None\<rparr>"

definition disk_GetDomain :: "disk \<Rightarrow> string \<Rightarrow> disk_domain option result" where
  "disk_GetDomain d host = Inr (case dk_dm d of None \<Rightarrow> None | Some dm \<Rightarrow> dm (ToLower host))"

definition disk_IsReady :: "disk \<Rightarrow> bool" where
  "disk_IsReady d \<longleftrightarrow> dk_dm d \<noteq> None"

definition disk_updateDomains :: "disk \<Rightarrow> domain_map \<Rightarrow> disk" where
  "disk_updateDomains d dm = d\<lparr>dk_dm := Some dm\<rparr>"

text \<open>One turn of the loop of \<^verbatim>\<open>Watch\<close>: the content of the update file (an empty one when it does
  not exist, \<^const>\<open>None\<close> for another error), the listing of the pages directory, and the scan.
  \<open>lastUpdate\<close> starts as \<^verbatim>\<open>no-update\<close>.\<close>

inductive watch_turn ::
  "string \<Rightarrow> bytes option \<Rightarrow> pages_dir \<Rightarrow> bytes \<times> disk \<Rightarrow> bytes \<times> disk \<Rightarrow> bool" for rootDomain where
  read_error: "watch_turn rootDomain None fs (lastUpdate, d) (lastUpdate, d)"
| same: "watch_turn rootDomain (Some lastUpdate) fs (lastUpdate, d) (lastUpdate, d)"
| scan_failed: "update \<noteq> lastUpdate \<Longrightarrow> pd_ReadDirents fs ''.'' = None \<Longrightarrow>
    watch_turn rootDomain (Some update) fs (lastUpdate, d) (update, d)"
| scanned: "update \<noteq> lastUpdate \<Longrightarrow> pd_ReadDirents fs ''.'' = Some fis \<Longrightarrow>
    ReadGroups fs rootDomain Map.empty fis (Some dm) \<Longrightarrow>
    watch_turn rootDomain (Some update) fs (lastUpdate, d) (update, disk_updateDomains d dm)"

inductive watched :: "string \<Rightarrow> bytes \<times> disk \<Rightarrow> bool" for rootDomain where
  start: "watched rootDomain (''no-update'', disk_New)"
| turn: "watched rootDomain s \<Longrightarrow> watch_turn rootDomain update fs s s' \<Longrightarrow> watched rootDomain s'"

section \<open>The resolvers keep the contract\<close>

lemma Group_Resolve_serving: "Group_Resolve sv g r = Inr s \<Longrightarrow> sr_Serving s = sv"
  by (auto simp: Group_Resolve_def split: option.splits prod.splits)

lemma disk_Resolve_serving: "disk_Resolve sv R r = Inr s \<Longrightarrow> sr_Serving s = sv"
  by (cases R) (auto simp: custom_Resolve_def Group_Resolve_serving split: option.splits)

interpretation disk_resolver: resolver_ops "disk_Resolve (local_Instance env os)" for env os
proof (rule resolver_ops.intro)
  fix R r s
  assume "disk_Resolve (local_Instance env os) R r = Inr s"
  then have "sr_Serving s = Disk_New env (local_Root os)" by (simp add: disk_Resolve_serving local_Instance_def)
  then show "serving_ops (sr_Serving s)" by (simp add: disk_serving.serving_ops_axioms)
qed

text \<open>A request for a domain of the disk source is always answered: when no file of the project
  matches and the not-found handler follows, a fresh response gets status 404, 500 or 503.\<close>

theorem disk_domain_answers:
  assumes "rw_sent w = None"
    and "domain_ServeFileHTTP (disk_Resolve (local_Instance env os)) d r w = (False, w')"
  shows "w' = w \<and>
    rw_status (domain_ServeNotFoundHTTP (disk_Resolve (local_Instance env os)) d r w') \<in> {Some 404, Some 500, Some 503}"
  using disk_resolver.domain_answers [OF assms] disk_resolver.domain_file_untouched [OF assms(2)] by blast

section \<open>Groups and custom domains never clash\<close>

text \<open>The invariant of the map: exactly the names below the pages domain belong to groups.\<close>

definition map_ok :: "string \<Rightarrow> domain_map \<Rightarrow> bool" where
  "map_ok rootDomain dm \<longleftrightarrow>
     (\<forall>k d. dm k = Some d \<longrightarrow> HasSuffix k (''.'' @ rootDomain) = (\<exists>g. d_Resolver d = GroupResolver g))"

lemma map_ok_empty [inv_intros]: "map_ok rootDomain Map.empty"
  by (simp add: map_ok_def)

lemma group_domain_name:
  assumes "ToLower rootDomain = rootDomain"
  shows "ToLower (grp @ ''.'' @ rootDomain) = ToLower grp @ ''.'' @ rootDomain"
proof -
  have "ToLower ''.'' = ''.''" by code_simp
  then show ?thesis using assms ToLower_append [of grp "''.'' @ rootDomain"] ToLower_append [of "''.''" rootDomain] by simp
qed

lemma updateGroupDomain_ok [inv_intros]:
  assumes "ToLower rootDomain = rootDomain" and "map_ok rootDomain dm"
  shows "\<exists>dm'. updateGroupDomain dm rootDomain grp p h a n = Some dm' \<and> map_ok rootDomain dm'"
proof -
  define k where "k = ToLower (grp @ ''.'' @ rootDomain)"
  have suf: "HasSuffix k (''.'' @ rootDomain)" using group_domain_name [OF assms(1)] k_def by (metis HasSuffix_append)
  define gd where "gd = (case dm k of None \<Rightarrow> domain_New k [] [] (GroupResolver (new_group grp)) | Some d \<Rightarrow> d)"
  have "\<exists>g. d_Resolver gd = GroupResolver g"
    using assms(2) suf by (auto simp: gd_def map_ok_def domain_New_def split: option.splits)
  then obtain g where g: "d_Resolver gd = GroupResolver g" by blast
  have ok: "map_ok rootDomain (dm(k \<mapsto> gd\<lparr>d_Resolver := GroupResolver g'\<rparr>))" for g'
    using assms(2) suf by (auto simp: map_ok_def)
  show ?thesis
    unfolding updateGroupDomain_def Let_def k_def [symmetric] gd_def [symmetric] g by (simp add: ok)
qed

lemma addDomain_ok [inv_intros]:
  assumes "domainConfig_Valid c rootDomain" and "map_ok rootDomain dm"
  shows "map_ok rootDomain (addDomain dm rootDomain grp p c)"
  using assms
  by (auto simp: addDomain_def updateDomainMap_def Let_def domain_New_def map_ok_def domainConfig_Valid_def
      split: if_split_asm)

lemma add_domains_ok:
  "map_ok rootDomain dm \<Longrightarrow>
   map_ok rootDomain (foldl (\<lambda>dm dc. if domainConfig_Valid dc rootDomain then addDomain dm rootDomain grp p dc else dm) dm dcs)"
  by (induction dcs arbitrary: dm) (simp_all add: addDomain_ok)

lemma readProjectConfig_ok:
  assumes "ToLower rootDomain = rootDomain" and "map_ok rootDomain dm"
  shows "\<exists>dm'. readProjectConfig rootDomain dm grp p c = Some dm' \<and> map_ok rootDomain dm'"
proof (cases c)
  case None
  then show ?thesis using updateGroupDomain_ok [OF assms] by (simp add: readProjectConfig_def)
next
  case (Some mc)
  obtain dm1 where "updateGroupDomain dm rootDomain grp p (mc_HTTPSOnly mc) (mc_AccessControl mc) (mc_ID mc) = Some dm1"
    "map_ok rootDomain dm1"
    using updateGroupDomain_ok [OF assms] by blast
  then show ?thesis using Some by (simp add: readProjectConfig_def add_domains_ok)
qed

lemma consume_ok:
  "ToLower rootDomain = rootDomain \<Longrightarrow> map_ok rootDomain dm \<Longrightarrow>
     \<exists>dm'. consume rootDomain dm results = Some dm' \<and> map_ok rootDomain dm'"
proof (induction results arbitrary: dm)
  case (Cons x xs)
  then obtain dm1 where "readProjectConfig rootDomain dm (jr_group x) (jr_project x) (jr_config x) = Some dm1"
    "map_ok rootDomain dm1"
    using readProjectConfig_ok by blast
  with Cons.IH [OF Cons.prems(1)] show ?case by simp
qed simp

lemma ReadGroups_ok:
  assumes "ToLower rootDomain = rootDomain" and "ReadGroups fs rootDomain Map.empty fis res"
  shows "\<exists>dm. res = Some dm \<and> map_ok rootDomain dm"
proof -
  obtain results where "res = consume rootDomain Map.empty results"
    using assms(2) by (auto simp: ReadGroups_def)
  then show ?thesis using consume_ok [OF assms(1) map_ok_empty] by metis
qed

text \<open>C18. Scanning the pages directory never fails on the type assertion that a domain below the
  pages domain is a group, whatever custom domains the projects claim and in whatever order the
  workers' results arrive, and the resulting map keeps group names and custom domains apart.  The
  pages domain is lower case, as the configuration makes it.\<close>

theorem ReadGroups_no_panic:
  assumes "ToLower rootDomain = rootDomain" and "ReadGroups fs rootDomain Map.empty fis res"
  shows "\<exists>dm. res = Some dm \<and> map_ok rootDomain dm"
  by (rule ReadGroups_ok [OF assms])

definition demo_pages :: pages_dir where
  "demo_pages = \<lparr>pd_exists = (\<lambda>p. p = ''group/project/public''),
     pd_ReadDirents = (\<lambda>p. if p = ''.'' then Some [(''group'', True), (''.update'', False)]
        else if p = ''group'' then Some [(''project'', True)] else None),
     pd_config = (\<lambda>_. Some \<lparr>mc_Domains = [\<lparr>dc_Domain = ''Example.org'', dc_Certificate = [], dc_Key = [],
         dc_HTTPSOnly = False, dc_ID = 1, dc_AccessControl = False\<rparr>],
        mc_HTTPSOnly = True, mc_ID = 1, mc_AccessControl = False\<rparr>)\<rparr>"

lemma interleaving_one: "interleaving [xs] xs"
proof (induction xs)
  case Nil
  then show ?case by (simp add: drained)
next
  case (Cons x xs)
  then show ?case using interleaving.send [of 0 "[x # xs]" x xs xs] by simp
qed

lemma demo_ReadGroups:
  "ReadGroups demo_pages ''example.com'' Map.empty [(''group'', True), (''.update'', False)]
     (consume ''example.com'' Map.empty (worker_results demo_pages ''group''))"
proof -
  have f: "fan_out [(''group'', True), (''.update'', False)] = [''group'']" by code_simp
  show ?thesis unfolding ReadGroups_def f
    by (intro exI [of _ "worker_results demo_pages ''group''"]) (simp add: interleaving_one)
qed

theorem ReadGroups_no_panic_witness:
  "\<exists>dm. consume ''example.com'' Map.empty (worker_results demo_pages ''group'') = Some dm \<and> map_ok ''example.com'' dm"
  by (rule ReadGroups_no_panic [OF _ demo_ReadGroups]) code_simp

definition demo_request_for :: "string \<Rightarrow> string \<Rightarrow> request" where
  "demo_request_for h p = (demo_request [])\<lparr>r_Host := h, r_URL := empty_url\<lparr>u_Path := p\<rparr>\<rparr>"

definition demo_domain :: disk_domain where
  "demo_domain = domain_New ''a.org'' [] [] (CustomResolver (Some \<lparr>dc_Domain = ''a.org'', dc_Certificate = [], dc_Key = [],
     dc_HTTPSOnly = False, dc_ID = 1, dc_AccessControl = False\<rparr>) ''/srv/p'')"

theorem disk_domain_answers_witness:
  "snd (domain_ServeFileHTTP (disk_Resolve (local_Instance (demo_env []) demo_os)) (Some demo_domain)
     (demo_request_for ''a.org'' ''/none'') new_resp) = new_resp"
proof -
  let ?x = "domain_ServeFileHTTP (disk_Resolve (local_Instance (demo_env []) demo_os)) (Some demo_domain)
    (demo_request_for ''a.org'' ''/none'') new_resp"
  have "fst ?x = False" by code_simp
  then have t: "?x = (False, snd ?x)" by (metis prod.collapse)
  have "rw_sent new_resp = None" by (simp add: resp_simps)
  from disk_domain_answers [OF this t] show ?thesis by (rule conjunct1)
qed

section \<open>Insert and lookup\<close>

text \<open>A project is hidden when a project of the group stands on the way to it.\<close>

fun shadowed :: "group \<Rightarrow> string list \<Rightarrow> bool" where
  "shadowed g [] = False"
| "shadowed g [p] = False"
| "shadowed g (s # rest) =
     (g_projects g s \<noteq> None \<or> (case g_subgroups g s of None \<Rightarrow> False | Some sg \<Rightarrow> shadowed sg rest))"

lemma shadowed_new [simp]: "\<not> shadowed (new_group n) split"
  by (cases split rule: remdups_adj.cases) (simp_all add: new_group_def)

lemma dig_new [simp]: "digProjectWithSubpath (new_group n) parent keys = None"
  by (cases keys) (simp_all add: new_group_def)

lemma dig_insert:
  assumes "map ToLower keys = split" "split \<noteq> []" "\<not> shadowed g split"
  shows "digProjectWithSubpath (group_insert g split pc) parent (keys @ tail) =
    Some (pc, foldl (\<lambda>p h. path_Join [p, h]) parent keys, path_Join tail)"
  using assms
proof (induction g split pc arbitrary: keys parent rule: group_insert.induct)
  case (3 g s s' rest pc)
  then obtain k ks where k: "keys = k # ks" "ToLower k = s" "map ToLower ks = s' # rest" by auto
  define sub where "sub = (case g_subgroups g s of None \<Rightarrow> new_group s | Some sg \<Rightarrow> sg)"
  have "\<not> shadowed sub (s' # rest)" "g_projects g s = None"
    using 3(4) by (auto simp: sub_def split: option.splits)
  then show ?case using 3(1) [OF sub_def k(3)] k by (simp add: sub_def [symmetric])
qed auto

lemma dig_insert_other:
  assumes "\<not> prefix split (map ToLower keys)" "split \<noteq> []"
  shows "digProjectWithSubpath (group_insert g split pc) parent keys = digProjectWithSubpath g parent keys"
  using assms
proof (induction g split pc arbitrary: keys parent rule: group_insert.induct)
  case (2 g p pc)
  then show ?case by (cases keys) (auto simp: Let_def split: option.splits)
next
  case (3 g s s' rest pc)
  define sub where "sub = (case g_subgroups g s of None \<Rightarrow> new_group s | Some sg \<Rightarrow> sg)"
  show ?case
  proof (cases keys)
    case (Cons k ks)
    show ?thesis
    proof (cases "ToLower k = s")
      case True
      then have "\<not> prefix (s' # rest) (map ToLower ks)" using 3(2) Cons by simp
      from 3(1) [OF sub_def this, of "path_Join [parent, k]"]
      have "digProjectWithSubpath (group_insert sub (s' # rest) pc) (path_Join [parent, k]) ks =
          digProjectWithSubpath sub (path_Join [parent, k]) ks" by simp
      then show ?thesis using Cons True by (auto simp: Let_def sub_def split: option.splits)
    qed (simp add: Cons Let_def split: option.splits)
  qed simp
qed simp

lemma join_clean_elems:
  assumes "list_all clean_elem ks"
  shows "foldl (\<lambda>p h. path_Join [p, h]) [] ks = join_with ''/'' ks"
  using assms
proof (induction ks rule: rev_induct)
  case (snoc k ks)
  then have k: "clean_elem k" "list_all clean_elem ks" by auto
  then have "path_Join [join_with ''/'' ks, k] = path_Clean (join_with ''/'' (ks @ [k]))"
  proof (cases "ks = []")
    case True
    then show ?thesis using k by (simp add: path_Join_def clean_elem_def)
  next
    case False
    then have "join_with ''/'' ks \<noteq> []" using join_elems_ne k(2) by blast
    then show ?thesis using False by (simp add: path_Join_def join_with_append)
  qed
  then show ?case using snoc k path_Clean_relative_elems [of "ks @ [k]"] by simp
qed simp

lemma clean_no_slash: "list_all clean_elem ks \<Longrightarrow> \<forall>x \<in> set ks. slash \<notin> set x"
  by (auto simp: list_all_iff clean_elem_def)

lemma getProject_inserted:
  assumes "list_all clean_elem keys" "keys \<noteq> []" "length keys \<le> 22"
    and "map ToLower keys = split" "\<not> shadowed g split"
    and "u_Path (r_URL r) = ''/'' @ join_with ''/'' keys @ ''/'' @ rest"
  shows "getProjectConfigWithSubpath (group_insert g split pc) r =
    Some (pc, ''/'' @ join_with ''/'' keys, join_with ''/'' keys, path_Join (splitn_on slash (23 - length keys) rest))"
proof -
  have n: "maxProjectDepth = Suc (length keys + (23 - length keys))" "0 < 23 - length keys"
    using assms(3) by (simp_all add: maxProjectDepth_def subgroupScanLimit_def)
  have "splitn_on slash maxProjectDepth (u_Path (r_URL r)) =
      [] # splitn_on slash (length keys + (23 - length keys)) (join_with ''/'' keys @ slash # rest)"
    using splitn_on_sep [of slash "[]" "length keys + (23 - length keys)" "join_with ''/'' keys @ slash # rest"] n
    by (simp add: assms(6))
  also have "\<dots> = [] # keys @ splitn_on slash (23 - length keys) rest"
    using splitn_on_join [OF assms(2) clean_no_slash [OF assms(1)] n(2)] by simp
  finally have sp: "splitn_on slash maxProjectDepth (u_Path (r_URL r)) = [] # keys @ splitn_on slash (23 - length keys) rest" .
  have "split \<noteq> []" using assms(2,4) by auto
  then show ?thesis
    using sp dig_insert [OF assms(4) _ assms(5), of pc "[]" "splitn_on slash (23 - length keys) rest"]
      join_clean_elems [OF assms(1)] assms(2)
    by (simp add: getProjectConfigWithSubpath_def Let_def Suc_le_eq)
qed

text \<open>C17. Round trip of the group tree: once a project has been registered for a group, a request
  to the group's host whose path starts with the project's path (in any case, at most 22 elements
  deep) resolves to that project with exactly the registered settings, and the rest of the path is
  left for the file lookup, unless a project of the group stands on the way.\<close>

theorem updateGroupDomain_resolves:
  assumes "updateGroupDomain dm rootDomain grp p httpsOnly accessControl ident = Some dm'"
    and "case dm (ToLower (grp @ ''.'' @ rootDomain)) of None \<Rightarrow> True
         | Some d \<Rightarrow> (\<exists>g. d_Resolver d = GroupResolver g \<and> \<not> shadowed g (split_on slash (ToLower p)))"
    and "list_all clean_elem keys" "length keys \<le> 22" "map ToLower keys = split_on slash (ToLower p)"
    and "u_Path (r_URL r) = ''/'' @ join_with ''/'' keys @ ''/'' @ rest"
  shows "\<exists>s. domain_resolve (disk_Resolve sv) (dm' (ToLower (grp @ ''.'' @ rootDomain))) r = Inr s \<and>
    lp_Prefix (sr_LookupPath s) = ''/'' @ join_with ''/'' keys \<and>
    lp_HasAccessControl (sr_LookupPath s) = accessControl \<and> lp_IsHTTPSOnly (sr_LookupPath s) = httpsOnly \<and>
    lp_ProjectID (sr_LookupPath s) = ident \<and>
    sr_SubPath s = path_Join (splitn_on slash (23 - length keys) rest)"
proof -
  define k where "k = ToLower (grp @ ''.'' @ rootDomain)"
  define gd where "gd = (case dm k of None \<Rightarrow> domain_New k [] [] (GroupResolver (new_group grp)) | Some d \<Rightarrow> d)"
  let ?split = "split_on slash (ToLower p)"
  obtain g where g: "d_Resolver gd = GroupResolver g" "\<not> shadowed g ?split"
    using assms(2) unfolding gd_def k_def [symmetric] by (auto simp: domain_New_def split: option.splits)
  have "length ?split \<le> maxProjectDepth"
    using assms(4) arg_cong [OF assms(5), of length] by (simp add: maxProjectDepth_def subgroupScanLimit_def)
  then have sp: "splitn_on slash maxProjectDepth (ToLower p) = ?split" by (rule splitn_on_all)
  have "keys \<noteq> []" using assms(5) split_on_ne [of slash "ToLower p"] by (cases keys) simp_all
  note get = getProject_inserted [OF assms(3) this assms(4,5) g(2) assms(6)]
  obtain pc where pc: "dm' k = Some (gd\<lparr>d_Resolver := GroupResolver (group_insert g ?split pc)\<rparr>)"
    "pc_HTTPSOnly pc = httpsOnly" "pc_AccessControl pc = accessControl" "pc_ID pc = ident"
    using assms(1) unfolding updateGroupDomain_def Let_def k_def [symmetric] gd_def [symmetric] g(1) sp by auto
  then show ?thesis
    unfolding k_def [symmetric] by (simp add: domain_resolve_def Group_Resolve_def get)
qed

text \<open>Registering a project does not change what any other path of a group resolves to: only
  paths that go through the project's own path can be affected.\<close>

theorem group_insert_frame:
  assumes "\<not> prefix split (map ToLower keys)" and "split \<noteq> []"
  shows "digProjectWithSubpath (group_insert g split pc) parent keys = digProjectWithSubpath g parent keys"
  by (rule dig_insert_other [OF assms])

section \<open>Watching the update file\<close>

inductive_cases watch_turnE: "watch_turn rootDomain update fs s s'"

text \<open>Every state the watcher of the update file reaches holds either no domains yet or a map that
  keeps groups and custom domains apart; a turn never removes the domains it has.\<close>

theorem watched_ok:
  assumes "ToLower rootDomain = rootDomain" and "watched rootDomain s"
  shows "(dk_dm (snd s) = None \<or> (\<exists>dm. dk_dm (snd s) = Some dm \<and> map_ok rootDomain dm)) \<and>
    (\<forall>update fs s'. watch_turn rootDomain update fs s s' \<longrightarrow> disk_IsReady (snd s) \<longrightarrow> disk_IsReady (snd s'))"
proof
  show "dk_dm (snd s) = None \<or> (\<exists>dm. dk_dm (snd s) = Some dm \<and> map_ok rootDomain dm)"
    using assms(2)
  proof (induction rule: watched.induct)
    case start
    then show ?case by (simp add: disk_New_def)
  next
    case (turn s update fs s')
    from turn.hyps(2) show ?case
    proof (cases rule: watch_turn.cases)
      case (scanned update' lastUpdate fis dm d)
      then show ?thesis using ReadGroups_ok [OF assms(1) scanned(6)] by (simp add: disk_updateDomains_def)
    qed (use turn.IH in auto)
  qed
  show "\<forall>update fs s'. watch_turn rootDomain update fs s s' \<longrightarrow> disk_IsReady (snd s) \<longrightarrow> disk_IsReady (snd s')"
    by (auto elim!: watch_turnE simp: disk_IsReady_def disk_updateDomains_def)
qed

text \<open>A scan that could not list the pages directory is not repeated: the watcher has already
  remembered the update it failed on, so as long as the update file stays the same no later turn
  changes anything, and a daemon whose first scan fails stays without domains.\<close>

theorem watch_failed_scan_sticks:
  assumes "pd_ReadDirents fs ''.'' = None" and "update \<noteq> ''no-update''"
    and "watch_turn rootDomain (Some update) fs (''no-update'', disk_New) s"
    and "watch_turn rootDomain (Some update) fs' s s'"
  shows "s' = s \<and> \<not> disk_IsReady (snd s')"
proof -
  have s: "s = (update, disk_New)" using assms(1-3) by (auto elim!: watch_turnE)
  with assms(4) show ?thesis by (auto elim!: watch_turnE simp: disk_IsReady_def disk_New_def)
qed

theorem updateGroupDomain_resolves_witness:
  "\<exists>dm' s. updateGroupDomain Map.empty ''example.com'' ''Group'' ''Sub/Project'' True True 7 = Some dm' \<and>
     domain_resolve (disk_Resolve (local_Instance (demo_env []) demo_os)) (dm' (ToLower (''Group'' @ ''.'' @ ''example.com'')))
       (demo_request_for ''group.example.com'' ''/sub/PROJECT/a.html'') = Inr s \<and>
     lp_ProjectID (sr_LookupPath s) = 7 \<and> sr_SubPath s = ''a.html''"
proof -
  have "updateGroupDomain Map.empty ''example.com'' ''Group'' ''Sub/Project'' True True 7 \<noteq> None" by code_simp
  then obtain dm' where dm': "updateGroupDomain Map.empty ''example.com'' ''Group'' ''Sub/Project'' True True 7 = Some dm'"
    by blast
  have k: "list_all clean_elem [''sub'', ''PROJECT'']" "length [''sub'', ''PROJECT''] \<le> 22"
    "map ToLower [''sub'', ''PROJECT''] = split_on slash (ToLower ''Sub/Project'')"
    "u_Path (r_URL (demo_request_for ''group.example.com'' ''/sub/PROJECT/a.html'')) =
       ''/'' @ join_with ''/'' [''sub'', ''PROJECT''] @ ''/'' @ ''a.html''"
    by code_simp+
  have sub: "path_Join (splitn_on slash (23 - length [''sub'', ''PROJECT'']) ''a.html'') = ''a.html''" by code_simp
  show ?thesis
    using updateGroupDomain_resolves [OF dm' _ k, of "local_Instance (demo_env []) demo_os"] dm' sub by simp metis
qed

theorem group_insert_frame_witness:
  "digProjectWithSubpath (group_insert (new_group ''g'') [''a''] \<lparr>pc_NamespaceProject = False, pc_HTTPSOnly = False,
     pc_AccessControl = False, pc_ID = 1\<rparr>) [] [''b''] = None"
  by (subst group_insert_frame) code_simp+

lemma demo_watched: "watched ''example.com'' (''no-update'', disk_New)"
  by (rule watched.start)

theorem watched_ok_witness:
  "dk_dm (snd (''no-update'', disk_New)) = None \<or>
   (\<exists>dm. dk_dm (snd (''no-update'', disk_New)) = Some dm \<and> map_ok ''example.com'' dm)"
  using watched_ok [OF _ demo_watched] by (simp add: disk_New_def)

theorem watch_failed_scan_sticks_witness:
  "watch_turn ''example.com'' (Some ''1'') (demo_pages\<lparr>pd_ReadDirents := (\<lambda>_. None)\<rparr>) (''no-update'', disk_New) (''1'', disk_New) \<and>
   watch_turn ''example.com'' (Some ''1'') demo_pages (''1'', disk_New) (''1'', disk_New) \<and>
   \<not> disk_IsReady (snd (''1'', disk_New))"
proof -
  have a: "watch_turn ''example.com'' (Some ''1'') (demo_pages\<lparr>pd_ReadDirents := (\<lambda>_. None)\<rparr>) (''no-update'', disk_New) (''1'', disk_New)"
    by (rule watch_turn.scan_failed) simp_all
  have b: "watch_turn ''example.com'' (Some ''1'') demo_pages (''1'', disk_New) (''1'', disk_New)"
    by (rule watch_turn.same)
  show ?thesis using watch_failed_scan_sticks [OF _ _ a b] a b by simp
qed

end
