(* ===== verification/Gitlab_Cache.thy ===== *)
theory Gitlab_Cache
  imports Domain "HOL-Library.Multiset"
begin

text \<open>
  The cache in front of the GitLab API (\<^verbatim>\<open>internal/source/gitlab/cache\<close>) with the API's data
  types (\<^verbatim>\<open>internal/source/gitlab/api\<close>): entries that are retrieved once by a goroutine while
  the clients wait on a channel, refreshed in the background when they are old, and kept in a store.

  Entries are objects shared between clients, goroutines and the store, so they live in a heap and
  everything else refers to them by address.  The program runs as a step relation on the state: every
  client has a program counter between the calls of \<^verbatim>\<open>Cache.Resolve\<close>, every goroutine is a
  pending task, and the steps of all of them interleave freely.  What is done under one lock, or by
  one \<^verbatim>\<open>sync.Once\<close>, is one step.  The store is the third-party package
  \<^verbatim>\<open>patrickmn/go-cache\<close>; the relation only uses that a stored item is found until it vanishes,
  and lets any item vanish at any moment (expiry and cleanup).  The retriever's answer is any lookup
  that \<open>answers\<close> allows for the domain asked for.  Closing a closed channel, which panics in
  Go, sets \<open>cs_panicked\<close>.
\<close>

section \<open>API types (internal/source/gitlab/api)\<close>

record api_Source =
  so_Type :: string
  so_Path :: string

record api_LookupPath =
  al_ProjectID :: int
  al_AccessControl :: bool
  al_HTTPSOnly :: bool
  al_Prefix :: string
  al_Source :: api_Source

record VirtualDomain =
  vd_Certificate :: string
  vd_Key :: string
  vd_LookupPaths :: "api_LookupPath list"

record Lookup =
  lk_Name :: string
  lk_Error :: "go_error option"
  lk_Domain :: "VirtualDomain option"

section \<open>The retriever (retriever.go)\<close>

record Retriever =
  re_retrievalTimeout :: duration
  re_maxRetrievalInterval :: duration
  re_maxRetrievalRetries :: int

definition zero_lookup :: Lookup where
  "zero_lookup = \<lparr>lk_Name = [], lk_Error = None, lk_Domain = None\<rparr>"

text \<open>An answer the loop does not retry.\<close>

definition definitive :: "Lookup \<Rightarrow> bool" where
  "definitive l \<longleftrightarrow> lk_Error l = None \<or> lk_Error l = Some ErrDomainDoesNotExist \<or> lk_Error l = Some ErrUnauthorizedAPI"

text \<open>The loop of \<^verbatim>\<open>resolveWithBackoff\<close>: \<open>call i\<close> is what the i-th \<^verbatim>\<open>client.GetLookup\<close>
  answers; the result is the lookup sent and the number of calls made.\<close>

function (sequential) backoff_loop :: "(int \<Rightarrow> Lookup) \<Rightarrow> int \<Rightarrow> int \<Rightarrow> Lookup \<Rightarrow> Lookup \<times> int" where
  "backoff_loop call maxRetries i lookup =
     (if i \<le> maxRetries then
        (if definitive (call i) then (call i, i) else backoff_loop call maxRetries (i + 1) (call i))
      else (lookup, i - 1))"
  by pat_completeness auto

termination
  by (relation "measure (\<lambda>(_, m, i, _). nat (m + 1 - i))") auto

declare backoff_loop.simps [simp del]

definition resolveWithBackoff :: "Retriever \<Rightarrow> (int \<Rightarrow> Lookup) \<Rightarrow> Lookup \<times> int" where
  "resolveWithBackoff r call = backoff_loop call (re_maxRetrievalRetries r) 1 zero_lookup"

text \<open>\<^verbatim>\<open>Retrieve\<close> selects between the timeout of its context and the loop.\<close>

inductive retriever_Retrieve :: "Retriever \<Rightarrow> (int \<Rightarrow> Lookup) \<Rightarrow> Lookup \<Rightarrow> bool" for r call where
  timeout: "retriever_Retrieve r call (zero_lookup\<lparr>lk_Error := Some (ErrMsg ''retrieval context done'')\<rparr>)"
| sent: "retriever_Retrieve r call (fst (resolveWithBackoff r call))"

section \<open>Entries (entry.go)\<close>

text \<open>\<open>en_orig\<close> is \<^verbatim>\<open>refreshedOriginalTimestamp\<close>, \<^const>\<open>None\<close> while it is the zero time;
  \<open>en_retrieve\<close> and \<open>en_refresh\<close> tell whether the two \<^verbatim>\<open>sync.Once\<close> have run;
  \<open>en_retrieved\<close> whether the channel is closed.\<close>

record Entry =
  en_domain :: string
  en_created :: timestamp
  en_orig :: "timestamp option"
  en_retrieve :: bool
  en_refresh :: bool
  en_retrieved :: bool
  en_response :: "Lookup option"
  en_refreshTimeout :: duration
  en_expirationTimeout :: duration

definition newCacheEntry :: "timestamp \<Rightarrow> string \<Rightarrow> duration \<Rightarrow> duration \<Rightarrow> Entry" where
  "newCacheEntry now domain refreshTimeout entryExpirationTimeout =
     \<lparr>en_domain = domain, en_created = now, en_orig = None, en_retrieve = False, en_refresh = False,
      en_retrieved = False, en_response = None, en_refreshTimeout = refreshTimeout,
      en_expirationTimeout = entryExpirationTimeout\<rparr>"

definition isOutdated :: "timestamp \<Rightarrow> Entry \<Rightarrow> bool" where
  "isOutdated now e =
     (case en_orig e of
        Some orig \<Rightarrow> now - orig > en_refreshTimeout e
      | None \<Rightarrow> now - en_created e > en_refreshTimeout e)"

definition isResolved :: "Entry \<Rightarrow> bool" where
  "isResolved e \<longleftrightarrow> en_response e \<noteq> None"

definition isExpired :: "timestamp \<Rightarrow> Entry \<Rightarrow> bool" where
  "isExpired now e =
     (case en_orig e of
        Some orig \<Rightarrow> now - orig > en_expirationTimeout e
      | None \<Rightarrow> now - en_created e > en_expirationTimeout e)"

definition IsUpToDate :: "timestamp \<Rightarrow> Entry \<Rightarrow> bool" where
  "IsUpToDate now e \<longleftrightarrow> isResolved e \<and> \<not> isOutdated now e"

definition NeedsRefresh :: "timestamp \<Rightarrow> Entry \<Rightarrow> bool" where
  "NeedsRefresh now e \<longleftrightarrow> isResolved e \<and> isOutdated now e"

definition domainExists :: "Lookup \<Rightarrow> bool" where
  "domainExists response \<longleftrightarrow> lk_Error response \<noteq> Some ErrDomainDoesNotExist"

text \<open>\<open>getenv\<close> is the process environment.\<close>

definition hasTemporaryError :: "(string \<Rightarrow> string) \<Rightarrow> Entry \<Rightarrow> bool" where
  "hasTemporaryError getenv e =
     (if getenv ''FF_DISABLE_REFRESH_TEMPORARY_ERROR'' = ''true'' then False
      else (case en_response e of
              None \<Rightarrow> False
            | Some response \<Rightarrow> lk_Error response \<noteq> None \<and> domainExists response))"

text \<open>The end of \<^verbatim>\<open>refreshFunc\<close>, once the new entry has been retrieved.\<close>

definition refresh_keep :: "(string \<Rightarrow> string) \<Rightarrow> timestamp \<Rightarrow> Entry \<Rightarrow> Entry \<Rightarrow> Entry" where
  "refresh_keep getenv now e entry =
     (if \<not> isExpired now e \<and> hasTemporaryError getenv entry
      then entry\<lparr>en_response := en_response e, en_orig := Some (en_created e)\<rparr>
      else entry)"

section \<open>The running cache (cache.go, memstore.go)\<close>

text \<open>A client inside \<^verbatim>\<open>Cache.Resolve\<close> for a domain: before \<^verbatim>\<open>LoadOrCreate\<close>, with its entry
  before each of the two tests, in \<^verbatim>\<open>Entry.Refresh\<close>, before the final \<^verbatim>\<open>Lookup\<close>, in
  \<^verbatim>\<open>Entry.Retrieve\<close> before and after its \<^verbatim>\<open>sync.Once\<close>, and returned.\<close>

datatype client_pc =
    Entered | Loaded nat | NotUpToDate nat | Refreshing nat | Hit nat | Retrieving nat | Waiting nat
  | Returned "Lookup option"

text \<open>The goroutines: one retrieving the response of an entry, one refreshing an entry through a new
  one, before and after it started that one's retrieval.\<close>

datatype task = RetrieveTask nat | RefreshStart nat | RefreshWait nat nat

record cache_state =
  cs_now :: timestamp
  cs_next :: nat
  cs_heap :: "nat \<Rightarrow> Entry"
  cs_store :: "string \<rightharpoonup> nat"
  cs_tasks :: "task multiset"
  cs_clients :: "nat \<rightharpoonup> string \<times> client_pc"
  cs_panicked :: bool

record cache_config =
  cc_getenv :: "string \<Rightarrow> string"
  cc_entryRefreshTimeout :: duration
  cc_entryExpirationTimeout :: duration
  cc_answers :: "string \<Rightarrow> Lookup \<Rightarrow> bool"

definition NewCache :: "timestamp \<Rightarrow> cache_state" where
  "NewCache now = \<lparr>cs_now = now, cs_next = 0, cs_heap = (\<lambda>_. newCacheEntry 0 [] 0 0), cs_store = Map.empty,
     cs_tasks = {#}, cs_clients = Map.empty, cs_panicked = False\<rparr>"

definition upd :: "cache_state \<Rightarrow> nat \<Rightarrow> Entry \<Rightarrow> cache_state" where
  "upd s a e = s\<lparr>cs_heap := (cs_heap s)(a := e)\<rparr>"

definition goto :: "cache_state \<Rightarrow> nat \<Rightarrow> string \<Rightarrow> client_pc \<Rightarrow> cache_state" where
  "goto s c k pc = s\<lparr>cs_clients := (cs_clients s)(c \<mapsto> (k, pc))\<rparr>"

definition LoadOrCreate :: "cache_config \<Rightarrow> cache_state \<Rightarrow> string \<Rightarrow> nat \<times> cache_state" where
  "LoadOrCreate cfg s domain =
     (case cs_store s domain of
        Some a \<Rightarrow> (a, s)
      | None \<Rightarrow>
          (let a = cs_next s;
               newEntry = newCacheEntry (cs_now s) domain (cc_entryRefreshTimeout cfg) (cc_entryExpirationTimeout cfg)
           in (a, s\<lparr>cs_next := Suc a, cs_heap := (cs_heap s)(a := newEntry), cs_store := (cs_store s)(domain \<mapsto> a)\<rparr>)))"

definition ReplaceOrCreate :: "cache_state \<Rightarrow> string \<Rightarrow> nat \<Rightarrow> cache_state" where
  "ReplaceOrCreate s domain a = s\<lparr>cs_store := (cs_store s)(domain \<mapsto> a)\<rparr>"

text \<open>\<^verbatim>\<open>e.retrieve.Do\<close> starts the goroutine on the first call only.\<close>

definition start_retrieve :: "cache_state \<Rightarrow> nat \<Rightarrow> cache_state" where
  "start_retrieve s a =
     (if en_retrieve (cs_heap s a) then s
      else (upd s a ((cs_heap s a)\<lparr>en_retrieve := True\<rparr>))\<lparr>cs_tasks := add_mset (RetrieveTask a) (cs_tasks s)\<rparr>)"

definition Refresh :: "cache_state \<Rightarrow> nat \<Rightarrow> cache_state" where
  "Refresh s a =
     (if en_refresh (cs_heap s a) then s
      else (upd s a ((cs_heap s a)\<lparr>en_refresh := True\<rparr>))\<lparr>cs_tasks := add_mset (RefreshStart a) (cs_tasks s)\<rparr>)"

definition setResponse :: "cache_state \<Rightarrow> nat \<Rightarrow> Lookup \<Rightarrow> cache_state" where
  "setResponse s a lookup =
     (if en_retrieved (cs_heap s a) then s\<lparr>cs_panicked := True\<rparr>
      else upd s a ((cs_heap s a)\<lparr>en_response := Some lookup, en_retrieved := True\<rparr>))"

text \<open>The first part of \<^verbatim>\<open>refreshFunc\<close>: a new entry, and its \<^verbatim>\<open>Retrieve\<close> up to the wait.\<close>

definition refresh_start :: "cache_state \<Rightarrow> nat \<Rightarrow> cache_state" where
  "refresh_start s a =
     (let e = cs_heap s a; n = cs_next s;
          entry = newCacheEntry (cs_now s) (en_domain e) (en_refreshTimeout e) (en_expirationTimeout e)
      in start_retrieve (s\<lparr>cs_next := Suc n, cs_heap := (cs_heap s)(n := entry),
           cs_tasks := add_mset (RefreshWait a n) (cs_tasks s - {#RefreshStart a#})\<rparr>) n)"

definition refresh_finish :: "cache_config \<Rightarrow> cache_state \<Rightarrow> nat \<Rightarrow> nat \<Rightarrow> cache_state" where
  "refresh_finish cfg s a n =
     (let e = cs_heap s a
      in ReplaceOrCreate
           ((upd s n (refresh_keep (cc_getenv cfg) (cs_now s) e (cs_heap s n)))\<lparr>cs_tasks := cs_tasks s - {#RefreshWait a n#}\<rparr>)
           (en_domain e) n)"

definition context_done :: "string \<Rightarrow> Lookup" where
  "context_done domain = \<lparr>lk_Name = domain, lk_Error = Some (ErrMsg ''context done''), lk_Domain = None\<rparr>"

inductive cache_step :: "cache_config \<Rightarrow> cache_state \<Rightarrow> cache_state \<Rightarrow> bool" for cfg where
  tick: "now' \<ge> cs_now s \<Longrightarrow> cache_step cfg s (s\<lparr>cs_now := now'\<rparr>)"
| vanish: "cache_step cfg s (s\<lparr>cs_store := (cs_store s)(k := None)\<rparr>)"
| enter: "cs_clients s c = None \<Longrightarrow> cache_step cfg s (goto s c k Entered)"
| load: "cs_clients s c = Some (k, Entered) \<Longrightarrow> LoadOrCreate cfg s k = (a, s') \<Longrightarrow> cache_step cfg s (goto s' c k (Loaded a))"
| test_fresh: "cs_clients s c = Some (k, Loaded a) \<Longrightarrow>
    cache_step cfg s (goto s c k (if IsUpToDate (cs_now s) (cs_heap s a) then Hit a else NotUpToDate a))"
| test_refresh: "cs_clients s c = Some (k, NotUpToDate a) \<Longrightarrow>
    cache_step cfg s (goto s c k (if NeedsRefresh (cs_now s) (cs_heap s a) then Refreshing a else Retrieving a))"
| refresh: "cs_clients s c = Some (k, Refreshing a) \<Longrightarrow> cache_step cfg s (goto (Refresh s a) c k (Hit a))"
| hit: "cs_clients s c = Some (k, Hit a) \<Longrightarrow> cache_step cfg s (goto s c k (Returned (en_response (cs_heap s a))))"
| retrieve: "cs_clients s c = Some (k, Retrieving a) \<Longrightarrow> cache_step cfg s (goto (start_retrieve s a) c k (Waiting a))"
| cancelled: "cs_clients s c = Some (k, Waiting a) \<Longrightarrow>
    cache_step cfg s (goto s c k (Returned (Some (context_done (en_domain (cs_heap s a))))))"
| received: "cs_clients s c = Some (k, Waiting a) \<Longrightarrow> en_retrieved (cs_heap s a) \<Longrightarrow>
    cache_step cfg s (goto s c k (Returned (en_response (cs_heap s a))))"
| answered: "RetrieveTask a \<in># cs_tasks s \<Longrightarrow> cc_answers cfg (en_domain (cs_heap s a)) l \<Longrightarrow>
    cache_step cfg s ((setResponse s a l)\<lparr>cs_tasks := cs_tasks s - {#RetrieveTask a#}\<rparr>)"
| start_refresh: "RefreshStart a \<in># cs_tasks s \<Longrightarrow> cache_step cfg s (refresh_start s a)"
| finish_refresh: "RefreshWait a n \<in># cs_tasks s \<Longrightarrow> en_retrieved (cs_heap s n) \<Longrightarrow>
    cache_step cfg s (refresh_finish cfg s a n)"

inductive cache_reachable :: "cache_config \<Rightarrow> cache_state \<Rightarrow> bool" for cfg where
  new: "cache_reachable cfg (NewCache now)"
| step: "cache_reachable cfg s \<Longrightarrow> cache_step cfg s s' \<Longrightarrow> cache_reachable cfg s'"

section \<open>The invariant\<close>

definition entry_ok :: "cache_config \<Rightarrow> Entry \<Rightarrow> nat \<Rightarrow> bool" where
  "entry_ok cfg e pending \<longleftrightarrow>
     (en_retrieved e \<longleftrightarrow> isResolved e) \<and> (en_retrieved e \<longrightarrow> en_retrieve e) \<and>
     pending = (if en_retrieve e \<and> \<not> en_retrieved e then 1 else 0) \<and>
     (\<forall>l. en_response e = Some l \<longrightarrow> cc_answers cfg (en_domain e) l)"

definition holds_entry :: "cache_state \<Rightarrow> string \<Rightarrow> nat \<Rightarrow> bool" where
  "holds_entry s k a \<longleftrightarrow> a < cs_next s \<and> en_domain (cs_heap s a) = k"

fun pc_ok :: "cache_config \<Rightarrow> cache_state \<Rightarrow> string \<Rightarrow> client_pc \<Rightarrow> bool" where
  "pc_ok cfg s k Entered = True"
| "pc_ok cfg s k (Loaded a) = holds_entry s k a"
| "pc_ok cfg s k (NotUpToDate a) = holds_entry s k a"
| "pc_ok cfg s k (Refreshing a) = (holds_entry s k a \<and> isResolved (cs_heap s a))"
| "pc_ok cfg s k (Hit a) = (holds_entry s k a \<and> isResolved (cs_heap s a))"
| "pc_ok cfg s k (Retrieving a) = holds_entry s k a"
| "pc_ok cfg s k (Waiting a) = holds_entry s k a"
| "pc_ok cfg s k (Returned r) = (\<exists>l. r = Some l \<and> (l = context_done k \<or> cc_answers cfg k l))"

fun task_ok :: "cache_state \<Rightarrow> task \<Rightarrow> bool" where
  "task_ok s (RetrieveTask a) = (a < cs_next s)"
| "task_ok s (RefreshStart a) = (a < cs_next s \<and> isResolved (cs_heap s a))"
| "task_ok s (RefreshWait a n) =
     (a < cs_next s \<and> isResolved (cs_heap s a) \<and> holds_entry s (en_domain (cs_heap s a)) n)"

definition heap_ok :: "cache_config \<Rightarrow> cache_state \<Rightarrow> bool" where
  "heap_ok cfg s \<longleftrightarrow>
     (\<forall>a < cs_next s. entry_ok cfg (cs_heap s a) (count (cs_tasks s) (RetrieveTask a)))"

definition cache_inv :: "cache_config \<Rightarrow> cache_state \<Rightarrow> bool" where
  "cache_inv cfg s \<longleftrightarrow>
     \<not> cs_panicked s \<and> heap_ok cfg s \<and>
     (\<forall>k a. cs_store s k = Some a \<longrightarrow> holds_entry s k a) \<and>
     (\<forall>c k pc. cs_clients s c = Some (k, pc) \<longrightarrow> pc_ok cfg s k pc) \<and>
     (\<forall>t. t \<in># cs_tasks s \<longrightarrow> task_ok s t)"

text \<open>How entries evolve: they keep their domain and never lose their response.\<close>

definition extends :: "cache_state \<Rightarrow> cache_state \<Rightarrow> bool" where
  "extends s s' \<longleftrightarrow> cs_next s \<le> cs_next s' \<and>
     (\<forall>a < cs_next s. en_domain (cs_heap s' a) = en_domain (cs_heap s a) \<and>
        (isResolved (cs_heap s a) \<longrightarrow> isResolved (cs_heap s' a)))"

lemma holds_extends: "extends s s' \<Longrightarrow> holds_entry s k a \<Longrightarrow> holds_entry s' k a"
  by (auto simp: extends_def holds_entry_def)

lemma resolved_extends: "extends s s' \<Longrightarrow> a < cs_next s \<Longrightarrow> isResolved (cs_heap s a) \<Longrightarrow> isResolved (cs_heap s' a)"
  by (simp add: extends_def)

lemma pc_ok_extends: "extends s s' \<Longrightarrow> pc_ok cfg s k pc \<Longrightarrow> pc_ok cfg s' k pc"
  by (cases pc) (auto simp: holds_entry_def extends_def)

lemma task_ok_extends: "extends s s' \<Longrightarrow> task_ok s t \<Longrightarrow> task_ok s' t"
  by (cases t) (auto simp: extends_def holds_entry_def)

text \<open>A change of the heap, the tasks and the store keeps the invariant when the entries only evolve
  and what is new is well formed.\<close>

lemma cache_inv_extends:
  assumes "cache_inv cfg s" "extends s s'" "cs_panicked s' = cs_panicked s" "cs_clients s' = cs_clients s"
    and "heap_ok cfg s'"
    and "\<And>k a. cs_store s' k = Some a \<Longrightarrow> cs_store s k = Some a \<or> holds_entry s' k a"
    and "\<And>t. t \<in># cs_tasks s' \<Longrightarrow> t \<in># cs_tasks s \<or> task_ok s' t"
  shows "cache_inv cfg s'"
  using assms holds_extends [OF assms(2)] pc_ok_extends [OF assms(2)] task_ok_extends [OF assms(2)]
  unfolding cache_inv_def by metis

lemma cache_inv_goto:
  assumes "cache_inv cfg s" "pc_ok cfg s k pc"
  shows "cache_inv cfg (goto s c k pc)"
proof -
  have "extends s (goto s c k pc)" by (simp add: extends_def goto_def)
  then show ?thesis
    using assms pc_ok_extends task_ok_extends holds_extends
    by (auto simp: cache_inv_def goto_def heap_ok_def)
qed

lemma LoadOrCreate_inv:
  assumes "cache_inv cfg s" "LoadOrCreate cfg s k = (a, s')"
  shows "cache_inv cfg s' \<and> holds_entry s' k a \<and> cs_clients s' = cs_clients s"
proof (cases "cs_store s k")
  case (Some b)
  then show ?thesis using assms by (auto simp: LoadOrCreate_def cache_inv_def)
next
  case None
  let ?e = "newCacheEntry (cs_now s) k (cc_entryRefreshTimeout cfg) (cc_entryExpirationTimeout cfg)"
  have s': "a = cs_next s" "s' = s\<lparr>cs_next := Suc a, cs_heap := (cs_heap s)(a := ?e), cs_store := (cs_store s)(k \<mapsto> a)\<rparr>"
    using None assms(2) by (auto simp: LoadOrCreate_def Let_def)
  have fresh: "count (cs_tasks s) (RetrieveTask (cs_next s)) = 0"
    using assms(1) by (metis cache_inv_def count_eq_zero_iff nat_less_le task_ok.simps(1))
  have h: "holds_entry s' k a" by (simp add: s' holds_entry_def newCacheEntry_def)
  have "heap_ok cfg s'"
    using assms(1) fresh
    by (auto simp: cache_inv_def heap_ok_def s' entry_ok_def newCacheEntry_def isResolved_def less_Suc_eq)
  moreover have "extends s s'" by (auto simp: extends_def s')
  ultimately have "cache_inv cfg s'"
    using h s' by (intro cache_inv_extends [OF assms(1)]) (auto split: if_split_asm)
  then show ?thesis using h s' by simp
qed

lemma heap_okD: "cache_inv cfg s \<Longrightarrow> a < cs_next s \<Longrightarrow> entry_ok cfg (cs_heap s a) (count (cs_tasks s) (RetrieveTask a))"
  by (simp add: cache_inv_def heap_ok_def)

lemma start_retrieve_heap_ok:
  assumes "heap_ok cfg s" "a < cs_next s"
  shows "heap_ok cfg (start_retrieve s a)"
  using assms by (auto simp: heap_ok_def start_retrieve_def upd_def entry_ok_def isResolved_def)

lemma start_retrieve_extends: "extends s (start_retrieve s a)"
  by (auto simp: extends_def start_retrieve_def upd_def isResolved_def)

lemma start_retrieve_inv:
  assumes "cache_inv cfg s" "a < cs_next s"
  shows "cache_inv cfg (start_retrieve s a)"
proof -
  have "heap_ok cfg (start_retrieve s a)"
    using assms by (intro start_retrieve_heap_ok) (auto simp: cache_inv_def)
  then show ?thesis
    using assms(2)
    by (intro cache_inv_extends [OF assms(1) start_retrieve_extends]) (auto simp: start_retrieve_def upd_def)
qed

lemma start_retrieve_fields [simp]:
  "cs_clients (start_retrieve s a) = cs_clients s" "cs_next (start_retrieve s a) = cs_next s"
  "cs_store (start_retrieve s a) = cs_store s" "cs_panicked (start_retrieve s a) = cs_panicked s"
  by (simp_all add: start_retrieve_def upd_def)

lemma Refresh_inv:
  assumes "cache_inv cfg s" "a < cs_next s" "isResolved (cs_heap s a)"
  shows "cache_inv cfg (Refresh s a)" "extends s (Refresh s a)"
proof -
  show e: "extends s (Refresh s a)" by (auto simp: extends_def Refresh_def upd_def isResolved_def)
  have "heap_ok cfg (Refresh s a)"
    using assms(1,2) by (auto simp: cache_inv_def heap_ok_def Refresh_def upd_def entry_ok_def isResolved_def)
  then show "cache_inv cfg (Refresh s a)"
    using assms(2,3) by (intro cache_inv_extends [OF assms(1) e]) (auto simp: Refresh_def upd_def isResolved_def)
qed

text \<open>A goroutine that answers finds its channel open.\<close>

lemma answered_inv:
  assumes "cache_inv cfg s" "RetrieveTask a \<in># cs_tasks s" "cc_answers cfg (en_domain (cs_heap s a)) l"
  shows "cache_inv cfg ((setResponse s a l)\<lparr>cs_tasks := cs_tasks s - {#RetrieveTask a#}\<rparr>)"
proof -
  have a: "a < cs_next s" using assms(1,2) by (metis cache_inv_def task_ok.simps(1))
  have c: "count (cs_tasks s) (RetrieveTask a) = 1" and open': "\<not> en_retrieved (cs_heap s a)" "en_retrieve (cs_heap s a)"
    using heap_okD [OF assms(1) a] assms(2) by (auto simp: entry_ok_def count_eq_zero_iff split: if_split_asm)
  let ?s = "(setResponse s a l)\<lparr>cs_tasks := cs_tasks s - {#RetrieveTask a#}\<rparr>"
  have s': "?s = (upd s a ((cs_heap s a)\<lparr>en_response := Some l, en_retrieved := True\<rparr>))\<lparr>cs_tasks := cs_tasks s - {#RetrieveTask a#}\<rparr>"
    using open' by (simp add: setResponse_def)
  have "extends s ?s" by (auto simp: extends_def s' upd_def isResolved_def)
  moreover have "heap_ok cfg ?s"
    using assms(1,3) c open' by (auto simp: cache_inv_def heap_ok_def s' upd_def entry_ok_def isResolved_def)
  ultimately show ?thesis
    by (intro cache_inv_extends [OF assms(1)]) (auto simp: s' upd_def dest: in_diffD)
qed

lemma refresh_start_inv:
  assumes "cache_inv cfg s" "RefreshStart a \<in># cs_tasks s"
  shows "cache_inv cfg (refresh_start s a)"
proof -
  have a: "a < cs_next s" "isResolved (cs_heap s a)" using assms by (metis cache_inv_def task_ok.simps(2))+
  define n where "n = cs_next s"
  define entry where "entry = newCacheEntry (cs_now s) (en_domain (cs_heap s a)) (en_refreshTimeout (cs_heap s a)) (en_expirationTimeout (cs_heap s a))"
  define s1 where "s1 = s\<lparr>cs_next := Suc n, cs_heap := (cs_heap s)(n := entry),
    cs_tasks := add_mset (RefreshWait a n) (cs_tasks s - {#RefreshStart a#})\<rparr>"
  have fresh: "count (cs_tasks s) (RetrieveTask n) = 0"
    using assms(1) by (metis cache_inv_def count_eq_zero_iff n_def nat_less_le task_ok.simps(1))
  have e: "extends s s1" by (auto simp: extends_def s1_def n_def)
  have h: "heap_ok cfg s1"
    using assms(1) fresh
    by (auto simp: cache_inv_def heap_ok_def s1_def n_def entry_def entry_ok_def newCacheEntry_def isResolved_def less_Suc_eq)
  have "task_ok s1 (RefreshWait a n)"
    using a by (auto simp: s1_def n_def entry_def holds_entry_def newCacheEntry_def)
  then have "cache_inv cfg s1"
    using h by (intro cache_inv_extends [OF assms(1) e]) (auto simp: s1_def dest: in_diffD)
  then have "cache_inv cfg (start_retrieve s1 n)" by (rule start_retrieve_inv) (simp add: s1_def)
  then show ?thesis by (simp add: refresh_start_def Let_def s1_def n_def entry_def)
qed

lemma refresh_keep_ok:
  assumes "entry_ok cfg entry p" "en_retrieved entry" "entry_ok cfg e q" "isResolved e" "en_domain entry = en_domain e"
  shows "entry_ok cfg (refresh_keep getenv now e entry) p" "en_domain (refresh_keep getenv now e entry) = en_domain e"
    "isResolved (refresh_keep getenv now e entry)"
  using assms by (auto simp: refresh_keep_def entry_ok_def isResolved_def)

lemma refresh_finish_inv:
  assumes "cache_inv cfg s" "RefreshWait a n \<in># cs_tasks s" "en_retrieved (cs_heap s n)"
  shows "cache_inv cfg (refresh_finish cfg s a n)"
proof -
  have t: "a < cs_next s" "isResolved (cs_heap s a)" "holds_entry s (en_domain (cs_heap s a)) n"
    using assms(1,2) by (metis cache_inv_def task_ok.simps(3))+
  then have n: "n < cs_next s" "en_domain (cs_heap s n) = en_domain (cs_heap s a)" by (simp_all add: holds_entry_def)
  define e' where "e' = refresh_keep (cc_getenv cfg) (cs_now s) (cs_heap s a) (cs_heap s n)"
  note keep = refresh_keep_ok [OF heap_okD [OF assms(1) n(1)] assms(3) heap_okD [OF assms(1) t(1)] t(2) n(2),
      of "cc_getenv cfg" "cs_now s", folded e'_def]
  define s' where "s' = refresh_finish cfg s a n"
  have s': "cs_heap s' = (cs_heap s)(n := e')" "cs_tasks s' = cs_tasks s - {#RefreshWait a n#}"
    "cs_store s' = (cs_store s)(en_domain (cs_heap s a) \<mapsto> n)" "cs_next s' = cs_next s"
    "cs_clients s' = cs_clients s" "cs_panicked s' = cs_panicked s"
    by (simp_all add: s'_def refresh_finish_def ReplaceOrCreate_def upd_def Let_def e'_def)
  have e: "extends s s'" using keep n by (auto simp: extends_def s')
  have "heap_ok cfg s'" using assms(1) keep(1) by (auto simp: heap_ok_def cache_inv_def s')
  moreover have "holds_entry s' (en_domain (cs_heap s a)) n" using holds_extends [OF e t(3)] .
  ultimately have "cache_inv cfg s'"
    by (intro cache_inv_extends [OF assms(1) e]) (auto simp: s' split: if_split_asm dest: in_diffD)
  then show ?thesis by (simp add: s'_def)
qed

lemma cache_step_inv:
  assumes "cache_step cfg s s'" "cache_inv cfg s"
  shows "cache_inv cfg s'"
  using assms
proof (induction rule: cache_step.induct)
  case (tick now' s)
  then show ?case by (intro cache_inv_extends [OF tick.prems]) (auto simp: extends_def heap_ok_def cache_inv_def)
next
  case (vanish s k)
  then show ?case
    by (intro cache_inv_extends [OF vanish.prems]) (auto simp: extends_def heap_ok_def cache_inv_def split: if_split_asm)
next
  case (enter s c k)
  then show ?case by (intro cache_inv_goto) auto
next
  case (load s c k a s')
  then show ?case using LoadOrCreate_inv [OF load.prems load.hyps(2)] by (intro cache_inv_goto) auto
next
  case (test_fresh s c k a)
  then have "holds_entry s k a" by (fastforce simp: cache_inv_def)
  then show ?case using test_fresh.prems by (intro cache_inv_goto) (auto simp: IsUpToDate_def)
next
  case (test_refresh s c k a)
  then have "holds_entry s k a" by (fastforce simp: cache_inv_def)
  then show ?case using test_refresh.prems by (intro cache_inv_goto) (auto simp: NeedsRefresh_def)
next
  case (refresh s c k a)
  then have h: "holds_entry s k a" "isResolved (cs_heap s a)" by (fastforce simp: cache_inv_def)+
  then have a: "a < cs_next s" by (simp add: holds_entry_def)
  note R = Refresh_inv [OF refresh.prems a h(2)]
  show ?case using R h holds_extends [OF R(2)] resolved_extends [OF R(2) a] by (intro cache_inv_goto) auto
next
  case (hit s c k a)
  then have h: "holds_entry s k a" "isResolved (cs_heap s a)" by (fastforce simp: cache_inv_def)+
  then have "\<exists>l. en_response (cs_heap s a) = Some l \<and> cc_answers cfg k l"
    using heap_okD [OF hit.prems, of a] by (auto simp: holds_entry_def entry_ok_def isResolved_def)
  then show ?case using hit.prems by (intro cache_inv_goto) auto
next
  case (retrieve s c k a)
  then have h: "holds_entry s k a" by (fastforce simp: cache_inv_def)
  then have "cache_inv cfg (start_retrieve s a)" using retrieve.prems by (intro start_retrieve_inv) (auto simp: holds_entry_def)
  then show ?case using holds_extends [OF start_retrieve_extends h] by (intro cache_inv_goto) auto
next
  case (cancelled s c k a)
  then have "holds_entry s k a" by (fastforce simp: cache_inv_def)
  then show ?case using cancelled.prems by (intro cache_inv_goto) (auto simp: holds_entry_def)
next
  case (received s c k a)
  then have h: "holds_entry s k a" by (fastforce simp: cache_inv_def)
  then have "\<exists>l. en_response (cs_heap s a) = Some l \<and> cc_answers cfg k l"
    using heap_okD [OF received.prems, of a] received.hyps(2) by (auto simp: holds_entry_def entry_ok_def isResolved_def)
  then show ?case using received.prems by (intro cache_inv_goto) auto
qed (auto intro: answered_inv refresh_start_inv refresh_finish_inv)

lemma cache_reachable_inv: "cache_reachable cfg s \<Longrightarrow> cache_inv cfg s"
proof (induction rule: cache_reachable.induct)
  case (new now)
  then show ?case by (simp add: cache_inv_def NewCache_def heap_ok_def)
next
  case (step s s')
  then show ?case by (blast intro: cache_step_inv)
qed

section \<open>Properties of the running cache\<close>

text \<open>C10. However clients, retrievals, refreshes, expiry and time interleave, the cache never closes a
  channel twice, and a client that returned has received a lookup, which is either its cancelled
  context or an answer the retriever gave for the very domain the client asked for.\<close>

theorem cache_answers_own_domain:
  assumes "cache_reachable cfg s"
  shows "\<not> cs_panicked s \<and>
    (\<forall>c k r. cs_clients s c = Some (k, Returned r) \<longrightarrow>
       (\<exists>l. r = Some l \<and> (l = context_done k \<or> cc_answers cfg k l)))"
  using cache_reachable_inv [OF assms] unfolding cache_inv_def by (metis pc_ok.simps(8))

definition demo_lookup_ok :: "string \<Rightarrow> Lookup" where
  "demo_lookup_ok k = \<lparr>lk_Name = k, lk_Error = None,
     lk_Domain = Some \<lparr>vd_Certificate = [], vd_Key = [], vd_LookupPaths = []\<rparr>\<rparr>"

definition demo_cache :: cache_config where
  "demo_cache = \<lparr>cc_getenv = (\<lambda>_. []), cc_entryRefreshTimeout = 60, cc_entryExpirationTimeout = 600,
     cc_answers = (\<lambda>k l. l = demo_lookup_ok k)\<rparr>"

text \<open>A run of one client: it enters, creates the entry, misses, starts the retrieval, and receives the
  answer.\<close>

definition demo_run :: "cache_state" where
  "demo_run =
     (let s1 = goto (NewCache 0) 0 ''a.io'' Entered;
          s2 = goto (snd (LoadOrCreate demo_cache s1 ''a.io'')) 0 ''a.io'' (Loaded 0);
          s3 = goto s2 0 ''a.io'' (NotUpToDate 0);
          s4 = goto s3 0 ''a.io'' (Retrieving 0);
          s5 = goto (start_retrieve s4 0) 0 ''a.io'' (Waiting 0);
          s6 = (setResponse s5 0 (demo_lookup_ok ''a.io''))\<lparr>cs_tasks := {#}\<rparr>
      in goto s6 0 ''a.io'' (Returned (Some (demo_lookup_ok ''a.io''))))"

lemmas demo_run_simps = goto_def upd_def LoadOrCreate_def NewCache_def newCacheEntry_def start_retrieve_def
  setResponse_def demo_cache_def demo_lookup_ok_def IsUpToDate_def NeedsRefresh_def isResolved_def Let_def

lemma demo_run_reachable: "cache_reachable demo_cache demo_run"
proof -
  define s1 where "s1 = goto (NewCache 0) 0 ''a.io'' Entered"
  define s2 where "s2 = goto (snd (LoadOrCreate demo_cache s1 ''a.io'')) 0 ''a.io'' (Loaded 0)"
  define s3 where "s3 = goto s2 0 ''a.io'' (NotUpToDate 0)"
  define s4 where "s4 = goto s3 0 ''a.io'' (Retrieving 0)"
  define s5 where "s5 = goto (start_retrieve s4 0) 0 ''a.io'' (Waiting 0)"
  define s6 where "s6 = (setResponse s5 0 (demo_lookup_ok ''a.io''))\<lparr>cs_tasks := {#}\<rparr>"
  note states = s1_def s2_def s3_def s4_def s5_def s6_def
  have t1: "cache_step demo_cache (NewCache 0) s1"
    unfolding s1_def by (rule cache_step.enter) (simp add: NewCache_def)
  have t2: "cache_step demo_cache s1 s2"
    unfolding s2_def by (rule cache_step.load) (simp_all add: states demo_run_simps)
  have t3: "cache_step demo_cache s2 s3"
    using cache_step.test_fresh [of s2 0 "''a.io''" 0 demo_cache] by (simp add: states demo_run_simps)
  have t4: "cache_step demo_cache s3 s4"
    using cache_step.test_refresh [of s3 0 "''a.io''" 0 demo_cache] by (simp add: states demo_run_simps)
  have t5: "cache_step demo_cache s4 s5"
    unfolding s5_def by (rule cache_step.retrieve) (simp add: states demo_run_simps)
  have t6: "cache_step demo_cache s5 s6"
    using cache_step.answered [of 0 s5 demo_cache "demo_lookup_ok ''a.io''"] by (simp add: states demo_run_simps)
  have t7: "cache_step demo_cache s6 demo_run"
    using cache_step.received [of s6 0 "''a.io''" 0 demo_cache] by (simp add: states demo_run_def demo_run_simps)
  note reach = cache_reachable.new [of demo_cache 0]
  from cache_reachable.step [OF cache_reachable.step [OF cache_reachable.step [OF cache_reachable.step
    [OF cache_reachable.step [OF cache_reachable.step [OF cache_reachable.step [OF reach t1] t2] t3] t4] t5] t6] t7]
  show ?thesis .
qed

theorem cache_answers_own_domain_witness:
  "cs_clients demo_run 0 = Some (''a.io'', Returned (Some (demo_lookup_ok ''a.io''))) \<and> \<not> cs_panicked demo_run"
  using cache_answers_own_domain [OF demo_run_reachable] by (simp add: demo_run_def goto_def Let_def)



section \<open>Properties of entries and of the retriever\<close>

text \<open>A background refresh whose retrieval answered \<open>l\<close>.\<close>

definition refreshed :: "(string \<Rightarrow> string) \<Rightarrow> timestamp \<Rightarrow> Entry \<Rightarrow> Lookup \<Rightarrow> Entry" where
  "refreshed getenv now e l =
     refresh_keep getenv now e
       ((newCacheEntry now (en_domain e) (en_refreshTimeout e) (en_expirationTimeout e))
          \<lparr>en_retrieve := True, en_retrieved := True, en_response := Some l\<rparr>)"

text \<open>A chain of refreshes, one every \<open>d\<close>, that all fail with the same temporary error.\<close>

fun failing_refreshes :: "(string \<Rightarrow> string) \<Rightarrow> duration \<Rightarrow> Lookup \<Rightarrow> nat \<Rightarrow> Entry \<Rightarrow> timestamp \<Rightarrow> Entry" where
  "failing_refreshes getenv d l 0 e now = e"
| "failing_refreshes getenv d l (Suc n) e now =
     failing_refreshes getenv d l n (refreshed getenv (now + d) e l) (now + d)"

lemma refreshed_kept:
  assumes "getenv ''FF_DISABLE_REFRESH_TEMPORARY_ERROR'' \<noteq> ''true''" "lk_Error l = Some err" "err \<noteq> ErrDomainDoesNotExist"
    and "\<not> isExpired now e"
  shows "en_response (refreshed getenv now e l) = en_response e" "en_orig (refreshed getenv now e l) = Some (en_created e)"
    "en_created (refreshed getenv now e l) = now" "en_expirationTimeout (refreshed getenv now e l) = en_expirationTimeout e"
  using assms
  by (simp_all add: refreshed_def refresh_keep_def hasTemporaryError_def domainExists_def newCacheEntry_def)

lemma failing_refreshes_kept:
  assumes "getenv ''FF_DISABLE_REFRESH_TEMPORARY_ERROR'' \<noteq> ''true''" "lk_Error l = Some err" "err \<noteq> ErrDomainDoesNotExist"
    and "0 < d" "2 * d \<le> en_expirationTimeout e" "en_created e = now" "\<forall>t. en_orig e = Some t \<longrightarrow> t = now - d"
  shows "en_response (failing_refreshes getenv d l n e now) = en_response e"
  using assms(4-7)
proof (induction n arbitrary: e now)
  case (Suc n)
  have "\<not> isExpired (now + d) e" using Suc.prems by (auto simp: isExpired_def split: option.splits)
  note k = refreshed_kept [where getenv = getenv, OF assms(1-3) this]
  have "en_response (failing_refreshes getenv d l n (refreshed getenv (now + d) e l) (now + d)) =
      en_response (refreshed getenv (now + d) e l)"
    by (rule Suc.IH) (use Suc.prems k in auto)
  then show ?case using k(1) by simp
qed simp

text \<open>A stale response is not bounded by the expiration timeout: each failing refresh counts the
  age of the response from the creation of the previous entry, not from the original one, so as
  long as refreshes keep failing with a temporary error and come at least every half timeout the old
  response is served for any number of rounds.\<close>

theorem failing_refreshes_serve_forever:
  assumes "getenv ''FF_DISABLE_REFRESH_TEMPORARY_ERROR'' \<noteq> ''true''"
    and "lk_Error l = Some err" "err \<noteq> ErrDomainDoesNotExist"
    and "0 < d" "2 * d \<le> en_expirationTimeout e" "en_created e = now" "en_orig e = None"
  shows "en_response (failing_refreshes getenv d l n e now) = en_response e"
  by (rule failing_refreshes_kept [where getenv = getenv, OF assms(1-6)]) (simp add: assms(7))

theorem failing_refreshes_serve_forever_witness:
  "en_response (failing_refreshes (\<lambda>_. []) 300 (zero_lookup\<lparr>lk_Error := Some (ErrMsg ''HTTP status: 500'')\<rparr>) 100
     ((newCacheEntry 0 ''a.io'' 60 600)\<lparr>en_response := Some (demo_lookup_ok ''a.io'')\<rparr>) 0) = Some (demo_lookup_ok ''a.io'')"
proof -
  have "en_response (failing_refreshes (\<lambda>_. []) 300 (zero_lookup\<lparr>lk_Error := Some (ErrMsg ''HTTP status: 500'')\<rparr>) 100
     ((newCacheEntry 0 ''a.io'' 60 600)\<lparr>en_response := Some (demo_lookup_ok ''a.io'')\<rparr>) 0) =
     en_response ((newCacheEntry 0 ''a.io'' 60 600)\<lparr>en_response := Some (demo_lookup_ok ''a.io'')\<rparr>)"
    by (rule failing_refreshes_serve_forever [where err = "ErrMsg ''HTTP status: 500''"]) (simp_all add: newCacheEntry_def)
  then show ?thesis by simp
qed

text \<open>A deleted domain is forgotten at once: when the refresh learns that the domain does not
  exist, or succeeds, the new answer replaces the old one whatever the age of the entry.\<close>

theorem refreshed_definitive:
  assumes "lk_Error l = None \<or> lk_Error l = Some ErrDomainDoesNotExist"
  shows "en_response (refreshed getenv now e l) = Some l \<and> en_orig (refreshed getenv now e l) = None"
  using assms by (auto simp: refreshed_def refresh_keep_def hasTemporaryError_def domainExists_def newCacheEntry_def)

theorem refreshed_definitive_witness:
  "en_response (refreshed (\<lambda>_. []) 70 ((newCacheEntry 0 ''a.io'' 60 600)\<lparr>en_response := Some (demo_lookup_ok ''a.io'')\<rparr>)
     (zero_lookup\<lparr>lk_Error := Some ErrDomainDoesNotExist\<rparr>)) = Some (zero_lookup\<lparr>lk_Error := Some ErrDomainDoesNotExist\<rparr>)"
  using refreshed_definitive [of "zero_lookup\<lparr>lk_Error := Some ErrDomainDoesNotExist\<rparr>" "\<lambda>_. []" 70
    "(newCacheEntry 0 ''a.io'' 60 600)\<lparr>en_response := Some (demo_lookup_ok ''a.io'')\<rparr>"] by simp

lemma backoff_loop_spec:
  assumes "1 \<le> i" "i \<le> m"
  shows "\<exists>n \<ge> i. n \<le> m \<and> backoff_loop call m i l = (call n, n) \<and> (\<forall>j. i \<le> j \<longrightarrow> j < n \<longrightarrow> \<not> definitive (call j)) \<and>
    (definitive (call n) \<or> n = m)"
  using assms
proof (induction call m i l rule: backoff_loop.induct)
  case (1 call m i l)
  show ?case
  proof (cases "definitive (call i)")
    case True
    then show ?thesis using 1 by (intro exI [of _ i]) (simp add: backoff_loop.simps [of call m i])
  next
    case d: False
    have step: "backoff_loop call m i l = backoff_loop call m (i + 1) (call i)"
      using 1(3) d by (simp add: backoff_loop.simps [of call m i])
    show ?thesis
    proof (cases "i = m")
      case True
      then show ?thesis using step d by (intro exI [of _ i]) (simp add: backoff_loop.simps [of call m "m + 1"])
    next
      case False
      then obtain n where n: "i + 1 \<le> n" "n \<le> m" "backoff_loop call m (i + 1) (call i) = (call n, n)"
        "\<forall>j. i + 1 \<le> j \<longrightarrow> j < n \<longrightarrow> \<not> definitive (call j)" "definitive (call n) \<or> n = m"
        using 1 d by force
      moreover have "\<forall>j. i \<le> j \<longrightarrow> j < n \<longrightarrow> \<not> definitive (call j)" using n(4) d by (metis zle_add1_eq_le add1_zle_eq order_le_less)
      ultimately show ?thesis using step by (intro exI [of _ n]) auto
    qed
  qed
qed

text \<open>C36. Retrieving with backoff calls the API at most the configured number of times: it answers
  with the first definitive answer (a domain, a domain that does not exist, or an unauthorised
  client), or with the last one when there was none.\<close>

theorem resolveWithBackoff_spec:
  assumes "1 \<le> re_maxRetrievalRetries r"
  shows "\<exists>n. 1 \<le> n \<and> n \<le> re_maxRetrievalRetries r \<and> resolveWithBackoff r call = (call n, n) \<and>
    (\<forall>j. 1 \<le> j \<longrightarrow> j < n \<longrightarrow> \<not> definitive (call j)) \<and> (definitive (call n) \<or> n = re_maxRetrievalRetries r)"
  using backoff_loop_spec [of 1 "re_maxRetrievalRetries r" call zero_lookup] assms
  by (auto simp: resolveWithBackoff_def)

definition demo_retriever :: Retriever where
  "demo_retriever = \<lparr>re_retrievalTimeout = 30, re_maxRetrievalInterval = 1, re_maxRetrievalRetries = 3\<rparr>"

theorem resolveWithBackoff_spec_witness:
  "\<exists>n. n \<le> 3 \<and> resolveWithBackoff demo_retriever (\<lambda>i. if i < 2 then zero_lookup\<lparr>lk_Error := Some (ErrMsg ''timeout'')\<rparr>
     else demo_lookup_ok ''a.io'') = (demo_lookup_ok ''a.io'', n)"
proof -
  let ?call = "\<lambda>i :: int. if i < 2 then zero_lookup\<lparr>lk_Error := Some (ErrMsg ''timeout'')\<rparr> else demo_lookup_ok ''a.io''"
  have v: "fst (resolveWithBackoff demo_retriever ?call) = demo_lookup_ok ''a.io''" by code_simp
  have "1 \<le> re_maxRetrievalRetries demo_retriever" by code_simp
  from resolveWithBackoff_spec [OF this, of ?call] obtain n where "n \<le> re_maxRetrievalRetries demo_retriever"
    "resolveWithBackoff demo_retriever ?call = (?call n, n)" by blast
  then show ?thesis using v by (intro exI [of _ n]) (simp add: demo_retriever_def)
qed

end
