(* ===== verification/Gitlab_Source.thy ===== *)
theory Gitlab_Source
  imports Gitlab_Cache
begin

text \<open>
  The GitLab source of domains (\<^verbatim>\<open>internal/source/gitlab\<close>): the client of the internal API
  (\<^verbatim>\<open>client/client.go\<close>), the resolver that finds the project of a request among the lookup
  paths of its domain (\<^verbatim>\<open>gitlab.go\<close>), and the making of a serving from an API answer
  (\<^verbatim>\<open>factory.go\<close>).

  Parameters: \<open>http_do\<close> performs a request, \<open>sign\<close> is the JWT library, \<open>decode\<close> reads the
  JSON body into a virtual domain and an error, \<open>lookup\<close> is what the cached client answers for a
  domain in the state at hand.
\<close>

section \<open>The API client (client/client.go)\<close>

record Client =
  cl_secretKey :: bytes
  cl_baseURL :: url
  cl_timeout :: duration
  cl_jwtTokenExpiry :: duration

definition NewClient :: "string \<Rightarrow> bytes \<Rightarrow> duration \<Rightarrow> duration \<Rightarrow> Client result" where
  "NewClient baseURL secretKey connectionTimeout jwtTokenExpiry =
     (if baseURL = [] \<or> secretKey = [] then Inl (ErrMsg ''GitLab API URL or API secret has not been provided'')
      else (case url_Parse baseURL of
              None \<Rightarrow> Inl (ErrMsg (''parse '' @ baseURL))
            | Some parsedURL \<Rightarrow>
                (if connectionTimeout = 0 then Inl (ErrMsg ''GitLab HTTP client connection timeout has not been provided'')
                 else if jwtTokenExpiry = 0 then Inl (ErrMsg ''GitLab JWT token expiry has not been provided'')
                 else Inr \<lparr>cl_secretKey = secretKey, cl_baseURL = parsedURL, cl_timeout = connectionTimeout,
                           cl_jwtTokenExpiry = jwtTokenExpiry\<rparr>)))"

record api_request =
  aq_Method :: string
  aq_URL :: string
  aq_Token :: string

record http_response =
  hr_StatusCode :: int
  hr_Body :: bytes

record api_env =
  ae_now :: timestamp
  ae_sign :: "bytes \<Rightarrow> string \<Rightarrow> timestamp \<Rightarrow> string result"
  ae_do :: "api_request \<Rightarrow> http_response option result"
  ae_decode :: "bytes \<Rightarrow> VirtualDomain option \<times> go_error option"

definition client_token :: "api_env \<Rightarrow> Client \<Rightarrow> string result" where
  "client_token env gc = ae_sign env (cl_secretKey gc) ''gitlab-pages'' (ae_now env + cl_jwtTokenExpiry gc)"

definition client_endpoint :: "Client \<Rightarrow> string \<Rightarrow> query_values \<Rightarrow> url result" where
  "client_endpoint gc path params =
     (case url_Parse_ref (cl_baseURL gc) path of
        None \<Rightarrow> Inl (ErrMsg (''parse '' @ path))
      | Some endpoint \<Rightarrow> Inr (endpoint\<lparr>u_RawQuery := values_Encode params\<rparr>))"

definition client_request :: "api_env \<Rightarrow> Client \<Rightarrow> string \<Rightarrow> url \<Rightarrow> api_request result" where
  "client_request env gc method endpoint =
     (case url_Parse (url_String endpoint) of
        None \<Rightarrow> Inl (ErrMsg (''parse '' @ url_String endpoint))
      | Some _ \<Rightarrow>
          (case client_token env gc of
             Inl err \<Rightarrow> Inl err
           | Inr token \<Rightarrow> Inr \<lparr>aq_Method = method, aq_URL = url_String endpoint, aq_Token = token\<rparr>))"

definition client_get :: "api_env \<Rightarrow> Client \<Rightarrow> string \<Rightarrow> query_values \<Rightarrow> http_response option result" where
  "client_get env gc path params =
     (case client_endpoint gc path params of
        Inl err \<Rightarrow> Inl err
      | Inr endpoint \<Rightarrow>
          (case client_request env gc ''GET'' endpoint of
             Inl err \<Rightarrow> Inl err
           | Inr req \<Rightarrow>
               (case ae_do env req of
                  Inl err \<Rightarrow> Inl err
                | Inr None \<Rightarrow> Inl (ErrMsg ''unknown response'')
                | Inr (Some resp) \<Rightarrow>
                    (if hr_StatusCode resp = 200 then Inr (Some resp)
                     else if hr_StatusCode resp = 204 then Inr None
                     else if hr_StatusCode resp = 401 then Inl ErrUnauthorizedAPI
                     else Inl (ErrMsg (''HTTP status: '' @ FormatInt (hr_StatusCode resp)))))))"

definition client_GetLookup :: "api_env \<Rightarrow> Client \<Rightarrow> string \<Rightarrow> Lookup" where
  "client_GetLookup env gc host =
     (case client_get env gc ''/api/v4/internal/pages'' (values_Set ''host'' host []) of
        Inl err \<Rightarrow> \<lparr>lk_Name = host, lk_Error = Some err, lk_Domain = None\<rparr>
      | Inr None \<Rightarrow> \<lparr>lk_Name = host, lk_Error = Some ErrDomainDoesNotExist, lk_Domain = None\<rparr>
      | Inr (Some resp) \<Rightarrow>
          (let (dmn, err) = ae_decode env (hr_Body resp)
           in \<lparr>lk_Name = host, lk_Error = err, lk_Domain = dmn\<rparr>))"

text \<open>\<^verbatim>\<open>Status\<close>: \<^const>\<open>None\<close> when the API can be reached.\<close>

definition client_Status :: "api_env \<Rightarrow> Client \<Rightarrow> (string \<times> go_error) option" where
  "client_Status env gc =
     (case client_get env gc ''/api/v4/internal/pages/status'' [] of
        Inl err \<Rightarrow> Some (''failed to connect to internal Pages API'', err)
      | Inr _ \<Rightarrow> None)"

section \<open>Servings and lookup paths (factory.go)\<close>

text \<open>\<^verbatim>\<open>uint64(lookup.ProjectID)\<close> wraps.\<close>

definition fabricateLookupPath :: "nat \<Rightarrow> api_LookupPath \<Rightarrow> LookupPath" where
  "fabricateLookupPath size' lookup =
     \<lparr>lp_ServingType = so_Type (al_Source lookup), lp_Prefix = al_Prefix lookup, lp_Path = so_Path (al_Source lookup),
      lp_IsNamespaceProject = (al_Prefix lookup = ''/'' \<and> size' > 1), lp_IsHTTPSOnly = al_HTTPSOnly lookup,
      lp_HasAccessControl = al_AccessControl lookup, lp_ProjectID = nat (al_ProjectID lookup mod 2 ^ 64)\<rparr>"

record servings =
  ss_local :: serving
  ss_zip :: serving

definition defaultServing :: "servings \<Rightarrow> serving" where
  "defaultServing ss = ss_local ss"

definition fabricateServing :: "servings \<Rightarrow> api_LookupPath \<Rightarrow> serving" where
  "fabricateServing ss lookup =
     (if so_Type (al_Source lookup) = ''file'' then ss_local ss
      else if so_Type (al_Source lookup) = ''zip'' then ss_zip ss
      else defaultServing ss)"

section \<open>The source (gitlab.go, gitlab_poll.go)\<close>

record Gitlab =
  gl_isReady :: bool

definition gitlab_IsReady :: "Gitlab \<Rightarrow> bool" where
  "gitlab_IsReady g \<longleftrightarrow> gl_isReady g"

text \<open>The loop over the lookup paths.\<close>

fun find_lookup :: "servings \<Rightarrow> nat \<Rightarrow> string \<Rightarrow> api_LookupPath list \<Rightarrow> serving_request result" where
  "find_lookup ss size' urlPath [] = Inl ErrDomainDoesNotExist"
| "find_lookup ss size' urlPath (lookup # rest) =
     (let isSubPath = HasPrefix urlPath (al_Prefix lookup);
          isRootPath = (urlPath = path_Clean (al_Prefix lookup))
      in if isSubPath \<or> isRootPath then
           Inr \<lparr>sr_Serving = fabricateServing ss lookup,
                sr_LookupPath = fabricateLookupPath size' lookup,
                sr_SubPath = (if isSubPath then TrimPrefix urlPath (al_Prefix lookup) else [])\<rparr>
         else find_lookup ss size' urlPath rest)"

text \<open>An answer without an error and without a domain (a JSON null) makes the code dereference nil:
  the outer \<^const>\<open>None\<close>.\<close>

definition gitlab_Resolve :: "servings \<Rightarrow> (string \<Rightarrow> Lookup) \<Rightarrow> request \<Rightarrow> serving_request result option" where
  "gitlab_Resolve ss lookup r =
     (let response = lookup (GetHostWithoutPort r)
      in case lk_Error response of
           Some err \<Rightarrow> Some (Inl err)
         | None \<Rightarrow>
             (case lk_Domain response of
                None \<Rightarrow> None
              | Some vd \<Rightarrow>
                  Some (find_lookup ss (length (vd_LookupPaths vd)) (path_Clean (u_Path (r_URL r))) (vd_LookupPaths vd))))"

datatype gitlab_resolver = GitlabResolver

definition gitlab_GetDomain ::
  "(string \<Rightarrow> Lookup) \<Rightarrow> Gitlab \<Rightarrow> string \<Rightarrow> gitlab_resolver domain result option \<times> Gitlab" where
  "gitlab_GetDomain lookup g name =
     (let response = lookup name
      in case lk_Error response of
           Some err \<Rightarrow>
             (Some (Inl err), if err = ErrUnauthorizedAPI then g\<lparr>gl_isReady := False\<rparr> else g)
         | None \<Rightarrow>
             (case lk_Domain response of
                None \<Rightarrow> (None, g)
              | Some vd \<Rightarrow> (Some (Inr (domain_New name (vd_Certificate vd) (vd_Key vd) GitlabResolver)), g)))"

text \<open>\<^verbatim>\<open>gitlab.New\<close>, given the API client and the cache configuration of the config, and the end of
  \<^verbatim>\<open>poll\<close>: whether the retries succeeded.\<close>

definition gitlab_New :: "Client result \<Rightarrow> bool \<Rightarrow> Gitlab result" where
  "gitlab_New clnt cacheConfigured =
     (case clnt of
        Inl err \<Rightarrow> Inl err
      | Inr _ \<Rightarrow> (if \<not> cacheConfigured then Inl (ErrMsg ''cache not configured'') else Inr \<lparr>gl_isReady = False\<rparr>))"

definition gitlab_poll :: "go_error option \<Rightarrow> Gitlab \<Rightarrow> Gitlab" where
  "gitlab_poll err g = (case err of Some _ \<Rightarrow> g | None \<Rightarrow> g\<lparr>gl_isReady := True\<rparr>)"

section \<open>Asking the API\<close>

lemma escape_query_bytes:
  assumes "c \<in> set (QueryEscape s)"
  shows "c \<noteq> CHR ''&'' \<and> c \<noteq> CHR '';'' \<and> c \<noteq> CHR ''=''"
proof -
  have "shouldEscape encodeQueryComponent (CHR ''&'')" "shouldEscape encodeQueryComponent (CHR '';'')"
    "shouldEscape encodeQueryComponent (CHR ''='')" by code_simp+
  moreover have hex: "hex_digit n \<notin> {CHR ''&'', CHR '';'', CHR ''=''}" if "n < 16" for n
  proof -
    have "list_all (\<lambda>n. hex_digit n \<noteq> CHR ''&'' \<and> hex_digit n \<noteq> CHR '';'' \<and> hex_digit n \<noteq> CHR ''='') [0..<16]"
      by code_simp
    then show ?thesis using that by (simp add: list_all_iff)
  qed
  moreover have "byte x div 16 < 16" "byte x mod 16 < 16" for x using byte_less [of x] by auto
  ultimately show ?thesis
    using assms by (auto simp: QueryEscape_def url_escape_def escape_byte_def split: if_split_asm)
qed

lemma split_pairs_single: "CHR ''&'' \<notin> set s \<Longrightarrow> CHR '';'' \<notin> set s \<Longrightarrow> split_pairs s = [s]"
  by (induction s) auto

lemma before_from_sep: "c \<notin> set a \<Longrightarrow> before_byte c (a @ c # b) = a \<and> from_byte c (a @ c # b) = c # b"
  by (induction a) (auto simp: before_byte_def from_byte_def)

lemma parse_encoded_pair: "parseQuery (values_Encode [(k, [v])]) = [(k, [v])]"
proof -
  let ?p = "QueryEscape k @ ''='' @ QueryEscape v"
  have e: "values_Encode [(k, [v])] = ?p" by (simp add: values_Encode_def sort_keys_def)
  have no: "CHR ''&'' \<notin> set ?p" "CHR '';'' \<notin> set ?p" "CHR ''='' \<notin> set (QueryEscape k)"
    using escape_query_bytes by auto
  have u: "url_unescape encodeQueryComponent (QueryEscape x) = Some x" for x
    by (simp add: QueryEscape_def url_unescape_escape_id)
  have "parse_pair ?p [] = [(k, [v])]"
    using before_from_sep [OF no(3), of "QueryEscape v"] u by (simp add: parse_pair_def)
  then show ?thesis using e split_pairs_single [OF no(1,2)] by (simp add: parseQuery_def)
qed

lemma setPath_ignored_fields [simp]:
  "u_Host (setPath_ignored u p) = u_Host u" "u_Scheme (setPath_ignored u p) = u_Scheme u"
  by (simp_all add: setPath_ignored_def setPath_def split: option.splits)

lemma ResolveReference_root_ref:
  assumes "u_Scheme ref = []" "u_Host ref = []" "u_User ref = None" "u_Opaque ref = []" "u_Path ref \<noteq> []"
  shows "u_Host (ResolveReference u ref) = u_Host u" "u_Scheme (ResolveReference u ref) = u_Scheme u"
  using assms by (simp_all add: ResolveReference_def Let_def)

text \<open>The API is asked for exactly the host of the request: whatever bytes the host name holds,
  the endpoint's query decodes back to it, and the request goes to the scheme and host of the
  configured API.\<close>

theorem client_endpoint_host:
  "\<exists>u. client_endpoint gc ''/api/v4/internal/pages'' (values_Set ''host'' host []) = Inr u \<and>
     url_Query u = [(''host'', [host])] \<and> u_Host u = u_Host (cl_baseURL gc) \<and> u_Scheme u = u_Scheme (cl_baseURL gc)"
proof -
  let ?ref = "empty_url\<lparr>u_Path := ''/api/v4/internal/pages''\<rparr>"
  have p: "url_Parse ''/api/v4/internal/pages'' = Some ?ref" by code_simp
  have r: "u_Host (ResolveReference (cl_baseURL gc) ?ref) = u_Host (cl_baseURL gc)"
    "u_Scheme (ResolveReference (cl_baseURL gc) ?ref) = u_Scheme (cl_baseURL gc)"
    by (rule ResolveReference_root_ref; simp add: empty_url_def)+
  have v: "values_Set ''host'' host [] = [(''host'', [host])]" by (simp add: values_Set_def values_Del_def)
  show ?thesis
    unfolding client_endpoint_def url_Parse_ref_def p v by (simp add: url_Query_def parse_encoded_pair r)
qed


definition demo_client :: Client where
  "demo_client = \<lparr>cl_secretKey = ''secret'', cl_baseURL = empty_url\<lparr>u_Scheme := ''https'', u_Host := ''gitlab.com''\<rparr>,
     cl_timeout = 10, cl_jwtTokenExpiry = 30\<rparr>"

definition demo_api :: "int \<Rightarrow> api_env" where
  "demo_api status = \<lparr>ae_now = 0, ae_sign = (\<lambda>key issuer t. Inr ''token''),
     ae_do = (\<lambda>_. Inr (Some \<lparr>hr_StatusCode = status, hr_Body = ''{}''\<rparr>)),
     ae_decode = (\<lambda>_. (Some \<lparr>vd_Certificate = [], vd_Key = [], vd_LookupPaths = []\<rparr>, None))\<rparr>"


section \<open>Finding the project of a request\<close>

definition lookup_matches :: "string \<Rightarrow> api_LookupPath \<Rightarrow> bool" where
  "lookup_matches urlPath lp \<longleftrightarrow> HasPrefix urlPath (al_Prefix lp) \<or> urlPath = path_Clean (al_Prefix lp)"

lemma find_lookup_cases:
  "find_lookup ss n p lps = Inl ErrDomainDoesNotExist \<and> (\<forall>lp \<in> set lps. \<not> lookup_matches p lp) \<or>
   (\<exists>pre lp post s. lps = pre @ lp # post \<and> lookup_matches p lp \<and> (\<forall>x \<in> set pre. \<not> lookup_matches p x) \<and>
      find_lookup ss n p lps = Inr s \<and> sr_LookupPath s = fabricateLookupPath n lp \<and> sr_Serving s = fabricateServing ss lp \<and>
      (p = al_Prefix lp @ sr_SubPath s \<or> p = path_Clean (al_Prefix lp) \<and> sr_SubPath s = []))"
proof (induction lps)
  case Nil
  then show ?case by simp
next
  case (Cons a lps)
  show ?case
  proof (cases "lookup_matches p a")
    case True
    then have "HasPrefix p (al_Prefix a) \<Longrightarrow> al_Prefix a @ TrimPrefix p (al_Prefix a) = p"
      by (simp add: HasPrefix_TrimPrefix)
    then have "\<exists>s. find_lookup ss n p (a # lps) = Inr s \<and> sr_LookupPath s = fabricateLookupPath n a \<and>
        sr_Serving s = fabricateServing ss a \<and>
        (p = al_Prefix a @ sr_SubPath s \<or> p = path_Clean (al_Prefix a) \<and> sr_SubPath s = [])"
      using True by (auto simp: lookup_matches_def)
    then show ?thesis using True by (metis append_Nil empty_iff empty_set)
  next
    case False
    then have eq: "find_lookup ss n p (a # lps) = find_lookup ss n p lps" by (simp add: lookup_matches_def)
    from Cons.IH consider "find_lookup ss n p lps = Inl ErrDomainDoesNotExist" "\<forall>lp \<in> set lps. \<not> lookup_matches p lp"
      | pre lp post s where "lps = pre @ lp # post" "lookup_matches p lp" "\<forall>x \<in> set pre. \<not> lookup_matches p x"
        "find_lookup ss n p lps = Inr s" "sr_LookupPath s = fabricateLookupPath n lp" "sr_Serving s = fabricateServing ss lp"
        "p = al_Prefix lp @ sr_SubPath s \<or> p = path_Clean (al_Prefix lp) \<and> sr_SubPath s = []"
      by blast
    then show ?thesis
    proof cases
      case 1
      then show ?thesis using eq False by simp
    next
      case (2 pre lp post s)
      then have "a # lps = (a # pre) @ lp # post" "\<forall>x \<in> set (a # pre). \<not> lookup_matches p x" using False by auto
      with 2(2,4-7) eq show ?thesis by metis
    qed
  qed
qed

lemma clean_path_suffix_elems:
  assumes "path_IsAbs p" "path_Clean p = (q @ ''/'') @ sub"
  shows "set (split_on slash sub) \<subseteq> {[]} \<union> Collect clean_elem"
proof -
  obtain cs where cs: "list_all clean_elem cs" "path_Clean p = slash # join_with ''/'' cs"
    using path_Clean_rooted [OF assms(1)] by blast
  have "set (split_on slash (path_Clean p)) \<subseteq> {[]} \<union> Collect clean_elem"
  proof (cases "cs = []")
    case True
    then show ?thesis using cs by simp
  next
    case False
    then have "split_on slash (join_with ''/'' cs) = cs" using cs(1) by (intro split_join_elems) (auto simp: list_all_iff clean_elem_def)
    then show ?thesis using cs by (auto simp: list_all_iff)
  qed
  moreover have "split_on slash (path_Clean p) = split_on slash q @ split_on slash sub"
    using assms(2) split_on_append [of slash q sub] by simp
  ultimately show ?thesis by auto
qed

text \<open>C26. Resolving a request on a domain of the API: it goes to the first lookup path, in the API's
  order, whose prefix covers the cleaned URL path, with that project's settings; the sub-path is what
  follows the prefix, and when the prefix ends with a slash no element of it is a dot-dot.  When no
  lookup path matches, the domain does not exist.\<close>

theorem gitlab_Resolve_first:
  assumes "lk_Error (lookup (GetHostWithoutPort r)) = None" and "lk_Domain (lookup (GetHostWithoutPort r)) = Some vd"
    and "path_IsAbs (u_Path (r_URL r))"
  defines "p \<equiv> path_Clean (u_Path (r_URL r))"
  shows "gitlab_Resolve ss lookup r = Some (Inl ErrDomainDoesNotExist) \<and>
      (\<forall>lp \<in> set (vd_LookupPaths vd). \<not> lookup_matches p lp) \<or>
    (\<exists>pre lp post s. vd_LookupPaths vd = pre @ lp # post \<and> lookup_matches p lp \<and> (\<forall>x \<in> set pre. \<not> lookup_matches p x) \<and>
      gitlab_Resolve ss lookup r = Some (Inr s) \<and>
      sr_LookupPath s = fabricateLookupPath (length (vd_LookupPaths vd)) lp \<and> sr_Serving s = fabricateServing ss lp \<and>
      (p = al_Prefix lp @ sr_SubPath s \<or> p = path_Clean (al_Prefix lp) \<and> sr_SubPath s = []) \<and>
      (HasSuffix (al_Prefix lp) ''/'' \<longrightarrow> ''..'' \<notin> set (split_on slash (sr_SubPath s))))"
proof -
  have eq: "gitlab_Resolve ss lookup r = Some (find_lookup ss (length (vd_LookupPaths vd)) p (vd_LookupPaths vd))"
    using assms(1,2) by (simp add: gitlab_Resolve_def p_def)
  have dots: "''..'' \<notin> set (split_on slash sub)"
    if "HasSuffix pre ''/''" "p = pre @ sub \<or> sub = []" for pre sub
  proof (cases "sub = []")
    case False
    obtain q where "pre = q @ ''/''" using \<open>HasSuffix pre ''/''\<close> by (auto simp: HasSuffix_iff)
    then have "set (split_on slash sub) \<subseteq> {[]} \<union> Collect clean_elem"
      using clean_path_suffix_elems [OF assms(3), of q sub] that False by (simp add: p_def)
    then show ?thesis by (auto simp: clean_elem_def)
  qed simp
  from find_lookup_cases [of ss "length (vd_LookupPaths vd)" p "vd_LookupPaths vd"] show ?thesis
    unfolding eq using dots by blast
qed

definition demo_paths :: VirtualDomain where
  "demo_paths = \<lparr>vd_Certificate = [], vd_Key = [],
     vd_LookupPaths = [\<lparr>al_ProjectID = 2, al_AccessControl = True, al_HTTPSOnly = False, al_Prefix = ''/project/'',
         al_Source = \<lparr>so_Type = ''zip'', so_Path = ''https://cdn/2.zip''\<rparr>\<rparr>,
       \<lparr>al_ProjectID = 1, al_AccessControl = False, al_HTTPSOnly = False, al_Prefix = ''/'',
         al_Source = \<lparr>so_Type = ''file'', so_Path = ''group/site/public''\<rparr>\<rparr>]\<rparr>"

definition demo_gitlab :: "string \<Rightarrow> Lookup" where
  "demo_gitlab h = \<lparr>lk_Name = h, lk_Error = None, lk_Domain = Some demo_paths\<rparr>"

definition demo_servings :: servings where
  "demo_servings = \<lparr>ss_local = Disk_New (demo_env []) (\<lambda>_. Inr demo_root), ss_zip = Disk_New (demo_env []) (\<lambda>_. Inr demo_root)\<rparr>"

definition demo_gl_request :: "string \<Rightarrow> request" where
  "demo_gl_request p = (demo_request [])\<lparr>r_URL := empty_url\<lparr>u_Path := p\<rparr>\<rparr>"

theorem gitlab_Resolve_first_witness:
  "\<exists>pre lp post s. vd_LookupPaths demo_paths = pre @ lp # post \<and>
     gitlab_Resolve demo_servings demo_gitlab (demo_gl_request ''/project/../project//a.html'') = Some (Inr s) \<and>
     sr_SubPath s = ''a.html'' \<and> sr_LookupPath s = fabricateLookupPath 2 lp"
proof -
  let ?r = "demo_gl_request ''/project/../project//a.html''"
  have h: "lk_Error (demo_gitlab (GetHostWithoutPort ?r)) = None" "lk_Domain (demo_gitlab (GetHostWithoutPort ?r)) = Some demo_paths"
    by (simp_all add: demo_gitlab_def)
  have a: "path_IsAbs (u_Path (r_URL ?r))" by code_simp
  have n: "length (vd_LookupPaths demo_paths) = 2" by code_simp
  have "case gitlab_Resolve demo_servings demo_gitlab ?r of Some (Inr s) \<Rightarrow> sr_SubPath s = ''a.html'' | _ \<Rightarrow> False"
    by code_simp
  then obtain s where s: "gitlab_Resolve demo_servings demo_gitlab ?r = Some (Inr s)" "sr_SubPath s = ''a.html''"
    by (simp split: option.splits sum.splits)
  then show ?thesis
    using gitlab_Resolve_first [where lookup = demo_gitlab, OF h a, of demo_servings] unfolding n
    by (metis Inr_not_Inl option.inject sum.inject(2))
qed

section \<open>The resolver keeps the contract\<close>

text \<open>The \<^verbatim>\<open>Resolve\<close> method as the domains call it.  The cached client never answers with neither
  an error nor a domain; such an answer is read here as an internal error.\<close>

fun gitlab_resolve_fn :: "servings \<Rightarrow> (string \<Rightarrow> Lookup) \<Rightarrow> gitlab_resolver \<Rightarrow> request \<Rightarrow> serving_request result" where
  "gitlab_resolve_fn ss lookup GitlabResolver r =
     (case gitlab_Resolve ss lookup r of Some res \<Rightarrow> res | None \<Rightarrow> Inl (ErrMsg ''nil domain''))"

definition disk_servings :: "serve_env \<Rightarrow> vfs \<Rightarrow> vfs \<Rightarrow> servings" where
  "disk_servings env localfs zipfs = \<lparr>ss_local = Disk_New env localfs, ss_zip = Disk_New env zipfs\<rparr>"

lemma find_lookup_serving: "find_lookup ss n p lps = Inr s \<Longrightarrow> sr_Serving s \<in> {ss_local ss, ss_zip ss}"
  by (induction lps) (auto simp: Let_def fabricateServing_def defaultServing_def split: if_split_asm)

lemma gitlab_Resolve_serving: "gitlab_Resolve ss lookup r = Some (Inr s) \<Longrightarrow> sr_Serving s \<in> {ss_local ss, ss_zip ss}"
  using find_lookup_serving by (auto simp: gitlab_Resolve_def Let_def split: option.splits)

interpretation gitlab_resolver: resolver_ops "gitlab_resolve_fn (disk_servings env localfs zipfs) lookup"
  for env localfs zipfs lookup
proof (rule resolver_ops.intro)
  fix R r s
  assume "gitlab_resolve_fn (disk_servings env localfs zipfs) lookup R r = Inr s"
  then have "gitlab_Resolve (disk_servings env localfs zipfs) lookup r = Some (Inr s)"
    by (cases R) (simp split: option.splits)
  from gitlab_Resolve_serving [OF this] have "sr_Serving s = Disk_New env localfs \<or> sr_Serving s = Disk_New env zipfs"
    by (simp add: disk_servings_def)
  then show "serving_ops (sr_Serving s)" using disk_serving.serving_ops_axioms by metis
qed

text \<open>A request for a domain of the GitLab source whose authentication failed is always answered
  with status 404, 500 or 503.\<close>

theorem gitlab_auth_failed_answers:
  assumes "rw_sent w = None"
  shows "rw_status (ServeNotFoundAuthFailed (gitlab_resolve_fn (disk_servings env localfs zipfs) lookup) d r w)
    \<in> {Some 404, Some 500, Some 503}"
  by (rule gitlab_resolver.auth_failed_answers [OF assms])

theorem gitlab_auth_failed_answers_witness:
  "rw_status (ServeNotFoundAuthFailed (gitlab_resolve_fn (disk_servings (demo_env []) (\<lambda>_. Inr demo_root) (\<lambda>_. Inr demo_root)) demo_gitlab)
     (Some (domain_New ''a.io'' [] [] GitlabResolver)) (demo_gl_request ''/'') new_resp) \<in> {Some 404, Some 500, Some 503}"
  by (rule gitlab_auth_failed_answers) (simp add: resp_simps)

end
