(* ===== verification/Source_Domains.thy ===== *)
theory Source_Domains
  imports Disk_Source Gitlab_Source
begin

text \<open>
  Choosing between the two sources of domains (\<^verbatim>\<open>internal/source/domains.go\<close>).  The GitLab source
  is an interface value that may be nil: an option.  A call on a nil source panics, which is the
  outer \<^const>\<open>None\<close> of a result.  The regular expression of serverless domains is unfolded into a
  search for the dash it needs.
\<close>

section \<open>Serverless domains\<close>

definition is_xdigit :: "char \<Rightarrow> bool" where
  "is_xdigit c \<longleftrightarrow> unhex c \<noteq> None"

text \<open>The part of the expression after the first dash: two hexadecimal digits, \<^verbatim>\<open>a1\<close>, ten
  digits, \<^verbatim>\<open>f2\<close>, two digits and at least one more.\<close>

definition serverless_tail :: "string \<Rightarrow> bool" where
  "serverless_tail t \<longleftrightarrow>
     length t \<ge> 19 \<and> list_all is_xdigit (take 2 t) \<and> take 2 (drop 2 t) = ''a1'' \<and>
     list_all is_xdigit (take 10 (drop 4 t)) \<and> take 2 (drop 14 t) = ''f2'' \<and>
     list_all is_xdigit (take 3 (drop 16 t))"

definition IsServerlessDomain :: "string \<Rightarrow> bool" where
  "IsServerlessDomain d \<longleftrightarrow>
     list_ex (\<lambda>i. 0 < i \<and> d ! i = CHR ''-'' \<and> dot \<notin> set (take i d) \<and> serverless_tail (drop (Suc i) d)) [0..<length d]"

section \<open>The sources\<close>

datatype configSource = sourceGitlab | sourceDisk | sourceAuto

record Domains =
  ds_configSource :: configSource
  ds_gitlab :: "Gitlab option"
  ds_disk :: "disk option"

datatype source_resolver = DiskResolver disk_resolver | ApiResolver gitlab_resolver

definition lift_domain :: "('a \<Rightarrow> 'b) \<Rightarrow> 'a domain \<Rightarrow> 'b domain" where
  "lift_domain f d = \<lparr>d_Name = d_Name d, d_CertificateCert = d_CertificateCert d, d_CertificateKey = d_CertificateKey d,
     d_Resolver = f (d_Resolver d), d_once = d_once d\<rparr>"

definition setGitLabClient :: "Gitlab result \<Rightarrow> Domains \<Rightarrow> Domains result" where
  "setGitLabClient glClient d =
     (case glClient of
        Inl err \<Rightarrow> (if ds_configSource d = sourceGitlab then Inl err else Inr d)
      | Inr g \<Rightarrow> Inr (d\<lparr>ds_gitlab := Some g\<rparr>))"

definition setConfigSource :: "Gitlab result \<Rightarrow> string \<Rightarrow> Domains \<Rightarrow> Domains result" where
  "setConfigSource glClient domainConfigSource d =
     (if domainConfigSource = ''gitlab'' then setGitLabClient glClient (d\<lparr>ds_configSource := sourceGitlab\<rparr>)
      else if domainConfigSource = ''auto'' then
        setGitLabClient glClient (d\<lparr>ds_configSource := sourceAuto, ds_disk := Some disk_New\<rparr>)
      else if domainConfigSource = ''disk'' then Inr (d\<lparr>ds_configSource := sourceDisk, ds_disk := Some disk_New\<rparr>)
      else Inl (ErrMsg (''invalid option for -domain-config-source: '' @ domainConfigSource)))"

definition NewDomains :: "Gitlab result \<Rightarrow> string \<Rightarrow> Domains result" where
  "NewDomains glClient domainConfigSource =
     setConfigSource glClient domainConfigSource \<lparr>ds_configSource = sourceGitlab, ds_gitlab = None, ds_disk = None\<rparr>"

text \<open>Which source answers for a domain: \<^const>\<open>None\<close> is a nil source.\<close>

datatype chosen = UseGitlab Gitlab | UseDisk disk

definition domains_source :: "Domains \<Rightarrow> string \<Rightarrow> chosen option" where
  "domains_source d name =
     (if IsServerlessDomain name then map_option UseGitlab (ds_gitlab d)
      else (case ds_configSource d of
              sourceDisk \<Rightarrow> map_option UseDisk (ds_disk d)
            | sourceGitlab \<Rightarrow> map_option UseGitlab (ds_gitlab d)
            | sourceAuto \<Rightarrow>
                (case ds_gitlab d of
                   Some g \<Rightarrow> (if gitlab_IsReady g then Some (UseGitlab g) else map_option UseDisk (ds_disk d))
                 | None \<Rightarrow> map_option UseDisk (ds_disk d))))"

definition lift_found :: "('a \<Rightarrow> 'b) \<Rightarrow> 'a domain option result \<Rightarrow> 'b domain option result" where
  "lift_found f res = (case res of Inl err \<Rightarrow> Inl err | Inr d \<Rightarrow> Inr (map_option (lift_domain f) d))"

definition domains_GetDomain ::
  "(string \<Rightarrow> Lookup) \<Rightarrow> Domains \<Rightarrow> string \<Rightarrow> source_resolver domain option result option \<times> Domains" where
  "domains_GetDomain lookup d name =
     (case domains_source d name of
        None \<Rightarrow> (None, d)
      | Some (UseDisk k) \<Rightarrow> (Some (lift_found DiskResolver (disk_GetDomain k name)), d)
      | Some (UseGitlab g) \<Rightarrow>
          (let (res, g') = gitlab_GetDomain lookup g name
           in (map_option (\<lambda>r. lift_found ApiResolver (case r of Inl err \<Rightarrow> Inl err | Inr x \<Rightarrow> Inr (Some x))) res,
               d\<lparr>ds_gitlab := Some g'\<rparr>)))"

definition domains_IsReady :: "Domains \<Rightarrow> bool option" where
  "domains_IsReady d =
     (case ds_configSource d of
        sourceGitlab \<Rightarrow> map_option gitlab_IsReady (ds_gitlab d)
      | sourceDisk \<Rightarrow> map_option disk_IsReady (ds_disk d)
      | sourceAuto \<Rightarrow>
          (case ds_gitlab d of
             Some g \<Rightarrow> (if gitlab_IsReady g then Some True else map_option disk_IsReady (ds_disk d))
           | None \<Rightarrow> map_option disk_IsReady (ds_disk d)))"

text \<open>\<^verbatim>\<open>Read\<close> starts the watcher of the disk source: the disk it watches, \<^const>\<open>None\<close> for none.\<close>

definition domains_Read :: "Domains \<Rightarrow> disk option" where
  "domains_Read d = (if ds_configSource d \<noteq> sourceGitlab then ds_disk d else None)"

section \<open>The interface Source\<close>

text \<open>Both sources implement \<^verbatim>\<open>Source\<close>: on a state of theirs, \<^verbatim>\<open>GetDomain\<close> answers with a domain,
  no domain, or an error (\<open>getd\<close>), and \<^verbatim>\<open>IsReady\<close> tells whether it can be used.  What a client
  relies on: a domain that is handed out has the name it was asked for, up to letter case.\<close>

locale domain_source =
  fixes getd :: "'s \<Rightarrow> string \<Rightarrow> 'r domain option result"
    and valid :: "'s \<Rightarrow> bool"
  assumes named: "valid s \<Longrightarrow> getd s n = Inr (Some d) \<Longrightarrow> ToLower (d_Name d) = ToLower n"
begin

lemma same_name:
  assumes "valid s" "getd s n = Inr (Some d)" "getd s n' = Inr (Some d)"
  shows "ToLower n = ToLower n'"
  using named [OF assms(1,2)] named [OF assms(1,3)] by simp

end

text \<open>The keys of the disk map are the names of their domains.\<close>

definition keys_named :: "domain_map \<Rightarrow> bool" where
  "keys_named dm \<longleftrightarrow> (\<forall>k d. dm k = Some d \<longrightarrow> d_Name d = k)"

definition disk_valid :: "disk \<Rightarrow> bool" where
  "disk_valid k \<longleftrightarrow> (\<forall>dm. dk_dm k = Some dm \<longrightarrow> keys_named dm)"

lemma updateGroupDomain_named:
  assumes "keys_named dm" "updateGroupDomain dm rootDomain grp p h a n = Some dm'"
  shows "keys_named dm'"
proof -
  define k where "k = ToLower (grp @ ''.'' @ rootDomain)"
  define gd where "gd = (case dm k of None \<Rightarrow> domain_New k [] [] (GroupResolver (new_group grp)) | Some d \<Rightarrow> d)"
  have n: "d_Name gd = k" using assms(1) by (auto simp: gd_def keys_named_def domain_New_def split: option.splits)
  have "\<exists>R. dm' = dm(k \<mapsto> gd\<lparr>d_Resolver := R\<rparr>)"
    using assms(2) unfolding updateGroupDomain_def Let_def k_def [symmetric] gd_def [symmetric]
    by (auto split: disk_resolver.splits)
  then show ?thesis using assms(1) n by (auto simp: keys_named_def split: if_split_asm)
qed

lemma add_domains_named:
  "keys_named dm \<Longrightarrow>
   keys_named (foldl (\<lambda>dm dc. if domainConfig_Valid dc rootDomain then addDomain dm rootDomain grp p dc else dm) dm dcs)"
proof (induction dcs arbitrary: dm)
  case (Cons dc dcs)
  have "keys_named (addDomain dm rootDomain grp p dc)"
    using Cons.prems by (simp add: keys_named_def addDomain_def updateDomainMap_def domain_New_def Let_def)
  then show ?case using Cons by simp
qed simp

lemma readProjectConfig_named:
  assumes "keys_named dm" "readProjectConfig rootDomain dm grp p c = Some dm'"
  shows "keys_named dm'"
proof (cases c)
  case None
  then show ?thesis using assms updateGroupDomain_named by (auto simp: readProjectConfig_def)
next
  case (Some mc)
  then obtain dm1 where u: "updateGroupDomain dm rootDomain grp p (mc_HTTPSOnly mc) (mc_AccessControl mc) (mc_ID mc) = Some dm1"
    and d: "dm' = foldl (\<lambda>dm dc. if domainConfig_Valid dc rootDomain then addDomain dm rootDomain grp p dc else dm) dm1 (mc_Domains mc)"
    using assms(2) by (auto simp: readProjectConfig_def)
  show ?thesis unfolding d by (rule add_domains_named) (rule updateGroupDomain_named [OF assms(1) u])
qed

lemma consume_named: "keys_named dm \<Longrightarrow> consume rootDomain dm results = Some dm' \<Longrightarrow> keys_named dm'"
  by (induction results arbitrary: dm) (auto dest: readProjectConfig_named split: option.splits)

lemma watched_valid: "watched rootDomain s \<Longrightarrow> disk_valid (snd s)"
proof (induction rule: watched.induct)
  case start
  then show ?case by (simp add: disk_valid_def disk_New_def)
next
  case (turn s update fs s')
  from turn.hyps(2) turn.IH show ?case
  proof (cases rule: watch_turn.cases)
    case (scanned update' lastUpdate fis dm d)
    then obtain results where "consume rootDomain Map.empty results = Some dm" by (auto simp: ReadGroups_def)
    then have "keys_named dm" by (rule consume_named [rotated]) (simp add: keys_named_def)
    then show ?thesis using scanned by (simp add: disk_valid_def disk_updateDomains_def)
  qed auto
qed

interpretation disk_src: domain_source disk_GetDomain disk_valid
  by unfold_locales (auto simp: disk_GetDomain_def disk_valid_def keys_named_def split: option.splits)

definition gitlab_get :: "(string \<Rightarrow> Lookup) \<Rightarrow> Gitlab \<Rightarrow> string \<Rightarrow> gitlab_resolver domain option result" where
  "gitlab_get lookup g name =
     (case fst (gitlab_GetDomain lookup g name) of
        Some (Inr d) \<Rightarrow> Inr (Some d) | Some (Inl err) \<Rightarrow> Inl err | None \<Rightarrow> Inr None)"

interpretation gitlab_src: domain_source "gitlab_get lookup" "\<lambda>_. True" for lookup
  by unfold_locales
     (auto simp: gitlab_get_def gitlab_GetDomain_def Let_def domain_New_def split: option.splits sum.splits if_split_asm)

section \<open>Properties\<close>

lemma domain_found_named:
  assumes "\<And>k. ds_disk d = Some k \<Longrightarrow> disk_valid k"
    and "fst (domains_GetDomain lookup d name) = Some (Inr (Some dm))"
  shows "ToLower (d_Name dm) = ToLower name"
proof -
  have "domains_source d name \<noteq> None" using assms(2) by (auto simp: domains_GetDomain_def split: option.splits)
  then consider k where "domains_source d name = Some (UseDisk k)" | g where "domains_source d name = Some (UseGitlab g)"
    by (metis chosen.exhaust not_None_eq)
  then show ?thesis
  proof cases
    case (1 k)
    then have "ds_disk d = Some k" by (auto simp: domains_source_def split: if_split_asm option.splits configSource.splits)
    moreover obtain x where "disk_GetDomain k name = Inr (Some x)" "d_Name dm = d_Name x"
      using assms(2) 1 by (auto simp: domains_GetDomain_def lift_found_def lift_domain_def split: sum.splits)
    ultimately show ?thesis using disk_src.named [OF assms(1)] by metis
  next
    case (2 g)
    obtain x where "fst (gitlab_GetDomain lookup g name) = Some (Inr x)" "d_Name dm = d_Name x"
      using assms(2) 2 by (auto simp: domains_GetDomain_def lift_found_def lift_domain_def split: prod.splits sum.splits)
    then have "gitlab_get lookup g name = Inr (Some x)" "d_Name dm = d_Name x" by (simp_all add: gitlab_get_def)
    then show ?thesis using gitlab_src.named [where lookup = lookup and s = g] by metis
  qed
qed

text \<open>Whichever source answers, a domain it hands out bears the name it was asked for up to letter
  case: no host is ever served another host's domain.\<close>

theorem domains_GetDomain_named:
  assumes "\<And>k. ds_disk d = Some k \<Longrightarrow> disk_valid k"
    and "fst (domains_GetDomain lookup d name) = Some (Inr (Some dm))"
  shows "ToLower (d_Name dm) = ToLower name"
  by (rule domain_found_named [OF assms])

text \<open>With a configuration that was accepted, looking up a domain that is not a serverless one
  never calls a source that was not set up.\<close>

theorem domains_source_configured:
  assumes "NewDomains glClient option = Inr d" and "\<not> IsServerlessDomain name"
  shows "domains_source d name \<noteq> None"
  using assms
  by (auto simp: NewDomains_def setConfigSource_def setGitLabClient_def domains_source_def
      split: if_split_asm sum.splits option.splits)

text \<open>A serverless domain name is looked up in the GitLab source even when only the disk source is
  configured: the source is nil and the lookup panics.\<close>

theorem serverless_lookup_panics:
  "\<exists>d. NewDomains glClient ''disk'' = Inr d \<and> IsServerlessDomain ''fn-aba1aabbccddeef2abaabbcc.example.com'' \<and>
     fst (domains_GetDomain lookup d ''fn-aba1aabbccddeef2abaabbcc.example.com'') = None"
proof -
  have s: "IsServerlessDomain ''fn-aba1aabbccddeef2abaabbcc.example.com''" by code_simp
  show ?thesis
    using s by (simp add: NewDomains_def setConfigSource_def domains_GetDomain_def domains_source_def)
qed

definition demo_domains :: Domains where
  "demo_domains = \<lparr>ds_configSource = sourceDisk, ds_gitlab = None, ds_disk = Some \<lparr>dk_dm = Some [''a.org'' \<mapsto> demo_domain]\<rparr>\<rparr>"

theorem domains_GetDomain_named_witness:
  "\<exists>dm. fst (domains_GetDomain demo_gitlab demo_domains ''A.org'') = Some (Inr (Some dm)) \<and> ToLower (d_Name dm) = ToLower ''A.org''"
proof -
  have "case fst (domains_GetDomain demo_gitlab demo_domains ''A.org'') of Some (Inr (Some dm)) \<Rightarrow> True | _ \<Rightarrow> False"
    by code_simp
  then obtain dm where dm: "fst (domains_GetDomain demo_gitlab demo_domains ''A.org'') = Some (Inr (Some dm))"
    by (auto split: option.splits sum.splits)
  have "disk_valid k" if "ds_disk demo_domains = Some k" for k
    using that by (auto simp: demo_domains_def disk_valid_def keys_named_def demo_domain_def domain_New_def split: if_split_asm)
  from domains_GetDomain_named [OF this dm] dm show ?thesis by blast
qed

theorem domains_source_configured_witness:
  "\<exists>d. NewDomains (Inl (ErrMsg ''no API'')) ''auto'' = Inr d \<and> domains_source d ''group.example.com'' \<noteq> None"
proof -
  have "\<not> IsServerlessDomain ''group.example.com''" by code_simp
  moreover have "\<exists>d. NewDomains (Inl (ErrMsg ''no API'')) ''auto'' = Inr d"
    by (simp add: NewDomains_def setConfigSource_def setGitLabClient_def)
  ultimately show ?thesis using domains_source_configured by blast
qed

end
