(* ===== verification/Config.thy ===== *)
theory Config
  imports Http_Base "HOL-Library.Word"
begin

text \<open>
  The configuration of the daemon: repeated flags (\<^verbatim>\<open>internal/config/multi_string_flag.go\<close>), the
  refused command line arguments (\<^verbatim>\<open>internal/validateargs\<close>), TLS settings
  (\<^verbatim>\<open>internal/config/tls\<close>), and the loading and validation of a configuration
  (\<^verbatim>\<open>internal/config/config.go\<close>, \<^verbatim>\<open>validate.go\<close>).  What the flag package parsed is an argument,
  the record \<open>flags\<close>; reading a file is an argument too.  \<^verbatim>\<open>log.Fatal\<close> ends the process: an error.
\<close>

section \<open>Splitting strings and decoding base64\<close>

lemma index_of_sub_Some:
  assumes "index_of_sub s sub = Some i"
  shows "s = take i s @ sub @ drop (i + length sub) s" "i + length sub \<le> length s"
proof -
  have p: "prefix sub (drop i s)" using assms by (auto simp: index_of_sub_def find_Some_iff)
  then obtain t where t: "drop i s = sub @ t" by (auto simp: prefix_def)
  then have "drop (i + length sub) s = t" by (metis add.commute append_eq_conv_conj drop_drop)
  then show "s = take i s @ sub @ drop (i + length sub) s" using t by (metis append_take_drop_id)
  have "i \<le> length s" using assms by (auto simp: index_of_sub_def find_Some_iff nth_append less_Suc_eq_le)
  moreover have "length sub \<le> length s - i" using p by (metis length_drop prefix_length_le)
  ultimately show "i + length sub \<le> length s" by simp
qed

text \<open>\<^verbatim>\<open>strings.Split\<close> with a separator that may have several bytes.\<close>

function split_str :: "string \<Rightarrow> string \<Rightarrow> string list" where
  "split_str sep s =
     (if sep = [] then map (\<lambda>c. [c]) s
      else (case index_of_sub s sep of
              None \<Rightarrow> [s]
            | Some i \<Rightarrow> take i s # split_str sep (drop (i + length sep) s)))"
  by pat_completeness auto
termination
proof (relation "measure (\<lambda>(sep, s). length s)")
  fix sep s :: string and i
  assume "sep \<noteq> []" "index_of_sub s sep = Some i"
  then show "((sep, drop (i + length sep) s), (sep, s)) \<in> measure (\<lambda>(sep, s). length s)"
    using index_of_sub_Some(2) [of s sep i] by (cases sep) auto
qed simp

declare split_str.simps [simp del]

definition strings_Contains :: "string \<Rightarrow> string \<Rightarrow> bool" where
  "strings_Contains s sub \<longleftrightarrow> index_of_sub s sub \<noteq> None"

text \<open>\<^verbatim>\<open>base64.StdEncoding.Decode\<close>: line breaks are ignored, padding ends the text.\<close>

definition b64_digit :: "char \<Rightarrow> nat option" where
  "b64_digit c =
     (let n = byte c
      in if 65 \<le> n \<and> n \<le> 90 then Some (n - 65)
         else if 97 \<le> n \<and> n \<le> 122 then Some (n - 71)
         else if 48 \<le> n \<and> n \<le> 57 then Some (n + 4)
         else if c = CHR ''+'' then Some 62 else if c = CHR ''/'' then Some 63 else None)"

fun b64_quads :: "string \<Rightarrow> string option" where
  "b64_quads [] = Some []"
| "b64_quads (a # b # c # d # rest) =
     (case (b64_digit a, b64_digit b) of
        (Some x, Some y) \<Rightarrow>
          (if c = CHR ''='' then
             (if d = CHR ''='' \<and> rest = [] then Some [char_of (x * 4 + y div 16)] else None)
           else (case b64_digit c of
                   None \<Rightarrow> None
                 | Some z \<Rightarrow>
                     (if d = CHR ''='' then
                        (if rest = [] then Some [char_of (x * 4 + y div 16), char_of (y mod 16 * 16 + z div 4)] else None)
                      else (case (b64_digit d, b64_quads rest) of
                              (Some v, Some out) \<Rightarrow>
                                Some (char_of (x * 4 + y div 16) # char_of (y mod 16 * 16 + z div 4) #
                                      char_of (z mod 4 * 64 + v) # out)
                            | _ \<Rightarrow> None))))
      | _ \<Rightarrow> None)"
| "b64_quads _ = None"

definition b64_Decode :: "string \<Rightarrow> string option" where
  "b64_Decode s = b64_quads (filter (\<lambda>c. c \<noteq> CHR ''\<newline>'' \<and> c \<noteq> CHR 0x0D) s)"

definition b64_DecodedLen :: "nat \<Rightarrow> nat" where
  "b64_DecodedLen n = n div 4 * 3"

section \<open>Repeated flags (multi_string_flag.go)\<close>

record MultiStringFlag =
  ms_value :: "string list"
  ms_separator :: string

definition ms_sep :: "MultiStringFlag \<Rightarrow> string" where
  "ms_sep s = (if ms_separator s = [] then '','' else ms_separator s)"

definition ms_String :: "MultiStringFlag \<Rightarrow> string" where
  "ms_String s = join_with (ms_sep s) (ms_value s)"

definition ms_Set :: "string \<Rightarrow> MultiStringFlag \<Rightarrow> MultiStringFlag result" where
  "ms_Set v s =
     (if v = [] then Inl (ErrMsg ''value cannot be empty'') else Inr (s\<lparr>ms_value := ms_value s @ [v]\<rparr>))"

definition ms_Split :: "MultiStringFlag \<Rightarrow> string list" where
  "ms_Split s = concat (map (split_str (ms_sep s)) (ms_value s))"

section \<open>Refused arguments (validateargs.go)\<close>

definition deprecatedArgs :: "string list" where
  "deprecatedArgs = [''-sentry-dsn'']"

definition notAllowedArgs :: "string list" where
  "notAllowedArgs = [''-auth-client-id'', ''-auth-client-secret'', ''-auth-secret'', ''-auth-scope'']"

definition validate :: "string list \<Rightarrow> string list \<Rightarrow> string \<Rightarrow> go_error option" where
  "validate args invalidArgs errMsg =
     (let argsStr = join_with '' '' args;
          foundInvalidArgs = filter (strings_Contains argsStr) invalidArgs
      in if foundInvalidArgs \<noteq> [] then Some (ErrMsg (errMsg @ '' '' @ join_with '', '' foundInvalidArgs)) else None)"

definition Deprecated :: "string list \<Rightarrow> go_error option" where
  "Deprecated args = validate args deprecatedArgs ''command line options have been deprecated:''"

definition NotAllowed :: "string list \<Rightarrow> go_error option" where
  "NotAllowed args = validate args notAllowedArgs ''invalid command line arguments:''"

section \<open>TLS settings (config/tls)\<close>

text \<open>Versions and cipher suites are the 16-bit numbers of \<^verbatim>\<open>crypto/tls\<close>.\<close>

definition AllTLSVersions :: "string \<rightharpoonup> 16 word" where
  "AllTLSVersions =
     [[] \<mapsto> 0, ''ssl3'' \<mapsto> 0x0300, ''tls1.0'' \<mapsto> 0x0301, ''tls1.1'' \<mapsto> 0x0302, ''tls1.2'' \<mapsto> 0x0303,
      ''tls1.3'' \<mapsto> 0x0304]"

definition preferredCipherSuites :: "16 word list" where
  "preferredCipherSuites =
     [0xCCA8, 0xCCA9, 0xC02F, 0xC02B, 0xC030, 0xC02C, 0x1301, 0x1302, 0x1303]"

text \<open>\<^verbatim>\<open>tls.Config\<close>, as far as it is set; the certificate and the certificate callback are abstract.\<close>

record ('cert, 'get) tls_Config =
  tc_GetCertificate :: 'get
  tc_Certificates :: "'cert list"
  tc_PreferServerCipherSuites :: bool
  tc_CipherSuites :: "16 word list"
  tc_MinVersion :: "16 word"
  tc_MaxVersion :: "16 word"

definition configureCertificate ::
  "(string \<Rightarrow> string \<Rightarrow> 'cert result) \<Rightarrow> string \<Rightarrow> string \<Rightarrow> ('cert, 'get) tls_Config \<Rightarrow> ('cert, 'get) tls_Config result" where
  "configureCertificate x509 cert key tlsConfig =
     (case x509 cert key of Inl err \<Rightarrow> Inl err | Inr certificate \<Rightarrow> Inr (tlsConfig\<lparr>tc_Certificates := [certificate]\<rparr>))"

definition configureTLSCiphers :: "('cert, 'get) tls_Config \<Rightarrow> ('cert, 'get) tls_Config" where
  "configureTLSCiphers tlsConfig =
     tlsConfig\<lparr>tc_PreferServerCipherSuites := True, tc_CipherSuites := preferredCipherSuites\<rparr>"

definition tls_Create ::
  "(string \<Rightarrow> string \<Rightarrow> 'cert result) \<Rightarrow> string \<Rightarrow> string \<Rightarrow> 'get \<Rightarrow> bool \<Rightarrow> 16 word \<Rightarrow> 16 word \<Rightarrow> ('cert, 'get) tls_Config result" where
  "tls_Create x509 cert key getCertificate insecureCiphers tlsMinVersion tlsMaxVersion =
     (case configureCertificate x509 cert key
             \<lparr>tc_GetCertificate = getCertificate, tc_Certificates = [], tc_PreferServerCipherSuites = False,
              tc_CipherSuites = [], tc_MinVersion = 0, tc_MaxVersion = 0\<rparr> of
        Inl err \<Rightarrow> Inl err
      | Inr tlsConfig \<Rightarrow>
          (let tlsConfig = (if \<not> insecureCiphers then configureTLSCiphers tlsConfig else tlsConfig)
           in Inr (tlsConfig\<lparr>tc_MinVersion := tlsMinVersion, tc_MaxVersion := tlsMaxVersion\<rparr>)))"

definition ValidateTLSVersions :: "string \<Rightarrow> string \<Rightarrow> go_error option" where
  "ValidateTLSVersions minv maxv =
     (case AllTLSVersions minv of
        None \<Rightarrow> Some (ErrMsg (''invalid minimum TLS version: '' @ minv))
      | Some tlsMin \<Rightarrow>
          (case AllTLSVersions maxv of
             None \<Rightarrow> Some (ErrMsg (''invalid maximum TLS version: '' @ maxv))
           | Some tlsMax \<Rightarrow>
               (if tlsMin > tlsMax \<and> tlsMax > 0
                then Some (ErrMsg (''invalid maximum TLS version: '' @ maxv @ ''; should be at least '' @ minv))
                else None)))"

section \<open>The configuration (config.go)\<close>

record General =
  gc_Domain :: string
  gc_DomainConfigurationSource :: string
  gc_UseLegacyStorage :: bool
  gc_HTTP2 :: bool
  gc_MaxConns :: int
  gc_MetricsAddress :: string
  gc_RedirectHTTP :: bool
  gc_RootCertificate :: string
  gc_RootDir :: string
  gc_RootKey :: string
  gc_StatusPath :: string
  gc_DisableCrossOriginRequests :: bool
  gc_InsecureCiphers :: bool
  gc_PropagateCorrelationID :: bool
  gc_ShowVersion :: bool
  gc_CustomHeaders :: "string list"

record ArtifactsServer =
  as_URL :: string
  as_TimeoutSeconds :: int

record Authentication =
  ac_Secret :: string
  ac_ClientID :: string
  ac_ClientSecret :: string
  ac_RedirectURI :: string
  ac_Scope :: string

record Daemon =
  dn_UID :: nat
  dn_GID :: nat
  dn_InplaceChroot :: bool

text \<open>Durations are in nanoseconds.\<close>

record Cache_config =
  cc_CacheExpiry :: int
  cc_CacheCleanupInterval :: int
  cc_EntryRefreshTimeout :: int
  cc_RetrievalTimeout :: int
  cc_MaxRetrievalInterval :: int
  cc_MaxRetrievalRetries :: int

record GitLab_config =
  gk_Server :: string
  gk_InternalServer :: string
  gk_APISecretKey :: string
  gk_ClientHTTPTimeout :: int
  gk_JWTTokenExpiration :: int
  gk_Cache :: Cache_config

record Listeners =
  li_HTTP :: "nat list"
  li_HTTPS :: "nat list"
  li_Proxy :: "nat list"
  li_HTTPSProxyv2 :: "nat list"

record ZipServing =
  zs_ExpirationInterval :: int
  zs_CleanupInterval :: int
  zs_RefreshInterval :: int
  zs_OpenTimeout :: int
  zs_AllowedPaths :: "string list"

record Config =
  c_General :: General
  c_ArtifactsServer :: ArtifactsServer
  c_Authentication :: Authentication
  c_Daemon :: Daemon
  c_GitLab :: GitLab_config
  c_Listeners :: Listeners
  c_Log_Format :: string
  c_Log_Verbose :: bool
  c_Sentry_DSN :: string
  c_Sentry_Environment :: string
  c_TLS_MinVersion :: "16 word"
  c_TLS_MaxVersion :: "16 word"
  c_Zip :: ZipServing
  c_ListenMetrics :: nat
  c_ListenHTTPStrings :: MultiStringFlag
  c_ListenHTTPSStrings :: MultiStringFlag
  c_ListenProxyStrings :: MultiStringFlag
  c_ListenHTTPSProxyv2Strings :: MultiStringFlag

text \<open>The values of the flags (\<^verbatim>\<open>flags.go\<close>) after parsing.\<close>

record flags =
  fl_pagesRootCert :: string
  fl_pagesRootKey :: string
  fl_redirectHTTP :: bool
  fl_useHTTP2 :: bool
  fl_pagesRoot :: string
  fl_pagesDomain :: string
  fl_artifactsServer :: string
  fl_artifactsServerTimeout :: int
  fl_pagesStatus :: string
  fl_metricsAddress :: string
  fl_sentryDSN :: string
  fl_sentryEnvironment :: string
  fl_daemonUID :: nat
  fl_daemonGID :: nat
  fl_daemonInplaceChroot :: bool
  fl_propagateCorrelationID :: bool
  fl_logFormat :: string
  fl_logVerbose :: bool
  fl_secret :: string
  fl_gitLabAuthServer :: string
  fl_gitLabServer :: string
  fl_internalGitLabServer :: string
  fl_gitLabAPISecretKey :: string
  fl_gitlabClientHTTPTimeout :: int
  fl_gitlabClientJWTExpiry :: int
  fl_gitlabCache :: Cache_config
  fl_domainConfigSource :: string
  fl_useLegacyStorage :: bool
  fl_clientID :: string
  fl_clientSecret :: string
  fl_redirectURI :: string
  fl_authScope :: string
  fl_maxConns :: int
  fl_insecureCiphers :: bool
  fl_tlsMinVersion :: string
  fl_tlsMaxVersion :: string
  fl_zipCacheExpiration :: int
  fl_zipCacheCleanup :: int
  fl_zipCacheRefresh :: int
  fl_zipOpenTimeout :: int
  fl_disableCrossOriginRequests :: bool
  fl_showVersion :: bool
  fl_listenHTTP :: MultiStringFlag
  fl_listenHTTPS :: MultiStringFlag
  fl_listenProxy :: MultiStringFlag
  fl_listenHTTPSProxyv2 :: MultiStringFlag
  fl_header :: MultiStringFlag

definition gitlabServerFromFlags :: "flags \<Rightarrow> string" where
  "gitlabServerFromFlags f =
     (if fl_gitLabServer f \<noteq> [] then fl_gitLabServer f
      else if fl_gitLabAuthServer f \<noteq> [] then fl_gitLabAuthServer f
      else (case url_Parse (fl_artifactsServer f) of None \<Rightarrow> [] | Some u \<Rightarrow> url_String (u\<lparr>u_Path := []\<rparr>)))"

definition internalGitlabServerFromFlags :: "flags \<Rightarrow> string" where
  "internalGitlabServerFromFlags f =
     (if fl_internalGitLabServer f \<noteq> [] then fl_internalGitLabServer f else gitlabServerFromFlags f)"

text \<open>The secret is decoded into a buffer of \<^verbatim>\<open>DecodedLen\<close> bytes, and the whole buffer is kept.\<close>

definition setGitLabAPISecretKey :: "(string \<Rightarrow> string result) \<Rightarrow> string \<Rightarrow> Config \<Rightarrow> Config result" where
  "setGitLabAPISecretKey readFile secretFile config =
     (case readFile secretFile of
        Inl err \<Rightarrow> Inl err
      | Inr encoded \<Rightarrow>
          (case b64_Decode encoded of
             None \<Rightarrow> Inl (ErrMsg ''Failed to decode GitLab API secret'')
           | Some out \<Rightarrow>
               (if length out \<noteq> 32 then Inl (ErrMsg ''Failed to decode GitLab API secret'')
                else Inr (config\<lparr>c_GitLab := (c_GitLab config)\<lparr>gk_APISecretKey :=
                       out @ replicate (b64_DecodedLen (length encoded) - length out) (CHR 0x00)\<rparr>\<rparr>))))"

definition DomainConfigSource :: "Config \<Rightarrow> string" where
  "DomainConfigSource config =
     (if gc_UseLegacyStorage (c_General config) then ''disk'' else gc_DomainConfigurationSource (c_General config))"

section \<open>Validation (validate.go)\<close>

definition validateAuthConfig :: "Config \<Rightarrow> go_error option" where
  "validateAuthConfig config =
     (let a = c_Authentication config
      in if ac_Secret a = [] \<and> ac_ClientID a = [] \<and> ac_ClientSecret a = [] \<and> ac_RedirectURI a = [] then None
         else if ac_Secret a = [] then Some (ErrMsg ''auth-secret must be defined if authentication is supported'')
         else if ac_ClientID a = [] then Some (ErrMsg ''auth-client-id must be defined if authentication is supported'')
         else if ac_ClientSecret a = [] then Some (ErrMsg ''auth-client-secret must be defined if authentication is supported'')
         else if gk_Server (c_GitLab config) = [] then Some (ErrMsg ''gitlab-server must be defined if authentication is supported'')
         else if ac_RedirectURI a = [] then Some (ErrMsg ''auth-redirect-uri must be defined if authentication is supported'')
         else None)"

definition validateArtifactsServerConfig :: "Config \<Rightarrow> go_error option" where
  "validateArtifactsServerConfig config =
     (let s = c_ArtifactsServer config
      in if as_URL s = [] then None
         else (case url_Parse (as_URL s) of
                 None \<Rightarrow> Some (ErrMsg ''parse error'')
               | Some u \<Rightarrow>
                   (if u_Scheme u \<noteq> ''http'' \<and> u_Scheme u \<noteq> ''https''
                    then Some (ErrMsg ''artifacts-server scheme must be either http:// or https://'')
                    else if as_TimeoutSeconds s < 1
                    then Some (ErrMsg ''artifacts-server-timeout must be greater than or equal to 1'')
                    else None)))"

definition validateTLSConfig :: "flags \<Rightarrow> go_error option" where
  "validateTLSConfig f = ValidateTLSVersions (fl_tlsMinVersion f) (fl_tlsMaxVersion f)"

definition validateConfig :: "flags \<Rightarrow> Config \<Rightarrow> go_error option" where
  "validateConfig f config =
     (case validateAuthConfig config of
        Some err \<Rightarrow> Some err
      | None \<Rightarrow>
          (case validateArtifactsServerConfig config of
             Some err \<Rightarrow> Some err
           | None \<Rightarrow> validateTLSConfig f))"

section \<open>Loading\<close>

definition tls_version :: "string \<Rightarrow> 16 word" where
  "tls_version v = (case AllTLSVersions v of Some n \<Rightarrow> n | None \<Rightarrow> 0)"

definition config_of_flags :: "flags \<Rightarrow> Config" where
  "config_of_flags f =
     \<lparr>c_General =
        \<lparr>gc_Domain = ToLower (fl_pagesDomain f), gc_DomainConfigurationSource = fl_domainConfigSource f,
         gc_UseLegacyStorage = fl_useLegacyStorage f, gc_HTTP2 = fl_useHTTP2 f, gc_MaxConns = fl_maxConns f,
         gc_MetricsAddress = fl_metricsAddress f, gc_RedirectHTTP = fl_redirectHTTP f, gc_RootCertificate = [],
         gc_RootDir = fl_pagesRoot f, gc_RootKey = [], gc_StatusPath = fl_pagesStatus f,
         gc_DisableCrossOriginRequests = fl_disableCrossOriginRequests f, gc_InsecureCiphers = fl_insecureCiphers f,
         gc_PropagateCorrelationID = fl_propagateCorrelationID f, gc_ShowVersion = fl_showVersion f,
         gc_CustomHeaders = ms_Split (fl_header f)\<rparr>,
      c_ArtifactsServer = \<lparr>as_URL = fl_artifactsServer f, as_TimeoutSeconds = fl_artifactsServerTimeout f\<rparr>,
      c_Authentication =
        \<lparr>ac_Secret = fl_secret f, ac_ClientID = fl_clientID f, ac_ClientSecret = fl_clientSecret f,
         ac_RedirectURI = fl_redirectURI f, ac_Scope = fl_authScope f\<rparr>,
      c_Daemon = \<lparr>dn_UID = fl_daemonUID f, dn_GID = fl_daemonGID f, dn_InplaceChroot = fl_daemonInplaceChroot f\<rparr>,
      c_GitLab =
        \<lparr>gk_Server = [], gk_InternalServer = [], gk_APISecretKey = [], gk_ClientHTTPTimeout = fl_gitlabClientHTTPTimeout f,
         gk_JWTTokenExpiration = fl_gitlabClientJWTExpiry f, gk_Cache = fl_gitlabCache f\<rparr>,
      c_Listeners = \<lparr>li_HTTP = [], li_HTTPS = [], li_Proxy = [], li_HTTPSProxyv2 = []\<rparr>,
      c_Log_Format = fl_logFormat f, c_Log_Verbose = fl_logVerbose f,
      c_Sentry_DSN = fl_sentryDSN f, c_Sentry_Environment = fl_sentryEnvironment f,
      c_TLS_MinVersion = tls_version (fl_tlsMinVersion f), c_TLS_MaxVersion = tls_version (fl_tlsMaxVersion f),
      c_Zip =
        \<lparr>zs_ExpirationInterval = fl_zipCacheExpiration f, zs_CleanupInterval = fl_zipCacheCleanup f,
         zs_RefreshInterval = fl_zipCacheRefresh f, zs_OpenTimeout = fl_zipOpenTimeout f, zs_AllowedPaths = [fl_pagesRoot f]\<rparr>,
      c_ListenMetrics = 0,
      c_ListenHTTPStrings = fl_listenHTTP f, c_ListenHTTPSStrings = fl_listenHTTPS f,
      c_ListenProxyStrings = fl_listenProxy f, c_ListenHTTPSProxyv2Strings = fl_listenHTTPSProxyv2 f\<rparr>"

definition read_optional :: "(string \<Rightarrow> string result) \<Rightarrow> string \<Rightarrow> string result" where
  "read_optional readFile path = (if path \<noteq> [] then readFile path else Inr [])"

definition loadConfig :: "(string \<Rightarrow> string result) \<Rightarrow> flags \<Rightarrow> Config result" where
  "loadConfig readFile f =
     (case read_optional readFile (fl_pagesRootCert f) of
        Inl err \<Rightarrow> Inl err
      | Inr cert \<Rightarrow>
          (case read_optional readFile (fl_pagesRootKey f) of
             Inl err \<Rightarrow> Inl err
           | Inr key \<Rightarrow>
               (let config = config_of_flags f;
                    config = config\<lparr>
                      c_General := (c_General config)\<lparr>gc_RootCertificate := cert, gc_RootKey := key\<rparr>,
                      c_GitLab := (c_GitLab config)\<lparr>gk_Server := gitlabServerFromFlags f,
                        gk_InternalServer := internalGitlabServerFromFlags f\<rparr>\<rparr>
                in case (if fl_gitLabAPISecretKey f \<noteq> []
                         then setGitLabAPISecretKey readFile (fl_gitLabAPISecretKey f) config else Inr config) of
                     Inl err \<Rightarrow> Inl err
                   | Inr config \<Rightarrow>
                       (case validateConfig f config of Some err \<Rightarrow> Inl err | None \<Rightarrow> Inr config))))"

section \<open>Listeners (main.go)\<close>

text \<open>\<open>createSocket\<close> opens a listening socket in a state of the operating system and gives its file
  descriptor; its failure is fatal.\<close>

fun open_all :: "('os \<Rightarrow> string \<Rightarrow> nat result \<times> 'os) \<Rightarrow> 'os \<Rightarrow> string list \<Rightarrow> nat list result \<times> 'os" where
  "open_all createSocket os [] = (Inr [], os)"
| "open_all createSocket os (addr # addrs) =
     (case createSocket os addr of
        (Inl err, os) \<Rightarrow> (Inl err, os)
      | (Inr fd, os) \<Rightarrow>
          (case open_all createSocket os addrs of
             (Inl err, os) \<Rightarrow> (Inl err, os)
           | (Inr fds, os) \<Rightarrow> (Inr (fd # fds), os)))"

definition createAppListeners ::
  "('os \<Rightarrow> string \<Rightarrow> nat result \<times> 'os) \<Rightarrow> 'os \<Rightarrow> Config \<Rightarrow> Config result \<times> 'os" where
  "createAppListeners createSocket os config =
     (case open_all createSocket os (ms_Split (c_ListenHTTPStrings config)) of
        (Inl err, os) \<Rightarrow> (Inl err, os)
      | (Inr http, os) \<Rightarrow>
     (case open_all createSocket os (ms_Split (c_ListenHTTPSStrings config)) of
        (Inl err, os) \<Rightarrow> (Inl err, os)
      | (Inr https, os) \<Rightarrow>
     (case open_all createSocket os (ms_Split (c_ListenProxyStrings config)) of
        (Inl err, os) \<Rightarrow> (Inl err, os)
      | (Inr proxy, os) \<Rightarrow>
     (case open_all createSocket os (ms_Split (c_ListenHTTPSProxyv2Strings config)) of
        (Inl err, os) \<Rightarrow> (Inl err, os)
      | (Inr proxyv2, os) \<Rightarrow>
          (Inr (config\<lparr>c_Listeners := \<lparr>li_HTTP = http, li_HTTPS = https, li_Proxy = proxy, li_HTTPSProxyv2 = proxyv2\<rparr>\<rparr>), os)))))"

definition createMetricsListener ::
  "('os \<Rightarrow> string \<Rightarrow> nat result \<times> 'os) \<Rightarrow> 'os \<Rightarrow> Config \<Rightarrow> Config result \<times> 'os" where
  "createMetricsListener createSocket os config =
     (if gc_MetricsAddress (c_General config) = [] then (Inr config, os)
      else (case createSocket os (gc_MetricsAddress (c_General config)) of
              (Inl err, os) \<Rightarrow> (Inl err, os)
            | (Inr fd, os) \<Rightarrow> (Inr (config\<lparr>c_ListenMetrics := fd\<rparr>), os)))"

section \<open>Lemmas\<close>

lemma split_str_ne: "sep \<noteq> [] \<Longrightarrow> split_str sep s \<noteq> []"
  by (subst split_str.simps) (simp split: option.splits)

lemma join_with_Cons: "xs \<noteq> [] \<Longrightarrow> join_with sep (x # xs) = x @ sep @ join_with sep xs"
  by (cases xs) simp_all

lemma join_split_str: "sep \<noteq> [] \<Longrightarrow> join_with sep (split_str sep s) = s"
proof (induction sep s rule: split_str.induct)
  case (1 sep s)
  show ?case
  proof (cases "index_of_sub s sep")
    case None
    with 1 show ?thesis by (subst split_str.simps) simp
  next
    case (Some i)
    with 1 have "join_with sep (split_str sep (drop (i + length sep) s)) = drop (i + length sep) s" by blast
    then show ?thesis
      using Some 1(2) index_of_sub_Some(1) [OF Some]
      by (subst split_str.simps) (simp add: join_with_Cons split_str_ne)
  qed
qed

lemma strings_Contains_app: "strings_Contains (x @ a @ y) a"
proof -
  have "prefix a (drop (length x) (x @ a @ y))" "length x \<in> set [0..<Suc (length (x @ a @ y))]" by auto
  then show ?thesis unfolding strings_Contains_def index_of_sub_def find_None_iff by blast
qed

lemma ms_sep_ne: "ms_sep f \<noteq> []"
  by (simp add: ms_sep_def)

lemma join_concat_split:
  assumes "sep \<noteq> []"
  shows "join_with sep (concat (map (split_str sep) vs)) = join_with sep vs"
proof (induction vs)
  case (Cons v vs)
  show ?case
  proof (cases "vs = []")
    case True
    then show ?thesis by (simp add: join_split_str [OF assms])
  next
    case False
    then have "concat (map (split_str sep) vs) \<noteq> []" using split_str_ne [OF assms] by (cases vs) auto
    then show ?thesis
      using Cons False by (simp add: join_with_append split_str_ne [OF assms] join_split_str [OF assms] join_with_Cons)
  qed
qed simp

lemma split_str_items:
  assumes "sep \<noteq> []" "x \<in> set (split_str sep s)"
  shows "\<not> strings_Contains x sep"
  using assms
proof (induction sep s rule: split_str.induct)
  case (1 sep s)
  show ?case
  proof (cases "index_of_sub s sep")
    case None
    with 1 show ?thesis by (subst (asm) split_str.simps) (simp add: strings_Contains_def)
  next
    case (Some i)
    then have first: "\<not> prefix sep (drop j s)" if "j < i" for j
      using that unfolding index_of_sub_def find_Some_iff
      by (metis (no_types, lifting) add_0 diff_zero length_upt nth_upt order.strict_trans)
    have "\<not> strings_Contains (take i s) sep"
    proof
      assume "strings_Contains (take i s) sep"
      then obtain j where j: "index_of_sub (take i s) sep = Some j" by (auto simp: strings_Contains_def)
      have "j < i" using index_of_sub_Some(2) [OF j] 1(2) by (cases sep) auto
      moreover have "prefix sep (drop j (take i s))" using j by (auto simp: index_of_sub_def find_Some_iff)
      then have "prefix sep (drop j s)" by (metis append_take_drop_id drop_append prefix_order.trans prefixI)
      ultimately show False using first by blast
    qed
    with Some 1 show ?thesis by (subst (asm) split_str.simps) auto
  qed
qed

text \<open>A text whose decoding has n bytes has at least 4 characters for every 3 of them.\<close>

lemma b64_quads_length: "b64_quads s = Some out \<Longrightarrow> 4 * length out \<le> 3 * length s \<and> (length out mod 3 \<noteq> 0 \<longrightarrow> 4 * length out < 3 * length s)"
proof (induction s arbitrary: out rule: b64_quads.induct)
  case (2 a b c d rest)
  then obtain x y where xy: "b64_digit a = Some x" "b64_digit b = Some y"
    by (auto split: option.splits)
  show ?case
  proof (cases "c = CHR ''='' \<or> d = CHR ''=''")
    case True
    then have "rest = []" "length out \<in> {1, 2}" using 2(2) xy by (auto split: if_split_asm option.splits)
    then show ?thesis by auto
  next
    case False
    then obtain z v out' where "b64_digit c = Some z" "b64_digit d = Some v" "b64_quads rest = Some out'"
      and out: "length out = Suc (Suc (Suc (length out')))"
      using 2(2) xy by (auto split: option.splits)
    moreover have "4 * length out' \<le> 3 * length rest \<and> (length out' mod 3 \<noteq> 0 \<longrightarrow> 4 * length out' < 3 * length rest)"
      using 2(1) [OF refl xy False [simplified, THEN conjunct1] calculation(1) False [simplified, THEN conjunct2]] calculation
      by blast
    moreover have "length out mod 3 = length out' mod 3" unfolding out by presburger
    ultimately show ?thesis by simp
  qed
qed simp_all

lemma b64_quads_mod: "b64_quads s = Some out \<Longrightarrow> 4 dvd length s"
proof (induction s arbitrary: out rule: b64_quads.induct)
  case (2 a b c d rest)
  have four: "4 dvd Suc (Suc (Suc (Suc n))) \<longleftrightarrow> 4 dvd n" for n :: nat by presburger
  show ?case using 2 by (auto simp: four split: option.splits if_split_asm)
qed simp_all

lemma b64_secret_length:
  assumes "b64_Decode s = Some out" "length out = 32"
  shows "33 \<le> b64_DecodedLen (length s)"
proof -
  let ?t = "filter (\<lambda>c. c \<noteq> CHR ''\<newline>'' \<and> c \<noteq> CHR 0x0D) s"
  have "4 * 32 < 3 * length ?t" "4 dvd length ?t"
    using assms b64_quads_length [of ?t out] b64_quads_mod [of ?t out] by (auto simp: b64_Decode_def)
  then have "44 \<le> length ?t" by presburger
  then have "44 \<le> length s" using length_filter_le [of "\<lambda>c. c \<noteq> CHR ''\<newline>'' \<and> c \<noteq> CHR 0x0D" s] by linarith
  then have "11 \<le> length s div 4" by linarith
  then show ?thesis by (simp add: b64_DecodedLen_def)
qed

lemma loadConfig_cases:
  assumes "loadConfig readFile f = Inr c"
  shows "validateConfig f c = None" "c_Authentication c = c_Authentication (config_of_flags f)"
    "gk_Server (c_GitLab c) = gitlabServerFromFlags f" "gc_Domain (c_General c) = ToLower (fl_pagesDomain f)"
    "c_ArtifactsServer c = c_ArtifactsServer (config_of_flags f)"
    "c_TLS_MinVersion c = tls_version (fl_tlsMinVersion f)" "c_TLS_MaxVersion c = tls_version (fl_tlsMaxVersion f)"
  using assms
  by (auto simp: loadConfig_def Let_def setGitLabAPISecretKey_def config_of_flags_def
      split: sum.splits option.splits if_split_asm)

section \<open>Properties\<close>

text \<open>Splitting a repeated flag loses nothing: joining the parts with the separator gives what the
  flag prints, and no part still contains the separator.\<close>

theorem ms_Split_roundtrip:
  "join_with (ms_sep f) (ms_Split f) = ms_String f \<and> (\<forall>x \<in> set (ms_Split f). \<not> strings_Contains x (ms_sep f))"
  using split_str_items [OF ms_sep_ne]
  by (auto simp: ms_Split_def ms_String_def join_concat_split [OF ms_sep_ne])


text \<open>The secret of the GitLab API is kept with the padding of its decoding buffer: it is never the
  32 bytes the check asks for, but those followed by at least one zero byte.\<close>

theorem setGitLabAPISecretKey_padded:
  assumes "setGitLabAPISecretKey readFile secretFile config = Inr c"
  shows "\<exists>key n. length key = 32 \<and> 0 < n \<and> gk_APISecretKey (c_GitLab c) = key @ replicate n (CHR 0x00)"
proof -
  obtain encoded out where "b64_Decode encoded = Some out" "length out = 32"
    "gk_APISecretKey (c_GitLab c) = out @ replicate (b64_DecodedLen (length encoded) - 32) (CHR 0x00)"
    using assms by (auto simp: setGitLabAPISecretKey_def split: sum.splits option.splits if_split_asm)
  moreover have "0 < b64_DecodedLen (length encoded) - 32" using b64_secret_length calculation(1,2) by fastforce
  ultimately show ?thesis by blast
qed

text \<open>A secret given on the command line is refused: when an argument contains one of the options
  that may only stand in the configuration file, with any number of dashes and with or without a
  value, starting fails.\<close>

theorem NotAllowed_refuses:
  assumes "a \<in> set notAllowedArgs" and "arg = pre @ a @ post" and "arg \<in> set args"
  shows "NotAllowed args \<noteq> None"
proof -
  have "\<exists>x y. join_with '' '' args = x @ arg @ y"
    using assms(3)
  proof (induction args)
    case (Cons b args)
    show ?case
    proof (cases "arg = b")
      case True
      then show ?thesis by (cases args) (auto intro: exI [of _ "[]"])
    next
      case False
      then obtain x y where "join_with '' '' args = x @ arg @ y" "args \<noteq> []" using Cons by fastforce
      then have "join_with '' '' (b # args) = (b @ '' '' @ x) @ arg @ y" by (simp add: join_with_Cons)
      then show ?thesis by blast
    qed
  qed simp
  then obtain x y where s: "join_with '' '' args = x @ arg @ y" by blast
  have "strings_Contains (join_with '' '' args) a"
    using strings_Contains_app [of "x @ pre" a "post @ y"] unfolding s assms(2) by simp
  then show ?thesis using assms(1) by (auto simp: NotAllowed_def validate_def Let_def filter_empty_conv)
qed

section \<open>Witnesses\<close>

definition demo_cache_config :: Cache_config where
  "demo_cache_config = \<lparr>cc_CacheExpiry = 600000000000, cc_CacheCleanupInterval = 60000000000, cc_EntryRefreshTimeout = 60000000000,
     cc_RetrievalTimeout = 30000000000, cc_MaxRetrievalInterval = 1000000000, cc_MaxRetrievalRetries = 3\<rparr>"

definition demo_flag :: MultiStringFlag where
  "demo_flag = \<lparr>ms_value = [], ms_separator = '',''\<rparr>"

definition demo_flags :: flags where
  "demo_flags =
     \<lparr>fl_pagesRootCert = [], fl_pagesRootKey = [], fl_redirectHTTP = False, fl_useHTTP2 = True,
      fl_pagesRoot = ''shared/pages'', fl_pagesDomain = ''Example.io'', fl_artifactsServer = ''http://a/x'', fl_artifactsServerTimeout = 10,
      fl_pagesStatus = [], fl_metricsAddress = [], fl_sentryDSN = [], fl_sentryEnvironment = [], fl_daemonUID = 0, fl_daemonGID = 0,
      fl_daemonInplaceChroot = False, fl_propagateCorrelationID = False, fl_logFormat = ''text'', fl_logVerbose = False,
      fl_secret = ''s'', fl_gitLabAuthServer = [], fl_gitLabServer = [], fl_internalGitLabServer = [], fl_gitLabAPISecretKey = [],
      fl_gitlabClientHTTPTimeout = 10000000000, fl_gitlabClientJWTExpiry = 30000000000, fl_gitlabCache = demo_cache_config,
      fl_domainConfigSource = ''auto'', fl_useLegacyStorage = False, fl_clientID = ''id'', fl_clientSecret = ''cs'',
      fl_redirectURI = ''http://p/auth'', fl_authScope = ''api'', fl_maxConns = 0, fl_insecureCiphers = False,
      fl_tlsMinVersion = ''tls1.2'', fl_tlsMaxVersion = [], fl_zipCacheExpiration = 60000000000, fl_zipCacheCleanup = 30000000000,
      fl_zipCacheRefresh = 30000000000, fl_zipOpenTimeout = 30000000000, fl_disableCrossOriginRequests = False, fl_showVersion = False,
      fl_listenHTTP = demo_flag, fl_listenHTTPS = demo_flag, fl_listenProxy = demo_flag, fl_listenHTTPSProxyv2 = demo_flag,
      fl_header = demo_flag\<rparr>"


theorem setGitLabAPISecretKey_padded_witness:
  "\<exists>c key n. setGitLabAPISecretKey (\<lambda>_. Inr (replicate 43 (CHR ''A'') @ ''='')) ''secret'' (config_of_flags demo_flags) = Inr c \<and>
     length key = 32 \<and> 0 < n \<and> gk_APISecretKey (c_GitLab c) = key @ replicate n (CHR 0x00)"
proof -
  have "case setGitLabAPISecretKey (\<lambda>_. Inr (replicate 43 (CHR ''A'') @ ''='')) ''secret'' (config_of_flags demo_flags) of
      Inr c \<Rightarrow> True | Inl _ \<Rightarrow> False"
    by code_simp
  then obtain c where
    c: "setGitLabAPISecretKey (\<lambda>_. Inr (replicate 43 (CHR ''A'') @ ''='')) ''secret'' (config_of_flags demo_flags) = Inr c"
    by (auto split: sum.splits)
  show ?thesis using setGitLabAPISecretKey_padded [OF c] c by blast
qed

theorem NotAllowed_refuses_witness: "NotAllowed [''-pages-root'', ''x'', ''--auth-secret=abc''] \<noteq> None"
  by (rule NotAllowed_refuses [of "''-auth-secret''" "''--auth-secret=abc''" "''-''" "''=abc''"])
     (simp_all add: notAllowedArgs_def)

end
