(* ===== verification/App.thy ===== *)
theory App
  imports Artifact Source_Domains Config
begin

text \<open>
  The daemon itself (\<^verbatim>\<open>app.go\<close>): how it is put together from its configuration, the certificate
  callback, the middlewares and the handler pipeline.  The pipeline is modelled for one request at a
  time: the sources and the access control are read as they are when the request arrives.

  What the request's context carries (\<^verbatim>\<open>request.WithHostAndDomain\<close>) is an argument of the handlers
  behind the routing middleware.  A panic of a handler is recovered by \<^verbatim>\<open>net/http\<close>, which abandons the
  request: the response stays as it is.  The wrappers of other packages (access log, metrics,
  correlation ids, cross-origin headers, proxy headers) are parameters that turn handlers into handlers.
\<close>

section \<open>The application\<close>

record app_env =
  ae_lookup :: "string \<Rightarrow> Lookup"
  ae_servings :: servings
  ae_auth :: auth_env
  ae_client :: artifact_client
  ae_x509 :: "string \<Rightarrow> string \<Rightarrow> certificate result"
  ae_AccessLogger :: "string \<Rightarrow> (handler \<Rightarrow> handler) result"
  ae_BasicAccessLogger :: "string \<Rightarrow> (handler \<Rightarrow> handler) result"
  ae_metrics :: "handler \<Rightarrow> handler"
  ae_InjectCorrelationID :: "bool \<Rightarrow> handler \<Rightarrow> handler"
  ae_cors :: "handler \<Rightarrow> handler"
  ae_ProxyHeaders :: "handler \<Rightarrow> handler"

record theApp =
  ap_config :: Config
  ap_domains :: Domains
  ap_Artifact :: "Artifact option"
  ap_Auth :: "Auth option"
  ap_Handlers :: Handlers
  ap_AcmeMiddleware :: "string option"
  ap_CustomHeaders :: "(string \<times> string list) list"

text \<open>The \<^verbatim>\<open>Resolve\<close> method of whichever resolver a domain has; the disk source serves from the same
  local serving as the GitLab source.\<close>

fun source_Resolve :: "servings \<Rightarrow> (string \<Rightarrow> Lookup) \<Rightarrow> source_resolver \<Rightarrow> request \<Rightarrow> serving_request result" where
  "source_Resolve ss lookup (DiskResolver R) r = disk_Resolve (ss_local ss) R r"
| "source_Resolve ss lookup (ApiResolver R) r = gitlab_resolve_fn ss lookup R r"

abbreviation Res :: "app_env \<Rightarrow> source_resolver resolve_fn" where
  "Res E \<equiv> source_Resolve (ae_servings E) (ae_lookup E)"

type_synonym app_domain = "source_resolver domain"

definition app_isReady :: "theApp \<Rightarrow> bool option" where
  "app_isReady a = domains_IsReady (ap_domains a)"

definition app_domain :: "app_env \<Rightarrow> theApp \<Rightarrow> string \<Rightarrow> app_domain option result option \<times> theApp" where
  "app_domain E a host =
     (let (res, d) = domains_GetDomain (ae_lookup E) (ap_domains a) host in (res, a\<lparr>ap_domains := d\<rparr>))"

text \<open>\<^verbatim>\<open>ServeTLS\<close>: the certificate for a server name, \<^const>\<open>None\<close> for the default one.\<close>

definition ServeTLS :: "app_env \<Rightarrow> theApp \<Rightarrow> string \<Rightarrow> certificate option \<times> theApp" where
  "ServeTLS E a serverName =
     (if serverName = [] then (None, a)
      else (case app_domain E a serverName of
              (Some (Inr (Some d)), a) \<Rightarrow>
                (case fst (EnsureCertificate (ae_x509 E) (Some d)) of Inr c \<Rightarrow> (Some c, a) | Inl _ \<Rightarrow> (None, a))
            | (_, a) \<Rightarrow> (None, a)))"

definition app_healthCheck :: "theApp \<Rightarrow> resp \<Rightarrow> resp" where
  "app_healthCheck a w =
     (case app_isReady a of
        Some True \<Rightarrow> rw_Write (Text ''success\<newline>'') w
      | Some False \<Rightarrow> http_Error ''not yet ready'' 503 w
      | None \<Rightarrow> w)"

definition redirectToHTTPS :: "request \<Rightarrow> int \<Rightarrow> resp \<Rightarrow> resp" where
  "redirectToHTTPS r statusCode w =
     http_Redirect r (url_String ((r_URL r)\<lparr>u_Scheme := SchemeHTTPS, u_Host := r_Host r, u_User := None\<rparr>)) statusCode w"

definition getHostAndDomain :: "app_env \<Rightarrow> theApp \<Rightarrow> request \<Rightarrow> string \<times> app_domain option result option \<times> theApp" where
  "getHostAndDomain E a r = (let host = GetHostWithoutPort r in (host, app_domain E a host))"

definition checkAuthAndServeNotFound ::
  "app_env \<Rightarrow> theApp \<Rightarrow> app_domain option \<Rightarrow> request \<Rightarrow> resp \<Rightarrow> bool \<times> resp" where
  "checkAuthAndServeNotFound E a d r w =
     (case CheckAuthenticationWithoutProject (ae_auth E) (ap_Auth a) (Res E) d r w of
        (True, w) \<Rightarrow> (True, w)
      | (False, w) \<Rightarrow> (True, ServeNotFoundAuthFailed (Res E) d r w))"

definition https_only_redirect :: "app_env \<Rightarrow> bool \<Rightarrow> app_domain option \<Rightarrow> request \<Rightarrow> resp \<Rightarrow> bool \<times> resp" where
  "https_only_redirect E https d r w =
     (if \<not> https \<and> IsHTTPSOnly (Res E) d r then (True, redirectToHTTPS r 301 w) else (False, w))"

definition tryAuxiliaryHandlers ::
  "app_env \<Rightarrow> theApp \<Rightarrow> bool \<Rightarrow> string \<Rightarrow> app_domain option \<Rightarrow> request \<Rightarrow> resp \<Rightarrow> bool \<times> resp" where
  "tryAuxiliaryHandlers E a https host d r w =
     (if \<not> https \<and> gc_RedirectHTTP (c_General (ap_config a)) then (True, redirectToHTTPS r 307 w)
      else (case HandleArtifactRequest (ap_Handlers a) host r w of
              (True, w) \<Rightarrow> (True, w)
            | (False, w) \<Rightarrow>
                (case app_isReady a of
                   None \<Rightarrow> (True, w)
                 | Some False \<Rightarrow> (True, Serve503 w)
                 | Some True \<Rightarrow>
                     (if \<not> HasLookupPath (Res E) d r then
                        (case checkAuthAndServeNotFound E a d r w of
                           (True, w) \<Rightarrow> (True, w)
                         | (False, w) \<Rightarrow> https_only_redirect E https d r w)
                      else https_only_redirect E https d r w))))"

section \<open>The middlewares\<close>

record req_context =
  cx_Host :: string
  cx_Domain :: "app_domain option"

type_synonym ctx_handler = "req_context \<Rightarrow> handler"

definition routingMiddleware :: "app_env \<Rightarrow> theApp \<Rightarrow> ctx_handler \<Rightarrow> handler" where
  "routingMiddleware E a h r w =
     (case getHostAndDomain E a r of
        (host, None, _) \<Rightarrow> w
      | (host, Some (Inl err), _) \<Rightarrow>
          (if err \<noteq> ErrDomainDoesNotExist then Serve502 w else h \<lparr>cx_Host = host, cx_Domain = None\<rparr> r w)
      | (host, Some (Inr d), _) \<Rightarrow> h \<lparr>cx_Host = host, cx_Domain = d\<rparr> r w)"

definition healthCheckMiddleware :: "app_env \<Rightarrow> theApp \<Rightarrow> handler \<Rightarrow> handler result" where
  "healthCheckMiddleware E a h =
     (case ae_BasicAccessLogger E (c_Log_Format (ap_config a)) of
        Inl err \<Rightarrow> Inl err
      | Inr logged \<Rightarrow>
          Inr (\<lambda>r w. if r_RequestURI r = gc_StatusPath (c_General (ap_config a)) then logged (\<lambda>r w. app_healthCheck a w) r w
                     else h r w))"

definition customHeadersMiddleware :: "theApp \<Rightarrow> handler \<Rightarrow> handler" where
  "customHeadersMiddleware a h r w = h r (AddCustomHeaders (ap_CustomHeaders a) w)"

definition acmeMiddleware :: "app_env \<Rightarrow> theApp \<Rightarrow> ctx_handler \<Rightarrow> ctx_handler" where
  "acmeMiddleware E a h cx r w =
     (case ServeAcmeChallenges (ap_AcmeMiddleware a) (domain_ServeFileHTTP (Res E) (cx_Domain cx)) r w of
        (True, w) \<Rightarrow> w
      | (False, w) \<Rightarrow> h cx r w)"

text \<open>The domains the access control looks up itself; a lookup that panics is read as an error.\<close>

definition auth_GetDomain :: "app_env \<Rightarrow> theApp \<Rightarrow> string \<Rightarrow> app_domain option result" where
  "auth_GetDomain E a name =
     (case fst (app_domain E a name) of Some res \<Rightarrow> res | None \<Rightarrow> Inl (ErrMsg ''invalid memory address or nil pointer dereference''))"

definition authMiddleware :: "app_env \<Rightarrow> theApp \<Rightarrow> ctx_handler \<Rightarrow> ctx_handler" where
  "authMiddleware E a h cx r w =
     (case TryAuthenticate (ae_auth E) (ap_Auth a) (auth_GetDomain E a) r w of
        (True, w) \<Rightarrow> w
      | (False, w) \<Rightarrow> h cx r w)"

definition auxiliaryMiddleware :: "app_env \<Rightarrow> theApp \<Rightarrow> ctx_handler \<Rightarrow> ctx_handler" where
  "auxiliaryMiddleware E a h cx r w =
     (case tryAuxiliaryHandlers E a (IsHTTPS r) (cx_Host cx) (cx_Domain cx) r w of
        (True, w) \<Rightarrow> w
      | (False, w) \<Rightarrow> h cx r w)"

definition accessControlMiddleware :: "app_env \<Rightarrow> theApp \<Rightarrow> ctx_handler \<Rightarrow> ctx_handler" where
  "accessControlMiddleware E a h cx r w =
     (if IsAccessControlEnabled (Res E) (cx_Domain cx) r then
        (case CheckAuthentication (ae_auth E) (ap_Auth a) (Res E) (cx_Domain cx) r w of
           (True, w) \<Rightarrow> w
         | (False, w) \<Rightarrow> h cx r w)
      else h cx r w)"

definition serveFileOrNotFoundHandler :: "app_env \<Rightarrow> theApp \<Rightarrow> ctx_handler" where
  "serveFileOrNotFoundHandler E a cx r w =
     (case domain_ServeFileHTTP (Res E) (cx_Domain cx) r w of
        (True, w) \<Rightarrow> w
      | (False, w) \<Rightarrow>
          (if IsNamespaceProject (Res E) (cx_Domain cx) r then
             (case CheckAuthenticationWithoutProject (ae_auth E) (ap_Auth a) (Res E) (cx_Domain cx) r w of
                (True, w) \<Rightarrow> w
              | (False, w) \<Rightarrow> domain_ServeNotFoundHTTP (Res E) (cx_Domain cx) r w)
           else domain_ServeNotFoundHTTP (Res E) (cx_Domain cx) r w))"

definition setRequestScheme :: "request \<Rightarrow> request" where
  "setRequestScheme r =
     (if u_Scheme (r_URL r) = SchemeHTTPS \<or> r_TLS r then r\<lparr>r_URL := (r_URL r)\<lparr>u_Scheme := SchemeHTTPS\<rparr>\<rparr>
      else r\<lparr>r_URL := (r_URL r)\<lparr>u_Scheme := SchemeHTTP\<rparr>\<rparr>)"

definition httpInitialMiddleware :: "handler \<Rightarrow> handler" where
  "httpInitialMiddleware h r w = h (setRequestScheme r) w"

definition proxyInitialMiddleware :: "handler \<Rightarrow> handler" where
  "proxyInitialMiddleware h r w =
     (let forwardedHost = header_Get (r_Header r) ''X-Forwarded-Host''
      in h (if forwardedHost \<noteq> [] then r\<lparr>r_Host := forwardedHost\<rparr> else r) w)"

section \<open>The pipeline\<close>

definition content_pipeline :: "app_env \<Rightarrow> theApp \<Rightarrow> ctx_handler \<Rightarrow> ctx_handler" where
  "content_pipeline E a final =
     acmeMiddleware E a (authMiddleware E a (auxiliaryMiddleware E a (accessControlMiddleware E a final)))"

definition pipeline_with :: "app_env \<Rightarrow> theApp \<Rightarrow> ctx_handler \<Rightarrow> handler result" where
  "pipeline_with E a final =
     (case ae_AccessLogger E (c_Log_Format (ap_config a)) of
        Inl err \<Rightarrow> Inl err
      | Inr logged \<Rightarrow>
          (case healthCheckMiddleware E a
                  (routingMiddleware E a (\<lambda>cx. ae_metrics E (logged (content_pipeline E a final cx)))) of
             Inl err \<Rightarrow> Inl err
           | Inr h \<Rightarrow>
               Inr (rejectmethods_NewMiddleware
                     (ae_InjectCorrelationID E (gc_PropagateCorrelationID (c_General (ap_config a)))
                       (customHeadersMiddleware a h)))))"

definition buildHandlerPipeline :: "app_env \<Rightarrow> theApp \<Rightarrow> handler result" where
  "buildHandlerPipeline E a =
     pipeline_with E a
       (if \<not> gc_DisableCrossOriginRequests (c_General (ap_config a))
        then (\<lambda>cx. ae_cors E (serveFileOrNotFoundHandler E a cx))
        else serveFileOrNotFoundHandler E a)"

text \<open>The handlers of the plain and of the proxy listeners, and what a request leaves in the
  application: the readiness of the source its host was looked up in.\<close>

definition http_handler :: "app_env \<Rightarrow> theApp \<Rightarrow> handler result" where
  "http_handler E a = (case buildHandlerPipeline E a of Inl err \<Rightarrow> Inl err | Inr h \<Rightarrow> Inr (httpInitialMiddleware h))"

definition proxy_handler :: "app_env \<Rightarrow> theApp \<Rightarrow> handler result" where
  "proxy_handler E a =
     (case buildHandlerPipeline E a of Inl err \<Rightarrow> Inl err | Inr h \<Rightarrow> Inr (proxyInitialMiddleware (ae_ProxyHeaders E h)))"

definition routed_app :: "app_env \<Rightarrow> theApp \<Rightarrow> request \<Rightarrow> theApp" where
  "routed_app E a r =
     (if r_Method r \<in> set acceptedMethods \<and> r_RequestURI r \<noteq> gc_StatusPath (c_General (ap_config a))
      then snd (snd (getHostAndDomain E a r)) else a)"

section \<open>Putting the application together\<close>

definition setAuth :: "auth_env \<Rightarrow> Config \<Rightarrow> Auth option result" where
  "setAuth env config =
     (let ac = c_Authentication config
      in if ac_ClientID ac = [] then Inr None
         else (case auth_New env (gc_Domain (c_General config)) (ac_Secret ac) (ac_ClientID ac) (ac_ClientSecret ac)
                      (ac_RedirectURI ac) (gk_Server (c_GitLab config)) (ac_Scope ac) of
                 Inl err \<Rightarrow> Inl err
               | Inr auth \<Rightarrow> Inr (Some auth)))"

text \<open>\<^verbatim>\<open>runApp\<close> up to the start of the listeners: \<open>gitlab\<close> is what creating the GitLab source gave,
  \<open>logging\<close> and \<open>reconfigure\<close> are the errors of setting up the log and the zip file system.\<close>

definition runApp ::
  "app_env \<Rightarrow> Gitlab result \<Rightarrow> go_error option \<Rightarrow> go_error option \<Rightarrow> Config \<Rightarrow> theApp result" where
  "runApp E gitlab logging reconfigure config =
     (case NewDomains gitlab (DomainConfigSource config) of
        Inl err \<Rightarrow> Inl err
      | Inr domains \<Rightarrow>
          (case logging of
             Some err \<Rightarrow> Inl err
           | None \<Rightarrow>
               (let art = (if as_URL (c_ArtifactsServer config) \<noteq> []
                           then Some (artifact_New (as_URL (c_ArtifactsServer config)) (gc_Domain (c_General config)))
                           else None)
                in case setAuth (ae_auth E) config of
                     Inl err \<Rightarrow> Inl err
                   | Inr auth \<Rightarrow>
                       (case (if gc_CustomHeaders (c_General config) \<noteq> []
                              then ParseHeaderString (gc_CustomHeaders (c_General config)) else Inr []) of
                          Inl err \<Rightarrow> Inl err
                        | Inr customHeaders \<Rightarrow>
                            (case reconfigure of
                               Some err \<Rightarrow> Inl err
                             | None \<Rightarrow>
                                 Inr \<lparr>ap_config = config, ap_domains = domains, ap_Artifact = art, ap_Auth = auth,
                                      ap_Handlers = \<lparr>ha_env = ae_auth E, ha_Auth = auth, ha_client = ae_client E, ha_Artifact = art\<rparr>,
                                      ap_AcmeMiddleware = (if gk_Server (c_GitLab config) \<noteq> [] then Some (gk_Server (c_GitLab config)) else None),
                                      ap_CustomHeaders = customHeaders\<rparr>)))))"

definition app_TLSConfig :: "app_env \<Rightarrow> theApp \<Rightarrow> (certificate, string \<Rightarrow> certificate option \<times> theApp) tls_Config result" where
  "app_TLSConfig E a =
     (let g = c_General (ap_config a)
      in tls_Create (ae_x509 E) (gc_RootCertificate g) (gc_RootKey g) (ServeTLS E a) (gc_InsecureCiphers g)
           (c_TLS_MinVersion (ap_config a)) (c_TLS_MaxVersion (ap_config a)))"

section \<open>The resolver of the application keeps the contract\<close>

interpretation app_resolver: resolver_ops "source_Resolve (disk_servings env localfs zipfs) lookup" for env localfs zipfs lookup
proof (rule resolver_ops.intro)
  fix R r s
  assume a: "source_Resolve (disk_servings env localfs zipfs) lookup R r = Inr s"
  show "serving_ops (sr_Serving s)"
  proof (cases R)
    case (DiskResolver D)
    then have "sr_Serving s = Disk_New env localfs"
      using a by (cases D) (auto simp: Group_Resolve_def custom_Resolve_def disk_servings_def split: option.splits prod.splits)
    then show ?thesis using disk_serving.serving_ops_axioms by metis
  next
    case (ApiResolver G)
    then show ?thesis using a gitlab_resolver.Resolve_serving by simp
  qed
qed

end
