(* ===== verification/Pipeline.thy ===== *)
theory Pipeline
  imports App
begin

text \<open>
  What the handler pipeline of the daemon (\<^verbatim>\<open>buildHandlerPipeline\<close> in \<^verbatim>\<open>app.go\<close>) guarantees as a
  whole: which requests never reach the handler that serves files, what an anonymous visitor can learn
  about a private project, where redirects to HTTPS lead, and in which order the guards are applied.
\<close>

section \<open>What reaches the end of the pipeline\<close>

text \<open>What is used of the wrappers of other packages: for a request they call the wrapped handler with
  that request, so that handlers which agree on the request give the same answer.\<close>

definition forwards :: "(handler \<Rightarrow> handler) \<Rightarrow> bool" where
  "forwards m \<longleftrightarrow> (\<forall>h h' r. (\<forall>w. h r w = h' r w) \<longrightarrow> (\<forall>w. m h r w = m h' r w))"

definition wrappers_forward :: "app_env \<Rightarrow> theApp \<Rightarrow> bool" where
  "wrappers_forward E a \<longleftrightarrow>
     (\<forall>m. ae_AccessLogger E (c_Log_Format (ap_config a)) = Inr m \<longrightarrow> forwards m) \<and>
     forwards (ae_metrics E) \<and> (\<forall>b. forwards (ae_InjectCorrelationID E b))"

text \<open>A request is stopped when nothing it is answered with depends on the handler that serves files.\<close>

definition stopped :: "app_env \<Rightarrow> theApp \<Rightarrow> req_context \<Rightarrow> request \<Rightarrow> bool" where
  "stopped E a cx r \<longleftrightarrow>
     (\<forall>final final' w. auxiliaryMiddleware E a (accessControlMiddleware E a final) cx r w =
        auxiliaryMiddleware E a (accessControlMiddleware E a final') cx r w)"

lemma forwardsD: "forwards m \<Longrightarrow> (\<And>w. h r w = h' r w) \<Longrightarrow> m h r w = m h' r w"
  by (auto simp: forwards_def)

lemma acme_skips:
  assumes "ap_AcmeMiddleware a = None \<or> \<not> isAcmeChallenge (u_Path (r_URL r))"
  shows "acmeMiddleware E a h cx r w = h cx r w"
  using assms by (auto simp: acmeMiddleware_def ServeAcmeChallenges_def split: option.splits)

lemma content_stopped:
  assumes "stopped E a cx r" "ap_AcmeMiddleware a = None \<or> \<not> isAcmeChallenge (u_Path (r_URL r))"
  shows "content_pipeline E a final cx r w = content_pipeline E a final' cx r w"
  using assms(1)
  by (simp add: content_pipeline_def acme_skips [OF assms(2)] authMiddleware_def stopped_def split: prod.splits bool.splits)

lemma pipeline_stopped:
  assumes "pipeline_with E a final = Inr h" "pipeline_with E a final' = Inr h'" "wrappers_forward E a"
    and "fst (snd (getHostAndDomain E a r)) = Some (Inr d)"
    and "stopped E a \<lparr>cx_Host = GetHostWithoutPort r, cx_Domain = d\<rparr> r"
    and "ap_AcmeMiddleware a = None \<or> \<not> isAcmeChallenge (u_Path (r_URL r))"
  shows "h r w = h' r w"
proof -
  let ?cx = "\<lparr>cx_Host = GetHostWithoutPort r, cx_Domain = d\<rparr>"
  let ?b = "gc_PropagateCorrelationID (c_General (ap_config a))"
  obtain logged basic where l: "ae_AccessLogger E (c_Log_Format (ap_config a)) = Inr logged"
    and b: "ae_BasicAccessLogger E (c_Log_Format (ap_config a)) = Inr basic"
    using assms(1) by (auto simp: pipeline_with_def healthCheckMiddleware_def split: sum.splits)
  define route where "route f = routingMiddleware E a (\<lambda>cx. ae_metrics E (logged (content_pipeline E a f cx)))" for f
  define health where "health f = (\<lambda>r w. if r_RequestURI r = gc_StatusPath (c_General (ap_config a))
      then basic (\<lambda>r w. app_healthCheck a w) r w else route f r w)" for f
  have h: "h = rejectmethods_NewMiddleware (ae_InjectCorrelationID E ?b (customHeadersMiddleware a (health final)))"
    and h': "h' = rejectmethods_NewMiddleware (ae_InjectCorrelationID E ?b (customHeadersMiddleware a (health final')))"
    unfolding health_def route_def using assms(1,2) l b
    by (simp_all add: pipeline_with_def healthCheckMiddleware_def)
  have fw: "forwards logged" "forwards (ae_metrics E)" "forwards (ae_InjectCorrelationID E ?b)"
    using assms(3) l by (auto simp: wrappers_forward_def)
  have inner: "ae_metrics E (logged (content_pipeline E a final ?cx)) r w =
      ae_metrics E (logged (content_pipeline E a final' ?cx)) r w" for w
    by (intro forwardsD [OF fw(2)] forwardsD [OF fw(1)] content_stopped assms(5,6))
  obtain a' where g: "getHostAndDomain E a r = (GetHostWithoutPort r, Some (Inr d), a')"
    using assms(4) by (cases "app_domain E a (GetHostWithoutPort r)") (auto simp: getHostAndDomain_def Let_def)
  have "\<forall>w. customHeadersMiddleware a (health final) r w = customHeadersMiddleware a (health final') r w"
    using inner by (simp add: customHeadersMiddleware_def health_def route_def routingMiddleware_def g)
  with fw(3) show ?thesis unfolding forwards_def by (simp add: h h' rejectmethods_NewMiddleware_def)
qed

lemma access_control_stops:
  assumes "IsAccessControlEnabled (Res E) (cx_Domain cx) r"
    and "\<And>auth. ap_Auth a = Some auth \<Longrightarrow> \<not> access_granted (ae_auth E) auth (GetProjectID (Res E) (cx_Domain cx) r) r"
  shows "stopped E a cx r"
proof -
  have "fst (CheckAuthentication (ae_auth E) (ap_Auth a) (Res E) (cx_Domain cx) r w)" for w
  proof (cases "ap_Auth a")
    case (Some auth)
    have "checkAuthentication (ae_auth E) auth (Res E) (cx_Domain cx) r w \<noteq> (False, w')" for w'
      using checkAuthentication_granted [of "ae_auth E" auth "Res E" "cx_Domain cx" r w w'] assms(2) [OF Some] by blast
    then show ?thesis
      using Some by (cases "checkAuthentication (ae_auth E) auth (Res E) (cx_Domain cx) r w") (auto simp: CheckAuthentication_def)
  qed (simp add: CheckAuthentication_def)
  then have "accessControlMiddleware E a final cx r w = accessControlMiddleware E a final' cx r w" for final final' w
    using assms(1) by (simp add: accessControlMiddleware_def split: prod.splits bool.splits) (metis fst_conv)
  then show ?thesis by (simp add: stopped_def auxiliaryMiddleware_def split: prod.splits bool.splits)
qed

lemma https_only_stops:
  assumes "\<not> IsHTTPS r" "IsHTTPSOnly (Res E) (cx_Domain cx) r"
  shows "stopped E a cx r"
proof -
  have "fst (tryAuxiliaryHandlers E a False (cx_Host cx) (cx_Domain cx) r w)" for w
    using assms(2) by (auto simp: tryAuxiliaryHandlers_def https_only_redirect_def split: prod.splits bool.splits option.splits)
  then show ?thesis using assms(1)
    by (simp add: stopped_def auxiliaryMiddleware_def split: prod.splits bool.splits) (metis fst_conv)
qed

section \<open>Properties\<close>

text \<open>C1. Nothing of a project with access control reaches a visitor to whom GitLab does not grant it:
  for such a request (ACME challenges apart) the answer of the whole pipeline is the same whatever
  handler stands at its end in place of the one that serves files.\<close>

theorem pipeline_access_control:
  assumes "buildHandlerPipeline E a = Inr h" and "pipeline_with E a final = Inr h'" and "wrappers_forward E a"
    and "fst (snd (getHostAndDomain E a r)) = Some (Inr d)"
    and "IsAccessControlEnabled (Res E) d r"
    and "\<And>auth. ap_Auth a = Some auth \<Longrightarrow> \<not> access_granted (ae_auth E) auth (GetProjectID (Res E) d r) r"
    and "ap_AcmeMiddleware a = None \<or> \<not> isAcmeChallenge (u_Path (r_URL r))"
  shows "h r w = h' r w"
  by (rule pipeline_stopped [OF assms(1) [unfolded buildHandlerPipeline_def] assms(2-4) access_control_stops assms(7)])
     (simp_all add: assms(5,6))

text \<open>C9. Nothing of a project that is served over HTTPS only is sent over plain HTTP: for such a
  request (ACME challenges apart) the answer does not depend on the handler that serves files.\<close>

theorem pipeline_https_only:
  assumes "buildHandlerPipeline E a = Inr h" and "pipeline_with E a final = Inr h'" and "wrappers_forward E a"
    and "fst (snd (getHostAndDomain E a r)) = Some (Inr d)"
    and "\<not> IsHTTPS r" and "IsHTTPSOnly (Res E) d r"
    and "ap_AcmeMiddleware a = None \<or> \<not> isAcmeChallenge (u_Path (r_URL r))"
  shows "h r w = h' r w"
  by (rule pipeline_stopped [OF assms(1) [unfolded buildHandlerPipeline_def] assms(2-4) https_only_stops assms(7)])
     (simp_all add: assms(5,6))

section \<open>What an anonymous visitor can learn\<close>

text \<open>A visitor without a token: the session can be read and holds none.\<close>

definition anonymous :: "auth_env \<Rightarrow> request \<Rightarrow> bool" where
  "anonymous env r \<longleftrightarrow> (\<exists>s. getSessionFromStore env r = (s, None) \<and> se_Values s ''access_token'' = None)"

text \<open>The situations that are to look alike: there is no project at the address; there is one with
  access control; or the address falls to the public project of the namespace, which has no such file.\<close>

definition concealed :: "app_env \<Rightarrow> theApp \<Rightarrow> req_context \<Rightarrow> request \<Rightarrow> resp \<Rightarrow> bool" where
  "concealed E a cx r w \<longleftrightarrow>
     app_isReady a = Some True \<and>
     (\<not> HasLookupPath (Res E) (cx_Domain cx) r \<or>
      (IsHTTPS r \<or> \<not> IsHTTPSOnly (Res E) (cx_Domain cx) r) \<and>
      (IsAccessControlEnabled (Res E) (cx_Domain cx) r \<or>
       IsNamespaceProject (Res E) (cx_Domain cx) r \<and>
       domain_ServeFileHTTP (Res E) (cx_Domain cx) r w = (False, w)))"

lemma TryMakeRequest_False: "TryMakeRequest clnt art host r token extra w = (False, w') \<Longrightarrow> w' = w"
  by (auto simp: TryMakeRequest_def split: option.splits if_split_asm)

lemma HandleArtifactRequest_False: "HandleArtifactRequest h host r w = (False, w') \<Longrightarrow> w' = w"
  using TryMakeRequest_False
  by (fastforce simp: HandleArtifactRequest_def GetTokenIfExists_def checkSession_def
      split: option.splits sum.splits prod.splits)

lemma anonymous_check:
  assumes "anonymous env r"
  shows "checkAuthentication env auth Resolve d r w = (True, snd (checkSessionIsValid env auth r w))"
    "TryAuthenticate env (Some auth) getDomain r w =
       (if u_Path (r_URL r) \<noteq> callbackPath then (False, w) else TryAuthenticate env (Some auth) getDomain r w)"
proof -
  obtain s where s: "getSessionFromStore env r = (s, None)" "se_Values s ''access_token'' = None"
    using assms by (auto simp: anonymous_def)
  have "fst (checkSessionIsValid env auth r w) = None"
    using s by (simp add: checkSessionIsValid_def checkSession_def checkTokenExists_def Let_def split: prod.splits option.splits)
  then show "checkAuthentication env auth Resolve d r w = (True, snd (checkSessionIsValid env auth r w))"
    by (cases "checkSessionIsValid env auth r w") (simp add: checkAuthentication_def)
  show "TryAuthenticate env (Some auth) getDomain r w =
       (if u_Path (r_URL r) \<noteq> callbackPath then (False, w) else TryAuthenticate env (Some auth) getDomain r w)"
    using s by (simp add: TryAuthenticate_def checkSession_def)
qed

lemma HasLookupPath_iff: "HasLookupPath Resolve d r \<longleftrightarrow> (\<exists>lp. GetLookupPath Resolve d r = Inr lp)"
  by (auto simp: HasLookupPath_def GetLookupPath_def domain_resolve_def split: option.splits sum.splits)

lemma flags_HasLookupPath:
  "IsAccessControlEnabled Resolve d r \<Longrightarrow> HasLookupPath Resolve d r"
  "IsNamespaceProject Resolve d r \<Longrightarrow> HasLookupPath Resolve d r"
  by (auto simp: HasLookupPath_iff IsAccessControlEnabled_def IsNamespaceProject_def split: sum.splits)

text \<open>The answer to an anonymous visitor at a concealed address does not mention the domain.\<close>

lemma concealed_answer:
  assumes "concealed E a cx r w" "ap_Auth a = Some auth" "anonymous (ae_auth E) r"
  shows "auxiliaryMiddleware E a (accessControlMiddleware E a (serveFileOrNotFoundHandler E a)) cx r w =
    (if \<not> IsHTTPS r \<and> gc_RedirectHTTP (c_General (ap_config a)) then redirectToHTTPS r 307 w
     else case HandleArtifactRequest (ap_Handlers a) (cx_Host cx) r w of
            (True, w) \<Rightarrow> w
          | (False, w) \<Rightarrow> snd (checkSessionIsValid (ae_auth E) auth r w))"
proof -
  let ?d = "cx_Domain cx"
  note checks = anonymous_check(1) [OF assms(3)] CheckAuthentication_def CheckAuthenticationWithoutProject_def
  have ready: "app_isReady a = Some True" using assms(1) by (simp add: concealed_def)
  obtain stop w' where h: "HandleArtifactRequest (ap_Handlers a) (cx_Host cx) r w = (stop, w')" by fastforce
  consider "\<not> HasLookupPath (Res E) ?d r"
    | "HasLookupPath (Res E) ?d r" "IsHTTPS r \<or> \<not> IsHTTPSOnly (Res E) ?d r" "IsAccessControlEnabled (Res E) ?d r"
    | "HasLookupPath (Res E) ?d r" "IsHTTPS r \<or> \<not> IsHTTPSOnly (Res E) ?d r" "\<not> IsAccessControlEnabled (Res E) ?d r"
      "IsNamespaceProject (Res E) ?d r" "domain_ServeFileHTTP (Res E) ?d r w = (False, w)"
    using assms(1) flags_HasLookupPath unfolding concealed_def by blast
  then show ?thesis
  proof cases
    case 1
    then show ?thesis
      by (cases stop) (simp_all add: auxiliaryMiddleware_def tryAuxiliaryHandlers_def h ready checkAuthAndServeNotFound_def checks assms(2))
  next
    case 2
    then show ?thesis
      by (cases stop) (auto simp: auxiliaryMiddleware_def tryAuxiliaryHandlers_def h ready https_only_redirect_def
          accessControlMiddleware_def checks assms(2))
  next
    case 3
    have "w' = w" if "\<not> stop" using HandleArtifactRequest_False h that by simp
    with 3 show ?thesis
      by (cases stop) (auto simp: auxiliaryMiddleware_def tryAuxiliaryHandlers_def h ready https_only_redirect_def
          accessControlMiddleware_def serveFileOrNotFoundHandler_def checks assms(2))
  qed
qed


section \<open>Redirects to HTTPS\<close>

lemma getscheme_https: "getscheme (''https:'' @ s) = Some (''https'', s)"
proof -
  have "is_alpha c" if "c \<in> set ''https''" for c using that by (auto simp: is_alpha_def byte_def)
  moreover have "\<not> is_alpha colon" "\<not> is_digit colon" by code_simp+
  ultimately show ?thesis by (simp add: getscheme_def)
qed

lemma url_Parse_https:
  assumes "url_Parse (''https:'' @ s) = Some u"
  shows "u_Scheme u = ''https''"
proof -
  have b: "before_byte (CHR ''#'') (''https:'' @ s) = ''https:'' @ before_byte (CHR ''#'') s" by (simp add: before_byte_def)
  have l: "ToLower ''https'' = ''https''" by code_simp
  obtain u1 where u1: "url_parse_nofrag (''https:'' @ before_byte (CHR ''#'') s) = Some u1" "u_Scheme u = u_Scheme u1"
    using assms unfolding url_Parse_def b by (auto simp: Let_def split: option.splits if_split_asm)
  then show ?thesis
    unfolding url_parse_nofrag_def getscheme_https
    by (auto simp: Let_def l dest: parse_rest_scheme split: if_split_asm)
qed

lemma redirect_target_https: "redirect_target p (''https:'' @ s) = ''https:'' @ s"
  using url_Parse_https [of s] by (auto simp: redirect_target_def split: option.splits)

lemma escape_host_bytes:
  assumes "c \<in> set (url_escape encodeHost s)"
  shows "byte c < 128 \<and> c \<notin> {slash, CHR ''?'', CHR ''#''}"
proof -
  have lit: "shouldEscape encodeHost slash" "shouldEscape encodeHost (CHR ''?'')" "shouldEscape encodeHost (CHR ''#'')"
    by code_simp+
  have high: "shouldEscape encodeHost x" if "\<not> byte x < 128" for x
  proof -
    have "x \<noteq> c" if "byte c < 128" for c using that \<open>\<not> byte x < 128\<close> by blast
    then have "x \<notin> set ''!$&'' \<union> {CHR 0x27} \<union> set ''()*+,;=:[]<>'' \<union> {CHR 0x22}" "x \<notin> set ''-_.~''"
      "x \<notin> set ''$&+,/:;=?@''" by (simp_all add: byte_def)
    moreover have "\<not> is_alpha x" "\<not> is_digit x" using that by (simp_all add: is_alpha_def is_digit_def)
    ultimately show ?thesis unfolding shouldEscape_def by (simp del: Un_iff set_simps)
  qed
  have hex: "byte (hex_digit n) < 128 \<and> hex_digit n \<notin> {slash, CHR ''?'', CHR ''#''}" if "n < 16" for n
  proof -
    have "byte (hex_digit n) = (if n < 10 then 48 + n else 55 + n)"
      using that by (simp add: hex_digit_def byte_def)
    moreover have "byte slash = 47" "byte (CHR ''?'') = 63" "byte (CHR ''#'') = 35" by (simp_all add: byte_def)
    ultimately show ?thesis using that by (auto split: if_split_asm)
  qed
  have "byte x div 16 < 16" "byte x mod 16 < 16" for x using byte_less [of x] by auto
  then have escaped: "byte y < 128 \<and> y \<notin> {slash, CHR ''?'', CHR ''#''}"
    if "y \<in> {CHR ''%'', hex_digit (byte x div 16), hex_digit (byte x mod 16)}" for x y
    using that hex by (auto simp: byte_def)
  have "byte y < 128 \<and> y \<notin> {slash, CHR ''?'', CHR ''#''}" if "y \<in> set (escape_byte encodeHost x)" for x y
  proof (cases "shouldEscape encodeHost x")
    case True
    with that have "y \<in> {CHR ''%'', hex_digit (byte x div 16), hex_digit (byte x mod 16)}" by (simp add: escape_byte_def)
    then show ?thesis by (rule escaped)
  next
    case False
    with that have "y = x" by (simp add: escape_byte_def)
    with False high [of x] lit show ?thesis by auto
  qed
  then show ?thesis using assms by (auto simp: url_escape_def)
qed

lemma hexEscape_append: "hexEscapeNonASCII (s @ t) = hexEscapeNonASCII s @ hexEscapeNonASCII t"
  by (simp add: hexEscapeNonASCII_def)

lemma hexEscape_ascii: "(\<And>c. c \<in> set s \<Longrightarrow> byte c < 128) \<Longrightarrow> hexEscapeNonASCII s = s"
  by (induction s) (force simp: hexEscapeNonASCII_def)+

lemma hexEscape_hd: "s \<noteq> [] \<Longrightarrow> byte (hd s) < 128 \<Longrightarrow> hexEscapeNonASCII s \<noteq> [] \<and> hd (hexEscapeNonASCII s) = hd s"
  by (cases s) (auto simp: hexEscapeNonASCII_def)

text \<open>A redirect to HTTPS answers with its status and leads to the host of the request: after the
  scheme the target has the escaped host, and after that nothing or a path, a query or a fragment.\<close>

theorem redirectToHTTPS_same_host:
  assumes "rw_sent w = None" and "r_Host r \<noteq> []" and "u_Opaque (r_URL r) = []"
  shows "rw_status (redirectToHTTPS r code w) = Some code \<and>
    (\<exists>rest. sent_header (redirectToHTTPS r code w) ''Location'' = Some [''https://'' @ url_escape encodeHost (r_Host r) @ rest] \<and>
       (rest = [] \<or> hd rest \<in> {slash, CHR ''?'', CHR ''#''}))"
proof -
  let ?u = "(r_URL r)\<lparr>u_Scheme := SchemeHTTPS, u_Host := r_Host r, u_User := None\<rparr>"
  let ?h = "url_escape encodeHost (r_Host r)"
  define path where "path = EscapedPath ?u"
  define tail where "tail = (if path \<noteq> [] \<and> hd path \<noteq> slash then ''/'' else []) @ path
    @ (if u_ForceQuery ?u \<or> u_RawQuery ?u \<noteq> [] then ''?'' @ u_RawQuery ?u else [])
    @ (if u_Fragment ?u \<noteq> [] then ''#'' @ url_escape encodeFragment (u_Fragment ?u) else [])"
  have tail: "tail = [] \<or> hd tail \<in> {slash, CHR ''?'', CHR ''#''}"
    by (cases path) (auto simp: tail_def)
  have str: "url_String ?u = ''https:'' @ ''//'' @ ?h @ tail"
    using assms(2,3) by (simp add: url_String_def url_authority_def Let_def SchemeHTTPS_def tail_def path_def)
  have "hexEscapeNonASCII (''https://'' @ ?h @ tail) = ''https://'' @ ?h @ hexEscapeNonASCII tail"
  proof -
    have "hexEscapeNonASCII ''https://'' = ''https://''" by code_simp
    moreover have "hexEscapeNonASCII ?h = ?h" using escape_host_bytes by (intro hexEscape_ascii) blast
    ultimately show ?thesis using hexEscape_append [of "''https://''"] hexEscape_append [of ?h] by metis
  qed
  moreover have "hexEscapeNonASCII tail = [] \<or> hd (hexEscapeNonASCII tail) \<in> {slash, CHR ''?'', CHR ''#''}"
  proof (cases "tail = []")
    case False
    then have "byte (hd tail) < 128" using tail by (auto simp: byte_def)
    then show ?thesis using hexEscape_hd [OF False] tail False by simp
  qed (simp add: hexEscapeNonASCII_def)
  ultimately show ?thesis
    using http_Redirect_Location [OF assms(1), of r "url_String ?u" code] redirect_target_https [of _ "''//'' @ ?h @ tail"]
    by (auto simp: redirectToHTTPS_def str http_Redirect_sent [OF assms(1)])
qed

section \<open>Certificates\<close>

text \<open>A certificate offered in a TLS handshake was parsed for a domain with the name the client asked
  for, up to letter case.\<close>

theorem ServeTLS_named:
  assumes "fst (ServeTLS E a name) = Some c" and "\<And>k. ds_disk (ap_domains a) = Some k \<Longrightarrow> disk_valid k"
  shows "\<exists>d. ToLower (d_Name d) = ToLower name \<and> fst (EnsureCertificate (ae_x509 E) (Some d)) = Inr c \<and>
    fst (app_domain E a name) = Some (Inr (Some d))"
proof -
  obtain d where d: "fst (app_domain E a name) = Some (Inr (Some d))" "fst (EnsureCertificate (ae_x509 E) (Some d)) = Inr c"
    using assms(1) by (auto simp: ServeTLS_def split: if_split_asm prod.splits option.splits sum.splits)
  then have "fst (domains_GetDomain (ae_lookup E) (ap_domains a) name) = Some (Inr (Some d))"
    by (auto simp: app_domain_def split: prod.splits)
  from domain_found_named [OF assms(2) this] d show ?thesis by blast
qed

section \<open>Witnesses\<close>

definition demo_anon_env :: auth_env where
  "demo_anon_env = (demo_auth_env 401)\<lparr>av_store_Get := (\<lambda>_. (demo_session\<lparr>se_Values := Map.empty\<rparr>, None))\<rparr>"

definition demo_api_path :: "string \<Rightarrow> bool \<Rightarrow> bool \<Rightarrow> nat \<Rightarrow> api_LookupPath" where
  "demo_api_path pre private https n =
     \<lparr>al_ProjectID = n, al_AccessControl = private, al_HTTPSOnly = https, al_Prefix = pre,
      al_Source = \<lparr>so_Type = ''file'', so_Path = ''g/p/public''\<rparr>\<rparr>"

definition demo_source :: "api_LookupPath list \<Rightarrow> string \<Rightarrow> Lookup" where
  "demo_source paths h = \<lparr>lk_Name = h, lk_Error = None,
     lk_Domain = Some \<lparr>vd_Certificate = [], vd_Key = [], vd_LookupPaths = paths\<rparr>\<rparr>"

definition demo_app_env :: "api_LookupPath list \<Rightarrow> auth_env \<Rightarrow> app_env" where
  "demo_app_env paths env =
     \<lparr>ae_lookup = demo_source paths, ae_servings = demo_servings, ae_auth = env, ae_client = demo_artifact_client,
      ae_x509 = (\<lambda>c k. Inr c), ae_AccessLogger = (\<lambda>_. Inr (\<lambda>h. h)), ae_BasicAccessLogger = (\<lambda>_. Inr (\<lambda>h. h)),
      ae_metrics = (\<lambda>h. h), ae_InjectCorrelationID = (\<lambda>_ h. h),
      ae_cors = (\<lambda>h r w. h r (hadd ''Vary'' ''Origin'' w)), ae_ProxyHeaders = (\<lambda>h. h)\<rparr>"

definition demo_app :: "auth_env \<Rightarrow> theApp" where
  "demo_app env =
     \<lparr>ap_config = config_of_flags demo_flags,
      ap_domains = \<lparr>ds_configSource = sourceGitlab, ds_gitlab = Some \<lparr>gl_isReady = True\<rparr>, ds_disk = None\<rparr>,
      ap_Artifact = None, ap_Auth = Some demo_auth,
      ap_Handlers = \<lparr>ha_env = env, ha_Auth = Some demo_auth, ha_client = demo_artifact_client, ha_Artifact = None\<rparr>,
      ap_AcmeMiddleware = Some ''http://gl'', ap_CustomHeaders = []\<rparr>"

definition demo_get :: "string \<Rightarrow> request" where
  "demo_get p = \<lparr>r_Method = ''GET'', r_URL = empty_url\<lparr>u_Path := p\<rparr>, r_Host = ''g.io'', r_RequestURI = p,
     r_Header = Map.empty, r_TLS = False\<rparr>"

definition demo_serve :: "api_LookupPath list \<Rightarrow> auth_env \<Rightarrow> request \<Rightarrow> resp" where
  "demo_serve paths env r =
     (case http_handler (demo_app_env paths env) (demo_app env) of Inr h \<Rightarrow> h r new_resp | Inl _ \<Rightarrow> new_resp)"

definition "demo_private = [demo_api_path ''/p/'' True False 2, demo_api_path ''/'' False False 1]"
definition "demo_private_tls = [demo_api_path ''/p/'' True True 2, demo_api_path ''/'' False False 1]"
definition "demo_public = [demo_api_path ''/q/'' True False 2, demo_api_path ''/'' False False 1]"

abbreviation "demo_E paths \<equiv> demo_app_env paths demo_anon_env"
abbreviation "demo_a \<equiv> demo_app demo_anon_env"
abbreviation "demo_r \<equiv> demo_get ''/p/x.html''"

lemma demo_wrappers: "wrappers_forward (demo_E paths) demo_a"
  by (auto simp: wrappers_forward_def forwards_def demo_app_env_def)

lemma demo_pipelines: "\<exists>h. pipeline_with (demo_E paths) demo_a final = Inr h"
  by (simp add: pipeline_with_def healthCheckMiddleware_def demo_app_env_def)

lemma demo_build: "\<exists>h. buildHandlerPipeline (demo_E paths) demo_a = Inr h"
  unfolding buildHandlerPipeline_def by (rule demo_pipelines)

lemma demo_no_challenge: "\<not> isAcmeChallenge (u_Path (r_URL demo_r))"
  by code_simp

lemma demo_anonymous: "anonymous demo_anon_env demo_r"
  by (simp add: anonymous_def getSessionFromStore_def demo_anon_env_def demo_auth_env_def)

lemma demo_not_granted: "\<not> access_granted demo_anon_env auth n demo_r"
  by (simp add: access_granted_def getSessionFromStore_def demo_anon_env_def demo_auth_env_def)

theorem pipeline_access_control_witness:
  "\<exists>h h'. buildHandlerPipeline (demo_E demo_private) demo_a = Inr h \<and>
     pipeline_with (demo_E demo_private) demo_a (\<lambda>_ _. Serve404) = Inr h' \<and> h demo_r new_resp = h' demo_r new_resp"
proof -
  have "case fst (snd (getHostAndDomain (demo_E demo_private) demo_a demo_r)) of
      Some (Inr d) \<Rightarrow> IsAccessControlEnabled (Res (demo_E demo_private)) d demo_r | _ \<Rightarrow> False" by code_simp
  then obtain d where d: "fst (snd (getHostAndDomain (demo_E demo_private) demo_a demo_r)) = Some (Inr d)"
    "IsAccessControlEnabled (Res (demo_E demo_private)) d demo_r" by (auto split: option.splits sum.splits)
  have g: "\<not> access_granted (ae_auth (demo_E demo_private)) auth (GetProjectID (Res (demo_E demo_private)) d demo_r) demo_r" for auth
    using demo_not_granted by (simp add: demo_app_env_def)
  obtain h h' where h: "buildHandlerPipeline (demo_E demo_private) demo_a = Inr h"
    "pipeline_with (demo_E demo_private) demo_a (\<lambda>_ _. Serve404) = Inr h'" using demo_build demo_pipelines by metis
  from pipeline_access_control [OF h demo_wrappers d g disjI2 [OF demo_no_challenge]] h show ?thesis by blast
qed

theorem pipeline_https_only_witness:
  "\<exists>h h'. buildHandlerPipeline (demo_E demo_private_tls) demo_a = Inr h \<and>
     pipeline_with (demo_E demo_private_tls) demo_a (\<lambda>_ _. Serve404) = Inr h' \<and> h demo_r new_resp = h' demo_r new_resp"
proof -
  have "case fst (snd (getHostAndDomain (demo_E demo_private_tls) demo_a demo_r)) of
      Some (Inr d) \<Rightarrow> IsHTTPSOnly (Res (demo_E demo_private_tls)) d demo_r | _ \<Rightarrow> False" by code_simp
  then obtain d where d: "fst (snd (getHostAndDomain (demo_E demo_private_tls) demo_a demo_r)) = Some (Inr d)"
    "IsHTTPSOnly (Res (demo_E demo_private_tls)) d demo_r" by (auto split: option.splits sum.splits)
  have s: "\<not> IsHTTPS demo_r" by code_simp
  obtain h h' where h: "buildHandlerPipeline (demo_E demo_private_tls) demo_a = Inr h"
    "pipeline_with (demo_E demo_private_tls) demo_a (\<lambda>_ _. Serve404) = Inr h'" using demo_build demo_pipelines by metis
  from pipeline_https_only [OF h demo_wrappers d(1) s d(2) disjI2 [OF demo_no_challenge]] h show ?thesis by blast
qed

abbreviation "demo_cx \<equiv> \<lparr>cx_Host = ''g.io'', cx_Domain = Some (domain_New ''g.io'' [] [] (ApiResolver GitlabResolver))\<rparr>"


theorem redirectToHTTPS_same_host_witness:
  "\<exists>rest. sent_header (redirectToHTTPS demo_r 301 new_resp) ''Location'' =
     Some [''https://'' @ url_escape encodeHost ''g.io'' @ rest] \<and> (rest = [] \<or> hd rest \<in> {slash, CHR ''?'', CHR ''#''})"
  using redirectToHTTPS_same_host [of new_resp demo_r 301] by (simp add: demo_get_def empty_url_def resp_simps)

definition demo_tls_app :: theApp where
  "demo_tls_app = demo_a\<lparr>ap_domains := demo_domains\<lparr>ds_disk := Some \<lparr>dk_dm = Some [''a.org'' \<mapsto>
     demo_domain\<lparr>d_CertificateCert := ''cert'', d_CertificateKey := ''key''\<rparr>]\<rparr>\<rparr>\<rparr>"

theorem ServeTLS_named_witness:
  "\<exists>d. ToLower (d_Name d) = ToLower ''A.org'' \<and> fst (EnsureCertificate (ae_x509 (demo_E [])) (Some d)) = Inr ''cert'' \<and>
     fst (app_domain (demo_E []) demo_tls_app ''A.org'') = Some (Inr (Some d))"
proof -
  have c: "fst (ServeTLS (demo_E []) demo_tls_app ''A.org'') = Some ''cert''" by code_simp
  have "disk_valid k" if "ds_disk (ap_domains demo_tls_app) = Some k" for k
    using that by (auto simp: demo_tls_app_def disk_valid_def keys_named_def demo_domain_def domain_New_def split: if_split_asm)
  from ServeTLS_named [OF c this] show ?thesis .
qed

section \<open>What the pipeline gives away\<close>

text \<open>Over plain HTTP a private project that is served over HTTPS only betrays its existence: an
  anonymous visitor is sent to HTTPS, while at an address without a project the visitor is asked to
  log in.\<close>

theorem https_only_reveals_project:
  "rw_status (demo_serve demo_private_tls demo_anon_env demo_r) = Some 301 \<and>
   rw_status (demo_serve demo_public demo_anon_env demo_r) = Some 302"
  by code_simp

text \<open>A cross-origin wrapper that announces that the answer varies with the origin tells a private
  project from a missing one: it stands behind the access control, so only the answer at an address
  without a private project passes through it.\<close>

theorem cors_reveals_project:
  "rw_status (demo_serve demo_private demo_anon_env demo_r) = rw_status (demo_serve demo_public demo_anon_env demo_r) \<and>
   sent_header (demo_serve demo_private demo_anon_env demo_r) ''Vary'' = None \<and>
   sent_header (demo_serve demo_public demo_anon_env demo_r) ''Vary'' = Some [''Origin'']"
  by code_simp

definition demo_challenge :: string where
  "demo_challenge = ''/.well-known/acme-challenge/t''"

definition demo_acme_root :: vfs_root where
  "demo_acme_root = \<lparr>rt_Lstat = (\<lambda>n. if n \<in> {''.well-known/acme-challenge/t''}
       then Inr \<lparr>fi_mode = ModeRegular, fi_size = 5, fi_modtime = 0\<rparr>
       else if n \<in> {''.well-known'', ''.well-known/acme-challenge''} then Inr \<lparr>fi_mode = ModeDir, fi_size = 5, fi_modtime = 0\<rparr>
       else Inl ErrOSNotExist),
     rt_Readlink = (\<lambda>_. Inl ErrOSNotExist),
     rt_Open = (\<lambda>n. if n = ''.well-known/acme-challenge/t'' then Inr \<lparr>vf_data = ''token'', vf_err = None, vf_seekable = True\<rparr>
       else Inl ErrOSNotExist)\<rparr>"

definition demo_acme :: "bool \<Rightarrow> resp" where
  "demo_acme private =
     (let E = (demo_E [demo_api_path ''/'' private False 1])\<lparr>ae_servings :=
         \<lparr>ss_local = Disk_New (demo_env []) (\<lambda>_. Inr demo_acme_root), ss_zip = Disk_New (demo_env []) (\<lambda>_. Inr demo_acme_root)\<rparr>\<rparr>
      in case http_handler E demo_a of Inr h \<Rightarrow> h (demo_get demo_challenge) new_resp | Inl _ \<Rightarrow> new_resp)"

text \<open>A challenge file is sent before the access control is asked, and the request goes on through the
  pipeline after that: an anonymous visitor gets the file of a private project with status 200, and the
  file of a public project is written twice.\<close>

theorem acme_file_then_pipeline:
  "rw_status (demo_acme True) = Some 200 \<and> rw_body (demo_acme True) = [FileBytes ''token''] \<and>
   rw_body (demo_acme False) = [FileBytes ''token'', FileBytes ''token'']"
  by code_simp

end
