(* ===== verification/Isolation.thy ===== *)
theory Isolation
  imports Pipeline
begin

text \<open>
  Sites are isolated from each other: what the whole pipeline answers to a request depends on the file
  systems only through the roots of two projects of the requested domain, the one the request resolves to and
  the namespace project, whose not-found page stands in for projects the visitor may not see.
\<close>

section \<open>Roots that look alike\<close>

text \<open>Two states of the operating system look alike below the directory of a site: the directory resolves
  alike, and every path at or below it leads to the same node.\<close>

definition same_below :: "os_fs \<Rightarrow> os_fs \<Rightarrow> string \<Rightarrow> bool" where
  "same_below os os' path \<longleftrightarrow>
     os_cwd os' = os_cwd os \<and>
     os_EvalSymlinks os' (filepath_Abs (os_cwd os) path) = os_EvalSymlinks os (filepath_Abs (os_cwd os) path) \<and>
     (\<forall>r. os_EvalSymlinks os (filepath_Abs (os_cwd os) path) = Inr r \<longrightarrow> clean_root r \<and>
        (\<forall>q. prefix (path_elems r) (path_elems q) \<longrightarrow>
           os_lookup os' q = os_lookup os q \<and> os_open_error os' q = os_open_error os q \<and>
           os_fstat_error os' q = os_fstat_error os q))"

lemma local_root_same:
  assumes "clean_root r"
    and "\<And>q. prefix (path_elems r) (path_elems q) \<Longrightarrow> os_lookup os' q = os_lookup os q \<and>
      os_open_error os' q = os_open_error os q \<and> os_fstat_error os' q = os_fstat_error os q"
  shows "local_root os' r = local_root os r"
proof -
  have below: "prefix (path_elems r) (path_elems full)" if "validatePath r n = Inr (full, v)" for n full v
    using validatePath_elems [OF assms(1) that] by simp
  have "local_Lstat os' r n = local_Lstat os r n \<and> local_Readlink os' r n = local_Readlink os r n \<and>
    local_Open os' r n = local_Open os r n" for n
  proof (cases "validatePath r n")
    case (Inl e)
    then show ?thesis by (simp add: local_Lstat_def local_Readlink_def local_Open_def)
  next
    case (Inr fv)
    obtain full v where fv: "fv = (full, v)" by (cases fv)
    have same: "os_lookup os' full = os_lookup os full" "os_open_error os' full = os_open_error os full"
      "os_fstat_error os' full = os_fstat_error os full"
      using assms(2) [OF below [OF Inr [unfolded fv]]] by simp_all
    show ?thesis unfolding local_Lstat_def local_Readlink_def local_Open_def os_Lstat_def os_Readlink_def
        os_OpenNoFollow_def Inr fv sum.case prod.case same by simp
  qed
  then show ?thesis by (auto simp: local_root_def)
qed

lemma local_Root_same:
  assumes "same_below os os' path"
  shows "local_Root os' path = local_Root os path"
proof (cases "os_EvalSymlinks os (filepath_Abs (os_cwd os) path)")
  case (Inl e)
  then show ?thesis using assms by (simp add: same_below_def local_Root_def local_Root_path_def)
next
  case (Inr r)
  then have r: "clean_root r" and b: "\<And>q. prefix (path_elems r) (path_elems q) \<Longrightarrow> os_lookup os' q = os_lookup os q \<and>
      os_open_error os' q = os_open_error os q \<and> os_fstat_error os' q = os_fstat_error os q"
    using assms by (simp_all add: same_below_def)
  from Inr assms have "local_Root_path os' path = local_Root_path os path"
    using b [of r] by (simp add: same_below_def local_Root_path_def os_Lstat_def)
  moreover have "r' = r" if "local_Root_path os path = Inr r'" for r'
    using that Inr by (auto simp: local_Root_path_def Let_def split: sum.splits if_split_asm)
  ultimately show ?thesis using local_root_same [OF r b] by (auto simp: local_Root_def split: sum.splits)
qed

section \<open>Requests that are served alike\<close>

definition same_serving :: "serving_request \<Rightarrow> serving_request \<Rightarrow> bool" where
  "same_serving s t \<longleftrightarrow> sr_LookupPath s = sr_LookupPath t \<and>
     Request_ServeFileHTTP s = Request_ServeFileHTTP t \<and> Request_ServeNotFoundHTTP s = Request_ServeNotFoundHTTP t"

text \<open>The request for the namespace project of a domain, and the projects a request can be answered from.\<close>

abbreviation namespace_request :: "request \<Rightarrow> request" where
  "namespace_request r \<equiv> r\<lparr>r_URL := (r_URL r)\<lparr>u_Path := ''/''\<rparr>\<rparr>"

definition same_sites :: "'r resolve_fn \<Rightarrow> 'r resolve_fn \<Rightarrow> 'r domain option \<Rightarrow> request \<Rightarrow> bool" where
  "same_sites R R' d r \<longleftrightarrow>
     (\<forall>dm. d = Some dm \<longrightarrow> (\<forall>q \<in> {r, namespace_request r}. rel_sum (=) same_serving (R (d_Resolver dm) q) (R' (d_Resolver dm) q)))"

lemma same_sites_resolve:
  assumes "same_sites R R' d r"
  shows "rel_sum (=) same_serving (domain_resolve R d r) (domain_resolve R' d r)"
  using assms by (cases d) (auto simp: same_sites_def domain_resolve_def)

lemma same_sites_lookup:
  assumes "same_sites R R' d r"
  shows "GetLookupPath R' d r = GetLookupPath R d r"
  using same_sites_resolve [OF assms]
  by (cases rule: rel_sum.cases) (simp_all add: GetLookupPath_def same_serving_def)

lemma same_sites_serve:
  assumes "same_sites R R' d r"
  shows "domain_ServeFileHTTP R' d r = domain_ServeFileHTTP R d r"
    and "domain_ServeNotFoundHTTP R' d r = domain_ServeNotFoundHTTP R d r"
  using same_sites_resolve [OF assms]
  by (cases rule: rel_sum.cases, simp_all add: fun_eq_iff domain_ServeFileHTTP_def domain_ServeNotFoundHTTP_def same_serving_def)+

lemma same_sites_namespace:
  assumes "same_sites R R' (Some dm) r"
  shows "serveNamespaceNotFound R' dm r = serveNamespaceNotFound R dm r"
proof -
  have "rel_sum (=) same_serving (R (d_Resolver dm) (namespace_request r)) (R' (d_Resolver dm) (namespace_request r))"
    using assms by (simp add: same_sites_def)
  then show ?thesis
    by (cases rule: rel_sum.cases) (simp_all add: fun_eq_iff serveNamespaceNotFound_def same_serving_def)
qed

lemma same_sites_flags:
  assumes "same_sites R R' d r"
  shows "IsHTTPSOnly R' d r = IsHTTPSOnly R d r" "IsAccessControlEnabled R' d r = IsAccessControlEnabled R d r"
    "IsNamespaceProject R' d r = IsNamespaceProject R d r" "GetProjectID R' d r = GetProjectID R d r"
    "HasLookupPath R' d r = HasLookupPath R d r"
  unfolding IsHTTPSOnly_def IsAccessControlEnabled_def IsNamespaceProject_def GetProjectID_def HasLookupPath_def
    same_sites_lookup [OF assms] by (rule refl)+

lemma same_sites_auth_failed:
  assumes "same_sites R R' d r"
  shows "ServeNotFoundAuthFailed R' d r = ServeNotFoundAuthFailed R d r"
proof (cases d)
  case (Some dm)
  then show ?thesis
    using same_sites_lookup [OF assms] same_sites_serve [OF assms] same_sites_flags [OF assms] same_sites_namespace [of R R' dm r] assms
    by (simp add: fun_eq_iff ServeNotFoundAuthFailed_def split: sum.split)
qed (simp add: fun_eq_iff ServeNotFoundAuthFailed_def split: sum.splits)

lemma same_sites_auth:
  assumes "same_sites R R' d r"
  shows "CheckAuthentication env auth R' d r = CheckAuthentication env auth R d r"
    "CheckAuthenticationWithoutProject env auth R' d r = CheckAuthenticationWithoutProject env auth R d r"
proof -
  have "checkAuthentication env a R' d r = checkAuthentication env a R d r" for a
    unfolding fun_eq_iff checkAuthentication_def same_sites_auth_failed [OF assms] same_sites_flags [OF assms] by simp
  then show "CheckAuthentication env auth R' d r = CheckAuthentication env auth R d r"
    "CheckAuthenticationWithoutProject env auth R' d r = CheckAuthenticationWithoutProject env auth R d r"
    by (cases auth; simp add: fun_eq_iff CheckAuthentication_def CheckAuthenticationWithoutProject_def)+
qed

lemmas same_sites_simps = same_sites_flags same_sites_serve same_sites_auth_failed same_sites_auth

section \<open>The pipeline\<close>

text \<open>Two environments that differ in the servings only.\<close>

lemma content_pipeline_same:
  assumes "E' = E\<lparr>ae_servings := ss\<rparr>" and "same_sites (Res E) (Res E') (cx_Domain cx) r" and "\<And>w. final' cx r w = final cx r w"
  shows "content_pipeline E' a final' cx r w = content_pipeline E a final cx r w"
proof -
  note same = same_sites_simps [OF assms(2)]
  have env: "ae_auth E' = ae_auth E" "ae_lookup E' = ae_lookup E" using assms(1) by simp_all
  have acme: "ServeAcmeChallenges m (domain_ServeFileHTTP (Res E') (cx_Domain cx)) r w =
    ServeAcmeChallenges m (domain_ServeFileHTTP (Res E) (cx_Domain cx)) r w" for m w
    unfolding ServeAcmeChallenges_def same ..
  have domains: "auth_GetDomain E' a = auth_GetDomain E a" unfolding fun_eq_iff auth_GetDomain_def app_domain_def env by simp
  have aux: "tryAuxiliaryHandlers E' a https host (cx_Domain cx) r w = tryAuxiliaryHandlers E a https host (cx_Domain cx) r w"
    for https host w
    unfolding tryAuxiliaryHandlers_def https_only_redirect_def checkAuthAndServeNotFound_def same env(1) ..
  show ?thesis
    unfolding content_pipeline_def acmeMiddleware_def authMiddleware_def auxiliaryMiddleware_def accessControlMiddleware_def
      acme aux domains same env(1) assms(3) ..
qed

lemma serve_handler_same:
  assumes "E' = E\<lparr>ae_servings := ss\<rparr>" and "same_sites (Res E) (Res E') (cx_Domain cx) r"
  shows "serveFileOrNotFoundHandler E' a cx r w = serveFileOrNotFoundHandler E a cx r w"
proof -
  have "ae_auth E' = ae_auth E" using assms(1) by simp
  note env = this
  show ?thesis unfolding serveFileOrNotFoundHandler_def same_sites_simps [OF assms(2)] env ..
qed

lemma pipeline_same:
  assumes "buildHandlerPipeline E a = Inr h" "buildHandlerPipeline E' a = Inr h'" "E' = E\<lparr>ae_servings := ss\<rparr>"
    and "wrappers_forward E a" "forwards (ae_cors E)"
    and "\<And>d. fst (snd (getHostAndDomain E a r)) = Some d \<Longrightarrow>
      same_sites (Res E) (Res E') (case d of Inr d \<Rightarrow> d | Inl _ \<Rightarrow> None) r"
  shows "h' r w = h r w"
proof -
  let ?b = "gc_PropagateCorrelationID (c_General (ap_config a))"
  obtain logged basic where l: "ae_AccessLogger E (c_Log_Format (ap_config a)) = Inr logged"
    and b: "ae_BasicAccessLogger E (c_Log_Format (ap_config a)) = Inr basic"
    using assms(1) by (auto simp: buildHandlerPipeline_def pipeline_with_def healthCheckMiddleware_def split: sum.splits)
  have env: "ae_metrics E' = ae_metrics E" "ae_cors E' = ae_cors E" "ae_InjectCorrelationID E' = ae_InjectCorrelationID E"
    "ae_AccessLogger E' = ae_AccessLogger E" "ae_BasicAccessLogger E' = ae_BasicAccessLogger E" "ae_lookup E' = ae_lookup E"
    using assms(3) by simp_all
  have g: "getHostAndDomain E' a r = getHostAndDomain E a r" by (simp add: getHostAndDomain_def app_domain_def env)
  define fin where "fin F = (if \<not> gc_DisableCrossOriginRequests (c_General (ap_config a))
      then (\<lambda>cx. ae_cors F (serveFileOrNotFoundHandler F a cx)) else serveFileOrNotFoundHandler F a)" for F
  define route where "route F = routingMiddleware F a (\<lambda>cx. ae_metrics E (logged (content_pipeline F a (fin F) cx)))" for F
  define health where "health F = (\<lambda>r w. if r_RequestURI r = gc_StatusPath (c_General (ap_config a))
      then basic (\<lambda>r w. app_healthCheck a w) r w else route F r w)" for F
  have h: "h = rejectmethods_NewMiddleware (ae_InjectCorrelationID E ?b (customHeadersMiddleware a (health E)))"
    and h': "h' = rejectmethods_NewMiddleware (ae_InjectCorrelationID E ?b (customHeadersMiddleware a (health E')))"
    unfolding health_def route_def using assms(1,2) [unfolded buildHandlerPipeline_def, folded fin_def] l b
    by (simp_all add: pipeline_with_def healthCheckMiddleware_def env)
  have fw: "forwards logged" "forwards (ae_metrics E)" "forwards (ae_InjectCorrelationID E ?b)"
    using assms(4) l by (auto simp: wrappers_forward_def)
  have fin: "fin E' cx r w = fin E cx r w" if "same_sites (Res E) (Res E') (cx_Domain cx) r" for cx w
    using forwardsD [OF assms(5), of "serveFileOrNotFoundHandler E' a cx" r "serveFileOrNotFoundHandler E a cx"]
      serve_handler_same [OF assms(3) that]
    by (simp only: fin_def env split: if_split) blast
  have inner: "ae_metrics E (logged (content_pipeline E' a (fin E') cx)) r w = ae_metrics E (logged (content_pipeline E a (fin E) cx)) r w"
    if "same_sites (Res E) (Res E') (cx_Domain cx) r" for cx w
    by (intro forwardsD [OF fw(2)] forwardsD [OF fw(1)] content_pipeline_same [OF assms(3) that] fin that)
  have "route E' r w = route E r w" for w
  proof -
    obtain host d a' where g': "getHostAndDomain E a r = (host, d, a')" by (metis prod_cases3)
    show ?thesis
    proof (cases d)
      case (Some res)
      then have s: "same_sites (Res E) (Res E') (case res of Inr d \<Rightarrow> d | Inl _ \<Rightarrow> None) r" using assms(6) [of res] g' by simp
      show ?thesis
      proof (cases res)
        case (Inl e)
        then show ?thesis using inner [of "\<lparr>cx_Host = host, cx_Domain = None\<rparr>"] s
          unfolding route_def routingMiddleware_def g g' Some by simp
      next
        case (Inr dm)
        then show ?thesis using inner [of "\<lparr>cx_Host = host, cx_Domain = dm\<rparr>"] s
          unfolding route_def routingMiddleware_def g g' Some by simp
      qed
    qed (simp add: route_def routingMiddleware_def g g')
  qed
  then have "\<forall>w. customHeadersMiddleware a (health E') r w = customHeadersMiddleware a (health E) r w"
    by (simp add: customHeadersMiddleware_def health_def)
  with fw(3) show ?thesis unfolding forwards_def by (simp add: h h' rejectmethods_NewMiddleware_def)
qed

section \<open>From file systems to sites\<close>

text \<open>The directories and archives the answer to a request may be taken from.\<close>

definition site_paths :: "'r resolve_fn \<Rightarrow> 'r domain option \<Rightarrow> request \<Rightarrow> string set" where
  "site_paths R d r =
     {lp_Path (sr_LookupPath s) |s dm q. d = Some dm \<and> q \<in> {r, namespace_request r} \<and> R (d_Resolver dm) q = Inr s}"

lemma Disk_same:
  assumes "fs' (lp_Path lp) = fs (lp_Path lp)"
  shows "same_serving \<lparr>sr_Serving = Disk_New env fs, sr_LookupPath = lp, sr_SubPath = sub\<rparr>
    \<lparr>sr_Serving = Disk_New env fs', sr_LookupPath = lp, sr_SubPath = sub\<rparr>"
proof -
  let ?h = "\<lambda>r. \<lparr>h_Request = r, h_LookupPath = lp, h_SubPath = sub\<rparr>"
  have "tryFile env fs' (?h r) w = tryFile env fs (?h r) w" "tryRedirects env fs' (?h r) w = tryRedirects env fs (?h r) w"
    "tryNotFound env fs' (?h r) w = tryNotFound env fs (?h r) w" for r w
    by (simp_all add: tryFile_def tryRedirects_def tryNotFound_def assms)
  note same = this
  show ?thesis
    unfolding same_serving_def fun_eq_iff Request_ServeFileHTTP_def Request_ServeNotFoundHTTP_def Disk_New_def
      Disk_ServeFileHTTP_def Disk_ServeNotFoundHTTP_def serving.simps serving_request.simps same by simp
qed

lemma find_lookup_same:
  assumes "\<And>s. find_lookup (disk_servings env fs zs) n p lps = Inr s \<Longrightarrow>
      fs' (lp_Path (sr_LookupPath s)) = fs (lp_Path (sr_LookupPath s)) \<and> zs' (lp_Path (sr_LookupPath s)) = zs (lp_Path (sr_LookupPath s))"
  shows "rel_sum (=) same_serving (find_lookup (disk_servings env fs zs) n p lps) (find_lookup (disk_servings env fs' zs') n p lps)"
  using assms
proof (induction lps)
  case (Cons a lps)
  show ?case
  proof (cases "lookup_matches p a")
    case True
    then show ?thesis
      using Cons.prems Disk_same [of fs' "fabricateLookupPath n a" fs env] Disk_same [of zs' "fabricateLookupPath n a" zs env]
      by (simp add: lookup_matches_def Let_def fabricateServing_def defaultServing_def disk_servings_def)
  next
    case False
    then show ?thesis using Cons by (simp add: lookup_matches_def Let_def)
  qed
qed simp

lemma source_Resolve_same:
  assumes "\<And>s. source_Resolve (disk_servings env fs zs) lookup R r = Inr s \<Longrightarrow>
      fs' (lp_Path (sr_LookupPath s)) = fs (lp_Path (sr_LookupPath s)) \<and> zs' (lp_Path (sr_LookupPath s)) = zs (lp_Path (sr_LookupPath s))"
  shows "rel_sum (=) same_serving (source_Resolve (disk_servings env fs zs) lookup R r) (source_Resolve (disk_servings env fs' zs') lookup R r)"
proof (cases R)
  case (DiskResolver D)
  show ?thesis
  proof (cases "disk_Resolve (Disk_New env fs) D r")
    case (Inl e)
    then have "disk_Resolve (Disk_New env fs') D r = Inl e"
      by (cases D) (auto simp: Group_Resolve_def custom_Resolve_def split: option.splits)
    with Inl DiskResolver show ?thesis by (simp add: disk_servings_def)
  next
    case (Inr s)
    then have s: "s = \<lparr>sr_Serving = Disk_New env fs, sr_LookupPath = sr_LookupPath s, sr_SubPath = sr_SubPath s\<rparr>"
      "disk_Resolve (Disk_New env fs') D r = Inr \<lparr>sr_Serving = Disk_New env fs', sr_LookupPath = sr_LookupPath s, sr_SubPath = sr_SubPath s\<rparr>"
      by (cases D; auto simp: Group_Resolve_def custom_Resolve_def split: option.splits)+
    have "fs' (lp_Path (sr_LookupPath s)) = fs (lp_Path (sr_LookupPath s))"
      using assms [of s] Inr DiskResolver by (simp add: disk_servings_def)
    from Disk_same [of fs' _ fs, OF this, of env "sr_SubPath s"] s(1) have
      "same_serving s \<lparr>sr_Serving = Disk_New env fs', sr_LookupPath = sr_LookupPath s, sr_SubPath = sr_SubPath s\<rparr>" by metis
    then show ?thesis using Inr s(2) DiskResolver by (simp add: disk_servings_def)
  qed
next
  case (ApiResolver G)
  then show ?thesis using assms
    by (cases G) (auto simp: gitlab_Resolve_def Let_def intro!: find_lookup_same split: option.splits)
qed

lemma same_sites_disk:
  assumes "\<And>p. p \<in> site_paths (source_Resolve (disk_servings env fs zs) lookup) d r \<Longrightarrow> fs' p = fs p \<and> zs' p = zs p"
  shows "same_sites (source_Resolve (disk_servings env fs zs) lookup) (source_Resolve (disk_servings env fs' zs') lookup) d r"
  unfolding same_sites_def
proof (intro allI impI ballI)
  fix dm q
  assume "d = Some dm" "q \<in> {r, namespace_request r}"
  then have "lp_Path (sr_LookupPath s) \<in> site_paths (source_Resolve (disk_servings env fs zs) lookup) d r"
    if "source_Resolve (disk_servings env fs zs) lookup (d_Resolver dm) q = Inr s" for s
    using that unfolding site_paths_def by blast
  then show "rel_sum (=) same_serving (source_Resolve (disk_servings env fs zs) lookup (d_Resolver dm) q)
      (source_Resolve (disk_servings env fs' zs') lookup (d_Resolver dm) q)"
    by (intro source_Resolve_same assms)
qed

section \<open>Properties\<close>

text \<open>C4. Sites are isolated: the answer of the whole pipeline to a request (ACME challenges, authentication
  and not-found pages included) is the same in two states of the operating system and of the archives that
  agree on the project the request resolves to and on the namespace project of its domain; nothing outside
  the directories of these two can reach the visitor.\<close>

theorem pipeline_site_isolation:
  assumes "E = E0\<lparr>ae_servings := disk_servings env (local_Root os) zs\<rparr>"
    and "E' = E0\<lparr>ae_servings := disk_servings env (local_Root os') zs'\<rparr>"
    and "buildHandlerPipeline E a = Inr h" and "buildHandlerPipeline E' a = Inr h'"
    and "wrappers_forward E a" and "forwards (ae_cors E)"
    and "\<And>d p. fst (snd (getHostAndDomain E a r)) = Some (Inr d) \<Longrightarrow> p \<in> site_paths (Res E) d r \<Longrightarrow>
      same_below os os' p \<and> zs' p = zs p"
  shows "h r w = h' r w"
proof -
  let ?ss = "disk_servings env (local_Root os') zs'"
  have E': "E' = E\<lparr>ae_servings := ?ss\<rparr>" using assms(1,2) by simp
  have R: "Res E = source_Resolve (disk_servings env (local_Root os) zs) (ae_lookup E0)"
    "Res E' = source_Resolve ?ss (ae_lookup E0)" using assms(1,2) by simp_all
  have "same_sites (Res E) (Res E') (case d of Inr d \<Rightarrow> d | Inl _ \<Rightarrow> None) r"
    if d: "fst (snd (getHostAndDomain E a r)) = Some d" for d
  proof (cases d)
    case (Inl e)
    then show ?thesis by (simp add: same_sites_def)
  next
    case (Inr dm)
    have "same_sites (Res E) (Res E') dm r"
      unfolding R
      by (rule same_sites_disk) (use assms(7) [OF d [unfolded Inr]] local_Root_same in \<open>simp add: R\<close>)
    then show ?thesis using Inr by simp
  qed
  from pipeline_same [OF assms(3,4) E' assms(5,6) this] show ?thesis by simp
qed

definition demo_sites :: "bytes \<Rightarrow> os_fs" where
  "demo_sites private = \<lparr>os_cwd = ''/srv'', os_EvalSymlinks = Inr,
     os_lookup = (\<lambda>p. if p \<in> {''/srv'', ''/srv/g/p/public''} then Inr (OsDir 0)
        else if p = ''/srv/g/p/public/x.html'' then Inr (OsRegular ''hello'' 0)
        else if p = ''/srv/h/q/public/x.html'' then Inr (OsRegular private 0)
        else Inl ErrOSNotExist),
     os_open_error = (\<lambda>_. None), os_fstat_error = (\<lambda>_. None)\<rparr>"

definition demo_site_env :: "bytes \<Rightarrow> app_env" where
  "demo_site_env private = (demo_E [demo_api_path ''/'' False False 1])\<lparr>ae_servings :=
     disk_servings (demo_env []) (local_Root (demo_sites private)) (\<lambda>_. Inl ErrOSNotExist)\<rparr>"

lemma demo_same_below: "same_below (demo_sites x) (demo_sites y) ''g/p/public''"
proof -
  have r: "filepath_Abs ''/srv'' ''g/p/public'' = ''/srv/g/p/public''" "clean_root ''/srv/g/p/public''" by code_simp+
  have "path_elems ''/srv/h/q/public/x.html'' = [''srv'', ''h'', ''q'', ''public'', ''x.html'']"
    "path_elems ''/srv/g/p/public'' = [''srv'', ''g'', ''p'', ''public'']" by code_simp+
  then have "q \<noteq> ''/srv/h/q/public/x.html''" if "prefix (path_elems ''/srv/g/p/public'') (path_elems q)" for q
    using that by auto
  with r show ?thesis by (simp add: same_below_def demo_sites_def)
qed

abbreviation "demo_site_request \<equiv> demo_get ''/x.html''"

lemma demo_site_paths:
  assumes d: "fst (snd (getHostAndDomain (demo_site_env x) demo_a demo_site_request)) = Some (Inr d)"
    and p: "p \<in> site_paths (Res (demo_site_env x)) d demo_site_request"
  shows "p = ''g/p/public''"
proof -
  let ?E = "demo_E [demo_api_path ''/'' False False 1]"
  have "case fst (snd (getHostAndDomain ?E demo_a demo_site_request)) of
      Some (Inr (Some dm)) \<Rightarrow> (case d_Resolver dm of ApiResolver _ \<Rightarrow> True | _ \<Rightarrow> False) | _ \<Rightarrow> False" by code_simp
  moreover have "fst (snd (getHostAndDomain ?E demo_a demo_site_request)) = Some (Inr d)"
    using d by (simp add: demo_site_env_def getHostAndDomain_def app_domain_def)
  ultimately have r: "d_Resolver dm = ApiResolver GitlabResolver" if "d = Some dm" for dm
    using that by (cases "d_Resolver dm") (auto intro: gitlab_resolver.exhaust)
  from p obtain s dm q where s: "d = Some dm" "Res (demo_site_env x) (d_Resolver dm) q = Inr s" "p = lp_Path (sr_LookupPath s)"
    unfolding site_paths_def by blast
  then show ?thesis using r [OF s(1)]
    by (auto simp: gitlab_Resolve_def demo_site_env_def demo_app_env_def demo_source_def fabricateLookupPath_def demo_api_path_def
        Let_def split: if_split_asm)
qed

theorem pipeline_site_isolation_witness:
  "\<exists>h h'. buildHandlerPipeline (demo_site_env ''a'') demo_a = Inr h \<and> buildHandlerPipeline (demo_site_env ''b'') demo_a = Inr h' \<and>
     rw_body (h demo_site_request new_resp) = [FileBytes ''hello''] \<and> h demo_site_request new_resp = h' demo_site_request new_resp"
proof -
  have "\<exists>h. buildHandlerPipeline (demo_site_env x) demo_a = Inr h" for x
    by (simp add: buildHandlerPipeline_def pipeline_with_def healthCheckMiddleware_def demo_site_env_def demo_app_env_def)
  then obtain h h' where h: "buildHandlerPipeline (demo_site_env ''a'') demo_a = Inr h" "buildHandlerPipeline (demo_site_env ''b'') demo_a = Inr h'"
    by metis
  have "case buildHandlerPipeline (demo_site_env ''a'') demo_a of
      Inr h \<Rightarrow> rw_body (h demo_site_request new_resp) = [FileBytes ''hello''] | Inl _ \<Rightarrow> False" by code_simp
  moreover have "wrappers_forward (demo_site_env ''a'') demo_a" "forwards (ae_cors (demo_site_env ''a''))"
    by (auto simp: wrappers_forward_def forwards_def demo_site_env_def demo_app_env_def)
  from pipeline_site_isolation [OF demo_site_env_def demo_site_env_def h this]
  have "h demo_site_request new_resp = h' demo_site_request new_resp" using demo_site_paths demo_same_below by blast
  ultimately show ?thesis using h by auto
qed

end
