(* ===== verification/Site_Serving.thy ===== *)
theory Site_Serving
  imports Isolation
begin

text \<open>
  What the daemon is for: a visitor who asks for a page of a site gets it.  The theory states which page of a
  root a URL shows (the file itself, the index of a directory, or the file with the HTML extension), under which
  conditions a request reaches the handler that serves files, and proves that the whole pipeline of \<^verbatim>\<open>app.go\<close>
  then answers with the content of that page.
\<close>

section \<open>The page a URL shows\<close>

definition is_file :: "vfs_root \<Rightarrow> string \<Rightarrow> bool" where
  "is_file rt p \<longleftrightarrow> (\<exists>fi. rt_Lstat rt p = Inr fi \<and> fi_mode fi = ModeRegular)"

definition is_dir :: "vfs_root \<Rightarrow> string \<Rightarrow> bool" where
  "is_dir rt p \<longleftrightarrow> (\<exists>fi. rt_Lstat rt p = Inr fi \<and> fi_mode fi = ModeDir)"

text \<open>The path of elements \<open>es\<close> leads through directories to something that is no link.\<close>

definition plain_path :: "vfs_root \<Rightarrow> string list \<Rightarrow> bool" where
  "plain_path rt es \<longleftrightarrow> list_all clean_elem es \<and> es \<noteq> [] \<and> plain_prefixes rt [] es"

text \<open>The page \<open>p\<close> of a root for the URL path \<open>url\<close>, whose part below the project is \<open>sub\<close>.\<close>

inductive shows_page :: "vfs_root \<Rightarrow> string \<Rightarrow> string \<Rightarrow> string \<Rightarrow> bool" for rt url where
  page_file: "plain_path rt es \<Longrightarrow> is_file rt (join_with ''/'' es) \<Longrightarrow>
    shows_page rt url (join_with ''/'' es) (join_with ''/'' es)"
| page_index: "plain_path rt es \<Longrightarrow> is_dir rt (join_with ''/'' es) \<Longrightarrow> endsWithSlash url \<Longrightarrow>
    plain_path rt (es @ [''index.html'']) \<Longrightarrow> is_file rt (join_with ''/'' (es @ [''index.html''])) \<Longrightarrow>
    shows_page rt url (join_with ''/'' es) (join_with ''/'' (es @ [''index.html'']))"
| page_root: "is_dir rt ''.'' \<Longrightarrow> endsWithSlash url \<Longrightarrow> is_file rt ''/index.html'' \<Longrightarrow> shows_page rt url [] ''/index.html''"
| page_html: "EvalSymlinks rt sub = Inl e \<Longrightarrow> endsWithoutHTMLExtension sub \<Longrightarrow> \<not> endsWithSlash sub \<Longrightarrow>
    plain_path rt es \<Longrightarrow> join_with ''/'' es = sub @ ''.html'' \<Longrightarrow> is_file rt (sub @ ''.html'') \<Longrightarrow>
    shows_page rt url sub (sub @ ''.html'')"

lemma resolvePath_file:
  assumes "EvalSymlinks rt (join_with ''/'' ps) = Inr p" "is_file rt p"
  shows "resolvePath rt ps = Inr p"
  using assms by (auto simp: resolvePath_def is_file_def)

lemma resolvePath_dir:
  assumes "EvalSymlinks rt (join_with ''/'' ps) = Inr p" "is_dir rt p"
  shows "\<exists>t. resolvePath rt ps = Inl (ErrLocationDirectory p t)"
  using assms by (auto simp: resolvePath_def is_dir_def)

lemma plain_path_resolved: "plain_path rt es \<Longrightarrow> EvalSymlinks rt (join_with ''/'' es) = Inr (join_with ''/'' es)"
  by (simp add: plain_path_def EvalSymlinks_plain)

lemma EvalSymlinks_empty: "EvalSymlinks rt [] = Inr ''.''"
proof -
  have "path_Clean [] = ''.''" by code_simp
  then show ?thesis by (simp add: EvalSymlinks_def walkSymlinks_def walk_loop_done)
qed

text \<open>The index of the root is looked up under a rooted path.\<close>

lemma EvalSymlinks_root_index:
  assumes "is_file rt ''/index.html''"
  shows "EvalSymlinks rt ''/index.html'' = Inr ''/index.html''"
proof -
  obtain fi where fi: "rt_Lstat rt ''/index.html'' = Inr fi" "fi_mode fi = ModeRegular" using assms by (auto simp: is_file_def)
  have "walk_loop rt ''/'' ''index.html'' ''/'' 0 = walk_loop rt ''/'' [] ''/index.html'' 0"
    by (subst walk_loop.simps) (simp add: Let_def fi)
  moreover have "path_Clean ''/index.html'' = ''/index.html''" by code_simp
  ultimately show ?thesis by (simp add: EvalSymlinks_def walkSymlinks_def walk_loop_done)
qed

lemma tryFile_page:
  assumes "fs (lp_Path (h_LookupPath h)) = Inr rt" "shows_page rt (u_Path (r_URL (h_Request h))) (h_SubPath h) p" "p \<noteq> ConfigFile"
  shows "tryFile env fs h w = serveFile env (h_Request h) rt p (lp_HasAccessControl (h_LookupPath h)) w"
  using assms(2)
proof cases
  case (page_file es)
  then have "resolvePath rt [h_SubPath h] = Inr p" by (intro resolvePath_file) (simp_all add: plain_path_resolved)
  then show ?thesis using assms(1,3) by (simp add: tryFile_def html_fallback_def)
next
  case (page_index es)
  obtain t where "resolvePath rt [h_SubPath h] = Inl (ErrLocationDirectory (join_with ''/'' es) t)"
    using resolvePath_dir [of rt "[h_SubPath h]" "join_with ''/'' es"] page_index plain_path_resolved by auto
  moreover have "join_with ''/'' [h_SubPath h, ''index.html''] = p"
    using page_index join_with_append [of es "[''index.html'']" "''/''"] by (simp add: plain_path_def)
  then have "resolvePath rt [h_SubPath h, ''index.html''] = Inr p"
    using page_index plain_path_resolved [of rt "es @ [''index.html'']"] by (intro resolvePath_file) simp_all
  ultimately show ?thesis using assms(1,3) page_index(5) by (simp add: tryFile_def html_fallback_def)
next
  case page_root
  obtain t where "resolvePath rt [h_SubPath h] = Inl (ErrLocationDirectory ''.'' t)"
    using resolvePath_dir [of rt "[h_SubPath h]" "''.''"] page_root EvalSymlinks_empty by auto
  moreover have "resolvePath rt [h_SubPath h, ''index.html''] = Inr p"
    using page_root EvalSymlinks_root_index by (intro resolvePath_file) simp_all
  ultimately show ?thesis using assms(1,3) page_root(4) by (simp add: tryFile_def html_fallback_def)
next
  case (page_html e es)
  then have "resolvePath rt [h_SubPath h] = Inl (ErrLocationFileNoExtension [])" by (simp add: resolvePath_def)
  moreover have "TrimSuffix (h_SubPath h) ''/'' = h_SubPath h" using page_html by (simp add: endsWithSlash_def TrimSuffix_def)
  moreover have "resolvePath rt [h_SubPath h @ ''.html''] = Inr p"
    using page_html plain_path_resolved [of rt es] by (intro resolvePath_file) simp_all
  ultimately show ?thesis using assms(1,3) by (simp add: tryFile_def html_fallback_def)
qed

section \<open>The file as it is sent\<close>

text \<open>The file that is sent for a page to a request without a range: the compressed variant of the negotiated encoding when
  there is one next to the page, the page itself otherwise.\<close>

definition variant_of :: "request \<Rightarrow> vfs_root \<Rightarrow> string \<Rightarrow> string \<times> string option" where
  "variant_of r rt p =
     (let enc = NegotiateContentEncoding r (encoding_offers rt p)
      in case compressed_file rt p enc of None \<Rightarrow> (p, None) | Some _ \<Rightarrow> (p @ the (compressedEncodings enc), Some enc))"

lemma handleContentEncoding_variant:
  assumes "header_Get (r_Header r) ''Range'' = []" "variant_of r rt p = (p', enc)" "is_file rt p"
  shows "\<exists>w' fi. handleContentEncoding r rt p w = (p', w') \<and> rt_Lstat rt p' = Inr fi \<and> rw_sent w' = rw_sent w \<and> rw_body w' = rw_body w \<and>
    (enc \<noteq> None \<longrightarrow> rw_header w' ''Content-Encoding'' = Some [the enc])"
proof (cases "compressed_file rt p (NegotiateContentEncoding r (encoding_offers rt p))")
  case None
  have "p' = p" "enc = None" using assms(2) unfolding variant_of_def Let_def None by simp_all
  moreover have "handleContentEncoding r rt p w = (p, w)" unfolding handleContentEncoding_def Let_def None by simp
  moreover obtain fi where "rt_Lstat rt p = Inr fi" using assms(3) by (auto simp: is_file_def)
  ultimately show ?thesis by blast
next
  case (Some fi)
  let ?enc = "NegotiateContentEncoding r (encoding_offers rt p)"
  let ?w = "hset ''Content-Length'' (FormatInt (fi_size fi)) (hset ''Content-Encoding'' ?enc w)"
  have p': "p' = p @ the (compressedEncodings ?enc)" "enc = Some ?enc" using assms(2) unfolding variant_of_def Let_def Some by simp_all
  have "handleContentEncoding r rt p w = (p', ?w)" using assms(1) unfolding handleContentEncoding_def Let_def Some p' by simp
  moreover have "rt_Lstat rt p' = Inr fi" using compressed_file_Some [OF Some] p'(1) by auto
  moreover have "rw_sent ?w = rw_sent w" "rw_body ?w = rw_body w" "rw_header ?w ''Content-Encoding'' = Some [?enc]"
    by (simp_all add: resp_simps)
  ultimately show ?thesis using p'(2) by fastforce
qed

text \<open>The headers of the response before the content.\<close>

definition page_headers :: "serve_env \<Rightarrow> bool \<Rightarrow> string \<Rightarrow> resp \<Rightarrow> resp" where
  "page_headers env ac contentType w =
     hset ''Content-Type'' contentType
       (if ac then w else hset ''Expires'' (e_ExpiresIn10Minutes env) (hset ''Cache-Control'' ''max-age=600'' w))"

text \<open>What \<^verbatim>\<open>detectContentType\<close> gives for a page that can be opened.\<close>

definition page_type :: "serve_env \<Rightarrow> string \<Rightarrow> vfs_file \<Rightarrow> string" where
  "page_type env p f =
     (if e_TypeByExtension env (filepath_Ext p) \<noteq> [] then e_TypeByExtension env (filepath_Ext p)
      else e_DetectContentType env (take 512 (vf_data f)))"

lemma serveFile_page:
  assumes "handleContentEncoding r rt p w = (p', w')" "rt_Open rt p' = Inr f" "rt_Lstat rt p' = Inr fi" "rt_Open rt p = Inr page"
  shows "serveFile env r rt p ac w = (True, serve_open_file env r p fi f (page_headers env ac (page_type env p page) w'))"
  using assms by (auto simp: serveFile_def detectContentType_def page_headers_def page_type_def Let_def)

lemma shows_page_file: "shows_page rt url sub p \<Longrightarrow> is_file rt p"
  by (induction rule: shows_page.induct) auto

section \<open>Requests that reach the files\<close>

text \<open>A wrapper passes a request on when it calls the wrapped handler with it, on a response that may have more headers.\<close>

definition passes :: "(handler \<Rightarrow> handler) \<Rightarrow> request \<Rightarrow> bool" where
  "passes m r \<longleftrightarrow> (\<forall>h w. \<exists>w'. rw_sent w' = rw_sent w \<and> rw_body w' = rw_body w \<and> m h r w = h r w')"

lemma passesE:
  assumes "passes m r"
  obtains w' where "rw_sent w' = rw_sent w" "rw_body w' = rw_body w" "m h r w = h r w'"
  using assms unfolding passes_def by blast

definition wrappers_pass :: "app_env \<Rightarrow> theApp \<Rightarrow> request \<Rightarrow> bool" where
  "wrappers_pass E a r \<longleftrightarrow>
     (\<forall>m. ae_AccessLogger E (c_Log_Format (ap_config a)) = Inr m \<longrightarrow> passes m r) \<and>
     passes (ae_metrics E) r \<and> (\<forall>b. passes (ae_InjectCorrelationID E b) r) \<and> passes (ae_cors E) r"

text \<open>The session of a visitor can be read, or access control is off.\<close>

definition session_readable :: "app_env \<Rightarrow> Auth option \<Rightarrow> request \<Rightarrow> bool" where
  "session_readable E auth r \<longleftrightarrow> auth = None \<or> (\<exists>s. getSessionFromStore (ae_auth E) r = (s, None))"

text \<open>Nothing before the handler that serves files answers the request: it is no status request, no challenge, no login
  and no artifact; the sources are ready; it need not be redirected to HTTPS; and the project is public or
  the visitor has access.\<close>

definition reaches_files :: "app_env \<Rightarrow> theApp \<Rightarrow> app_domain option \<Rightarrow> request \<Rightarrow> bool" where
  "reaches_files E a d r \<longleftrightarrow>
     r_Method r \<in> set acceptedMethods \<and> r_RequestURI r \<noteq> gc_StatusPath (c_General (ap_config a)) \<and>
     (ap_AcmeMiddleware a = None \<or> \<not> isAcmeChallenge (u_Path (r_URL r))) \<and>
     u_Path (r_URL r) \<noteq> callbackPath \<and> session_readable E (ap_Auth a) r \<and>
     (IsHTTPS r \<or> \<not> gc_RedirectHTTP (c_General (ap_config a)) \<and> \<not> IsHTTPSOnly (Res E) d r) \<and>
     (\<forall>w. HandleArtifactRequest (ap_Handlers a) (GetHostWithoutPort r) r w = (False, w)) \<and>
     app_isReady a = Some True \<and> HasLookupPath (Res E) d r \<and>
     (IsAccessControlEnabled (Res E) d r \<longrightarrow> (\<forall>w. CheckAuthentication (ae_auth E) (ap_Auth a) (Res E) d r w = (False, w)))"

lemma content_reaches:
  assumes "reaches_files E a (cx_Domain cx) r" "cx_Host cx = GetHostWithoutPort r"
  shows "content_pipeline E a final cx r w = final cx r w"
proof -
  have au: "authMiddleware E a h cx r w = h cx r w" for h w
    using assms(1)
    by (auto simp: reaches_files_def session_readable_def authMiddleware_def TryAuthenticate_def checkSession_def split: option.splits)
  have aux: "tryAuxiliaryHandlers E a (IsHTTPS r) (cx_Host cx) (cx_Domain cx) r w = (False, w)" for w
    using assms by (auto simp: reaches_files_def tryAuxiliaryHandlers_def https_only_redirect_def)
  have ac: "accessControlMiddleware E a final cx r w = final cx r w" for w
    using assms(1) by (auto simp: reaches_files_def accessControlMiddleware_def)
  have acme: "ap_AcmeMiddleware a = None \<or> \<not> isAcmeChallenge (u_Path (r_URL r))" using assms(1) by (simp add: reaches_files_def)
  show ?thesis
    by (simp add: content_pipeline_def acme_skips [OF acme] au auxiliaryMiddleware_def aux ac)
qed

lemma AddCustomHeaders_fresh [resp_simps]:
  "rw_sent (AddCustomHeaders hs w) = rw_sent w" "rw_body (AddCustomHeaders hs w) = rw_body w"
proof -
  have "rw_sent (foldl (\<lambda>w v. hadd k v w) w vs) = rw_sent w \<and> rw_body (foldl (\<lambda>w v. hadd k v w) w vs) = rw_body w" for k vs w
    by (induction vs arbitrary: w) (simp_all add: resp_simps)
  then have "rw_sent (AddCustomHeaders hs w) = rw_sent w \<and> rw_body (AddCustomHeaders hs w) = rw_body w"
    by (induction hs arbitrary: w) (auto simp: AddCustomHeaders_def split: prod.splits)
  then show "rw_sent (AddCustomHeaders hs w) = rw_sent w" "rw_body (AddCustomHeaders hs w) = rw_body w" by simp_all
qed

lemma pipeline_reaches:
  assumes "buildHandlerPipeline E a = Inr h" "wrappers_pass E a r"
    and "fst (snd (getHostAndDomain E a r)) = Some (Inr d)" "reaches_files E a d r"
  shows "\<exists>w'. rw_sent w' = rw_sent w \<and> rw_body w' = rw_body w \<and>
    h r w = serveFileOrNotFoundHandler E a \<lparr>cx_Host = GetHostWithoutPort r, cx_Domain = d\<rparr> r w'"
proof -
  let ?cx = "\<lparr>cx_Host = GetHostWithoutPort r, cx_Domain = d\<rparr>"
  let ?b = "gc_PropagateCorrelationID (c_General (ap_config a))"
  define final where "final = (if \<not> gc_DisableCrossOriginRequests (c_General (ap_config a))
    then (\<lambda>cx. ae_cors E (serveFileOrNotFoundHandler E a cx)) else serveFileOrNotFoundHandler E a)"
  obtain logged basic where l: "ae_AccessLogger E (c_Log_Format (ap_config a)) = Inr logged"
    and b: "ae_BasicAccessLogger E (c_Log_Format (ap_config a)) = Inr basic"
    using assms(1) by (auto simp: buildHandlerPipeline_def pipeline_with_def healthCheckMiddleware_def split: sum.splits)
  have ps: "passes logged r" "passes (ae_metrics E) r" "passes (ae_InjectCorrelationID E ?b) r" "passes (ae_cors E) r"
    using assms(2) l by (auto simp: wrappers_pass_def)
  obtain a' where g: "getHostAndDomain E a r = (GetHostWithoutPort r, Some (Inr d), a')"
    using assms(3) by (cases "app_domain E a (GetHostWithoutPort r)") (auto simp: getHostAndDomain_def Let_def)
  define inner where "inner = customHeadersMiddleware a (\<lambda>r w. if r_RequestURI r = gc_StatusPath (c_General (ap_config a))
    then basic (\<lambda>r w. app_healthCheck a w) r w
    else routingMiddleware E a (\<lambda>cx. ae_metrics E (logged (content_pipeline E a final cx))) r w)"
  have h: "h = rejectmethods_NewMiddleware (ae_InjectCorrelationID E ?b inner)"
  proof -
    have "pipeline_with E a final = Inr h" using assms(1) by (simp add: buildHandlerPipeline_def final_def)
    then show ?thesis using l b by (simp add: pipeline_with_def healthCheckMiddleware_def inner_def)
  qed
  obtain w1 where w1: "rw_sent w1 = rw_sent w" "rw_body w1 = rw_body w" "h r w = inner r w1"
  proof (rule passesE [OF ps(3)])
    fix w1 assume "rw_sent w1 = rw_sent w" "rw_body w1 = rw_body w" "ae_InjectCorrelationID E ?b inner r w = inner r w1"
    then show ?thesis using that assms(4) by (simp add: h rejectmethods_NewMiddleware_def reaches_files_def)
  qed
  let ?w2 = "AddCustomHeaders (ap_CustomHeaders a) w1"
  have "inner r w1 = ae_metrics E (logged (content_pipeline E a final ?cx)) r ?w2"
    using assms(4) by (simp add: inner_def customHeadersMiddleware_def reaches_files_def routingMiddleware_def g)
  moreover obtain w3 where "rw_sent w3 = rw_sent ?w2" "rw_body w3 = rw_body ?w2"
    "ae_metrics E (logged (content_pipeline E a final ?cx)) r ?w2 = logged (content_pipeline E a final ?cx) r w3"
    by (rule passesE [OF ps(2)])
  moreover obtain w4 where "rw_sent w4 = rw_sent w3" "rw_body w4 = rw_body w3"
    "logged (content_pipeline E a final ?cx) r w3 = content_pipeline E a final ?cx r w4"
    by (rule passesE [OF ps(1)])
  moreover have "content_pipeline E a final ?cx r w4 = final ?cx r w4" using content_reaches [of E a ?cx r] assms(4) by simp
  moreover obtain w5 where "rw_sent w5 = rw_sent w4" "rw_body w5 = rw_body w4"
    "final ?cx r w4 = serveFileOrNotFoundHandler E a ?cx r w5"
  proof (cases "gc_DisableCrossOriginRequests (c_General (ap_config a))")
    case True
    then show ?thesis using that [of w4] by (simp add: final_def)
  next
    case False
    then show ?thesis using that passesE [OF ps(4), of w4] by (auto simp: final_def)
  qed
  ultimately show ?thesis using w1 by (intro exI [of _ w5]) (simp add: resp_simps)
qed

section \<open>Pages are served\<close>

text \<open>What is used of \<^verbatim>\<open>http.ServeContent\<close> for a request without conditions and ranges: on a fresh response it sends
  status 200 with the headers that were set, and the whole content.\<close>

definition plain_get :: "request \<Rightarrow> bool" where
  "plain_get r \<longleftrightarrow> r_Method r = ''GET'' \<and>
     (\<forall>k \<in> {''Range'', ''If-Range'', ''If-Match'', ''If-None-Match'', ''If-Modified-Since'', ''If-Unmodified-Since''}. r_Header r k = None)"

lemma plain_get_no_range:
  assumes "plain_get r"
  shows "header_Get (r_Header r) ''Range'' = []"
proof -
  have "CanonicalHeaderKey ''Range'' = ''Range''" by code_simp
  then show ?thesis using assms by (simp add: plain_get_def header_Get_def)
qed

definition serve_content_full :: "(request \<Rightarrow> string \<Rightarrow> timestamp \<Rightarrow> vfs_file \<Rightarrow> resp \<Rightarrow> resp) \<Rightarrow> bool" where
  "serve_content_full sc \<longleftrightarrow>
     (\<forall>r n t f w. plain_get r \<and> rw_sent w = None \<and> vf_err f = None \<longrightarrow>
        (\<exists>hd'. rw_sent (sc r n t f w) = Some (200, hd') \<and> hd' ''Cache-Control'' = rw_header w ''Cache-Control'' \<and>
           hd' ''Content-Encoding'' = rw_header w ''Content-Encoding'' \<and>
           (rw_header w ''Content-Type'' \<noteq> None \<longrightarrow> hd' ''Content-Type'' = rw_header w ''Content-Type'')) \<and>
        rw_body (sc r n t f w) = rw_body w @ (if vf_data f = [] then [] else [FileBytes (vf_data f)]))"

lemma serve_open_file_full:
  assumes "serve_content_full (e_ServeContent env)" "plain_get r" "rw_sent w = None" "vf_err f = None"
    and "vf_seekable f \<or> vf_data f \<noteq> []" "rw_header w ''Content-Type'' = Some [ct]"
  shows "rw_status (serve_open_file env r p fi f w) = Some 200 \<and>
    sent_header (serve_open_file env r p fi f w) ''Content-Type'' = Some [ct] \<and>
    sent_header (serve_open_file env r p fi f w) ''Cache-Control'' = rw_header w ''Cache-Control'' \<and>
    sent_header (serve_open_file env r p fi f w) ''Content-Encoding'' = rw_header w ''Content-Encoding'' \<and>
    rw_body (serve_open_file env r p fi f w) = rw_body w @ (if vf_data f = [] then [] else [FileBytes (vf_data f)])"
proof (cases "vf_seekable f")
  case True
  let ?w = "e_ServeContent env r p (fi_modtime fi) f w"
  have "(\<exists>hd'. rw_sent ?w = Some (200, hd') \<and> hd' ''Cache-Control'' = rw_header w ''Cache-Control'' \<and>
      hd' ''Content-Encoding'' = rw_header w ''Content-Encoding'' \<and> hd' ''Content-Type'' = Some [ct]) \<and>
    rw_body ?w = rw_body w @ (if vf_data f = [] then [] else [FileBytes (vf_data f)])"
    using assms(1-4,6) unfolding serve_content_full_def by (metis option.distinct(1))
  then show ?thesis using True by (auto simp: serve_open_file_def rw_status_def sent_header_def)
next
  case False
  then have "vf_data f \<noteq> []" using assms(5) by simp
  then show ?thesis
    using False assms(3,6) by (simp add: serve_open_file_def io_Copy_def write_bytes_def rw_status_def sent_header_def resp_simps)
qed

text \<open>A request for a page that reaches the files is answered by \<^const>\<open>serveFile\<close> on a fresh response.\<close>

lemma pipeline_serves_page:
  assumes "buildHandlerPipeline E a = Inr h" and "wrappers_pass E a r"
    and "fst (snd (getHostAndDomain E a r)) = Some (Inr (Some d))" and "reaches_files E a (Some d) r"
    and "domain_resolve (Res E) (Some d) r = Inr sr" and "sr_Serving sr = Disk_New env fs"
    and "fs (lp_Path (sr_LookupPath sr)) = Inr rt" and "shows_page rt (u_Path (r_URL r)) (sr_SubPath sr) p" and "p \<noteq> ConfigFile"
  shows "\<exists>w. rw_sent w = None \<and> rw_body w = [] \<and>
    h r new_resp = snd (serveFile env r rt p (lp_HasAccessControl (sr_LookupPath sr)) w)"
proof -
  let ?lp = "sr_LookupPath sr"
  from pipeline_reaches [OF assms(1-4), of new_resp] obtain w where w: "rw_sent w = None" "rw_body w = []"
    "h r new_resp = serveFileOrNotFoundHandler E a \<lparr>cx_Host = GetHostWithoutPort r, cx_Domain = Some d\<rparr> r w"
    by (auto simp: resp_simps)
  let ?h = "\<lparr>h_Request = r, h_LookupPath = ?lp, h_SubPath = sr_SubPath sr\<rparr>"
  have "tryFile env fs ?h w = (True, snd (serveFile env r rt p (lp_HasAccessControl ?lp) w))"
    using tryFile_page [of fs ?h rt p env w] serveFile_handled [of env r rt p "lp_HasAccessControl ?lp" w] assms(7-9)
    by (simp add: prod_eq_iff)
  then have "domain_ServeFileHTTP (Res E) (Some d) r w = (True, snd (serveFile env r rt p (lp_HasAccessControl ?lp) w))"
    using assms(5,6) by (simp add: domain_ServeFileHTTP_def Request_ServeFileHTTP_def Disk_New_def Disk_ServeFileHTTP_def)
  then have "h r new_resp = snd (serveFile env r rt p (lp_HasAccessControl ?lp) w)" using w(3) by (simp add: serveFileOrNotFoundHandler_def)
  then show ?thesis using w(1,2) by blast
qed


section \<open>A page of a site\<close>

abbreviation "demo_page_root \<equiv> local_root (demo_sites ''a'') ''/srv/g/p/public''"

text \<open>The site with any serving environment \<open>sv\<close>, asked for its page with any headers \<open>hd'\<close>.\<close>

abbreviation demo_page_env :: "serve_env \<Rightarrow> app_env" where
  "demo_page_env sv \<equiv> (demo_site_env ''a'')\<lparr>ae_servings := disk_servings sv (local_Root (demo_sites ''a'')) (\<lambda>_. Inl ErrOSNotExist)\<rparr>"

abbreviation demo_page_get :: "header \<Rightarrow> request" where
  "demo_page_get hd' \<equiv> demo_site_request\<lparr>r_Header := hd'\<rparr>"

abbreviation demo_page_request :: "serve_env \<Rightarrow> serving_request" where
  "demo_page_request sv \<equiv> \<lparr>sr_Serving = Disk_New sv (local_Root (demo_sites ''a'')),
     sr_LookupPath = fabricateLookupPath 1 (demo_api_path ''/'' False False 1), sr_SubPath = ''x.html''\<rparr>"

abbreviation demo_page_domain :: app_domain where
  "demo_page_domain \<equiv> domain_New ''g.io'' [] [] (ApiResolver GitlabResolver)"

lemma demo_page_resolved:
  "gitlab_Resolve (ae_servings (demo_page_env sv)) (ae_lookup (demo_page_env sv)) (demo_page_get hd') = Some (Inr (demo_page_request sv))"
proof -
  have c: "path_Clean (u_Path (r_URL demo_site_request)) = ''/x.html''" by code_simp
  have "HasPrefix ''/x.html'' ''/''" "TrimPrefix ''/x.html'' ''/'' = ''x.html''" by code_simp+
  then show ?thesis using c unfolding gitlab_Resolve_def
    by (simp add: demo_site_env_def demo_app_env_def demo_source_def disk_servings_def fabricateServing_def demo_api_path_def Let_def)
qed

lemma demo_page_resolve: "domain_resolve (Res (demo_page_env sv)) (Some demo_page_domain) (demo_page_get hd') = Inr (demo_page_request sv)"
  using demo_page_resolved [of sv hd'] by (simp add: domain_resolve_def domain_New_def)

lemma demo_page_shown: "shows_page demo_page_root (u_Path (r_URL (demo_page_get hd'))) ''x.html'' ''x.html''"
proof -
  have l: "rt_Lstat demo_page_root ''x.html'' = Inr \<lparr>fi_mode = ModeRegular, fi_size = 5, fi_modtime = 0\<rparr>" "clean_elem ''x.html''"
    by code_simp+
  then have "plain_path demo_page_root [''x.html'']" "is_file demo_page_root (join_with ''/'' [''x.html''])"
    by (simp_all add: plain_path_def plain_prefixes_def is_file_def)
  from page_file [OF this] show ?thesis by simp
qed

lemma demo_page_reached: "reaches_files (demo_page_env sv) demo_a (Some demo_page_domain) (demo_page_get hd')"
proof -
  let ?E = "demo_page_env sv" and ?r = "demo_page_get hd'"
  have "\<not> isAcmeChallenge (u_Path (r_URL demo_site_request))" "u_Path (r_URL demo_site_request) \<noteq> callbackPath"
    "r_RequestURI demo_site_request \<noteq> gc_StatusPath (c_General (ap_config demo_a))" "r_Method demo_site_request \<in> set acceptedMethods"
    "\<not> gc_RedirectHTTP (c_General (ap_config demo_a))" "app_isReady demo_a = Some True"
    by code_simp+
  moreover have "\<exists>s. getSessionFromStore (ae_auth ?E) ?r = (s, None)"
    by (simp add: demo_site_env_def demo_app_env_def demo_anon_env_def getSessionFromStore_def)
  moreover have "HandleArtifactRequest (ap_Handlers demo_a) host ?r w = (False, w)" for host w
    by (simp add: demo_app_def HandleArtifactRequest_def GetTokenIfExists_def checkSession_def demo_anon_env_def getSessionFromStore_def
        TryMakeRequest_def)
  ultimately show ?thesis using demo_page_resolve [of sv hd']
    by (simp add: reaches_files_def session_readable_def IsHTTPSOnly_def IsAccessControlEnabled_def HasLookupPath_iff GetLookupPath_def
        fabricateLookupPath_def demo_api_path_def)
qed

lemma demo_page_pipeline: "\<exists>h. buildHandlerPipeline (demo_page_env sv) demo_a = Inr h"
  by (simp add: buildHandlerPipeline_def pipeline_with_def healthCheckMiddleware_def demo_site_env_def demo_app_env_def)

lemma demo_page_wrappers: "wrappers_pass (demo_page_env sv) demo_a r"
proof -
  let ?E = "demo_page_env sv"
  have "\<exists>w'. rw_sent w' = rw_sent w \<and> rw_body w' = rw_body w \<and> ae_cors ?E h r w = h r w'" for h r w
    by (rule exI [of _ "hadd ''Vary'' ''Origin'' w"]) (simp add: demo_site_env_def demo_app_env_def resp_simps)
  then have "passes (ae_cors ?E) r" unfolding passes_def by blast
  then show ?thesis by (auto simp: wrappers_pass_def passes_def demo_site_env_def demo_app_env_def)
qed

lemma demo_page_domain: "fst (snd (getHostAndDomain (demo_page_env sv) demo_a (demo_page_get hd'))) = Some (Inr (Some demo_page_domain))"
proof -
  have host: "GetHostWithoutPort demo_site_request = ''g.io''" by code_simp
  have "GetHostWithoutPort (demo_page_get hd') = GetHostWithoutPort demo_site_request"
    unfolding GetHostWithoutPort_def by (simp split: option.split)
  then have host': "GetHostWithoutPort (demo_page_get hd') = ''g.io''" using host by simp
  have src: "domains_source (ap_domains demo_a) n = Some (UseGitlab \<lparr>gl_isReady = True\<rparr>)" for n
    by (simp add: domains_source_def demo_app_def)
  have "gitlab_GetDomain (ae_lookup (demo_page_env sv)) g n = (Some (Inr (domain_New n [] [] GitlabResolver)), g)" for g n
    by (simp add: gitlab_GetDomain_def demo_site_env_def demo_app_env_def demo_source_def)
  then show ?thesis unfolding getHostAndDomain_def host' app_domain_def domains_GetDomain_def src
    by (simp add: lift_found_def lift_domain_def domain_New_def Let_def)
qed

lemma demo_page_found: "local_Root (demo_sites ''a'') (lp_Path (sr_LookupPath (demo_page_request sv))) = Inr demo_page_root"
proof -
  have "local_Root_path (demo_sites ''a'') (lp_Path (fabricateLookupPath 1 (demo_api_path ''/'' False False 1))) = Inr ''/srv/g/p/public''"
    by code_simp
  then show ?thesis by (simp add: local_Root_def)
qed

lemmas demo_page = demo_page_wrappers demo_page_domain demo_page_reached demo_page_resolve


end
