(* ===== verification/Http_Range.thy ===== *)
theory Http_Range
  imports Vfs
begin

text \<open>
  Reading a remote file in ranges (\<^verbatim>\<open>internal/httprange\<close>): the resource with its size and its
  error, the reader of a section that asks for what is left of it, and the reader at offsets that
  \<^verbatim>\<open>archive/zip\<close> uses.

  The HTTP client is a parameter, the function \<open>Do\<close> from requests to responses; every operation takes
  the client of its moment.  A response has a body that is read in pieces whose sizes the network
  chooses: the body lists them.  Offsets and sizes are \<^verbatim>\<open>int64\<close>: sums wrap.  A \<^verbatim>\<open>Resource\<close> is
  shared between readers through a pointer: the operations take it and return it.
\<close>

section \<open>Requests, responses and bodies\<close>

record range_request =
  rq_URL :: string
  rq_Header :: header

text \<open>\<open>rb_sizes\<close>: how many bytes each read yields at most; when the list is used up a read yields all it
  can.  After the data comes \<open>rb_err\<close>, or the end of the file, reported together with the last bytes
  when \<open>rb_eager\<close> holds.\<close>

record range_body =
  rb_data :: bytes
  rb_sizes :: "nat list"
  rb_err :: "go_error option"
  rb_eager :: bool

record range_response =
  rp_StatusCode :: int
  rp_Status :: string
  rp_Header :: header
  rp_ContentLength :: int
  rp_Body :: range_body

type_synonym range_client = "range_request \<Rightarrow> range_response result"

definition body_end :: "range_body \<Rightarrow> go_error" where
  "body_end b = (case rb_err b of None \<Rightarrow> ErrEOF | Some err \<Rightarrow> err)"

definition body_Read :: "nat \<Rightarrow> range_body \<Rightarrow> (bytes \<times> go_error option) \<times> range_body" where
  "body_Read n b =
     (if rb_data b = [] then (([], Some (body_end b)), b)
      else let k = (case rb_sizes b of [] \<Rightarrow> n | m # _ \<Rightarrow> min n (max 1 m));
               b' = b\<lparr>rb_data := drop k (rb_data b), rb_sizes := tl (rb_sizes b)\<rparr>
      in ((take k (rb_data b), if rb_eager b \<and> rb_data b' = [] then Some (body_end b) else None), b'))"

section \<open>The resource (resource.go)\<close>

record Resource =
  rs_ETag :: string
  rs_LastModified :: string
  rs_Size :: int
  rs_url :: string
  rs_err :: "go_error option"

definition SetURL :: "string \<Rightarrow> Resource \<Rightarrow> Resource" where
  "SetURL url r = (if rs_url r = url then r else r\<lparr>rs_url := url\<rparr>)"

definition resource_Valid :: "Resource \<Rightarrow> bool" where
  "resource_Valid r \<longleftrightarrow> rs_err r = None"

definition setError :: "go_error \<Rightarrow> Resource \<Rightarrow> Resource" where
  "setError err r = r\<lparr>rs_err := Some err\<rparr>"

definition resource_Request :: "Resource \<Rightarrow> range_request result" where
  "resource_Request r =
     (if url_Parse (rs_url r) = None then Inl (ErrMsg ''parse error'')
      else Inr \<lparr>rq_URL = rs_url r,
                rq_Header = (if rs_ETag r \<noteq> [] then header_Set ''ETag'' (rs_ETag r) Map.empty
                             else if rs_LastModified r \<noteq> [] then header_Set ''If-Range'' (rs_LastModified r) Map.empty
                             else Map.empty)\<rparr>)"

definition range_header :: "int \<Rightarrow> int \<Rightarrow> string" where
  "range_header a b = ''bytes='' @ FormatInt a @ ''-'' @ FormatInt b"

text \<open>\<^verbatim>\<open>strconv.ParseInt(s, 0, 64)\<close>: an optional sign, a base by prefix, underscores between digits.\<close>

fun underscores_ok :: "bool \<Rightarrow> char \<Rightarrow> string \<Rightarrow> bool" where
  "underscores_ok hex prev [] \<longleftrightarrow> prev \<noteq> CHR ''_''"
| "underscores_ok hex prev (c # cs) \<longleftrightarrow>
     (if is_digit c \<or> hex \<and> unhex c \<noteq> None then underscores_ok hex (CHR ''0'') cs
      else if c = CHR ''_'' then prev = CHR ''0'' \<and> underscores_ok hex c cs
      else prev \<noteq> CHR ''_'' \<and> underscores_ok hex (CHR ''!'') cs)"

definition digit_value :: "char \<Rightarrow> nat option" where
  "digit_value c =
     (if is_digit c then Some (byte c - 48) else if is_alpha c then Some (byte (lower_char c) - 87) else None)"

fun digits_value :: "nat \<Rightarrow> nat \<Rightarrow> string \<Rightarrow> nat option" where
  "digits_value base n [] = Some n"
| "digits_value base n (c # cs) =
     (case digit_value c of Some d \<Rightarrow> if d < base then digits_value base (n * base + d) cs else None | None \<Rightarrow> None)"

definition number_base :: "string \<Rightarrow> nat \<times> string" where
  "number_base s =
     (if take 1 s = ''0'' then
        (let c = (case drop 1 s of x # _ # _ \<Rightarrow> lower_char x | _ \<Rightarrow> CHR ''!'')
         in if c = CHR ''b'' then (2, drop 2 s) else if c = CHR ''o'' then (8, drop 2 s)
            else if c = CHR ''x'' then (16, drop 2 s) else (8, drop 1 s))
      else (10, s))"

definition ParseInt :: "string \<Rightarrow> int result" where
  "ParseInt str =
     (let neg = (take 1 str = ''-''); s = (if take 1 str = ''-'' \<or> take 1 str = ''+'' then drop 1 str else str);
          prefixed = (take 1 s = ''0'' \<and> length s \<ge> 2 \<and> lower_char (s ! 1) \<in> {CHR ''b'', CHR ''o'', CHR ''x''});
          body = (if prefixed then drop 2 s else s);
          (base, digits) = number_base s
      in if s = [] then Inl (ErrMsg ''invalid syntax'')
         else if CHR ''_'' \<in> set s \<and> \<not> underscores_ok (prefixed \<and> lower_char (s ! 1) = CHR ''x'') (if prefixed then CHR ''0'' else CHR ''^'') body
           then Inl (ErrMsg ''invalid syntax'')
         else (case digits_value base 0 (filter (\<lambda>c. c \<noteq> CHR ''_'') digits) of
                 None \<Rightarrow> Inl (ErrMsg ''invalid syntax'')
               | Some n \<Rightarrow>
                   (if n > 2 ^ 63 \<or> \<not> neg \<and> n = 2 ^ 63 then Inl (ErrMsg ''value out of range'')
                    else Inr (if neg then - int n else int n))))"

definition NewResource :: "range_client \<Rightarrow> string \<Rightarrow> Resource result" where
  "NewResource Do url =
     (if url_Parse url = None then Inl (ErrMsg ''parse error'')
      else (case Do \<lparr>rq_URL = url, rq_Header = header_Set ''Range'' (range_header 0 0) Map.empty\<rparr> of
              Inl err \<Rightarrow> Inl err
            | Inr res \<Rightarrow>
                (let resource = SetURL url \<lparr>rs_ETag = header_Get (rp_Header res) ''ETag'',
                       rs_LastModified = header_Get (rp_Header res) ''Last-Modified'', rs_Size = 0, rs_url = [], rs_err = None\<rparr>
                 in if rp_StatusCode res = 200 then Inr (resource\<lparr>rs_Size := rp_ContentLength res\<rparr>)
                    else if rp_StatusCode res = 206 then
                      (let contentRange = header_Get (rp_Header res) ''Content-Range'';
                           ranges = splitn_on slash 2 contentRange
                       in if length ranges \<noteq> 2 then Inl (ErrMsg (''invalid `Content-Range`: '' @ contentRange))
                          else (case ParseInt (ranges ! 1) of
                                  Inl err \<Rightarrow> Inl (ErrMsg (''invalid `Content-Range`: '' @ contentRange))
                                | Inr n \<Rightarrow> Inr (resource\<lparr>rs_Size := n\<rparr>)))
                    else if rp_StatusCode res = 416 then Inl ErrRangeNotSupported
                    else if rp_StatusCode res = 404 then Inl ErrRangeNotFound
                    else Inl (ErrMsg (''httprange: new resource '' @ FormatInt (rp_StatusCode res))))))"

section \<open>The section reader (http_reader.go)\<close>

record Reader =
  rd_rangeStart :: int
  rd_rangeSize :: int
  rd_offset :: int
  rd_res :: "range_body option"

definition NewReader :: "int \<Rightarrow> int \<Rightarrow> Reader" where
  "NewReader offset size' = \<lparr>rd_rangeStart = offset, rd_rangeSize = size', rd_offset = offset, rd_res = None\<rparr>"

definition range_end :: "Reader \<Rightarrow> int" where
  "range_end r = wrap64 (rd_rangeStart r + rd_rangeSize r)"

definition prepareRequest :: "Resource \<Rightarrow> Reader \<Rightarrow> range_request result" where
  "prepareRequest resource r =
     (if rd_rangeStart r < 0 \<or> rd_rangeSize r < 0 \<or> range_end r > rs_Size resource then Inl ErrInvalidRange
      else if rd_offset r < rd_rangeStart r \<or> rd_offset r \<ge> range_end r then Inl ErrInvalidRange
      else (case resource_Request resource of
              Inl err \<Rightarrow> Inl err
            | Inr req \<Rightarrow>
                Inr (req\<lparr>rq_Header := header_Set ''Range'' (range_header (rd_offset r) (wrap64 (range_end r - 1))) (rq_Header req)\<rparr>)))"

definition reader_setResponse :: "Resource \<Rightarrow> range_response \<Rightarrow> Reader \<Rightarrow> go_error option \<times> Resource \<times> Reader" where
  "reader_setResponse resource res r =
     (let accept = (None, resource, r\<lparr>rd_res := Some (rp_Body res)\<rparr>);
          refuse = (\<lambda>err. (Some err, setError err resource, r))
      in if rp_StatusCode res = 200 then
           (if rd_offset r > 0 \<or> rs_ETag resource \<noteq> [] \<and> rs_ETag resource \<noteq> header_Get (rp_Header res) ''ETag''
            then refuse ErrRangeNotSupported else accept)
         else if rp_StatusCode res = 404 then refuse ErrRangeNotFound
         else if rp_StatusCode res = 206 then accept
         else if rp_StatusCode res = 416 then refuse ErrRangeNotSupported
         else (Some (ErrMsg (''httprange: read response '' @ FormatInt (rp_StatusCode res))), resource, r))"

definition ensureResponse :: "range_client \<Rightarrow> Resource \<Rightarrow> Reader \<Rightarrow> go_error option \<times> Resource \<times> Reader" where
  "ensureResponse Do resource r =
     (if rd_res r \<noteq> None then (None, resource, r)
      else (case prepareRequest resource r of
              Inl err \<Rightarrow> (Some err, resource, r)
            | Inr req \<Rightarrow>
                (case Do req of
                   Inl err \<Rightarrow> (Some err, resource, r)
                 | Inr res \<Rightarrow> reader_setResponse resource res r)))"

definition reader_Close :: "Reader \<Rightarrow> Reader" where
  "reader_Close r = r\<lparr>rd_res := None\<rparr>"

datatype seek_whence = SeekStart | SeekCurrent | SeekEnd | SeekOther int

definition reader_Seek :: "int \<Rightarrow> seek_whence \<Rightarrow> Reader \<Rightarrow> int result \<times> Reader" where
  "reader_Seek offset whence r =
     (case (case whence of
              SeekStart \<Rightarrow> Some (wrap64 (rd_rangeStart r + offset))
            | SeekCurrent \<Rightarrow> Some (wrap64 (rd_offset r + offset))
            | SeekEnd \<Rightarrow> Some (wrap64 (range_end r + offset))
            | SeekOther _ \<Rightarrow> None) of
        None \<Rightarrow> (Inl (ErrMsg ''invalid whence''), r)
      | Some newOffset \<Rightarrow>
          (if newOffset < rd_rangeStart r \<or> newOffset > range_end r then (Inl (ErrMsg ''outside of range''), r)
           else let r = (if newOffset \<noteq> rd_offset r then reader_Close r else r)
           in (Inr (newOffset - rd_rangeStart r), r\<lparr>rd_offset := newOffset\<rparr>)))"

text \<open>\<^verbatim>\<open>Read\<close> into a buffer of \<open>n\<close> bytes: what was read and the error.\<close>

definition reader_Read :: "range_client \<Rightarrow> nat \<Rightarrow> Resource \<times> Reader \<Rightarrow> (bytes \<times> go_error option) \<times> Resource \<times> Reader" where
  "reader_Read Do n s =
     (if n = 0 then (([], None), s)
      else (case ensureResponse Do (fst s) (snd s) of
              (Some err, resource, r) \<Rightarrow> (([], Some err), resource, r)
            | (None, resource, r) \<Rightarrow>
                (let ((bs, err), b) = body_Read n (the (rd_res r));
                     r = r\<lparr>rd_res := Some b\<rparr>
                 in ((bs, err), resource,
                     if err = None \<or> err = Some ErrEOF then r\<lparr>rd_offset := wrap64 (rd_offset r + int (length bs))\<rparr> else r))))"

text \<open>\<^verbatim>\<open>io.ReadFull\<close> on any reader: it reads until the buffer is full or an error comes; \<^const>\<open>None\<close> if
  it never returns.\<close>

type_synonym 's read_fn = "nat \<Rightarrow> 's \<Rightarrow> (bytes \<times> go_error option) \<times> 's"

partial_function (option) read_full :: "'s read_fn \<Rightarrow> nat \<Rightarrow> bytes \<Rightarrow> 's \<Rightarrow> ((bytes \<times> go_error option) \<times> 's) option" where
  "read_full read n acc s =
     (if n \<le> length acc then Some ((acc, None), s)
      else let ((bs, err), s) = read (n - length acc) s
      in case err of
           None \<Rightarrow> read_full read n (acc @ bs) s
         | Some e \<Rightarrow>
             Some ((acc @ bs, if n \<le> length (acc @ bs) then None
                              else if acc @ bs \<noteq> [] \<and> e = ErrEOF then Some ErrUnexpectedEOF else Some e), s))"

definition io_ReadFull :: "'s read_fn \<Rightarrow> nat \<Rightarrow> 's \<Rightarrow> ((bytes \<times> go_error option) \<times> 's) option" where
  "io_ReadFull read n s = read_full read n [] s"

section \<open>Reading at offsets (http_ranged_reader.go)\<close>

record RangedReader =
  rr_cachedReader :: "Reader option"

definition cachedRead ::
  "range_client \<Rightarrow> nat \<Rightarrow> int \<Rightarrow> Resource \<Rightarrow> Reader \<Rightarrow> ((bytes \<times> go_error option) \<times> Resource \<times> Reader) option" where
  "cachedRead Do n off resource r =
     (case reader_Seek off SeekStart r of
        (Inl err, r) \<Rightarrow> Some (([], Some err), resource, r)
      | (Inr _, r) \<Rightarrow> io_ReadFull (reader_Read Do) n (resource, r))"

definition ephemeralRead :: "range_client \<Rightarrow> nat \<Rightarrow> int \<Rightarrow> Resource \<Rightarrow> ((bytes \<times> go_error option) \<times> Resource) option" where
  "ephemeralRead Do n offset resource =
     map_option (\<lambda>(out, resource, r). (out, resource)) (io_ReadFull (reader_Read Do) n (resource, NewReader offset (int n)))"

definition SectionReader :: "int \<Rightarrow> int \<Rightarrow> Reader" where
  "SectionReader offset size' = NewReader offset size'"

definition ReadAt ::
  "range_client \<Rightarrow> nat \<Rightarrow> int \<Rightarrow> Resource \<Rightarrow> RangedReader \<Rightarrow> ((bytes \<times> go_error option) \<times> Resource \<times> RangedReader) option" where
  "ReadAt Do n offset resource rr =
     (case rr_cachedReader rr of
        Some r \<Rightarrow> map_option (\<lambda>(out, resource, r). (out, resource, rr\<lparr>rr_cachedReader := Some r\<rparr>)) (cachedRead Do n offset resource r)
      | None \<Rightarrow> map_option (\<lambda>(out, resource). (out, resource, rr)) (ephemeralRead Do n offset resource))"

text \<open>\<^verbatim>\<open>WithCachedReader\<close>: the reader during the call of its function, and after it.\<close>

definition WithCachedReader_begin :: "Resource \<Rightarrow> RangedReader \<Rightarrow> RangedReader" where
  "WithCachedReader_begin resource rr = rr\<lparr>rr_cachedReader := Some (NewReader 0 (rs_Size resource))\<rparr>"

definition WithCachedReader_end :: "RangedReader \<Rightarrow> RangedReader" where
  "WithCachedReader_end rr = rr\<lparr>rr_cachedReader := None\<rparr>"

definition NewRangedReader :: RangedReader where
  "NewRangedReader = \<lparr>rr_cachedReader = None\<rparr>"

section \<open>Readers as an interface\<close>

text \<open>What a client relies on when it reads from a reader that has bytes left: some of them come, in
  order, and the end of the file is reported only with the last of them.\<close>

locale byte_reader =
  fixes read :: "nat \<Rightarrow> 's \<Rightarrow> (bytes \<times> go_error option) \<times> 's"
    and inv :: "'s \<Rightarrow> bool"
    and rest :: "'s \<Rightarrow> bytes"
  assumes read_some: "inv s \<Longrightarrow> 0 < n \<Longrightarrow> rest s \<noteq> [] \<Longrightarrow>
    \<exists>bs err s'. read n s = ((bs, err), s') \<and> bs \<noteq> [] \<and> length bs \<le> n \<and> rest s = bs @ rest s' \<and> inv s' \<and>
      (err = None \<or> err = Some ErrEOF \<and> rest s' = [])"
begin

lemma read_full_exact:
  assumes "inv s" "length acc \<le> n" "n - length acc \<le> length (rest s)"
  shows "\<exists>s'. read_full read n acc s = Some ((acc @ take (n - length acc) (rest s), None), s') \<and>
    inv s' \<and> rest s' = drop (n - length acc) (rest s)"
  using assms
proof (induction "n - length acc" arbitrary: acc s rule: less_induct)
  case less
  show ?case
  proof (cases "n = length acc")
    case True
    then show ?thesis using less.prems by (subst read_full.simps) simp
  next
    case False
    then have pos: "0 < n - length acc" using less.prems by simp
    then have "rest s \<noteq> []" using less.prems(3) by auto
    from read_some [OF less.prems(1) pos this] obtain bs err s1 where
      r: "read (n - length acc) s = ((bs, err), s1)" "bs \<noteq> []" "length bs \<le> n - length acc" "rest s = bs @ rest s1" "inv s1"
        "err = None \<or> err = Some ErrEOF \<and> rest s1 = []" by blast
    show ?thesis
    proof (cases err)
      case None
      have "length (acc @ bs) \<le> n" "n - length (acc @ bs) \<le> length (rest s1)" "n - length (acc @ bs) < n - length acc"
        using r pos less.prems(3) by (cases bs; auto)+
      from less.hyps [OF this(3) r(5) this(1,2)] obtain s' where
        s': "read_full read n (acc @ bs) s1 = Some (((acc @ bs) @ take (n - length (acc @ bs)) (rest s1), None), s')"
        "inv s'" "rest s' = drop (n - length (acc @ bs)) (rest s1)" by blast
      have "read_full read n acc s = read_full read n (acc @ bs) s1"
        using pos r(1) None by (subst read_full.simps) simp
      then show ?thesis using s' r(3,4) by (auto simp: take_append drop_append)
    next
      case (Some e)
      then have e: "e = ErrEOF" "rest s1 = []" using r(6) by auto
      then have "length bs = n - length acc" using r(3,4) less.prems(3) by simp
      then show ?thesis using pos r e Some by (subst read_full.simps) simp
    qed
  qed
qed

text \<open>A full read of no more than what is left returns, with exactly the bytes asked for.\<close>

lemma ReadFull_exact:
  assumes "inv s" "n \<le> length (rest s)"
  shows "\<exists>s'. io_ReadFull read n s = Some ((take n (rest s), None), s') \<and> inv s' \<and> rest s' = drop n (rest s)"
  using read_full_exact [OF assms(1), of "[]" n] assms(2) by (simp add: io_ReadFull_def)

end

section \<open>A section of a served file\<close>

text \<open>A server with a file: it answers a range request for its URL with status 206 and the bytes of the
  range, in pieces of its choice.\<close>

definition serves :: "range_client \<Rightarrow> string \<Rightarrow> bytes \<Rightarrow> bool" where
  "serves Do url data \<longleftrightarrow>
     (\<forall>h a b. 0 \<le> a \<and> a \<le> b \<and> b < int (length data) \<and> h ''Range'' = Some [range_header a b] \<longrightarrow>
        (\<exists>res. Do \<lparr>rq_URL = url, rq_Header = h\<rparr> = Inr res \<and> rp_StatusCode res = 206 \<and>
           rb_data (rp_Body res) = take (nat (b - a + 1)) (drop (nat a) data) \<and> rb_err (rp_Body res) = None))"

definition resource_of :: "range_client \<Rightarrow> bytes \<Rightarrow> Resource \<Rightarrow> bool" where
  "resource_of Do data resource \<longleftrightarrow>
     url_Parse (rs_url resource) \<noteq> None \<and> serves Do (rs_url resource) data \<and>
     rs_Size resource = int (length data) \<and> int (length data) < 2 ^ 63"

definition section_rest :: "bytes \<Rightarrow> Resource \<times> Reader \<Rightarrow> bytes" where
  "section_rest data s =
     (let r = snd s in take (nat (rd_rangeStart r + rd_rangeSize r - rd_offset r)) (drop (nat (rd_offset r)) data))"

definition section_inv :: "range_client \<Rightarrow> bytes \<Rightarrow> Resource \<times> Reader \<Rightarrow> bool" where
  "section_inv Do data s \<longleftrightarrow>
     (let (resource, r) = s
      in resource_of Do data resource \<and> 0 \<le> rd_rangeStart r \<and> 0 \<le> rd_rangeSize r \<and>
         rd_rangeStart r + rd_rangeSize r \<le> int (length data) \<and>
         rd_rangeStart r \<le> rd_offset r \<and> rd_offset r \<le> rd_rangeStart r + rd_rangeSize r \<and>
         (\<forall>b. rd_res r = Some b \<longrightarrow> rb_data b = section_rest data s \<and> rb_err b = None))"

lemma range_end_id:
  "section_inv Do data (resource, r) \<Longrightarrow> range_end r = rd_rangeStart r + rd_rangeSize r"
  by (simp add: section_inv_def resource_of_def range_end_def wrap64_id)

lemma canon_range: "CanonicalHeaderKey ''Range'' = ''Range''"
  by code_simp

lemma prepareRequest_served:
  assumes inv: "section_inv Do data (resource, r)" and left: "rd_offset r < rd_rangeStart r + rd_rangeSize r"
  shows "\<exists>req res. prepareRequest resource r = Inr req \<and> Do req = Inr res \<and> rp_StatusCode res = 206 \<and>
    rb_data (rp_Body res) = section_rest data (resource, r) \<and> rb_err (rp_Body res) = None"
proof -
  note e = range_end_id [OF inv]
  have b: "resource_of Do data resource" "0 \<le> rd_rangeStart r" "0 \<le> rd_rangeSize r"
    "rd_rangeStart r + rd_rangeSize r \<le> int (length data)" "rd_rangeStart r \<le> rd_offset r"
    using inv by (auto simp: section_inv_def)
  have w: "wrap64 (range_end r - 1) = rd_rangeStart r + rd_rangeSize r - 1"
    using b left unfolding e by (simp add: resource_of_def wrap64_id)
  define h where "h = (if rs_ETag resource \<noteq> [] then header_Set ''ETag'' (rs_ETag resource) Map.empty
    else if rs_LastModified resource \<noteq> [] then header_Set ''If-Range'' (rs_LastModified resource) Map.empty else Map.empty)"
  have p: "prepareRequest resource r = Inr \<lparr>rq_URL = rs_url resource,
      rq_Header = h(''Range'' \<mapsto> [range_header (rd_offset r) (rd_rangeStart r + rd_rangeSize r - 1)])\<rparr>"
    using b left w
    by (simp add: prepareRequest_def e resource_Request_def header_Set_def [of "''Range''"] canon_range resource_of_def h_def)
  have s: "serves Do (rs_url resource) data" using b(1) by (simp add: resource_of_def)
  from s [unfolded serves_def, rule_format, of "rd_offset r" "rd_rangeStart r + rd_rangeSize r - 1"
      "h(''Range'' \<mapsto> [range_header (rd_offset r) (rd_rangeStart r + rd_rangeSize r - 1)])"] b left
  show ?thesis unfolding p by (auto simp: section_rest_def algebra_simps)
qed

lemma ensureResponse_section:
  assumes inv: "section_inv Do data (resource, r)" and left: "rd_offset r < rd_rangeStart r + rd_rangeSize r"
  shows "\<exists>b. ensureResponse Do resource r = (None, resource, r\<lparr>rd_res := Some b\<rparr>) \<and>
    rb_data b = section_rest data (resource, r) \<and> rb_err b = None"
proof (cases "rd_res r")
  case None
  from prepareRequest_served [OF assms] None show ?thesis by (auto simp: ensureResponse_def reader_setResponse_def)
next
  case (Some b)
  then have "r\<lparr>rd_res := Some b\<rparr> = r" by simp
  then show ?thesis using inv Some by (auto simp: ensureResponse_def section_inv_def intro!: exI [of _ b])
qed

lemma body_Read_some:
  assumes "rb_data b \<noteq> []" "rb_err b = None" "0 < n"
  shows "\<exists>k err b'. body_Read n b = ((take k (rb_data b), err), b') \<and> 0 < k \<and> k \<le> n \<and>
    rb_data b' = drop k (rb_data b) \<and> rb_err b' = None \<and> (err = None \<or> err = Some ErrEOF \<and> rb_data b' = [])"
proof -
  define k where "k = (case rb_sizes b of [] \<Rightarrow> n | m # _ \<Rightarrow> min n (max 1 m))"
  have "0 < k" "k \<le> n" using assms(3) by (auto simp: k_def split: list.splits)
  then show ?thesis
    using assms by (intro exI [of _ k]) (simp add: body_Read_def body_end_def Let_def k_def [symmetric])
qed

lemma section_rest_advance:
  assumes "section_inv Do data (resource, r)" "k \<le> length (section_rest data (resource, r))"
  shows "section_rest data (resource, r\<lparr>rd_res := x, rd_offset := rd_offset r + int k\<rparr>) = drop k (section_rest data (resource, r))"
  using assms
  by (auto simp: section_rest_def section_inv_def drop_take add.commute nat_add_distrib
      intro!: arg_cong2 [where f = take])

text \<open>The section reader is a reader of the rest of its section, whatever pieces the server sends.\<close>

interpretation section_reader: byte_reader "reader_Read Do" "section_inv Do data" "section_rest data" for Do data
proof (rule byte_reader.intro)
  fix s :: "Resource \<times> Reader" and n :: nat
  assume inv: "section_inv Do data s" and n: "0 < n" and left: "section_rest data s \<noteq> []"
  obtain resource r where s: "s = (resource, r)" by (cases s)
  note inv' = inv [unfolded s]
  have "rd_offset r < rd_rangeStart r + rd_rangeSize r"
    using left by (auto simp: s section_rest_def not_less [symmetric])
  from ensureResponse_section [OF inv' this] obtain b where
    b: "ensureResponse Do resource r = (None, resource, r\<lparr>rd_res := Some b\<rparr>)"
      "rb_data b = section_rest data (resource, r)" "rb_err b = None" by blast
  from body_Read_some [of b n] b(2,3) left n obtain k err b' where
    k: "body_Read n b = ((take k (section_rest data (resource, r)), err), b')" "0 < k" "k \<le> n"
      "rb_data b' = drop k (section_rest data (resource, r))" "rb_err b' = None" "err = None \<or> err = Some ErrEOF \<and> rb_data b' = []"
    by (auto simp: s)
  let ?bs = "take k (section_rest data (resource, r))"
  define m where "m = length ?bs"
  let ?r = "r\<lparr>rd_res := Some b', rd_offset := rd_offset r + int m\<rparr>"
  have m: "m \<le> length (section_rest data (resource, r))" "?bs = take m (section_rest data (resource, r))"
    "drop k (section_rest data (resource, r)) = drop m (section_rest data (resource, r))"
    by (auto simp: m_def min_def)
  have bounds: "0 \<le> rd_offset r" "rd_offset r + int m \<le> rd_rangeStart r + rd_rangeSize r" "rd_offset r + int m < 2 ^ 63"
    using inv' m(1) by (auto simp: section_inv_def section_rest_def resource_of_def)
  have rest': "section_rest data (resource, ?r) = drop k (section_rest data (resource, r))"
    using section_rest_advance [OF inv' m(1), of "Some b'"] m(3) by simp
  have read: "reader_Read Do n s = ((?bs, err), (resource, ?r))"
  proof -
    have "min (length (section_rest data (resource, r))) k = m" by (simp add: m_def)
    moreover have "wrap64 (rd_offset r + int m) = rd_offset r + int m" using bounds by (simp add: wrap64_id)
    ultimately show ?thesis using n b(1) k(1,6) by (auto simp: reader_Read_def s Let_def)
  qed
  have "section_inv Do data (resource, ?r)"
    using inv' bounds k(4,5) rest' by (simp add: section_inv_def)
  then show "\<exists>bs err s'. reader_Read Do n s = ((bs, err), s') \<and> bs \<noteq> [] \<and> length bs \<le> n \<and>
      section_rest data s = bs @ section_rest data s' \<and> section_inv Do data s' \<and>
      (err = None \<or> err = Some ErrEOF \<and> section_rest data s' = [])"
    using read rest' k left by (auto simp: s)
qed

lemma NewReader_section:
  assumes "resource_of Do data resource" "0 \<le> off" "0 \<le> size'" "off + size' \<le> int (length data)"
  shows "section_inv Do data (resource, NewReader off size')"
    "section_rest data (resource, NewReader off size') = take (nat size') (drop (nat off) data)"
  using assms by (auto simp: section_inv_def NewReader_def section_rest_def)

lemma reader_Seek_section:
  assumes "section_inv Do data (resource, r)" "0 \<le> off" "off \<le> rd_rangeSize r"
  shows "\<exists>r'. reader_Seek off SeekStart r = (Inr off, r') \<and> section_inv Do data (resource, r') \<and>
    rd_rangeStart r' = rd_rangeStart r \<and> rd_rangeSize r' = rd_rangeSize r \<and> rd_offset r' = rd_rangeStart r + off"
proof -
  have "wrap64 (rd_rangeStart r + off) = rd_rangeStart r + off"
    using assms by (auto simp: section_inv_def resource_of_def intro: wrap64_id)
  then show ?thesis
    using assms range_end_id [OF assms(1)]
    by (auto simp: reader_Seek_def Let_def reader_Close_def section_inv_def section_rest_def)
qed

text \<open>The cached reader of a ranged reader covers the whole file.\<close>

definition cached_ok :: "range_client \<Rightarrow> bytes \<Rightarrow> Resource \<Rightarrow> RangedReader \<Rightarrow> bool" where
  "cached_ok Do data resource rr \<longleftrightarrow>
     (\<forall>r. rr_cachedReader rr = Some r \<longrightarrow>
        section_inv Do data (resource, r) \<and> rd_rangeStart r = 0 \<and> rd_rangeSize r = int (length data))"

lemma section_keeps_range:
  "reader_Read Do n (resource, r) = (out, resource', r') \<Longrightarrow>
     rd_rangeStart r' = rd_rangeStart r \<and> rd_rangeSize r' = rd_rangeSize r"
  by (auto simp: reader_Read_def ensureResponse_def reader_setResponse_def Let_def
      split: if_split_asm prod.splits option.splits sum.splits)

lemma served_resource_kept:
  assumes "section_inv Do data (resource, r)" "reader_Read Do n (resource, r) = (out, resource', r')"
    "section_rest data (resource, r) \<noteq> []"
  shows "resource' = resource"
proof -
  have "rd_offset r < rd_rangeStart r + rd_rangeSize r"
    using assms(3) by (auto simp: section_rest_def not_less [symmetric])
  from ensureResponse_section [OF assms(1) this] assms(2) show ?thesis
    by (auto simp: reader_Read_def Let_def split: if_split_asm prod.splits)
qed

definition section_at :: "range_client \<Rightarrow> bytes \<Rightarrow> Resource \<Rightarrow> int \<Rightarrow> int \<Rightarrow> Resource \<times> Reader \<Rightarrow> bool" where
  "section_at Do data R start size' s \<longleftrightarrow>
     section_inv Do data s \<and> fst s = R \<and> rd_rangeStart (snd s) = start \<and> rd_rangeSize (snd s) = size'"

text \<open>Reading neither moves the section nor touches the resource of a served file.\<close>

interpretation fixed_section: byte_reader "reader_Read Do" "section_at Do data R start size'" "section_rest data"
  for Do data R start size'
proof (rule byte_reader.intro)
  fix s :: "Resource \<times> Reader" and n :: nat
  assume at: "section_at Do data R start size' s" and n: "0 < n" and left: "section_rest data s \<noteq> []"
  obtain r where s: "s = (R, r)" using at by (cases s) (auto simp: section_at_def)
  have inv: "section_inv Do data s" using at by (simp add: section_at_def)
  from section_reader.read_some [OF this n left] obtain bs err s' where
    r: "reader_Read Do n s = ((bs, err), s')" "bs \<noteq> []" "length bs \<le> n" "section_rest data s = bs @ section_rest data s'"
      "section_inv Do data s'" "err = None \<or> err = Some ErrEOF \<and> section_rest data s' = []" by blast
  obtain R' r' where s': "s' = (R', r')" by (cases s')
  have "section_at Do data R start size' s'"
    using at r(1,5) section_keeps_range [of Do n R r "(bs, err)" R' r'] served_resource_kept [of Do data R r n "(bs, err)" R' r'] inv left
    by (auto simp: section_at_def s s')
  then show "\<exists>bs err s'. reader_Read Do n s = ((bs, err), s') \<and> bs \<noteq> [] \<and> length bs \<le> n \<and>
      section_rest data s = bs @ section_rest data s' \<and> section_at Do data R start size' s' \<and>
      (err = None \<or> err = Some ErrEOF \<and> section_rest data s' = [])"
    using r by blast
qed

section \<open>Properties\<close>

text \<open>C22. A section of a remote file reads like the file: whatever pieces the server sends, a full read of
  the section returns, with exactly the bytes of the file from the offset on, and without an error.\<close>

theorem SectionReader_exact:
  assumes "resource_of Do data resource" and "0 \<le> off" and "off + int n \<le> int (length data)"
  shows "\<exists>s'. io_ReadFull (reader_Read Do) n (resource, SectionReader off (int n)) = Some ((take n (drop (nat off) data), None), s')"
proof -
  have inv: "section_inv Do data (resource, SectionReader off (int n))"
    "section_rest data (resource, SectionReader off (int n)) = take n (drop (nat off) data)"
    using NewReader_section [OF assms(1,2), of "int n"] assms(3) by (simp_all add: SectionReader_def)
  moreover have "n \<le> length (section_rest data (resource, SectionReader off (int n)))"
    using inv(2) assms(2,3) by simp
  ultimately show ?thesis using section_reader.ReadFull_exact [OF inv(1)] by fastforce
qed

text \<open>C28. Reading at an offset through the cached reader and through a fresh one gives the same: the bytes
  of the file at that offset.  The cached reader stays usable at every offset.\<close>

theorem ReadAt_exact:
  assumes "resource_of Do data resource" and "cached_ok Do data resource rr"
    and "0 \<le> off" and "off + int n \<le> int (length data)"
  shows "\<exists>rr'. ReadAt Do n off resource rr = Some ((take n (drop (nat off) data), None), resource, rr') \<and>
    cached_ok Do data resource rr'"
proof (cases "rr_cachedReader rr")
  case None
  have at: "section_at Do data resource off (int n) (resource, NewReader off (int n))"
    using NewReader_section(1) [OF assms(1,3), of "int n"] assms(4) by (simp add: section_at_def NewReader_def)
  have rest: "section_rest data (resource, NewReader off (int n)) = take n (drop (nat off) data)"
    using NewReader_section(2) [OF assms(1,3), of "int n"] assms(4) by simp
  then have "n \<le> length (section_rest data (resource, NewReader off (int n)))" using assms(3,4) by simp
  from fixed_section.ReadFull_exact [OF at this] rest obtain r' where
    "io_ReadFull (reader_Read Do) n (resource, NewReader off (int n)) = Some ((take n (drop (nat off) data), None), resource, r')"
    by (auto simp: section_at_def)
  then show ?thesis using None assms(2) by (simp add: ReadAt_def ephemeralRead_def)
next
  case (Some r)
  then have r: "section_inv Do data (resource, r)" "rd_rangeStart r = 0" "rd_rangeSize r = int (length data)"
    using assms(2) by (auto simp: cached_ok_def)
  obtain r1 where r1: "reader_Seek off SeekStart r = (Inr off, r1)" "section_inv Do data (resource, r1)"
    "rd_rangeStart r1 = 0" "rd_rangeSize r1 = int (length data)" "rd_offset r1 = off"
    using reader_Seek_section [OF r(1) assms(3)] assms(4) r(2,3) by auto
  have at: "section_at Do data resource 0 (int (length data)) (resource, r1)" using r1 by (simp add: section_at_def)
  have rest: "section_rest data (resource, r1) = drop (nat off) data"
    using r1 assms(3,4) by (simp add: section_rest_def nat_diff_distrib)
  have "n \<le> length (section_rest data (resource, r1))" using rest assms(3,4) by simp
  from fixed_section.ReadFull_exact [OF at this] rest obtain r' where
    r': "io_ReadFull (reader_Read Do) n (resource, r1) = Some ((take n (drop (nat off) data), None), resource, r')"
      "section_at Do data resource 0 (int (length data)) (resource, r')"
    by (auto simp: section_at_def)
  then show ?thesis using Some r1(1)
    by (simp add: ReadAt_def cachedRead_def cached_ok_def section_at_def)
qed

text \<open>C34. A request for a range never asks for anything outside the section or the file, even for sizes
  whose sum overflows: its first byte is the reader's offset and its last byte the last of the section.\<close>

theorem prepareRequest_bounds:
  assumes "prepareRequest resource r = Inr req"
    and "rd_rangeStart r < 2 ^ 63" and "rd_rangeSize r < 2 ^ 63" and "rs_Size resource < 2 ^ 63"
  shows "\<exists>a b. rq_Header req ''Range'' = Some [range_header a b] \<and> rd_rangeStart r \<le> a \<and> a = rd_offset r \<and> a \<le> b \<and>
    b = rd_rangeStart r + rd_rangeSize r - 1 \<and> b < rs_Size resource"
proof -
  have g: "0 \<le> rd_rangeStart r" "0 \<le> rd_rangeSize r" "range_end r \<le> rs_Size resource"
    "rd_rangeStart r \<le> rd_offset r" "rd_offset r < range_end r"
    using assms(1) by (auto simp: prepareRequest_def split: if_split_asm)
  have e: "range_end r = rd_rangeStart r + rd_rangeSize r"
  proof (rule ccontr)
    assume "range_end r \<noteq> rd_rangeStart r + rd_rangeSize r"
    moreover obtain k where k: "range_end r = rd_rangeStart r + rd_rangeSize r + k * 18446744073709551616"
      using wrap64_cong [of "rd_rangeStart r + rd_rangeSize r"] by (auto simp: range_end_def)
    ultimately have "k \<le> - 1 \<or> 1 \<le> k" by auto
    moreover have "0 \<le> range_end r" "range_end r < 9223372036854775808" using g assms(4) by simp_all
    moreover have "rd_rangeStart r < 9223372036854775808" "rd_rangeSize r < 9223372036854775808" using assms(2,3) by simp_all
    ultimately show False using k g(1,2) by auto
  qed
  have "wrap64 (range_end r - 1) = range_end r - 1" using g assms(4) by (intro wrap64_id) auto
  then have "rq_Header req ''Range'' = Some [range_header (rd_offset r) (range_end r - 1)]"
    using assms(1) by (auto simp: prepareRequest_def header_Set_def canon_range split: if_split_asm sum.splits)
  then show ?thesis using g e by auto
qed

text \<open>A changed file goes unnoticed: the entity tag is sent in a header that makes no request
  conditional, and the tag of a partial answer is not compared, so the bytes of another version are taken.\<close>

theorem etag_not_verified:
  assumes "rs_ETag resource \<noteq> []" and "rd_res r = None" and "prepareRequest resource r = Inr req"
    and "Do req = Inr res" and "rp_StatusCode res = 206"
  shows "ensureResponse Do resource r = (None, resource, r\<lparr>rd_res := Some (rp_Body res)\<rparr>) \<and>
    rq_Header req ''If-Range'' = None \<and> rq_Header req ''If-Match'' = None"
proof -
  have "CanonicalHeaderKey ''ETag'' = ''Etag''" by code_simp
  then show ?thesis using assms
    by (auto simp: ensureResponse_def reader_setResponse_def prepareRequest_def resource_Request_def header_Set_def canon_range
        split: if_split_asm)
qed

text \<open>A refused answer spoils the resource for good: after a status 404 or 416, or a complete answer
  where a range or another version was expected, the resource is no longer valid; other failures leave it as
  it was.\<close>

theorem ensureResponse_invalidates:
  assumes "ensureResponse Do resource r = (Some err, resource', r')"
  shows "r' = r \<and> (resource' = resource \<or> err \<in> {ErrRangeNotFound, ErrRangeNotSupported} \<and> resource' = setError err resource \<and>
    \<not> resource_Valid resource')"
  using assms
  by (auto simp: ensureResponse_def reader_setResponse_def Let_def setError_def resource_Valid_def
      split: if_split_asm sum.splits)

section \<open>Witnesses\<close>

text \<open>A server that serves a file of ten bytes and reads the range from the request's header.\<close>

definition demo_file :: bytes where
  "demo_file = ''0123456789''"

definition demo_ranges :: "(string \<times> int \<times> int) list" where
  "demo_ranges = concat (map (\<lambda>a. map (\<lambda>b. (range_header (int a) (int b), int a, int b)) [a..<10]) [0..<10])"

definition demo_range_server :: range_client where
  "demo_range_server req =
     (case rq_Header req ''Range'' of
        Some [v] \<Rightarrow>
          (case map_of demo_ranges v of
             Some (a, b) \<Rightarrow> Inr \<lparr>rp_StatusCode = 206, rp_Status = [], rp_Header = [''Etag'' \<mapsto> [''v2'']], rp_ContentLength = b - a + 1,
               rp_Body = \<lparr>rb_data = take (nat (b - a + 1)) (drop (nat a) demo_file), rb_sizes = [2, 0], rb_err = None, rb_eager = True\<rparr>\<rparr>
           | None \<Rightarrow> Inl (ErrMsg ''bad range''))
      | _ \<Rightarrow> Inl (ErrMsg ''no range''))"

definition demo_resource :: Resource where
  "demo_resource = \<lparr>rs_ETag = ''v1'', rs_LastModified = [], rs_Size = 10, rs_url = ''http://s/a.zip'', rs_err = None\<rparr>"

lemma demo_ranges_lookup:
  assumes "0 \<le> a" "a \<le> b" "b < 10"
  shows "map_of demo_ranges (range_header a b) = Some (a, b)"
proof -
  have "distinct (map fst demo_ranges)" by code_simp
  moreover have "(range_header a b, a, b) \<in> set demo_ranges"
    using assms by (auto simp: demo_ranges_def intro!: bexI [of _ "nat a"] image_eqI [of _ _ "nat b"])
  ultimately show ?thesis by (rule map_of_is_SomeI)
qed

lemma demo_resource_of: "resource_of demo_range_server demo_file demo_resource"
proof -
  have p: "url_Parse (rs_url demo_resource) \<noteq> None" by code_simp
  have l: "length demo_file = 10" by (simp add: demo_file_def)
  show ?thesis unfolding resource_of_def serves_def l
    using p by (auto simp: demo_range_server_def demo_ranges_lookup demo_resource_def)
qed

theorem SectionReader_exact_witness:
  "\<exists>s'. io_ReadFull (reader_Read demo_range_server) 5 (demo_resource, SectionReader 3 5) = Some ((''34567'', None), s')"
  using SectionReader_exact [OF demo_resource_of, of 3 5] by (simp add: demo_file_def)

theorem ReadAt_exact_witness:
  "\<exists>rr'. ReadAt demo_range_server 4 6 demo_resource (WithCachedReader_begin demo_resource NewRangedReader) =
     Some ((''6789'', None), demo_resource, rr')"
proof -
  have "cached_ok demo_range_server demo_file demo_resource (WithCachedReader_begin demo_resource NewRangedReader)"
    using NewReader_section(1) [OF demo_resource_of, of 0 10]
    by (simp add: cached_ok_def WithCachedReader_begin_def demo_file_def demo_resource_def NewReader_def)
  from ReadAt_exact [OF demo_resource_of this, of 6 4] show ?thesis by (auto simp: demo_file_def)
qed

theorem prepareRequest_bounds_witness:
  "\<exists>req a b. prepareRequest demo_resource (NewReader 3 5) = Inr req \<and> rq_Header req ''Range'' = Some [range_header a b] \<and> a = 3 \<and> b = 7"
proof -
  have "case prepareRequest demo_resource (NewReader 3 5) of Inr _ \<Rightarrow> True | Inl _ \<Rightarrow> False" by code_simp
  then obtain req where r: "prepareRequest demo_resource (NewReader 3 5) = Inr req" by (auto split: sum.splits)
  from prepareRequest_bounds [OF this] r show ?thesis by (auto simp: NewReader_def demo_resource_def)
qed

theorem etag_not_verified_witness:
  "\<exists>res :: range_response. fst (ensureResponse demo_range_server demo_resource (NewReader 3 5)) = None \<and>
     snd (snd (ensureResponse demo_range_server demo_resource (NewReader 3 5))) = (NewReader 3 5)\<lparr>rd_res := Some (rp_Body res)\<rparr> \<and>
     header_Get (rp_Header res) ''ETag'' \<noteq> rs_ETag demo_resource"
proof -
  have "case prepareRequest demo_resource (NewReader 3 5) of
      Inr req \<Rightarrow> (case demo_range_server req of
        Inr res \<Rightarrow> rp_StatusCode res = 206 \<and> header_Get (rp_Header res) ''ETag'' \<noteq> rs_ETag demo_resource | Inl _ \<Rightarrow> False)
    | Inl _ \<Rightarrow> False" by code_simp
  then obtain req res where r: "prepareRequest demo_resource (NewReader 3 5) = Inr req" "demo_range_server req = Inr res"
    "rp_StatusCode res = 206" "header_Get (rp_Header res) ''ETag'' \<noteq> rs_ETag demo_resource" by (auto split: sum.splits)
  have "rs_ETag demo_resource \<noteq> []" "rd_res (NewReader 3 5) = None" by (simp_all add: demo_resource_def NewReader_def)
  from etag_not_verified [where Do = demo_range_server, OF this r(1-3)] r(4) show ?thesis
    by - (rule exI [of _ res], simp)
qed

theorem ensureResponse_invalidates_witness:
  "\<not> resource_Valid (fst (snd (ensureResponse (\<lambda>_. Inr \<lparr>rp_StatusCode = 404, rp_Status = [], rp_Header = Map.empty,
       rp_ContentLength = 0, rp_Body = \<lparr>rb_data = [], rb_sizes = [], rb_err = None, rb_eager = True\<rparr>\<rparr>) demo_resource (NewReader 3 5))))"
proof -
  let ?x = "ensureResponse (\<lambda>_. Inr \<lparr>rp_StatusCode = 404, rp_Status = [], rp_Header = Map.empty,
       rp_ContentLength = 0, rp_Body = \<lparr>rb_data = [], rb_sizes = [], rb_err = None, rb_eager = True\<rparr>\<rparr>) demo_resource (NewReader 3 5)"
  have "fst ?x = Some ErrRangeNotFound" "\<not> resource_Valid (fst (snd ?x))" by code_simp+
  then have "?x = (Some ErrRangeNotFound, fst (snd ?x), snd (snd ?x))" "fst (snd ?x) \<noteq> demo_resource"
    by (metis prod.collapse, auto simp: demo_resource_def resource_Valid_def)
  from ensureResponse_invalidates [OF this(1)] this(2) show ?thesis by blast
qed

end
