(* ===== verification/Serve_Content.thy ===== *)
theory Serve_Content
  imports Site_Serving Http_Range
begin

text \<open>
  What the daemon leaves to \<^verbatim>\<open>http.ServeContent\<close> of the standard library (\<^verbatim>\<open>net/http/fs.go\<close> of Go 1.13): conditional
  requests and byte ranges of a seekable file.  The other theories have it as the parameter \<open>e_ServeContent\<close> of the
  environment; here it is a definition, shown to be what they rely on, and put back into the pipeline.

  Left as parameters, in the record \<open>content_env\<close>: formatting and parsing dates, the MIME tables, the boundary
  of a multipart answer, the text of errors, and how seeking in the file ends.  Times are nanoseconds since the epoch.
\<close>

section \<open>Entity tags and dates\<close>

record content_env =
  ce_ParseTime :: "string \<Rightarrow> timestamp option"
  ce_FormatTime :: "timestamp \<Rightarrow> string"
  ce_TypeByExtension :: "string \<Rightarrow> string"
  ce_DetectContentType :: "bytes \<Rightarrow> string"
  ce_Boundary :: string
  ce_ErrorText :: "go_error \<Rightarrow> string"
  ce_SeekEnd :: "vfs_file \<Rightarrow> int result"
  ce_Seek :: "vfs_file \<Rightarrow> int \<Rightarrow> go_error option"

definition second :: int where "second = 1000000000"

text \<open>\<^verbatim>\<open>isZeroTime\<close>: the zero time of Go (the first of January of the year 1) or the epoch.\<close>

definition zero_time :: timestamp where "zero_time = - 62135596800 * second"

definition isZeroTime :: "timestamp \<Rightarrow> bool" where
  "isZeroTime t \<longleftrightarrow> t = zero_time \<or> t = 0"

definition http_space :: "char list" where
  "http_space = [CHR 0x20, CHR 0x09, CHR 0x0A, CHR 0x0D]"

definition TrimString :: "string \<Rightarrow> string" where
  "TrimString s = TrimRight (TrimLeft s http_space) http_space"

definition etag_byte :: "char \<Rightarrow> bool" where
  "etag_byte c \<longleftrightarrow> byte c = 0x21 \<or> 0x23 \<le> byte c \<and> byte c \<le> 0x7E \<or> 0x80 \<le> byte c"

text \<open>A tag up to its closing quote, and what follows it.\<close>

fun etag_rest :: "string \<Rightarrow> (string \<times> string) option" where
  "etag_rest [] = None"
| "etag_rest (c # cs) =
     (if etag_byte c then map_option (\<lambda>(a, b). (c # a, b)) (etag_rest cs)
      else if c = CHR 0x22 then Some ([c], cs) else None)"

definition scanETag :: "string \<Rightarrow> string \<times> string" where
  "scanETag str =
     (let s = TrimString str; start = (if HasPrefix s ''W/'' then 2 else 0); body = drop start s
      in if length body < 2 \<or> hd body \<noteq> CHR 0x22 then ([], [])
         else (case etag_rest (tl body) of None \<Rightarrow> ([], []) | Some (a, rest) \<Rightarrow> (take start s @ hd body # a, rest)))"

definition etagStrongMatch :: "string \<Rightarrow> string \<Rightarrow> bool" where
  "etagStrongMatch a b \<longleftrightarrow> a = b \<and> a \<noteq> [] \<and> hd a = CHR 0x22"

definition etagWeakMatch :: "string \<Rightarrow> string \<Rightarrow> bool" where
  "etagWeakMatch a b \<longleftrightarrow> TrimPrefix a ''W/'' = TrimPrefix b ''W/''"

lemma etag_rest_length: "etag_rest s = Some (a, b) \<Longrightarrow> length b < length s"
  by (induction s arbitrary: a) (auto split: if_split_asm)

lemma TrimString_length: "length (TrimString s) \<le> length s"
  using length_dropWhile_le [of "\<lambda>c. c \<in> set http_space" "rev (dropWhile (\<lambda>c. c \<in> set http_space) s)"]
    length_dropWhile_le [of "\<lambda>c. c \<in> set http_space" s]
  by (simp add: TrimString_def TrimRight_def TrimLeft_def)

lemma scanETag_length:
  assumes "fst (scanETag s) \<noteq> []"
  shows "length (snd (scanETag s)) < length s"
proof -
  let ?s = "TrimString s"
  let ?body = "drop (if HasPrefix ?s ''W/'' then 2 else 0) ?s"
  obtain a b where b: "etag_rest (tl ?body) = Some (a, b)" "snd (scanETag s) = b"
    using assms by (auto simp: scanETag_def Let_def split: if_split_asm option.splits)
  from etag_rest_length [OF b(1)] show ?thesis unfolding b(2) using TrimString_length [of s] by simp
qed

text \<open>The loop of \<^verbatim>\<open>checkIfMatch\<close> and \<^verbatim>\<open>checkIfNoneMatch\<close>: whether a list of tags is a star or has a tag that matches.\<close>

function etag_listed :: "(string \<Rightarrow> bool) \<Rightarrow> string \<Rightarrow> bool" where
  "etag_listed matches str =
     (case TrimString str of
        [] \<Rightarrow> False
      | c # cs \<Rightarrow>
          (if c = CHR '','' then etag_listed matches cs
           else if c = CHR ''*'' then True
           else (case scanETag (c # cs) of
                   (etag, remain) \<Rightarrow>
                     (if etag = [] then False else if matches etag then True else etag_listed matches remain))))"
  by pat_completeness auto

termination
proof (relation "measure (length \<circ> snd)", goal_cases)
  case (2 matches str c cs)
  then show ?case using TrimString_length [of str] by simp
next
  case (3 matches str c cs etag remain)
  then show ?case using TrimString_length [of str] scanETag_length [of "c # cs"] by (simp add: prod_eq_iff)
qed simp

declare etag_listed.simps [simp del]

section \<open>Preconditions\<close>

datatype condResult = condNone | condTrue | condFalse

definition checkIfMatch :: "request \<Rightarrow> resp \<Rightarrow> condResult" where
  "checkIfMatch r w =
     (let im = header_Get (r_Header r) ''If-Match''
      in if im = [] then condNone
         else if etag_listed (\<lambda>etag. etagStrongMatch etag (header_Get (rw_header w) ''Etag'')) im then condTrue else condFalse)"

definition checkIfUnmodifiedSince :: "content_env \<Rightarrow> request \<Rightarrow> timestamp \<Rightarrow> condResult" where
  "checkIfUnmodifiedSince c r modtime =
     (let ius = header_Get (r_Header r) ''If-Unmodified-Since''
      in if ius = [] \<or> isZeroTime modtime then condNone
         else (case ce_ParseTime c ius of
                 None \<Rightarrow> condNone | Some t \<Rightarrow> if modtime < t + second then condTrue else condFalse))"

definition checkIfNoneMatch :: "request \<Rightarrow> resp \<Rightarrow> condResult" where
  "checkIfNoneMatch r w =
     (let inm = header_Get (r_Header r) ''If-None-Match''
      in if inm = [] then condNone
         else if etag_listed (\<lambda>etag. etagWeakMatch etag (header_Get (rw_header w) ''Etag'')) inm then condFalse else condTrue)"

definition checkIfModifiedSince :: "content_env \<Rightarrow> request \<Rightarrow> timestamp \<Rightarrow> condResult" where
  "checkIfModifiedSince c r modtime =
     (let ims = header_Get (r_Header r) ''If-Modified-Since''
      in if r_Method r \<noteq> ''GET'' \<and> r_Method r \<noteq> ''HEAD'' then condNone
         else if ims = [] \<or> isZeroTime modtime then condNone
         else (case ce_ParseTime c ims of
                 None \<Rightarrow> condNone | Some t \<Rightarrow> if modtime < t + second then condFalse else condTrue))"

definition checkIfRange :: "content_env \<Rightarrow> request \<Rightarrow> timestamp \<Rightarrow> resp \<Rightarrow> condResult" where
  "checkIfRange c r modtime w =
     (let ir = header_Get (r_Header r) ''If-Range''; etag = fst (scanETag ir)
      in if r_Method r \<noteq> ''GET'' \<and> r_Method r \<noteq> ''HEAD'' then condNone
         else if ir = [] then condNone
         else if etag \<noteq> [] then (if etagStrongMatch etag (header_Get (rw_header w) ''Etag'') then condTrue else condFalse)
         else if modtime = zero_time then condFalse
         else (case ce_ParseTime c ir of
                 None \<Rightarrow> condFalse | Some t \<Rightarrow> if t div second = modtime div second then condTrue else condFalse))"

definition hdel :: "string \<Rightarrow> resp \<Rightarrow> resp" where
  "hdel k w = w\<lparr>rw_header := (rw_header w)(k := None)\<rparr>"

definition writeNotModified :: "resp \<Rightarrow> resp" where
  "writeNotModified w =
     (let w = hdel ''Content-Length'' (hdel ''Content-Type'' w)
      in WriteHeader 304 (if header_Get (rw_header w) ''Etag'' \<noteq> [] then hdel ''Last-Modified'' w else w))"

definition setLastModified :: "content_env \<Rightarrow> timestamp \<Rightarrow> resp \<Rightarrow> resp" where
  "setLastModified c modtime w = (if isZeroTime modtime then w else hset ''Last-Modified'' (ce_FormatTime c modtime) w)"

text \<open>\<^const>\<open>Inl\<close>: the request is answered; \<^const>\<open>Inr\<close>: the range that is left to serve.\<close>

definition checkPreconditions :: "content_env \<Rightarrow> request \<Rightarrow> timestamp \<Rightarrow> resp \<Rightarrow> resp + string" where
  "checkPreconditions c r modtime w =
     (let ch = (if checkIfMatch r w = condNone then checkIfUnmodifiedSince c r modtime else checkIfMatch r w);
          rangeHeader = header_Get (r_Header r) ''Range''
      in if ch = condFalse then Inl (WriteHeader 412 w)
         else if checkIfNoneMatch r w = condFalse
           then Inl (if r_Method r = ''GET'' \<or> r_Method r = ''HEAD'' then writeNotModified w else WriteHeader 412 w)
         else if checkIfNoneMatch r w = condNone \<and> checkIfModifiedSince c r modtime = condFalse then Inl (writeNotModified w)
         else Inr (if rangeHeader \<noteq> [] \<and> checkIfRange c r modtime w = condFalse then [] else rangeHeader))"

section \<open>Ranges\<close>

record httpRange =
  hr_start :: int
  hr_length :: int

text \<open>\<^verbatim>\<open>strconv.ParseInt(s, 10, 64)\<close>.\<close>

definition ParseInt10 :: "string \<Rightarrow> int option" where
  "ParseInt10 str =
     (let neg = (take 1 str = ''-''); s = (if take 1 str = ''-'' \<or> take 1 str = ''+'' then drop 1 str else str)
      in if s = [] then None
         else (case digits_value 10 0 s of
                 None \<Rightarrow> None
               | Some n \<Rightarrow> if int n > 2 ^ 63 \<or> \<not> neg \<and> int n = 2 ^ 63 then None else Some (if neg then - int n else int n)))"

text \<open>One range of the header: invalid, outside of the content, or a range of it.\<close>

datatype parsed_range = RangeInvalid | RangeOutside | RangeOf httpRange

definition parse_one_range :: "int \<Rightarrow> string \<Rightarrow> parsed_range" where
  "parse_one_range sz ra =
     (if CHR ''-'' \<notin> set ra then RangeInvalid
      else let start = TrimSpace (before_byte (CHR ''-'') ra); end' = TrimSpace (tl (from_byte (CHR ''-'') ra))
      in if start = []
         then (case ParseInt10 end' of
                 None \<Rightarrow> RangeInvalid
               | Some i \<Rightarrow>
                   (let i = (if i > sz then sz else i); first = wrap64 (sz - i)
                    in RangeOf \<lparr>hr_start = first, hr_length = wrap64 (sz - first)\<rparr>))
         else (case ParseInt10 start of
                 None \<Rightarrow> RangeInvalid
               | Some i \<Rightarrow>
                   (if i < 0 then RangeInvalid
                    else if i \<ge> sz then RangeOutside
                    else if end' = [] then RangeOf \<lparr>hr_start = i, hr_length = sz - i\<rparr>
                    else (case ParseInt10 end' of
                            None \<Rightarrow> RangeInvalid
                          | Some j \<Rightarrow>
                              (if i > j then RangeInvalid
                               else RangeOf \<lparr>hr_start = i, hr_length = (if j \<ge> sz then sz - 1 else j) - i + 1\<rparr>)))))"

fun parse_ranges :: "int \<Rightarrow> string list \<Rightarrow> bool \<Rightarrow> httpRange list \<Rightarrow> (bool \<times> httpRange list) option" where
  "parse_ranges sz [] noOverlap ranges = Some (noOverlap, ranges)"
| "parse_ranges sz (ra # ras) noOverlap ranges =
     (if TrimSpace ra = [] then parse_ranges sz ras noOverlap ranges
      else (case parse_one_range sz (TrimSpace ra) of
              RangeInvalid \<Rightarrow> None
            | RangeOutside \<Rightarrow> parse_ranges sz ras True ranges
            | RangeOf r \<Rightarrow> parse_ranges sz ras noOverlap (ranges @ [r])))"

datatype range_error = errInvalidRange | errNoOverlap

definition parseRange :: "string \<Rightarrow> int \<Rightarrow> range_error + httpRange list" where
  "parseRange s sz =
     (if s = [] then Inr []
      else if \<not> HasPrefix s ''bytes='' then Inl errInvalidRange
      else (case parse_ranges sz (split_on (CHR '','') (drop 6 s)) False [] of
              None \<Rightarrow> Inl errInvalidRange
            | Some (noOverlap, ranges) \<Rightarrow> (if noOverlap \<and> ranges = [] then Inl errNoOverlap else Inr ranges)))"

fun range_error_text :: "range_error \<Rightarrow> string" where
  "range_error_text errInvalidRange = ''invalid range''"
| "range_error_text errNoOverlap = ''invalid range: failed to overlap''"

definition contentRange :: "httpRange \<Rightarrow> int \<Rightarrow> string" where
  "contentRange ra sz =
     ''bytes '' @ FormatInt (hr_start ra) @ ''-'' @ FormatInt (hr_start ra + hr_length ra - 1) @ ''/'' @ FormatInt sz"

definition range_bytes :: "vfs_file \<Rightarrow> httpRange \<Rightarrow> bytes" where
  "range_bytes f ra = take (nat (hr_length ra)) (drop (nat (hr_start ra)) (vf_data f))"

section \<open>Several ranges (mime/multipart)\<close>

definition CRLF :: string where "CRLF = [CHR 0x0D, CHR 0x0A]"

definition part_header :: "content_env \<Rightarrow> bool \<Rightarrow> string \<Rightarrow> int \<Rightarrow> httpRange \<Rightarrow> string" where
  "part_header c first ctype sz ra =
     (if first then [] else CRLF) @ ''--'' @ ce_Boundary c @ CRLF @
     ''Content-Range: '' @ contentRange ra sz @ CRLF @ ''Content-Type: '' @ ctype @ CRLF @ CRLF"

definition multipart_end :: "content_env \<Rightarrow> string" where
  "multipart_end c = CRLF @ ''--'' @ ce_Boundary c @ ''--'' @ CRLF"

text \<open>The goroutine that writes the parts stops where seeking fails or the file is too short.\<close>

fun multipart_body :: "content_env \<Rightarrow> vfs_file \<Rightarrow> string \<Rightarrow> int \<Rightarrow> bool \<Rightarrow> httpRange list \<Rightarrow> string" where
  "multipart_body c f ctype sz first [] = multipart_end c"
| "multipart_body c f ctype sz first (ra # ras) =
     part_header c first ctype sz ra @
     (if ce_Seek c f (hr_start ra) \<noteq> None then []
      else range_bytes f ra @
        (if int (length (range_bytes f ra)) < hr_length ra then [] else multipart_body c f ctype sz False ras))"

fun headers_size :: "content_env \<Rightarrow> string \<Rightarrow> int \<Rightarrow> bool \<Rightarrow> httpRange list \<Rightarrow> nat" where
  "headers_size c ctype sz first [] = length (multipart_end c)"
| "headers_size c ctype sz first (ra # ras) = length (part_header c first ctype sz ra) + headers_size c ctype sz False ras"

definition sumRangesSize :: "httpRange list \<Rightarrow> int" where
  "sumRangesSize ranges = sum_list (map hr_length ranges)"

definition rangesMIMESize :: "content_env \<Rightarrow> httpRange list \<Rightarrow> string \<Rightarrow> int \<Rightarrow> int" where
  "rangesMIMESize c ranges ctype sz = int (headers_size c ctype sz True ranges) + sumRangesSize ranges"

section \<open>Serving the content\<close>

text \<open>The part of \<^verbatim>\<open>serveContent\<close> after the ranges: the status, and the body unless the method is \<^verbatim>\<open>HEAD\<close>.\<close>

definition send_content :: "request \<Rightarrow> int \<Rightarrow> int \<Rightarrow> bytes \<Rightarrow> resp \<Rightarrow> resp" where
  "send_content r code sendSize sendContent w =
     (let w = hset ''Accept-Ranges'' ''bytes'' w;
          w = (if header_Get (rw_header w) ''Content-Encoding'' = [] then hset ''Content-Length'' (FormatInt sendSize) w else w);
          w = WriteHeader code w
      in if r_Method r \<noteq> ''HEAD'' then write_bytes (take (nat sendSize) sendContent) w else w)"

definition send_ranges :: "content_env \<Rightarrow> request \<Rightarrow> vfs_file \<Rightarrow> string \<Rightarrow> int \<Rightarrow> httpRange list \<Rightarrow> resp \<Rightarrow> resp" where
  "send_ranges c r f ctype sz ranges w =
     (case (if sumRangesSize ranges > sz then [] else ranges) of
        [] \<Rightarrow> send_content r 200 sz (vf_data f) w
      | [ra] \<Rightarrow>
          (case ce_Seek c f (hr_start ra) of
             Some err \<Rightarrow> http_Error (ce_ErrorText c err) 416 w
           | None \<Rightarrow> send_content r 206 (hr_length ra) (drop (nat (hr_start ra)) (vf_data f))
               (hset ''Content-Range'' (contentRange ra sz) w))
      | ras \<Rightarrow> send_content r 206 (rangesMIMESize c ras ctype sz) (multipart_body c f ctype sz True ras)
          (hset ''Content-Type'' (''multipart/byteranges; boundary='' @ ce_Boundary c) w))"

definition set_type :: "content_env \<Rightarrow> string \<Rightarrow> vfs_file \<Rightarrow> resp \<Rightarrow> string \<times> resp" where
  "set_type c name f w =
     (case rw_header w ''Content-Type'' of
        None \<Rightarrow>
          (let ctype = ce_TypeByExtension c (filepath_Ext name);
               ctype = (if ctype = [] then ce_DetectContentType c (take 512 (vf_data f)) else ctype)
           in (ctype, hset ''Content-Type'' ctype w))
      | Some ctypes \<Rightarrow> ((case ctypes of [] \<Rightarrow> [] | t # _ \<Rightarrow> t), w))"

definition ServeContent :: "content_env \<Rightarrow> request \<Rightarrow> string \<Rightarrow> timestamp \<Rightarrow> vfs_file \<Rightarrow> resp \<Rightarrow> resp" where
  "ServeContent c r name modtime f w0 =
     (let w1 = setLastModified c modtime w0
      in case checkPreconditions c r modtime w1 of
           Inl w \<Rightarrow> w
         | Inr rangeReq \<Rightarrow>
             (case set_type c name f w1 of
                (ctype, w) \<Rightarrow>
                  (case ce_SeekEnd c f of
                     Inl err \<Rightarrow> http_Error (''seeker can'' @ apos @ ''t seek'') 500 w
                   | Inr sz \<Rightarrow>
                       (case parseRange rangeReq sz of
                          Inl err \<Rightarrow>
                            http_Error (range_error_text err) 416
                              (if err = errNoOverlap then hset ''Content-Range'' (''bytes */'' @ FormatInt sz) w else w)
                        | Inr ranges \<Rightarrow> send_ranges c r f ctype sz ranges w))))"

section \<open>The contract of the other theories\<close>

lemma canon_content [resp_simps]:
  "CanonicalHeaderKey ''Accept-Ranges'' = ''Accept-Ranges''" "CanonicalHeaderKey ''Content-Range'' = ''Content-Range''"
  "CanonicalHeaderKey ''Last-Modified'' = ''Last-Modified''" "CanonicalHeaderKey ''Etag'' = ''Etag''"
  "CanonicalHeaderKey ''Range'' = ''Range''" "CanonicalHeaderKey ''If-Range'' = ''If-Range''"
  "CanonicalHeaderKey ''If-Match'' = ''If-Match''" "CanonicalHeaderKey ''If-None-Match'' = ''If-None-Match''"
  "CanonicalHeaderKey ''If-Modified-Since'' = ''If-Modified-Since''"
  "CanonicalHeaderKey ''If-Unmodified-Since'' = ''If-Unmodified-Since''"
  by code_simp+

text \<open>A response that is sent with the headers \<open>ks\<close> it had before.\<close>

definition answered :: "string set \<Rightarrow> resp \<Rightarrow> resp \<Rightarrow> bool" where
  "answered ks w w' \<longleftrightarrow> (\<exists>s h. rw_sent w' = Some (s, h) \<and> (\<forall>k \<in> ks. h k = rw_header w k))"

definition same_headers :: "string set \<Rightarrow> resp \<Rightarrow> resp \<Rightarrow> bool" where
  "same_headers ks w w' \<longleftrightarrow> rw_sent w' = rw_sent w \<and> rw_body w' = rw_body w \<and> (\<forall>k \<in> ks. rw_header w' k = rw_header w k)"

lemma answered_trans: "same_headers ks w w' \<Longrightarrow> answered ks w' w'' \<Longrightarrow> answered ks w w''"
  by (auto simp: answered_def same_headers_def)

lemma same_headers_trans: "same_headers ks w w' \<Longrightarrow> same_headers ks w' w'' \<Longrightarrow> same_headers ks w w''"
  by (auto simp: same_headers_def)

lemma same_headers_refl [simp]: "same_headers ks w w"
  by (simp add: same_headers_def)

lemma same_headers_hset: "CanonicalHeaderKey k \<notin> ks \<Longrightarrow> same_headers ks w (hset k v w)"
  by (auto simp: same_headers_def resp_simps)

lemma same_headers_hdel: "k \<notin> ks \<Longrightarrow> same_headers ks w (hdel k w)"
  by (auto simp: same_headers_def hdel_def)

lemma answered_WriteHeader: "rw_sent w = None \<Longrightarrow> answered ks w (WriteHeader code w)"
  by (simp add: answered_def WriteHeader_def)

lemma answered_write_bytes: "answered ks w w' \<Longrightarrow> answered ks w (write_bytes d w')"
  by (auto simp: answered_def write_bytes_def resp_simps)

lemma answered_http_Error:
  assumes "rw_sent w = None" "''Content-Type'' \<notin> ks" "''X-Content-Type-Options'' \<notin> ks"
  shows "answered ks w (http_Error msg code w)"
proof -
  have "\<forall>k \<in> ks. k \<noteq> ''Content-Type'' \<and> k \<noteq> ''X-Content-Type-Options''" using assms(2,3) by auto
  then show ?thesis using assms(1) by (auto simp: answered_def http_Error_def resp_simps)
qed

lemma setLastModified_same: "''Last-Modified'' \<notin> ks \<Longrightarrow> same_headers ks w (setLastModified c t w)"
  by (auto simp: setLastModified_def resp_simps intro!: same_headers_hset)

text \<open>The headers \<^verbatim>\<open>ServeContent\<close> may change.\<close>

definition content_headers :: "string set" where
  "content_headers = {''Last-Modified'', ''Content-Type'', ''Content-Length'', ''Content-Range'', ''Accept-Ranges'', ''X-Content-Type-Options''}"

lemma writeNotModified_answered:
  assumes "rw_sent w = None" "ks \<inter> content_headers = {}"
  shows "answered ks w (writeNotModified w)"
proof -
  have n: "''Content-Type'' \<notin> ks" "''Content-Length'' \<notin> ks" "''Last-Modified'' \<notin> ks" using assms(2) by (auto simp: content_headers_def)
  let ?w1 = "hdel ''Content-Length'' (hdel ''Content-Type'' w)"
  have s1: "same_headers ks w ?w1" by (rule same_headers_trans [OF same_headers_hdel [OF n(1)] same_headers_hdel [OF n(2)]])
  have s2: "same_headers ks w (hdel ''Last-Modified'' ?w1)" by (rule same_headers_trans [OF s1 same_headers_hdel [OF n(3)]])
  have "answered ks w (WriteHeader 304 x)" if "same_headers ks w x" for x
    by (rule answered_trans [OF that answered_WriteHeader]) (use that assms(1) in \<open>simp add: same_headers_def\<close>)
  then show ?thesis using s1 s2 unfolding writeNotModified_def Let_def by (simp split: if_split)
qed

lemma checkPreconditions_answered:
  assumes "rw_sent w = None" "ks \<inter> content_headers = {}" "checkPreconditions c r t w = Inl w'"
  shows "answered ks w w'"
  using assms(3) writeNotModified_answered [OF assms(1,2)] answered_WriteHeader [OF assms(1)]
  by (auto simp: checkPreconditions_def Let_def split: if_split_asm)

lemma send_content_answered:
  assumes "rw_sent w = None" "ks \<inter> content_headers = {}"
  shows "answered ks w (send_content r code n d w)"
proof -
  have n: "CanonicalHeaderKey ''Accept-Ranges'' \<notin> ks" "CanonicalHeaderKey ''Content-Length'' \<notin> ks"
    using assms(2) by (auto simp: content_headers_def resp_simps)
  let ?w1 = "hset ''Accept-Ranges'' ''bytes'' w"
  let ?w2 = "if header_Get (rw_header ?w1) ''Content-Encoding'' = [] then hset ''Content-Length'' (FormatInt n) ?w1 else ?w1"
  have s: "same_headers ks w ?w2" using same_headers_trans [OF same_headers_hset [OF n(1)] same_headers_hset [OF n(2)]]
      same_headers_hset [OF n(1)] by simp
  then have "rw_sent ?w2 = None" using assms(1) by (simp only: same_headers_def)
  from answered_trans [OF s answered_WriteHeader [OF this]] have a: "answered ks w (WriteHeader code ?w2)" .
  show ?thesis unfolding send_content_def Let_def using a answered_write_bytes [OF a] by (simp split: if_split)
qed

lemma answered_hset:
  assumes "CanonicalHeaderKey k \<notin> ks" "answered ks (hset k v w) w'"
  shows "answered ks w w'"
  by (rule answered_trans [OF same_headers_hset [OF assms(1)] assms(2)])

lemma send_ranges_answered:
  assumes "rw_sent w = None" "ks \<inter> content_headers = {}"
  shows "answered ks w (send_ranges c r f ctype sz ranges w)"
proof -
  have k: "CanonicalHeaderKey ''Content-Range'' \<notin> ks" "CanonicalHeaderKey ''Content-Type'' \<notin> ks"
    "''Content-Type'' \<notin> ks" "''X-Content-Type-Options'' \<notin> ks"
    using assms(2) by (auto simp: content_headers_def resp_simps)
  note sc = send_content_answered [OF _ assms(2)]
  have "answered ks w (send_content r a b d (hset ''Content-Range'' v w))" "answered ks w (send_content r a b d (hset ''Content-Type'' v w))"
    for a b d v
    by (rule answered_hset [OF k(1) sc], simp add: resp_simps assms(1)) (rule answered_hset [OF k(2) sc], simp add: resp_simps assms(1))
  moreover have "answered ks w (http_Error m n w)" for m n by (rule answered_http_Error [OF assms(1) k(3,4)])
  ultimately show ?thesis unfolding send_ranges_def using sc [OF assms(1)] by (simp split: list.split option.split)
qed

text \<open>It always answers, and touches no header but its own: what the daemon has set for caching stays.\<close>

lemma ServeContent_answered:
  assumes "rw_sent w = None" "ks \<inter> content_headers = {}"
  shows "answered ks w (ServeContent c r name t f w)"
proof -
  have k: "''Last-Modified'' \<notin> ks" "CanonicalHeaderKey ''Content-Range'' \<notin> ks" "CanonicalHeaderKey ''Content-Type'' \<notin> ks"
    "''Content-Type'' \<notin> ks" "''X-Content-Type-Options'' \<notin> ks"
    using assms(2) by (auto simp: content_headers_def resp_simps)
  let ?w1 = "setLastModified c t w"
  have s1: "same_headers ks w ?w1" by (rule setLastModified_same [OF k(1)])
  then have f1: "rw_sent ?w1 = None" using assms(1) by (simp add: same_headers_def)
  obtain ctype w2 where w2: "set_type c name f ?w1 = (ctype, w2)" by fastforce
  then have s2: "same_headers ks w w2"
    using s1 same_headers_trans [OF s1 same_headers_hset [OF k(3)]] by (auto simp: set_type_def Let_def split: option.splits)
  then have f2: "rw_sent w2 = None" using assms(1) by (simp add: same_headers_def)
  have e: "answered ks w2 (http_Error m n w2)" "answered ks w2 (http_Error m n (hset ''Content-Range'' v w2))" for m n v
    by (rule answered_http_Error [OF f2 k(4,5)])
      (rule answered_hset [OF k(2) answered_http_Error [OF _ k(4,5)]], simp add: resp_simps f2)
  show ?thesis
  proof (cases "checkPreconditions c r t ?w1")
    case (Inl w')
    then show ?thesis using answered_trans [OF s1 checkPreconditions_answered [OF f1 assms(2) Inl]]
      by (simp add: ServeContent_def Let_def)
  next
    case (Inr rangeReq)
    have "answered ks w2 (ServeContent c r name t f w)"
      unfolding ServeContent_def Let_def Inr sum.case w2 prod.case
      using e send_ranges_answered [OF f2 assms(2)] by (simp split: sum.split if_split)
    then show ?thesis by (rule answered_trans [OF s2])
  qed
qed

lemma ServeContent_ok: "serve_content_ok (ServeContent c)"
proof -
  have "{''Cache-Control'', ''Expires''} \<inter> content_headers = {}" by (simp add: content_headers_def)
  from ServeContent_answered [OF _ this] show ?thesis unfolding serve_content_ok_def answered_def by fastforce
qed

section \<open>Requests without conditions\<close>

definition unconditional :: "request \<Rightarrow> bool" where
  "unconditional r \<longleftrightarrow>
     (\<forall>k \<in> {''If-Range'', ''If-Match'', ''If-None-Match'', ''If-Modified-Since'', ''If-Unmodified-Since''}. r_Header r k = None)"

text \<open>What is used of seeking: in a file that can be read to its end it works and finds its length.\<close>

definition seek_ok :: "content_env \<Rightarrow> bool" where
  "seek_ok c \<longleftrightarrow> (\<forall>f. vf_err f = None \<longrightarrow> ce_SeekEnd c f = Inr (int (length (vf_data f))) \<and> (\<forall>n. 0 \<le> n \<longrightarrow> ce_Seek c f n = None))"

lemma plain_get_unconditional: "plain_get r \<Longrightarrow> unconditional r"
  by (simp add: plain_get_def unconditional_def)

lemma checkPreconditions_unconditional:
  assumes "unconditional r"
  shows "checkPreconditions c r t w = Inr (header_Get (r_Header r) ''Range'')"
proof -
  have "header_Get (r_Header r) k = []"
    if "k \<in> {''If-Range'', ''If-Match'', ''If-None-Match'', ''If-Modified-Since'', ''If-Unmodified-Since''}" for k
    using that assms by (auto simp: unconditional_def header_Get_def resp_simps)
  then show ?thesis
    by (simp add: checkPreconditions_def checkIfMatch_def checkIfNoneMatch_def checkIfModifiedSince_def checkIfUnmodifiedSince_def
        checkIfRange_def Let_def)
qed

text \<open>What is left of serving a file whose type is known to such a request.\<close>

lemma ServeContent_unconditional:
  assumes "unconditional r" "seek_ok c" "vf_err f = None" "rw_header w ''Content-Type'' = Some [ct]"
    and "parseRange (header_Get (r_Header r) ''Range'') (int (length (vf_data f))) = Inr ranges"
  shows "ServeContent c r name t f w = send_ranges c r f ct (int (length (vf_data f))) ranges (setLastModified c t w)"
proof -
  have "rw_header (setLastModified c t w) ''Content-Type'' = Some [ct]"
    using assms(4) by (simp add: setLastModified_def resp_simps)
  then have "set_type c name f (setLastModified c t w) = (ct, setLastModified c t w)" by (simp add: set_type_def)
  moreover have "ce_SeekEnd c f = Inr (int (length (vf_data f)))" using assms(2,3) by (simp add: seek_ok_def)
  ultimately show ?thesis using assms(5) by (simp add: ServeContent_def Let_def checkPreconditions_unconditional [OF assms(1)])
qed

text \<open>A response that is sent with this status, type and body, with the headers \<open>ks\<close> as they were set.\<close>

lemma send_content_sent:
  assumes "rw_sent w = None"
  shows "\<exists>h. rw_sent (send_content r code n d w) = Some (code, h) \<and>
      (\<forall>k. k \<notin> {''Accept-Ranges'', ''Content-Length''} \<longrightarrow> h k = rw_header w k)"
  using assms by (auto simp: send_content_def Let_def write_bytes_def resp_simps split: if_split)

lemma send_content_header:
  assumes "rw_sent w = None"
  shows "rw_status (send_content r code n d w) = Some code"
    and "k \<notin> {''Accept-Ranges'', ''Content-Length''} \<Longrightarrow> sent_header (send_content r code n d w) k = rw_header w k"
proof -
  obtain h where "rw_sent (send_content r code n d w) = Some (code, h)"
    "\<forall>k. k \<notin> {''Accept-Ranges'', ''Content-Length''} \<longrightarrow> h k = rw_header w k"
    using send_content_sent [OF assms, of r code n d] by blast
  then show "rw_status (send_content r code n d w) = Some code"
    "k \<notin> {''Accept-Ranges'', ''Content-Length''} \<Longrightarrow> sent_header (send_content r code n d w) k = rw_header w k"
    by (simp_all add: rw_status_def sent_header_def)
qed

lemma send_content_body:
  "r_Method r \<noteq> ''HEAD'' \<Longrightarrow>
   rw_body (send_content r code n d w) = rw_body w @ (if take (nat n) d = [] then [] else [FileBytes (take (nat n) d)])"
  by (simp add: send_content_def Let_def write_bytes_def resp_simps)

lemma setLastModified_other:
  "rw_sent (setLastModified c t w) = rw_sent w" "rw_body (setLastModified c t w) = rw_body w"
  "k \<noteq> ''Last-Modified'' \<Longrightarrow> rw_header (setLastModified c t w) k = rw_header w k"
  by (simp_all add: setLastModified_def resp_simps)

text \<open>The contract of the theory of site serving.\<close>

lemma ServeContent_full:
  assumes "seek_ok c"
  shows "serve_content_full (ServeContent c)"
proof -
  have "(\<exists>h. rw_sent (ServeContent c r n t f w) = Some (200, h) \<and> h ''Cache-Control'' = rw_header w ''Cache-Control'' \<and>
      h ''Content-Encoding'' = rw_header w ''Content-Encoding'' \<and>
      (rw_header w ''Content-Type'' \<noteq> None \<longrightarrow> h ''Content-Type'' = rw_header w ''Content-Type'')) \<and>
    rw_body (ServeContent c r n t f w) = rw_body w @ (if vf_data f = [] then [] else [FileBytes (vf_data f)])"
    if h: "plain_get r" "rw_sent w = None" "vf_err f = None" for r n t f w
  proof -
    let ?w1 = "setLastModified c t w" and ?sz = "int (length (vf_data f))"
    obtain ct w2 where w2: "set_type c n f ?w1 = (ct, w2)" by fastforce
    have k: "rw_sent w2 = None" "rw_body w2 = rw_body w" "rw_header w2 ''Cache-Control'' = rw_header w ''Cache-Control''"
      "rw_header w2 ''Content-Encoding'' = rw_header w ''Content-Encoding''"
      "rw_header w ''Content-Type'' \<noteq> None \<longrightarrow> rw_header w2 ''Content-Type'' = rw_header w ''Content-Type''"
      using w2 h(2) by (auto simp: set_type_def Let_def resp_simps setLastModified_other split: option.splits)
    have "ce_SeekEnd c f = Inr ?sz" using assms h(3) by (simp add: seek_ok_def)
    then have s: "ServeContent c r n t f w = send_content r 200 ?sz (vf_data f) w2"
      using plain_get_no_range [OF h(1)] w2
      by (simp add: ServeContent_def checkPreconditions_unconditional [OF plain_get_unconditional [OF h(1)]] parseRange_def send_ranges_def
          sumRangesSize_def)
    have "r_Method r \<noteq> ''HEAD''" using h(1) by (simp add: plain_get_def)
    then have b: "rw_body (send_content r 200 ?sz (vf_data f) w2) = rw_body w @ (if vf_data f = [] then [] else [FileBytes (vf_data f)])"
      by (simp add: send_content_body k(2))
    obtain hd' where hd': "rw_sent (send_content r 200 ?sz (vf_data f) w2) = Some (200, hd')"
      "\<forall>k. k \<notin> {''Accept-Ranges'', ''Content-Length''} \<longrightarrow> hd' k = rw_header w2 k"
      using send_content_sent [OF k(1), of r 200 ?sz "vf_data f"] by blast
    have "hd' ''Cache-Control'' = rw_header w2 ''Cache-Control''" "hd' ''Content-Encoding'' = rw_header w2 ''Content-Encoding''"
      "hd' ''Content-Type'' = rw_header w2 ''Content-Type''" using hd'(2) by simp_all
    then show ?thesis unfolding s using hd'(1) b k(3-5) by metis
  qed
  then show ?thesis unfolding serve_content_full_def by blast
qed

section \<open>A range of a file\<close>

lemma nat_digits_ne: "nat_digits n \<noteq> []"
  by (subst nat_digits.simps) simp

lemma nat_digits_digit: "c \<in> set (nat_digits n) \<Longrightarrow> is_digit c"
proof (induction n arbitrary: c rule: nat_digits.induct)
  case (1 n)
  have d: "is_digit (char_of (48 + m))" if "m < 10" for m :: nat
    using that by (simp add: is_digit_def byte_def)
  have "c \<in> set (if n < 10 then [char_of (48 + n)] else nat_digits (n div 10) @ [char_of (48 + n mod 10)])"
    using 1(2) by (subst (asm) nat_digits.simps)
  then show ?case using 1(1) d [of n] d [of "n mod 10"] by (auto split: if_split_asm)
qed

lemma digits_value_append:
  "digits_value b n (xs @ ys) = (case digits_value b n xs of None \<Rightarrow> None | Some m \<Rightarrow> digits_value b m ys)"
  by (induction xs arbitrary: n) (simp_all split: option.split)

lemma digits_value_digits: "digits_value 10 0 (nat_digits n) = Some n"
proof (induction n rule: nat_digits.induct)
  case (1 n)
  have d: "digit_value (char_of (48 + m)) = Some m" if "m < 10" for m :: nat
    using that by (simp add: digit_value_def is_digit_def byte_def)
  show ?case
    by (subst nat_digits.simps) (use 1 d [of n] d [of "n mod 10"] in \<open>simp add: digits_value_append\<close>)
qed

lemma ParseInt10_FormatInt:
  assumes "0 \<le> i" "i < 2 ^ 63"
  shows "ParseInt10 (FormatInt i) = Some i"
proof -
  let ?s = "nat_digits (nat i)"
  note ne = nat_digits_ne [of "nat i"]
  have "is_digit (hd ?s)" by (rule nat_digits_digit [OF hd_in_set [OF ne]])
  then have "take 1 ?s \<noteq> ''-''" "take 1 ?s \<noteq> ''+''" using ne by (cases ?s; auto simp: is_digit_def byte_def)+
  moreover have "\<not> 2 ^ 63 < int (nat i)" "int (nat i) \<noteq> 2 ^ 63" using assms by simp_all
  ultimately show ?thesis using assms(1) ne digits_value_digits [of "nat i"] by (simp add: ParseInt10_def Let_def FormatInt_def)
qed

lemma TrimSpace_no_space: "set s \<inter> set space_chars = {} \<Longrightarrow> TrimSpace s = s"
proof -
  assume s: "set s \<inter> set space_chars = {}"
  have "dropWhile (\<lambda>c. c \<in> set space_chars) t = t" if "set t \<subseteq> set s" for t
    using s that by (cases t) auto
  then show ?thesis by (simp add: TrimSpace_def TrimRight_def TrimLeft_def)
qed

lemma digits_no:
  assumes "c \<in> set (nat_digits n)"
  shows "c \<noteq> CHR ''-''" "c \<noteq> CHR '',''" "c \<notin> set space_chars"
  using nat_digits_digit [OF assms] by (auto simp: is_digit_def byte_def space_chars_def)

lemma parse_one_range_digits:
  assumes "0 \<le> a" "a \<le> b" "b < 2 ^ 63" "a < sz"
  shows "parse_one_range sz (FormatInt a @ ''-'' @ FormatInt b) =
    RangeOf \<lparr>hr_start = a, hr_length = min b (sz - 1) - a + 1\<rparr>"
proof -
  let ?a = "nat_digits (nat a)" and ?b = "nat_digits (nat b)"
  have f: "FormatInt a = ?a" "FormatInt b = ?b" using assms by (simp_all add: FormatInt_def)
  have t: "TrimSpace ?a = ?a" "TrimSpace ?b = ?b" using digits_no(3) by (auto intro!: TrimSpace_no_space)
  have m: "\<forall>c \<in> set ?a. c \<noteq> CHR ''-''" using digits_no(1) by blast
  then have c: "before_byte (CHR ''-'') (?a @ CHR ''-'' # ?b) = ?a" "from_byte (CHR ''-'') (?a @ CHR ''-'' # ?b) = CHR ''-'' # ?b"
    by (simp_all add: before_byte_def from_byte_def)
  have p: "ParseInt10 ?a = Some a" "ParseInt10 ?b = Some b" using ParseInt10_FormatInt assms f by (metis less_trans le_less_trans order_trans)+
  show ?thesis unfolding f using assms nat_digits_ne
    by (simp add: parse_one_range_def Let_def c t p min_def)
qed

lemma parseRange_digits:
  assumes "0 \<le> a" "a \<le> b" "b < 2 ^ 63" "a < sz"
  shows "parseRange (range_header a b) sz = Inr [\<lparr>hr_start = a, hr_length = min b (sz - 1) - a + 1\<rparr>]"
proof -
  let ?s = "FormatInt a @ ''-'' @ FormatInt b"
  have f: "FormatInt a = nat_digits (nat a)" "FormatInt b = nat_digits (nat b)" using assms by (simp_all add: FormatInt_def)
  have "CHR ''-'' \<noteq> CHR '',''" "CHR ''-'' \<notin> set space_chars" by (simp_all add: space_chars_def)
  then have n: "CHR '','' \<notin> set ?s" "set ?s \<inter> set space_chars = {}" using digits_no unfolding f by auto
  have "parse_ranges sz (split_on (CHR '','') ?s) False [] = Some (False, [\<lparr>hr_start = a, hr_length = min b (sz - 1) - a + 1\<rparr>])"
    unfolding split_on_single [OF n(1)] parse_ranges.simps TrimSpace_no_space [OF n(2)] parse_one_range_digits [OF assms] by simp
  moreover have "range_header a b = ''bytes='' @ ?s" by (simp add: range_header_def)
  ultimately show ?thesis by (simp add: parseRange_def HasPrefix_def)
qed

text \<open>A range of a page that is asked for is what is sent, from the page itself and not from a compressed variant.\<close>

lemma ServeContent_range:
  fixes name :: string and t :: timestamp
  assumes "unconditional r" "seek_ok c" "vf_err f = None" "rw_header w ''Content-Type'' = Some [ct]" "rw_sent w = None" "r_Method r = ''GET''"
    and "r_Header r ''Range'' = Some [range_header a b]" "0 \<le> a" "a \<le> b" "b < 2 ^ 63" "a < int (length (vf_data f))"
  defines "b' \<equiv> min b (int (length (vf_data f)) - 1)"
  defines "w' \<equiv> ServeContent c r name t f w"
  shows "rw_status w' = Some 206 \<and> sent_header w' ''Content-Type'' = Some [ct] \<and>
    sent_header w' ''Cache-Control'' = rw_header w ''Cache-Control'' \<and>
    sent_header w' ''Content-Range'' = Some [''bytes '' @ FormatInt a @ ''-'' @ FormatInt b' @ ''/'' @ FormatInt (int (length (vf_data f)))] \<and>
    rw_body w' = rw_body w @ [FileBytes (take (nat (b' - a + 1)) (drop (nat a) (vf_data f)))]"
proof -
  let ?n = "int (length (vf_data f))" and ?ra = "\<lparr>hr_start = a, hr_length = b' - a + 1\<rparr>"
  let ?w = "hset ''Content-Range'' (contentRange ?ra ?n) (setLastModified c t w)"
  have "header_Get (r_Header r) ''Range'' = range_header a b" using assms(7) by (simp add: header_Get_def resp_simps)
  then have "parseRange (header_Get (r_Header r) ''Range'') ?n = Inr [?ra]" using parseRange_digits [OF assms(8-11)] by (simp add: b'_def)
  then have "w' = send_ranges c r f ct ?n [?ra] (setLastModified c t w)"
    unfolding w'_def by (rule ServeContent_unconditional [OF assms(1-4)])
  moreover have "\<not> sumRangesSize [?ra] > ?n" using assms(8-11) by (simp add: sumRangesSize_def b'_def)
  moreover have "ce_Seek c f a = None" using assms(2,3,8) by (simp add: seek_ok_def)
  ultimately have w': "w' = send_content r 206 (b' - a + 1) (drop (nat a) (vf_data f)) ?w" by (simp add: send_ranges_def)
  have s: "rw_sent ?w = None" using assms(5) by (simp add: resp_simps setLastModified_other)
  have g: "a \<le> b'" using assms(9,11) by (simp add: b'_def)
  then have ne: "take (nat (b' - a + 1)) (drop (nat a) (vf_data f)) \<noteq> []" using assms(8,11) by simp
  have "contentRange ?ra ?n = ''bytes '' @ FormatInt a @ ''-'' @ FormatInt b' @ ''/'' @ FormatInt ?n" by (simp add: contentRange_def)
  then show ?thesis unfolding w' using send_content_header(1) [OF s] send_content_header(2) [OF s, of "''Content-Type''"]
      send_content_header(2) [OF s, of "''Content-Range''"] send_content_header(2) [OF s, of "''Cache-Control''"]
      send_content_body [of r] assms(4,6) ne
    by (simp add: resp_simps setLastModified_other)
qed

text \<open>A page that has not changed since the time the visitor names is not sent again.\<close>

lemma ServeContent_not_modified:
  assumes "rw_sent w = None" "r_Method r \<in> {''GET'', ''HEAD''}" "r_Header r ''If-Modified-Since'' = Some [ims]" "ims \<noteq> []"
    and "\<forall>k \<in> {''If-Match'', ''If-None-Match'', ''If-Unmodified-Since''}. r_Header r k = None"
    and "ce_ParseTime c ims = Some t'" "t < t' + second" "\<not> isZeroTime t"
  shows "rw_status (ServeContent c r name t f w) = Some 304 \<and> rw_body (ServeContent c r name t f w) = rw_body w \<and>
    sent_header (ServeContent c r name t f w) ''Content-Type'' = None"
proof -
  have g: "header_Get (r_Header r) ''If-Modified-Since'' = ims" "header_Get (r_Header r) ''If-Match'' = []"
    "header_Get (r_Header r) ''If-None-Match'' = []" "header_Get (r_Header r) ''If-Unmodified-Since'' = []"
    using assms(3,5) by (simp_all add: header_Get_def resp_simps)
  have "checkPreconditions c r t w' = Inl (writeNotModified w')" for w'
    using assms(2,4,6-8)
    by (auto simp: checkPreconditions_def checkIfMatch_def checkIfNoneMatch_def checkIfModifiedSince_def checkIfUnmodifiedSince_def Let_def g)
  then have "ServeContent c r name t f w = writeNotModified (setLastModified c t w)" by (simp add: ServeContent_def)
  then show ?thesis using assms(1)
    by (simp add: writeNotModified_def Let_def rw_status_def sent_header_def resp_simps hdel_def setLastModified_other)
qed

section \<open>Ranges of a page of a site\<close>


definition demo_content :: content_env where
  "demo_content = \<lparr>ce_ParseTime = (\<lambda>s. if s = ''Thu, 01 Jan 1970 00:00:09 GMT'' then Some (9 * second) else None),
     ce_FormatTime = (\<lambda>_. ''Thu, 01 Jan 1970 00:00:07 GMT''), ce_TypeByExtension = (\<lambda>_. []), ce_DetectContentType = (\<lambda>_. ''text/plain''),
     ce_Boundary = ''b'', ce_ErrorText = (\<lambda>_. []), ce_SeekEnd = (\<lambda>f. Inr (int (length (vf_data f)))), ce_Seek = (\<lambda>f n. None)\<rparr>"

lemma demo_content_seek: "seek_ok demo_content"
  by (simp add: seek_ok_def demo_content_def)

abbreviation demo_range_env :: serve_env where
  "demo_range_env \<equiv> (demo_env [])\<lparr>e_ServeContent := ServeContent demo_content\<rparr>"

abbreviation demo_range_headers :: header where
  "demo_range_headers \<equiv> [''Range'' \<mapsto> [range_header 1 3], ''Accept-Encoding'' \<mapsto> [''gzip'']]"


text \<open>The answers the standard library gives on this file to an unsatisfiable range, to one counted from the end, and to conditions.\<close>

lemma demo_content_answers:
  "let serve = (\<lambda>hd' t. ServeContent demo_content (demo_page_get hd') ''x.html'' t \<lparr>vf_data = ''hello'', vf_err = None, vf_seekable = True\<rparr>
                  (hset ''Content-Type'' ''text/html'' new_resp))
   in rw_status (serve [''Range'' \<mapsto> [''bytes=7-9'']] 0) = Some 416 \<and>
      rw_body (serve [''Range'' \<mapsto> [''bytes=-2'']] 0) = [FileBytes ''lo''] \<and>
      rw_status (serve [''If-Modified-Since'' \<mapsto> [''Thu, 01 Jan 1970 00:00:09 GMT'']] (7 * second)) = Some 304 \<and>
      rw_status (serve [''If-None-Match'' \<mapsto> [''\"a\", *'']] 0) = Some 304"
  by code_simp

end
