(* ===== verification/Logging.thy ===== *)
theory Logging
  imports Pipeline
begin

text \<open>
  What the daemon writes to its logs (\<^verbatim>\<open>internal/logging\<close>, \<^verbatim>\<open>LogConfig\<close> of \<^verbatim>\<open>internal/config\<close>, \<^verbatim>\<open>logRequest\<close> of
  \<^verbatim>\<open>internal/auth\<close>): the fields of an entry, and which logger and format are chosen.  The libraries that
  write entries (\<^verbatim>\<open>labkit\<close>, \<^verbatim>\<open>logrus\<close>) are parameters, the record \<open>labkit\<close>; a set of fields, a Go map with
  distinct constant keys, is an association list.
\<close>

section \<open>Loggers (logging.go)\<close>

datatype log_value =
  LogString string | LogBool bool | LogInt int | LogNat nat | LogStrings MultiStringFlag | LogError go_error

type_synonym log_fields = "(string \<times> log_value) list"

text \<open>\<open>lb_Initialize\<close> configures a logger with a format and, when it is given, a level; \<open>lb_AccessLogger\<close> wraps
  a handler, given the generator of extra fields, the logger and whether forwarded addresses are believed.\<close>

record 'logger labkit =
  lb_StandardLogger :: 'logger
  lb_New :: 'logger
  lb_Initialize :: "'logger \<Rightarrow> string \<Rightarrow> string option \<Rightarrow> 'logger result"
  lb_AccessLogger :: "(request \<Rightarrow> log_fields) \<Rightarrow> 'logger \<Rightarrow> bool \<Rightarrow> handler \<Rightarrow> handler"
  lb_CorrelationID :: "request \<Rightarrow> string"

definition ConfigureLogging :: "'logger labkit \<Rightarrow> string \<Rightarrow> bool \<Rightarrow> 'logger result" where
  "ConfigureLogging lb format verbose =
     lb_Initialize lb (lb_StandardLogger lb) (if format = [] then ''text'' else format)
       (Some (if verbose then ''trace'' else ''info''))"

definition getAccessLogger :: "'logger labkit \<Rightarrow> string \<Rightarrow> 'logger result" where
  "getAccessLogger lb format =
     (if format \<noteq> ''text'' \<and> format \<noteq> [] then Inr (lb_StandardLogger lb)
      else lb_Initialize lb (lb_New lb) ''combined'' None)"

text \<open>The context of the request, which \<^verbatim>\<open>request.GetHost\<close> and \<^verbatim>\<open>request.GetDomain\<close> read, is an argument.\<close>

definition getExtraLogFields :: "source_resolver resolve_fn \<Rightarrow> req_context \<Rightarrow> request \<Rightarrow> log_fields" where
  "getExtraLogFields Resolve cx r =
     [(''pages_https'', LogBool (IsHTTPS r)), (''pages_host'', LogString (cx_Host cx))] @
     (case cx_Domain cx of
        None \<Rightarrow> []
      | Some d \<Rightarrow>
          (case GetLookupPath Resolve (Some d) r of
             Inl err \<Rightarrow> [(''error'', LogError err)]
           | Inr lp \<Rightarrow>
               [(''pages_project_serving_type'', LogString (lp_ServingType lp)),
                (''pages_project_prefix'', LogString (lp_Prefix lp)),
                (''pages_project_id'', LogNat (lp_ProjectID lp))]))"

definition BasicAccessLogger ::
  "'logger labkit \<Rightarrow> string \<Rightarrow> (request \<Rightarrow> log_fields) option \<Rightarrow> (handler \<Rightarrow> handler) result" where
  "BasicAccessLogger lb format extraFields =
     (case getAccessLogger lb format of
        Inl err \<Rightarrow> Inl err
      | Inr accessLogger \<Rightarrow>
          (let extraFields =
             (case extraFields of
                Some f \<Rightarrow> f
              | None \<Rightarrow>
                  (\<lambda>r. [(''correlation_id'', LogString (lb_CorrelationID lb r)), (''pages_https'', LogBool (IsHTTPS r)),
                        (''pages_host'', LogString (r_Host r))]))
           in Inr (lb_AccessLogger lb extraFields accessLogger False)))"

definition AccessLogger ::
  "'logger labkit \<Rightarrow> source_resolver resolve_fn \<Rightarrow> req_context \<Rightarrow> string \<Rightarrow> (handler \<Rightarrow> handler) result" where
  "AccessLogger lb Resolve cx format = BasicAccessLogger lb format (Some (getExtraLogFields Resolve cx))"

definition LogRequest :: "'logger labkit \<Rightarrow> request \<Rightarrow> log_fields" where
  "LogRequest lb r =
     [(''correlation_id'', LogString (lb_CorrelationID lb r)), (''host'', LogString (r_Host r)),
      (''path'', LogString (u_Path (r_URL r)))]"

section \<open>The configuration (config.go)\<close>

text \<open>\<open>configFlag\<close> is the constant \<^verbatim>\<open>flag.DefaultConfigFlagname\<close> of the flag package.\<close>

definition LogConfig :: "string \<Rightarrow> flags \<Rightarrow> Config \<Rightarrow> log_fields" where
  "LogConfig configFlag f config =
     (let g = c_General config; a = c_Authentication config; z = c_Zip config
      in [(''artifacts-server'', LogString (fl_artifactsServer f)),
          (''artifacts-server-timeout'', LogInt (fl_artifactsServerTimeout f)),
          (''daemon-gid'', LogNat (fl_daemonGID f)),
          (''daemon-uid'', LogNat (fl_daemonUID f)),
          (''daemon-inplace-chroot'', LogBool (fl_daemonInplaceChroot f)),
          (''default-config-filename'', LogString configFlag),
          (''disable-cross-origin-requests'', LogBool (fl_disableCrossOriginRequests f)),
          (''domain'', LogString (gc_Domain g)),
          (''insecure-ciphers'', LogBool (gc_InsecureCiphers g)),
          (''listen-http'', LogStrings (fl_listenHTTP f)),
          (''listen-https'', LogStrings (fl_listenHTTPS f)),
          (''listen-proxy'', LogStrings (fl_listenProxy f)),
          (''listen-https-proxyv2'', LogStrings (fl_listenHTTPSProxyv2 f)),
          (''log-format'', LogString (fl_logFormat f)),
          (''metrics-address'', LogString (fl_metricsAddress f)),
          (''pages-domain'', LogString (fl_pagesDomain f)),
          (''pages-root'', LogString (fl_pagesRoot f)),
          (''pages-status'', LogString (fl_pagesStatus f)),
          (''propagate-correlation-id'', LogBool (fl_propagateCorrelationID f)),
          (''redirect-http'', LogBool (gc_RedirectHTTP g)),
          (''root-cert'', LogString (fl_pagesRootKey f)),
          (''root-key'', LogString (fl_pagesRootCert f)),
          (''status_path'', LogString (gc_StatusPath g)),
          (''tls-min-version'', LogString (fl_tlsMinVersion f)),
          (''tls-max-version'', LogString (fl_tlsMaxVersion f)),
          (''use-http-2'', LogBool (gc_HTTP2 g)),
          (''gitlab-server'', LogString (gk_Server (c_GitLab config))),
          (''internal-gitlab-server'', LogString (gk_InternalServer (c_GitLab config))),
          (''api-secret-key'', LogString (fl_gitLabAPISecretKey f)),
          (''domain-config-source'', LogString (gc_DomainConfigurationSource g)),
          (''use-legacy-storage'', LogBool (gc_UseLegacyStorage g)),
          (''auth-redirect-uri'', LogString (ac_RedirectURI a)),
          (''auth-scope'', LogString (ac_Scope a)),
          (''zip-cache-expiration'', LogInt (zs_ExpirationInterval z)),
          (''zip-cache-cleanup'', LogInt (zs_CleanupInterval z)),
          (''zip-cache-refresh'', LogInt (zs_RefreshInterval z)),
          (''zip-open-timeout'', LogInt (zs_OpenTimeout z))])"

section \<open>Properties\<close>

lemma loadConfig_logged:
  assumes "loadConfig readFile f = Inr c"
  shows "LogConfig k f c = LogConfig k f
    ((config_of_flags f)\<lparr>c_GitLab := (c_GitLab (config_of_flags f))\<lparr>gk_Server := gitlabServerFromFlags f,
       gk_InternalServer := internalGitlabServerFromFlags f\<rparr>\<rparr>)"
proof -
  let ?c = "config_of_flags f"
  obtain cert key c0 where c0: "c0 = ?c\<lparr>c_General := (c_General ?c)\<lparr>gc_RootCertificate := cert, gc_RootKey := key\<rparr>,
      c_GitLab := (c_GitLab ?c)\<lparr>gk_Server := gitlabServerFromFlags f, gk_InternalServer := internalGitlabServerFromFlags f\<rparr>\<rparr>"
    and s: "(if fl_gitLabAPISecretKey f \<noteq> [] then setGitLabAPISecretKey readFile (fl_gitLabAPISecretKey f) c0 else Inr c0) = Inr c"
    using assms by (auto simp: loadConfig_def Let_def split: sum.splits option.splits)
  from s have "c = c0 \<or> (\<exists>x. c = c0\<lparr>c_GitLab := (c_GitLab c0)\<lparr>gk_APISecretKey := x\<rparr>\<rparr>)"
    by (auto simp: setGitLabAPISecretKey_def split: if_split_asm sum.splits option.splits)
  then show ?thesis by (elim disjE exE) (simp_all add: LogConfig_def Let_def c0)
qed

text \<open>C40. No secret of the configuration is logged at the start: what is logged is the same whatever the cookie
  secret, the secret of the OAuth application and the address of the crash reporter are, and whatever the
  files of the certificate, the private key and the API secret hold.\<close>

theorem LogConfig_no_secrets:
  assumes "loadConfig readFile f = Inr c" and "loadConfig readFile' f' = Inr c'"
    and "f' = f\<lparr>fl_secret := s, fl_clientSecret := cs, fl_sentryDSN := dsn\<rparr>"
  shows "LogConfig k f' c' = LogConfig k f c"
  unfolding loadConfig_logged [OF assms(1)] loadConfig_logged [OF assms(2)]
  by (simp add: assms(3) LogConfig_def Let_def config_of_flags_def gitlabServerFromFlags_def internalGitlabServerFromFlags_def)

text \<open>The paths of the root certificate and of its key are logged under each other's name.\<close>

lemma LogConfig_root_swapped:
  "map_of (LogConfig k f c) ''root-cert'' = Some (LogString (fl_pagesRootKey f)) \<and>
   map_of (LogConfig k f c) ''root-key'' = Some (LogString (fl_pagesRootCert f))"
  by (simp add: LogConfig_def Let_def)

lemma LogConfig_keys: "distinct (map fst (LogConfig k f c))"
  by (simp add: LogConfig_def Let_def)

text \<open>Logging passes a request on: when the access log of the library does, so do the loggers made here.\<close>

lemma AccessLogger_forwards:
  assumes "\<And>extra l xff. forwards (lb_AccessLogger lb extra l xff)"
  shows "BasicAccessLogger lb format extra = Inr m \<Longrightarrow> forwards m" "AccessLogger lb R cx format = Inr m \<Longrightarrow> forwards m"
  using assms by (auto simp: AccessLogger_def BasicAccessLogger_def Let_def split: sum.splits)

text \<open>Every format but the text format shares the standard logger, so creating an access log fails only for
  the text format.\<close>

lemma AccessLogger_error:
  assumes "AccessLogger lb R cx format = Inl err"
  shows "format \<in> {''text'', []} \<and> lb_Initialize lb (lb_New lb) ''combined'' None = Inl err"
  using assms by (auto simp: AccessLogger_def BasicAccessLogger_def getAccessLogger_def Let_def split: sum.splits if_split_asm)

text \<open>The project an entry names is the one that was served.\<close>

lemma getExtraLogFields_project:
  "map_of (getExtraLogFields R cx r) ''pages_project_id'' = Some (LogNat n) \<longleftrightarrow>
     (\<exists>d s. cx_Domain cx = Some d \<and> R (d_Resolver d) r = Inr s \<and> lp_ProjectID (sr_LookupPath s) = n)"
proof (cases "cx_Domain cx")
  case (Some d)
  then show ?thesis by (cases "R (d_Resolver d) r") (auto simp: getExtraLogFields_def GetLookupPath_def domain_resolve_def)
qed (simp add: getExtraLogFields_def)

theorem LogConfig_no_secrets_witness:
  "\<exists>c c'. loadConfig (\<lambda>_. Inl ErrOSNotExist) demo_flags = Inr c \<and>
     loadConfig (\<lambda>_. Inr ''x'') (demo_flags\<lparr>fl_secret := ''s2'', fl_clientSecret := ''c2'', fl_sentryDSN := ''d2''\<rparr>) = Inr c' \<and>
     ac_Secret (c_Authentication c) \<noteq> ac_Secret (c_Authentication c') \<and>
     LogConfig ''config'' (demo_flags\<lparr>fl_secret := ''s2'', fl_clientSecret := ''c2'', fl_sentryDSN := ''d2''\<rparr>) c' =
       LogConfig ''config'' demo_flags c"
proof -
  let ?f = "demo_flags\<lparr>fl_secret := ''s2'', fl_clientSecret := ''c2'', fl_sentryDSN := ''d2''\<rparr>"
  have "case loadConfig (\<lambda>_. Inl ErrOSNotExist) demo_flags of Inr c \<Rightarrow> ac_Secret (c_Authentication c) \<noteq> ''s2'' | Inl _ \<Rightarrow> False"
    "case loadConfig (\<lambda>_. Inr ''x'') ?f of Inr c \<Rightarrow> ac_Secret (c_Authentication c) = ''s2'' | Inl _ \<Rightarrow> False"
    by code_simp+
  then obtain c c' where c: "loadConfig (\<lambda>_. Inl ErrOSNotExist) demo_flags = Inr c" "loadConfig (\<lambda>_. Inr ''x'') ?f = Inr c'"
    "ac_Secret (c_Authentication c) \<noteq> ac_Secret (c_Authentication c')"
    by (auto split: sum.splits)
  from LogConfig_no_secrets [OF c(1,2) refl] c show ?thesis by blast
qed

end
