(* ===== verification/Zip_Archive.thy ===== *)
theory Zip_Archive
  imports Http_Range Symlinks
begin

text \<open>
  A zip archive as a root of the virtual file system (\<^verbatim>\<open>internal/vfs/zip/archive.go\<close>), its caches of
  data offsets and link targets (\<^verbatim>\<open>lru_cache.go\<close>) and the reader of compressed files
  (\<^verbatim>\<open>deflate_reader.go\<close>).

  What \<^verbatim>\<open>archive/zip\<close> finds in an archive is a parameter: the entries with their header fields, the
  offset of their data and their contents as \<^verbatim>\<open>file.Open\<close> gives them.  Inflating is a parameter too.
  The cache library may drop entries at any time: a step of its own.
\<close>

section \<open>Entries and archives\<close>

record zip_file =
  zf_Name :: string
  zf_info :: file_info
  zf_Method :: nat
  zf_CompressedSize64 :: nat
  zf_DataOffset :: "int result"
  zf_Open :: "vfs_file result"

definition dirPrefix :: string where "dirPrefix = ''public/''"
definition maxSymlinkSize :: nat where "maxSymlinkSize = 256"

definition errNotSymlink :: go_error where "errNotSymlink = ErrMsg ''not a symlink''"
definition errSymlinkSize :: go_error where "errSymlinkSize = ErrMsg ''symlink too long''"
definition errNotFile :: go_error where "errNotFile = ErrMsg ''not a file''"

datatype archiveStatus = archiveOpening | archiveOpenError | archiveOpened | archiveCorrupted

record zip_archive =
  za_once :: bool
  za_done :: bool
  za_namespace :: string
  za_resource :: "Resource option"
  za_err :: "go_error option"
  za_files :: "string \<rightharpoonup> zip_file"
  za_directories :: "string \<rightharpoonup> file_info"

text \<open>\<open>count\<close> is \<^verbatim>\<open>fs.archiveCount\<close> after its increment.\<close>

definition newArchive :: "int \<Rightarrow> zip_archive" where
  "newArchive count =
     \<lparr>za_once = False, za_done = False, za_namespace = FormatInt count @ '':'', za_resource = None, za_err = None,
      za_files = Map.empty, za_directories = Map.empty\<rparr>"

definition openStatus :: "zip_archive \<Rightarrow> archiveStatus \<times> go_error option" where
  "openStatus a =
     (if \<not> za_done a then (archiveOpening, None)
      else (case za_err a of
              Some err \<Rightarrow> (archiveOpenError, Some err)
            | None \<Rightarrow>
                (case za_resource a of
                   Some resource \<Rightarrow>
                     (case rs_err resource of Some err \<Rightarrow> (archiveCorrupted, Some err) | None \<Rightarrow> (archiveOpened, None))
                 | None \<Rightarrow> (archiveOpened, None))))"

section \<open>Reading an archive\<close>

text \<open>A directory that only occurs in the name of an entry gets an empty header: a directory of size 0.\<close>

definition implied_directory :: file_info where
  "implied_directory = \<lparr>fi_mode = ModeDir, fi_size = 0, fi_modtime = 0\<rparr>"

definition addPathDirectory :: "string \<Rightarrow> (string \<rightharpoonup> file_info) \<Rightarrow> (string \<rightharpoonup> file_info)" where
  "addPathDirectory pathname directories =
     (let dir = fst (path_Split pathname)
      in if dir = [] then directories
         else if directories dir \<noteq> None then directories
         else directories(dir \<mapsto> implied_directory))"

definition add_entry ::
  "zip_file \<Rightarrow> (string \<rightharpoonup> zip_file) \<times> (string \<rightharpoonup> file_info) \<Rightarrow> (string \<rightharpoonup> zip_file) \<times> (string \<rightharpoonup> file_info)" where
  "add_entry file s =
     (let (files, directories) = s
      in if \<not> HasPrefix (zf_Name file) dirPrefix then (files, directories)
         else if fi_mode (zf_info file) = ModeDir
         then (files, addPathDirectory (zf_Name file) (directories(zf_Name file \<mapsto> zf_info file)))
         else (files(zf_Name file \<mapsto> file), addPathDirectory (zf_Name file) directories))"

definition add_entries :: "zip_file list \<Rightarrow> (string \<rightharpoonup> zip_file) \<times> (string \<rightharpoonup> file_info)" where
  "add_entries entries = fold add_entry entries (Map.empty, Map.empty)"

text \<open>\<^verbatim>\<open>readArchive\<close>, run once in its own goroutine: it makes the resource, then reads the directory of
  the archive.  \<open>newReader\<close> is \<^verbatim>\<open>zip.NewReader\<close> on the resource; its requests may mark the resource
  with an error.\<close>

definition read_resource :: "range_client \<Rightarrow> string \<Rightarrow> zip_archive \<Rightarrow> zip_archive" where
  "read_resource Do url a =
     (case NewResource Do url of
        Inl err \<Rightarrow> a\<lparr>za_err := Some err, za_done := True\<rparr>
      | Inr resource \<Rightarrow> a\<lparr>za_resource := Some resource\<rparr>)"

definition read_directory ::
  "(Resource \<Rightarrow> zip_file list result \<times> go_error option) \<Rightarrow> Resource \<Rightarrow> zip_archive \<Rightarrow> zip_archive" where
  "read_directory newReader resource a =
     (let (res, changed) = newReader resource;
          a = a\<lparr>za_resource := Some (case changed of None \<Rightarrow> resource | Some err \<Rightarrow> setError err resource)\<rparr>
      in case res of
           Inl err \<Rightarrow> a\<lparr>za_err := Some err, za_done := True\<rparr>
         | Inr entries \<Rightarrow>
             (let (files, directories) = add_entries entries
              in a\<lparr>za_files := files, za_directories := directories, za_done := True\<rparr>))"

definition readArchive ::
  "range_client \<Rightarrow> (Resource \<Rightarrow> zip_file list result \<times> go_error option) \<Rightarrow> string \<Rightarrow> zip_archive \<Rightarrow> zip_archive" where
  "readArchive Do newReader url a =
     (let a = read_resource Do url a
      in if za_err a \<noteq> None then a
         else (case za_resource a of None \<Rightarrow> a | Some resource \<Rightarrow> read_directory newReader resource a))"

section \<open>The cache of offsets and links (lru_cache.go)\<close>

text \<open>The cached values with the time they expire at.\<close>

type_synonym 'v lru = "string \<rightharpoonup> 'v \<times> int"

definition findOrFetch :: "int \<Rightarrow> int \<Rightarrow> 'v lru \<Rightarrow> string \<Rightarrow> string \<Rightarrow> 'v result \<Rightarrow> 'v result \<times> 'v lru" where
  "findOrFetch now duration c cacheNamespace key fetch =
     (case c (cacheNamespace @ key) of
        Some (v, expires) \<Rightarrow>
          (if \<not> expires < now then (Inr v, c)
           else (case fetch of Inl err \<Rightarrow> (Inl err, c) | Inr v \<Rightarrow> (Inr v, c(cacheNamespace @ key \<mapsto> (v, now + duration)))))
      | None \<Rightarrow>
          (case fetch of Inl err \<Rightarrow> (Inl err, c) | Inr v \<Rightarrow> (Inr v, c(cacheNamespace @ key \<mapsto> (v, now + duration)))))"

definition lru_evict :: "string set \<Rightarrow> 'v lru \<Rightarrow> 'v lru" where
  "lru_evict ks c = c |` (- ks)"

section \<open>The operations of the root\<close>

definition findFile :: "zip_archive \<Rightarrow> string \<Rightarrow> zip_file option" where
  "findFile a name = za_files a (path_Clean (dirPrefix @ name))"

definition findDirectory :: "zip_archive \<Rightarrow> string \<Rightarrow> file_info option" where
  "findDirectory a name = za_directories a (path_Clean (dirPrefix @ name) @ ''/'')"

definition zip_Lstat :: "zip_archive \<Rightarrow> string \<Rightarrow> file_info result" where
  "zip_Lstat a name =
     (case findFile a name of
        Some file \<Rightarrow> Inr (zf_info file)
      | None \<Rightarrow> (case findDirectory a name of Some directory \<Rightarrow> Inr directory | None \<Rightarrow> Inl ErrOSNotExist))"

text \<open>What reading a section of the resource to its end gives: the bytes and the error in place of the end
  of the file.  A reader of an empty section fails.\<close>

definition section_file :: "range_client \<Rightarrow> Resource \<Rightarrow> int \<Rightarrow> int \<Rightarrow> bytes \<times> go_error option" where
  "section_file Do resource offset size' =
     (if size' \<le> 0 then ([], Some ErrInvalidRange)
      else (case io_ReadFull (reader_Read Do) (nat size') (resource, SectionReader offset size') of
              Some (out, _) \<Rightarrow> out
            | None \<Rightarrow> ([], Some ErrUnexpectedEOF)))"

definition open_at ::
  "range_client \<Rightarrow> (bytes \<times> go_error option \<Rightarrow> bytes \<times> go_error option) \<Rightarrow> Resource \<Rightarrow> zip_file \<Rightarrow> int \<Rightarrow> vfs_file result" where
  "open_at Do inflate resource file dataOffset =
     (let out = section_file Do resource dataOffset (wrap64 (int (zf_CompressedSize64 file)))
      in if zf_Method file = 8 then Inr \<lparr>vf_data = fst (inflate out), vf_err = snd (inflate out), vf_seekable = False\<rparr>
         else if zf_Method file = 0 then Inr \<lparr>vf_data = fst out, vf_err = snd out, vf_seekable = True\<rparr>
         else Inl (ErrMsg ''unsupported compression method''))"

text \<open>\<^verbatim>\<open>Open\<close>, given how the offset of the data is found out.\<close>

definition zip_open_with ::
  "(zip_file \<Rightarrow> int result \<times> 'c) \<Rightarrow> 'c \<Rightarrow> range_client \<Rightarrow> (bytes \<times> go_error option \<Rightarrow> bytes \<times> go_error option) \<Rightarrow>
   Resource \<Rightarrow> zip_archive \<Rightarrow> string \<Rightarrow> vfs_file result \<times> 'c" where
  "zip_open_with fetch c Do inflate resource a name =
     (case findFile a name of
        None \<Rightarrow> (Inl (if findDirectory a name \<noteq> None then errNotFile else ErrOSNotExist), c)
      | Some file \<Rightarrow>
          (if fi_mode (zf_info file) \<noteq> ModeRegular then (Inl errNotFile, c)
           else (case fetch file of
                   (Inl err, c) \<Rightarrow> (Inl err, c)
                 | (Inr dataOffset, c) \<Rightarrow> (open_at Do inflate resource file dataOffset, c))))"

definition zip_Open ::
  "int \<Rightarrow> int \<Rightarrow> int lru \<Rightarrow> range_client \<Rightarrow> (bytes \<times> go_error option \<Rightarrow> bytes \<times> go_error option) \<Rightarrow>
   Resource \<Rightarrow> zip_archive \<Rightarrow> string \<Rightarrow> vfs_file result \<times> int lru" where
  "zip_Open now duration c Do inflate resource a name =
     zip_open_with (\<lambda>file. findOrFetch now duration c (za_namespace a) name (zf_DataOffset file)) c Do inflate resource a name"

text \<open>Reading a link: at most one byte more than a link may have, and an early end is no error.\<close>

definition read_link :: "zip_file \<Rightarrow> string result" where
  "read_link file =
     (case zf_Open file of
        Inl err \<Rightarrow> Inl err
      | Inr rc \<Rightarrow>
          (if length (vf_data rc) \<ge> Suc maxSymlinkSize then Inr (take (Suc maxSymlinkSize) (vf_data rc))
           else let err = (case vf_err rc of
                             None \<Rightarrow> if vf_data rc = [] then ErrEOF else ErrUnexpectedEOF
                           | Some e \<Rightarrow> e)
           in if err \<noteq> ErrUnexpectedEOF then Inl err else Inr (vf_data rc)))"

definition zip_readlink_with :: "(zip_file \<Rightarrow> string result \<times> 'c) \<Rightarrow> 'c \<Rightarrow> zip_archive \<Rightarrow> string \<Rightarrow> string result \<times> 'c" where
  "zip_readlink_with fetch c a name =
     (case findFile a name of
        None \<Rightarrow> (Inl (if findDirectory a name \<noteq> None then errNotSymlink else ErrOSNotExist), c)
      | Some file \<Rightarrow>
          (if fi_mode (zf_info file) \<noteq> ModeSymlink then (Inl errNotSymlink, c)
           else (case fetch file of
                   (Inl err, c) \<Rightarrow> (Inl err, c)
                 | (Inr symlink, c) \<Rightarrow> (if length symlink > maxSymlinkSize then Inl errSymlinkSize else Inr symlink, c))))"

definition zip_Readlink :: "int \<Rightarrow> int \<Rightarrow> string lru \<Rightarrow> zip_archive \<Rightarrow> string \<Rightarrow> string result \<times> string lru" where
  "zip_Readlink now duration c a name =
     zip_readlink_with (\<lambda>file. findOrFetch now duration c (za_namespace a) name (read_link file)) c a name"

text \<open>The root without its caches.\<close>

definition zip_root :: "range_client \<Rightarrow> (bytes \<times> go_error option \<Rightarrow> bytes \<times> go_error option) \<Rightarrow> Resource \<Rightarrow> zip_archive \<Rightarrow> vfs_root" where
  "zip_root Do inflate resource a =
     \<lparr>rt_Lstat = zip_Lstat a,
      rt_Readlink = (\<lambda>name. fst (zip_readlink_with (\<lambda>file. (read_link file, ())) () a name)),
      rt_Open = (\<lambda>name. fst (zip_open_with (\<lambda>file. (zf_DataOffset file, ())) () Do inflate resource a name))\<rparr>"

section \<open>The reader of compressed files (deflate_reader.go)\<close>

text \<open>Readers live at addresses: closing one puts its address into the pool, from which a later
  \<^verbatim>\<open>newDeflateReader\<close> may take it again.  A \<^verbatim>\<open>sync.Pool\<close> gives any of its items or none: the
  choice is an argument.  A reader has the bytes that inflating its source still gives and the error
  in place of the end of the file.\<close>

record deflateReader =
  df_closer :: bool
  df_flate :: bytes
  df_err :: "go_error option"

record deflate_store =
  dp_heap :: "nat \<Rightarrow> deflateReader"
  dp_next :: nat
  dp_pool :: "nat list"

definition ErrClosedReader :: go_error where "ErrClosedReader = ErrMsg ''deflatereader: reader is closed''"

definition deflate_reset ::
  "(bytes \<times> go_error option \<Rightarrow> bytes \<times> go_error option) \<Rightarrow> bytes \<times> go_error option \<Rightarrow> deflateReader" where
  "deflate_reset inflate r = \<lparr>df_closer = True, df_flate = fst (inflate r), df_err = snd (inflate r)\<rparr>"

definition newDeflateReader ::
  "(bytes \<times> go_error option \<Rightarrow> bytes \<times> go_error option) \<Rightarrow> nat option \<Rightarrow> bytes \<times> go_error option \<Rightarrow>
   deflate_store \<Rightarrow> nat \<times> deflate_store" where
  "newDeflateReader inflate choice r s =
     (let dr = deflate_reset inflate r;
          fresh = (dp_next s, s\<lparr>dp_heap := (dp_heap s)(dp_next s := dr), dp_next := Suc (dp_next s)\<rparr>)
      in case choice of
           Some a \<Rightarrow>
             (if a \<in> set (dp_pool s) then (a, s\<lparr>dp_heap := (dp_heap s)(a := dr), dp_pool := remove1 a (dp_pool s)\<rparr>)
              else fresh)
         | None \<Rightarrow> fresh)"

definition deflate_Read :: "nat \<Rightarrow> nat \<Rightarrow> deflate_store \<Rightarrow> bytes result \<times> deflate_store" where
  "deflate_Read a n s =
     (let d = dp_heap s a
      in if \<not> df_closer d then (Inl ErrClosedReader, s)
         else if df_flate d = [] \<and> n > 0 then (Inl (case df_err d of None \<Rightarrow> ErrEOF | Some e \<Rightarrow> e), s)
         else (Inr (take n (df_flate d)), s\<lparr>dp_heap := (dp_heap s)(a := d\<lparr>df_flate := drop n (df_flate d)\<rparr>)\<rparr>))"

text \<open>\<^verbatim>\<open>Close\<close> gives the error the inflater has met, if it has met it yet; the reader goes to the pool
  either way.\<close>

definition deflate_Close :: "bool \<Rightarrow> nat \<Rightarrow> deflate_store \<Rightarrow> go_error option \<times> deflate_store" where
  "deflate_Close met a s =
     (let d = dp_heap s a
      in if \<not> df_closer d then (Some ErrClosedReader, s)
         else (if met then df_err d else None,
               s\<lparr>dp_heap := (dp_heap s)(a := d\<lparr>df_closer := False\<rparr>), dp_pool := a # dp_pool s\<rparr>))"

text \<open>All stores that the operations lead to.\<close>

definition deflate_init :: deflate_store where
  "deflate_init = \<lparr>dp_heap = (\<lambda>_. \<lparr>df_closer = False, df_flate = [], df_err = None\<rparr>), dp_next = 0, dp_pool = []\<rparr>"

inductive deflate_reachable ::
  "(bytes \<times> go_error option \<Rightarrow> bytes \<times> go_error option) \<Rightarrow> deflate_store \<Rightarrow> bool" for inflate where
  dr_init: "deflate_reachable inflate deflate_init"
| dr_new: "deflate_reachable inflate s \<Longrightarrow> deflate_reachable inflate (snd (newDeflateReader inflate choice r s))"
| dr_read: "deflate_reachable inflate s \<Longrightarrow> deflate_reachable inflate (snd (deflate_Read a n s))"
| dr_close: "deflate_reachable inflate s \<Longrightarrow> deflate_reachable inflate (snd (deflate_Close met a s))"
| dr_gc: "deflate_reachable inflate s \<Longrightarrow> deflate_reachable inflate (s\<lparr>dp_pool := filter P (dp_pool s)\<rparr>)"

text \<open>The readers in use and what each of them still gives.\<close>

definition open_readers :: "deflate_store \<Rightarrow> nat \<rightharpoonup> bytes \<times> go_error option" where
  "open_readers s a = (let d = dp_heap s a in if df_closer d then Some (df_flate d, df_err d) else None)"

definition deflate_inv :: "deflate_store \<Rightarrow> bool" where
  "deflate_inv s \<longleftrightarrow> distinct (dp_pool s) \<and> (\<forall>a \<in> set (dp_pool s). \<not> df_closer (dp_heap s a)) \<and>
     (\<forall>a \<ge> dp_next s. \<not> df_closer (dp_heap s a)) \<and> (\<forall>a \<in> set (dp_pool s). a < dp_next s)"

section \<open>The cache is transparent\<close>

text \<open>A cache whose keys are a namespace and a name.  The namespaces in use are such that a key shows
  which namespace it is in; a value, once it could be fetched, is fetched the same again.\<close>

definition faithful :: "(string \<Rightarrow> string \<Rightarrow> 'v result) \<Rightarrow> string set \<Rightarrow> 'v lru \<Rightarrow> bool" where
  "faithful fetch spaces c \<longleftrightarrow>
     (\<forall>x v e. c x = Some (v, e) \<longrightarrow> (\<exists>ns k. ns \<in> spaces \<and> x = ns @ k \<and> fetch ns k = Inr v))"

lemma faithful_evict: "faithful fetch spaces c \<Longrightarrow> faithful fetch spaces (lru_evict ks c)"
  by (simp add: faithful_def lru_evict_def restrict_map_def)

locale memo =
  fixes fetch :: "string \<Rightarrow> string \<Rightarrow> 'v result"
    and spaces :: "string set"
  assumes separate: "ns \<in> spaces \<Longrightarrow> ns' \<in> spaces \<Longrightarrow> ns @ k = ns' @ k' \<Longrightarrow> ns = ns' \<and> k = k'"
begin

lemma findOrFetch_transparent:
  assumes "faithful fetch spaces c" "ns \<in> spaces"
  shows "fst (findOrFetch now duration c ns k (fetch ns k)) = fetch ns k \<and>
    faithful fetch spaces (snd (findOrFetch now duration c ns k (fetch ns k)))"
proof (cases "c (ns @ k)")
  case None
  with assms show ?thesis by (auto simp: findOrFetch_def faithful_def split: sum.splits)
next
  case (Some ve)
  obtain v e where ve: "ve = (v, e)" by (cases ve)
  have v: "fetch ns k = Inr v" using assms Some separate unfolding faithful_def ve by metis
  with assms Some show ?thesis by (auto simp: findOrFetch_def faithful_def ve)
qed

end

text \<open>The namespaces of archives: a number in decimal and a colon.\<close>

definition archive_spaces :: "string set" where
  "archive_spaces = range (\<lambda>n :: nat. FormatInt (int n) @ '':'')"

lemma nat_digits_digits: "c \<in> set (nat_digits n) \<Longrightarrow> c \<noteq> colon"
proof (induction n arbitrary: c rule: nat_digits.induct)
  case (1 n)
  have d: "char_of (48 + m) \<noteq> colon" if "m < 10" for m :: nat
  proof -
    have "byte (char_of (48 + m)) = 48 + m" "byte colon = 58" using that by (simp_all add: byte_def)
    then show ?thesis using that by auto
  qed
  have "c \<in> set (if n < 10 then [char_of (48 + n)] else nat_digits (n div 10) @ [char_of (48 + n mod 10)])"
    using 1(2) by (subst (asm) nat_digits.simps)
  then show ?case using 1(1) d [of n] d [of "n mod 10"] by (auto split: if_split_asm)
qed

lemma archive_spaces_separate:
  assumes "ns \<in> archive_spaces" "ns' \<in> archive_spaces" "ns @ k = ns' @ k'"
  shows "ns = ns' \<and> k = k'"
proof -
  obtain m n where e: "ns = nat_digits m @ [colon]" "ns' = nat_digits n @ [colon]"
    using assms(1,2) by (auto simp: archive_spaces_def FormatInt_def)
  then have "nat_digits m @ colon # k = nat_digits n @ colon # k'" using assms(3) by simp
  moreover have "takeWhile (\<lambda>c. c \<noteq> colon) (nat_digits x @ colon # y) = nat_digits x" for x y
    using nat_digits_digits by (subst takeWhile_append2) auto
  then have "takeWhile (\<lambda>c. c \<noteq> colon) (nat_digits m @ colon # k) = nat_digits m"
    "takeWhile (\<lambda>c. c \<noteq> colon) (nat_digits n @ colon # k') = nat_digits n" by (auto simp: takeWhile_append2)
  ultimately have "nat_digits m = nat_digits n \<and> k = k'" by simp
  then show ?thesis using e by simp
qed

interpretation archive_memo: memo fetch archive_spaces for fetch :: "string \<Rightarrow> string \<Rightarrow> 'v result"
  by unfold_locales (use archive_spaces_separate in blast)

section \<open>A zip archive as a root\<close>

lemma zip_root_Open:
  "rt_Open (zip_root Do inflate resource a) name = Inr f \<longleftrightarrow>
     (\<exists>file off. findFile a name = Some file \<and> fi_mode (zf_info file) = ModeRegular \<and> zf_DataOffset file = Inr off \<and>
        open_at Do inflate resource file off = Inr f)"
  by (auto simp: zip_root_def zip_open_with_def split: option.splits if_split_asm sum.splits)

lemma zip_root_Readlink:
  "rt_Readlink (zip_root Do inflate resource a) name = Inr l \<longleftrightarrow>
     (\<exists>file. findFile a name = Some file \<and> fi_mode (zf_info file) = ModeSymlink \<and> read_link file = Inr l \<and>
        length l \<le> maxSymlinkSize)"
  by (auto simp: zip_root_def zip_readlink_with_def split: option.splits if_split_asm sum.splits)

text \<open>The contract of a root holds for archives as for directories.\<close>

interpretation zip_ops: vfs_root_ops "zip_root Do inflate resource a" for Do inflate resource a
proof (rule vfs_root_ops.intro)
  fix n f
  assume "rt_Open (zip_root Do inflate resource a) n = Inr f"
  then show "\<exists>fi. rt_Lstat (zip_root Do inflate resource a) n = Inr fi \<and> fi_mode fi = ModeRegular"
    unfolding zip_root_Open by (auto simp: zip_root_def zip_Lstat_def)
next
  fix n l
  assume "rt_Readlink (zip_root Do inflate resource a) n = Inr l"
  then show "\<exists>fi. rt_Lstat (zip_root Do inflate resource a) n = Inr fi \<and> fi_mode fi = ModeSymlink"
    unfolding zip_root_Readlink by (auto simp: zip_root_def zip_Lstat_def)
qed

lemma add_entry_files:
  assumes "\<And>n f. fst s n = Some f \<Longrightarrow> f \<in> F \<and> zf_Name f = n \<and> HasPrefix n dirPrefix \<and> fi_mode (zf_info f) \<noteq> ModeDir"
    and "fst (add_entry file s) n = Some f"
  shows "f \<in> insert file F \<and> zf_Name f = n \<and> HasPrefix n dirPrefix \<and> fi_mode (zf_info f) \<noteq> ModeDir"
  using assms(2) assms(1) [of n f] by (cases s) (auto simp: add_entry_def split: if_split_asm)

lemma add_entries_files:
  assumes "fst (add_entries entries) n = Some f"
  shows "f \<in> set entries \<and> zf_Name f = n \<and> HasPrefix n dirPrefix \<and> fi_mode (zf_info f) \<noteq> ModeDir"
proof -
  have "\<forall>n f. fst (fold add_entry es s) n = Some f \<longrightarrow>
      f \<in> F \<union> set es \<and> zf_Name f = n \<and> HasPrefix n dirPrefix \<and> fi_mode (zf_info f) \<noteq> ModeDir"
    if "\<forall>n f. fst s n = Some f \<longrightarrow> f \<in> F \<and> zf_Name f = n \<and> HasPrefix n dirPrefix \<and> fi_mode (zf_info f) \<noteq> ModeDir"
    for es s F
    using that
  proof (induction es arbitrary: s F)
    case (Cons e es)
    have "\<forall>n f. fst (add_entry e s) n = Some f \<longrightarrow>
        f \<in> insert e F \<and> zf_Name f = n \<and> HasPrefix n dirPrefix \<and> fi_mode (zf_info f) \<noteq> ModeDir"
      using add_entry_files [where F = F and s = s] Cons.prems by blast
    from Cons.IH [OF this] show ?case by simp
  qed simp
  from this [of "(Map.empty, Map.empty)" "{}" entries] assms show ?thesis by (auto simp: add_entries_def)
qed

lemma zip_Open_entry:
  assumes "za_files a = fst (add_entries entries)" and "rt_Open (zip_root Do inflate resource a) name = Inr f"
  shows "\<exists>e \<in> set entries. \<exists>off. zf_Name e = path_Clean (dirPrefix @ name) \<and> HasPrefix (zf_Name e) dirPrefix \<and>
    fi_mode (zf_info e) = ModeRegular \<and> zf_DataOffset e = Inr off \<and> open_at Do inflate resource e off = Inr f"
proof -
  obtain e off where e: "findFile a name = Some e" "fi_mode (zf_info e) = ModeRegular" "zf_DataOffset e = Inr off"
    "open_at Do inflate resource e off = Inr f"
    using assms(2) unfolding zip_root_Open by blast
  then have "e \<in> set entries \<and> zf_Name e = path_Clean (dirPrefix @ name) \<and> HasPrefix (zf_Name e) dirPrefix"
    using add_entries_files [of entries "path_Clean (dirPrefix @ name)" e] assms(1) by (simp add: findFile_def)
  then show ?thesis using e by blast
qed

section \<open>The pool of readers\<close>

lemma deflate_inv_reachable: "deflate_reachable inflate s \<Longrightarrow> deflate_inv s"
proof (induction rule: deflate_reachable.induct)
  case (dr_new s choice r)
  then show ?case
    by (cases choice) (auto simp: newDeflateReader_def deflate_inv_def deflate_reset_def Let_def)
next
  case (dr_close s met a)
  then show ?case
    by (auto simp: deflate_Close_def deflate_inv_def Let_def intro: leI)
qed (auto simp: deflate_init_def deflate_inv_def deflate_Read_def Let_def)

section \<open>Properties\<close>

text \<open>What an archive serves lies under its public directory: a file that is opened is a regular entry
  whose name is the cleaned path below \<^verbatim>\<open>public/\<close>, and what is read is that entry's data.\<close>

theorem zip_Open_contained:
  assumes "za_files a = fst (add_entries entries)" and "rt_Open (zip_root Do inflate resource a) name = Inr f"
  shows "\<exists>e \<in> set entries. \<exists>off. zf_Name e = path_Clean (dirPrefix @ name) \<and> HasPrefix (zf_Name e) dirPrefix \<and>
    fi_mode (zf_info e) = ModeRegular \<and> zf_DataOffset e = Inr off \<and> open_at Do inflate resource e off = Inr f"
  by (rule zip_Open_entry [OF assms])

text \<open>A stored file of an archive on a server that serves ranges reads as the bytes of the archive at its
  data offset.\<close>

lemma open_at_stored:
  assumes "resource_of Do data resource" and "zf_Method file = 0"
    and "0 \<le> off" and "0 < zf_CompressedSize64 file" and "off + int (zf_CompressedSize64 file) \<le> int (length data)"
  shows "open_at Do inflate resource file off =
    Inr \<lparr>vf_data = take (zf_CompressedSize64 file) (drop (nat off) data), vf_err = None, vf_seekable = True\<rparr>"
proof -
  let ?n = "zf_CompressedSize64 file"
  have "int (length data) < 2 ^ 63" using assms(1) by (simp add: resource_of_def)
  then have w: "wrap64 (int ?n) = int ?n" using assms(3,5) by (intro wrap64_id) auto
  have inv: "section_inv Do data (resource, SectionReader off (int ?n))"
    "section_rest data (resource, SectionReader off (int ?n)) = take ?n (drop (nat off) data)"
    using NewReader_section [OF assms(1,3), of "int ?n"] assms(5) by (simp_all add: SectionReader_def)
  have "?n \<le> length (section_rest data (resource, SectionReader off (int ?n)))" using inv(2) assms(3,5) by simp
  from section_reader.ReadFull_exact [OF inv(1) this] inv(2) obtain s' where
    "io_ReadFull (reader_Read Do) ?n (resource, SectionReader off (int ?n)) = Some ((take ?n (drop (nat off) data), None), s')"
    by auto
  then show ?thesis using assms(2,4) by (simp add: open_at_def Let_def section_file_def w)
qed

text \<open>C23. The caches of data offsets and link targets change nothing but time: as long as fetching gives
  what it gave before, opening a file and reading a link give what they give without the caches, and the
  caches keep only what belongs to their archive; dropping entries keeps that.\<close>

theorem zip_caches_transparent:
  assumes "faithful offset_of archive_spaces co" and "faithful link_of archive_spaces cl"
    and "za_namespace a \<in> archive_spaces"
    and "\<And>file. findFile a name = Some file \<Longrightarrow> zf_DataOffset file = offset_of (za_namespace a) name"
    and "\<And>file. findFile a name = Some file \<Longrightarrow> read_link file = link_of (za_namespace a) name"
  shows "fst (zip_Open now duration co Do inflate resource a name) = rt_Open (zip_root Do inflate resource a) name \<and>
    fst (zip_Readlink now duration cl a name) = rt_Readlink (zip_root Do inflate resource a) name \<and>
    faithful offset_of archive_spaces (lru_evict ks (snd (zip_Open now duration co Do inflate resource a name))) \<and>
    faithful link_of archive_spaces (lru_evict ks (snd (zip_Readlink now duration cl a name)))"
proof -
  note off = archive_memo.findOrFetch_transparent [OF assms(1,3), of now duration name]
  note lnk = archive_memo.findOrFetch_transparent [OF assms(2,3), of now duration name]
  have "fst (zip_Open now duration co Do inflate resource a name) = rt_Open (zip_root Do inflate resource a) name \<and>
      faithful offset_of archive_spaces (snd (zip_Open now duration co Do inflate resource a name))"
  proof (cases "findFile a name")
    case (Some e)
    then show ?thesis using off assms(1) assms(4) [OF Some]
      by (cases "findOrFetch now duration co (za_namespace a) name (offset_of (za_namespace a) name)")
         (auto simp: zip_Open_def zip_open_with_def zip_root_def split: sum.splits)
  qed (simp add: zip_Open_def zip_open_with_def zip_root_def assms(1))
  moreover have "fst (zip_Readlink now duration cl a name) = rt_Readlink (zip_root Do inflate resource a) name \<and>
      faithful link_of archive_spaces (snd (zip_Readlink now duration cl a name))"
  proof (cases "findFile a name")
    case (Some e)
    then show ?thesis using lnk assms(2) assms(5) [OF Some]
      by (cases "findOrFetch now duration cl (za_namespace a) name (link_of (za_namespace a) name)")
         (auto simp: zip_Readlink_def zip_readlink_with_def zip_root_def split: sum.splits)
  qed (simp add: zip_Readlink_def zip_readlink_with_def zip_root_def assms(2))
  ultimately show ?thesis by (simp add: faithful_evict)
qed

text \<open>A link of an archive is read exactly when it has between 1 and 256 bytes.\<close>

theorem zip_Readlink_bounds:
  assumes "findFile a name = Some file" and "fi_mode (zf_info file) = ModeSymlink"
    and "zf_Open file = Inr \<lparr>vf_data = link, vf_err = None, vf_seekable = sk\<rparr>"
  shows "rt_Readlink (zip_root Do inflate resource a) name =
    (if link = [] then Inl ErrEOF else if length link \<le> 256 then Inr link else Inl errSymlinkSize)"
proof -
  have "rt_Readlink (zip_root Do inflate resource a) name =
      (case read_link file of Inl err \<Rightarrow> Inl err | Inr l \<Rightarrow> if length l > 256 then Inl errSymlinkSize else Inr l)"
    using assms(1,2) by (auto simp: zip_root_def zip_readlink_with_def maxSymlinkSize_def split: sum.splits)
  moreover have "read_link file = (if link = [] then Inl ErrEOF else if length link \<le> 256 then Inr link else Inr (take 257 link))"
    using assms(3) by (simp add: read_link_def maxSymlinkSize_def Let_def not_less_eq_eq not_le)
  ultimately show ?thesis by simp
qed

text \<open>C29. Readers taken from the pool never disturb those in use: a new reader is none of the readers in use
  and gives the inflated source, reading takes from the reader it is called on what that reader still
  gives and from no other, closing ends that reader only, and a closed reader gives and closes nothing.\<close>

theorem deflate_readers_independent:
  assumes "deflate_reachable inflate s"
  shows "open_readers s (fst (newDeflateReader inflate choice r s)) = None \<and>
    open_readers (snd (newDeflateReader inflate choice r s)) =
      (open_readers s)(fst (newDeflateReader inflate choice r s) \<mapsto> inflate r) \<and>
    (\<forall>a n. case open_readers s a of
       None \<Rightarrow> deflate_Read a n s = (Inl ErrClosedReader, s)
     | Some (rest, err) \<Rightarrow>
         (if rest = [] \<and> n > 0 then deflate_Read a n s = (Inl (case err of None \<Rightarrow> ErrEOF | Some e \<Rightarrow> e), s)
          else fst (deflate_Read a n s) = Inr (take n rest) \<and>
            open_readers (snd (deflate_Read a n s)) = (open_readers s)(a \<mapsto> (drop n rest, err)))) \<and>
    (\<forall>a met. open_readers (snd (deflate_Close met a s)) = (open_readers s)(a := None) \<and>
       (open_readers s a = None \<longrightarrow> deflate_Close met a s = (Some ErrClosedReader, s)))"
proof -
  have inv: "deflate_inv s" by (rule deflate_inv_reachable [OF assms])
  have "open_readers s (fst (newDeflateReader inflate choice r s)) = None \<and>
      open_readers (snd (newDeflateReader inflate choice r s)) =
        (open_readers s)(fst (newDeflateReader inflate choice r s) \<mapsto> inflate r)"
    using inv by (cases choice) (auto simp: newDeflateReader_def open_readers_def deflate_reset_def deflate_inv_def Let_def fun_eq_iff)
  moreover have "case open_readers s a of
       None \<Rightarrow> deflate_Read a n s = (Inl ErrClosedReader, s)
     | Some (rest, err) \<Rightarrow>
         (if rest = [] \<and> n > 0 then deflate_Read a n s = (Inl (case err of None \<Rightarrow> ErrEOF | Some e \<Rightarrow> e), s)
          else fst (deflate_Read a n s) = Inr (take n rest) \<and>
            open_readers (snd (deflate_Read a n s)) = (open_readers s)(a \<mapsto> (drop n rest, err)))" for a n
    by (auto simp: open_readers_def deflate_Read_def Let_def fun_eq_iff split: option.splits)
  moreover have "open_readers (snd (deflate_Close met a s)) = (open_readers s)(a := None) \<and>
       (open_readers s a = None \<longrightarrow> deflate_Close met a s = (Some ErrClosedReader, s))" for a met
    by (auto simp: open_readers_def deflate_Close_def Let_def fun_eq_iff)
  ultimately show ?thesis by blast
qed

theorem deflate_readers_independent_witness:
  "open_readers (snd (newDeflateReader id (Some 0) (''new'', None) (snd (deflate_Close False 0
     (snd (newDeflateReader id None (''old'', None) deflate_init)))))) 0 = Some (''new'', None)"
proof -
  let ?s = "snd (deflate_Close False 0 (snd (newDeflateReader id None (''old'', None) deflate_init)))"
  have r: "deflate_reachable id ?s" by (intro dr_close dr_new dr_init)
  have f: "fst (newDeflateReader id (Some 0) (''new'', None) ?s) = 0" by code_simp
  from deflate_readers_independent [OF r, of "Some 0" "(''new'', None)"] show ?thesis unfolding f by simp
qed

section \<open>A small archive\<close>

definition demo_entry :: "string \<Rightarrow> file_mode \<Rightarrow> bytes \<Rightarrow> zip_file" where
  "demo_entry name mode data =
     \<lparr>zf_Name = name, zf_info = \<lparr>fi_mode = mode, fi_size = int (length data), fi_modtime = 0\<rparr>, zf_Method = 0,
      zf_CompressedSize64 = length data, zf_DataOffset = Inr 3,
      zf_Open = Inr \<lparr>vf_data = data, vf_err = None, vf_seekable = False\<rparr>\<rparr>"

definition demo_entries :: "zip_file list" where
  "demo_entries = [demo_entry ''public/a/b/c.html'' ModeRegular ''34567'', demo_entry ''public/l'' ModeSymlink ''a/b/c.html'',
     demo_entry ''public/x.html'' ModeRegular ''34567'']"

definition demo_archive :: zip_archive where
  "demo_archive = (newArchive 1)\<lparr>za_once := True, za_done := True, za_resource := Some demo_resource,
     za_files := fst (add_entries demo_entries), za_directories := snd (add_entries demo_entries)\<rparr>"

lemma demo_files:
  "za_files demo_archive = fst (add_entries demo_entries)" "za_namespace demo_archive = FormatInt (int 1) @ '':''"
  by (simp_all add: demo_archive_def newArchive_def)

abbreviation demo_zip_root :: vfs_root where
  "demo_zip_root \<equiv> zip_root demo_range_server id demo_resource demo_archive"

lemma demo_find:
  "findFile demo_archive ''a/b/c.html'' = Some (demo_entry ''public/a/b/c.html'' ModeRegular ''34567'')"
  "findFile demo_archive ''l'' = Some (demo_entry ''public/l'' ModeSymlink ''a/b/c.html'')"
  by code_simp+

lemma demo_open: "rt_Open demo_zip_root ''a/b/c.html'' = Inr \<lparr>vf_data = ''34567'', vf_err = None, vf_seekable = True\<rparr>"
  using open_at_stored [OF demo_resource_of, of "demo_entry ''public/a/b/c.html'' ModeRegular ''34567''" 3 id]
  unfolding zip_root_Open demo_find by (simp add: demo_entry_def demo_file_def)

theorem zip_Open_contained_witness:
  "\<exists>e \<in> set demo_entries. zf_Name e = ''public/a/b/c.html'' \<and> open_at demo_range_server id demo_resource e 3 =
     Inr \<lparr>vf_data = ''34567'', vf_err = None, vf_seekable = True\<rparr>"
proof -
  have c: "path_Clean (dirPrefix @ ''a/b/c.html'') = ''public/a/b/c.html''" by code_simp
  from zip_Open_contained [OF demo_files(1) demo_open] obtain e off where
    e: "e \<in> set demo_entries" "zf_Name e = ''public/a/b/c.html''" "zf_DataOffset e = Inr off"
      "open_at demo_range_server id demo_resource e off = Inr \<lparr>vf_data = ''34567'', vf_err = None, vf_seekable = True\<rparr>"
    unfolding c by blast
  then have "off = 3" by (auto simp: demo_entries_def demo_entry_def)
  with e show ?thesis by blast
qed

theorem zip_Readlink_bounds_witness: "rt_Readlink demo_zip_root ''l'' = Inr ''a/b/c.html''"
  by (subst zip_Readlink_bounds [OF demo_find(2), of "''a/b/c.html''" False]) (simp_all add: demo_entry_def)

theorem zip_caches_transparent_witness:
  "fst (zip_Open 5 3600 [''1:a/b/c.html'' \<mapsto> (3, 9)] demo_range_server id demo_resource demo_archive ''a/b/c.html'') =
     rt_Open demo_zip_root ''a/b/c.html''"
proof -
  have ns: "za_namespace demo_archive \<in> archive_spaces" unfolding demo_files archive_spaces_def by blast
  have one: "za_namespace demo_archive = ''1:''" unfolding demo_files by code_simp
  have co: "faithful (\<lambda>ns k. Inr 3) archive_spaces [''1:a/b/c.html'' \<mapsto> (3, 9)]"
    using ns one by (simp add: faithful_def) (rule exI [of _ "''1:''"], simp)
  have cl: "faithful (\<lambda>ns k. Inr ''34567'') archive_spaces Map.empty" by (simp add: faithful_def)
  have "read_link (demo_entry ''public/a/b/c.html'' ModeRegular ''34567'') = Inr ''34567''" by code_simp
  then have l: "read_link e = Inr ''34567''" if "findFile demo_archive ''a/b/c.html'' = Some e" for e
    using that demo_find(1) by simp
  have o: "zf_DataOffset e = Inr 3" if "findFile demo_archive ''a/b/c.html'' = Some e" for e
    using that demo_find(1) by (auto simp: demo_entry_def)
  show ?thesis using zip_caches_transparent [OF co cl ns o l] by blast
qed

section \<open>Directories that only occur inside names\<close>

text \<open>Only the immediate parent directory of an entry is added.  In an archive whose single file lies three
  levels deep the file itself opens, but the directory two levels above it does not exist, and resolving
  the links in the name of the file fails.\<close>

lemma implied_directories_incomplete:
  "rt_Open demo_zip_root ''a/b/c.html'' = Inr \<lparr>vf_data = ''34567'', vf_err = None, vf_seekable = True\<rparr> \<and>
   zip_Lstat demo_archive ''a/b'' = Inr implied_directory \<and> zip_Lstat demo_archive ''a'' = Inl ErrOSNotExist \<and>
   EvalSymlinks demo_zip_root ''a/b/c.html'' = Inl ErrOSNotExist"
  using demo_open by (intro conjI; (assumption | code_simp))

end
