(* ===== verification/Http_Fs.thy ===== *)
theory Http_Fs
  imports Vfs
begin

text \<open>
  The file system behind \<^verbatim>\<open>file://\<close> URLs of archives (\<^verbatim>\<open>internal/httpfs/http_fs.go\<close>): files open only
  below the allowed paths.  \<open>cwd\<close> is what \<^verbatim>\<open>os.Getwd\<close> gives and \<open>os_Open\<close> is the operating system's
  \<^verbatim>\<open>os.Open\<close>, which follows links.
\<close>

definition Abs_cwd :: "string result \<Rightarrow> string \<Rightarrow> string result" where
  "Abs_cwd cwd path =
     (if path_IsAbs path then Inr (path_Clean path)
      else (case cwd of Inl err \<Rightarrow> Inl err | Inr wd \<Rightarrow> Inr (path_Join [wd, path])))"

fun NewFileSystemPath :: "string result \<Rightarrow> string list \<Rightarrow> string list result" where
  "NewFileSystemPath cwd [] = Inr []"
| "NewFileSystemPath cwd (path # allowedPaths) =
     (case Abs_cwd cwd path of
        Inl err \<Rightarrow> Inl err
      | Inr absPath \<Rightarrow> (case NewFileSystemPath cwd allowedPaths of Inl err \<Rightarrow> Inl err | Inr ps \<Rightarrow> Inr (absPath # ps)))"

definition httpfs_Open :: "string result \<Rightarrow> (string \<Rightarrow> 'f result) \<Rightarrow> string list \<Rightarrow> string \<Rightarrow> 'f result" where
  "httpfs_Open cwd os_Open allowedPaths name =
     (case Abs_cwd cwd (path_Clean (''/'' @ name)) of
        Inl err \<Rightarrow> Inl err
      | Inr absPath \<Rightarrow>
          (if list_ex (\<lambda>allowedPath. HasPrefix absPath (allowedPath @ ''/'')) allowedPaths then os_Open absPath
           else Inl ErrOSPermission))"

section \<open>Properties\<close>

lemma Abs_rooted: "path_IsAbs p \<Longrightarrow> Abs_cwd cwd (path_Clean p) = Inr (path_Clean p)"
  by (simp add: Abs_cwd_def path_Clean_IsAbs path_Clean_idem_rooted)

lemma Abs_cwd_clean:
  assumes "\<And>wd. cwd = Inr wd \<Longrightarrow> path_IsAbs wd" and "Abs_cwd cwd p = Inr q"
  shows "clean_root q"
proof (cases "path_IsAbs p")
  case True
  then show ?thesis using assms(2) by (auto simp: Abs_cwd_def clean_root_def path_Clean_IsAbs path_Clean_idem_rooted)
next
  case False
  then obtain wd where wd: "cwd = Inr wd" "q = path_Join [wd, p]" using assms(2) by (auto simp: Abs_cwd_def split: sum.splits)
  obtain cs where "list_all clean_elem cs" "path_Join [wd, p] = slash # join_with ''/'' cs"
    using path_Join_clean [OF assms(1) [OF wd(1)]] by blast
  then show ?thesis using path_Clean_of_elems [of cs] wd(2) by (simp add: clean_root_def)
qed

lemma NewFileSystemPath_clean:
  assumes "\<And>wd. cwd = Inr wd \<Longrightarrow> path_IsAbs wd"
  shows "NewFileSystemPath cwd ps = Inr qs \<Longrightarrow> list_all clean_root qs"
proof (induction ps arbitrary: qs)
  case (Cons p ps)
  then obtain q rs where "Abs_cwd cwd p = Inr q" "NewFileSystemPath cwd ps = Inr rs" "qs = q # rs"
    by (auto split: sum.splits)
  then show ?case using Abs_cwd_clean [OF assms] Cons.IH by simp
qed simp

text \<open>C30. Archives named by \<^verbatim>\<open>file://\<close> URLs are opened below the allowed paths only: whatever the name is,
  the operating system is asked for a cleaned absolute path whose elements properly extend those of an
  allowed path, or not at all, with a permission error.\<close>

theorem httpfs_Open_contained:
  assumes "NewFileSystemPath cwd ps = Inr allowed" and "\<And>wd. cwd = Inr wd \<Longrightarrow> path_IsAbs wd"
  shows "httpfs_Open cwd os_Open allowed name = Inl ErrOSPermission \<or>
    (\<exists>q a v. a \<in> set allowed \<and> httpfs_Open cwd os_Open allowed name = os_Open q \<and> clean_root q \<and>
       list_all clean_elem (path_elems q) \<and> path_elems q = path_elems a @ v \<and> v \<noteq> [])"
proof (cases "list_ex (\<lambda>a. HasPrefix (path_Clean (''/'' @ name)) (a @ ''/'')) allowed")
  case False
  then show ?thesis by (simp add: httpfs_Open_def Abs_rooted)
next
  case True
  let ?q = "path_Clean (''/'' @ name)"
  from True obtain a where a: "a \<in> set allowed" "HasPrefix ?q (a @ ''/'')" by (auto simp: list_ex_iff)
  then have "clean_root a" using NewFileSystemPath_clean [OF assms(2,1)] by (simp add: list_all_iff)
  obtain cs where cs: "list_all clean_elem cs" "?q = slash # join_with ''/'' cs"
    using path_Clean_rooted [of "''/'' @ name"] by auto
  have q: "clean_root ?q" by (simp add: clean_root_def path_Clean_IsAbs path_Clean_idem_rooted)
  have e: "path_elems ?q = cs" using path_elems_of_elems [OF cs(1)] cs(2) by simp
  from a(2) obtain w where w: "?q = a @ slash # w" by (auto simp: HasPrefix_iff)
  have "path_elems ?q = path_elems a @ path_elems w" unfolding w by (simp add: path_elems_def split_on_append)
  moreover have "path_elems w \<noteq> []"
  proof
    assume "path_elems w = []"
    then have "path_elems ?q = path_elems a" using calculation by simp
    moreover obtain as where "list_all clean_elem as" "a = slash # join_with ''/'' as"
      using clean_root_elems [OF \<open>clean_root a\<close>] by blast
    ultimately have "a = ?q" using cs e path_elems_of_elems [of as] by simp
    then show False using w by simp
  qed
  moreover have "httpfs_Open cwd os_Open allowed name = os_Open ?q"
    using True by (simp add: httpfs_Open_def Abs_rooted)
  ultimately show ?thesis using a(1) q cs(1) e by blast
qed

theorem httpfs_Open_contained_witness:
  "\<exists>q a v. a \<in> set [''/srv/pages''] \<and>
     httpfs_Open (Inr ''/srv'') Inr [''/srv/pages''] ''pages/../../srv/pages/a.zip'' = Inr q \<and> path_elems q = path_elems a @ v \<and> v \<noteq> []"
proof -
  have n: "NewFileSystemPath (Inr ''/srv'') [''pages''] = Inr [''/srv/pages'']" by code_simp
  have o: "httpfs_Open (Inr ''/srv'') Inr [''/srv/pages''] ''pages/../../srv/pages/a.zip'' = Inr ''/srv/pages/a.zip''"
    by code_simp
  have w: "\<And>wd. Inr ''/srv'' = (Inr wd :: string result) \<Longrightarrow> path_IsAbs wd" by auto
  from httpfs_Open_contained [OF n w, of Inr "''pages/../../srv/pages/a.zip''"] show ?thesis unfolding o by auto
qed

text \<open>The allowed path \<^verbatim>\<open>/\<close> allows nothing: a cleaned path never starts with two slashes.\<close>

lemma root_allows_nothing: "httpfs_Open cwd os_Open [''/''] name = Inl ErrOSPermission"
proof -
  obtain cs where cs: "list_all clean_elem cs" "path_Clean (''/'' @ name) = slash # join_with ''/'' cs"
    using path_Clean_rooted [of "''/'' @ name"] by auto
  have "\<not> path_IsAbs (join_with ''/'' cs)" by (rule not_IsAbs_elems [OF cs(1)])
  then have "\<not> HasPrefix (path_Clean (''/'' @ name)) (''/'' @ ''/'')"
    unfolding cs(2) by (auto simp: HasPrefix_iff)
  then show ?thesis by (simp add: httpfs_Open_def Abs_rooted)
qed

end
