(* ===== verification/Zip_Vfs.thy ===== *)
theory Zip_Vfs
  imports Zip_Archive Http_Fs Config "HOL-Library.Multiset"
begin

text \<open>
  The virtual file system of zip archives (\<^verbatim>\<open>internal/vfs/zip/vfs.go\<close>): archives are found by a key made
  from their URL, kept in a cache, opened once by a goroutine of their own while the requests wait, and
  replaced when they turn out to have changed.

  The cache is the third-party package \<^verbatim>\<open>patrickmn/go-cache\<close>: its operations are the argument \<open>C\<close> of the
  definitions, and the locale \<open>archive_store\<close> states what its documentation promises of them.  Archives
  are shared between requests, so they live in a heap; the requests, the reading goroutines, the clock,
  the cleanup of the cache and reconfigurations interleave freely.  Closing a closed channel, which
  panics, sets \<open>zv_panicked\<close>.
\<close>

section \<open>The cache library\<close>

record 'c go_cache =
  gc_New :: "int \<Rightarrow> int \<Rightarrow> 'c"
  gc_GetWithExpiration :: "int \<Rightarrow> string \<Rightarrow> 'c \<Rightarrow> (nat \<times> int option) option"
  gc_SetDefault :: "int \<Rightarrow> string \<Rightarrow> nat \<Rightarrow> 'c \<Rightarrow> 'c"
  gc_Delete :: "string \<Rightarrow> 'c \<Rightarrow> 'c"
  gc_Add :: "int \<Rightarrow> string \<Rightarrow> nat \<Rightarrow> int \<Rightarrow> 'c \<Rightarrow> go_error option \<times> 'c"

section \<open>State\<close>

datatype zip_client =
    Idle
  | Finding string string
  | Opening string string nat
  | Waiting string string nat
  | Returned string "nat result"

datatype read_pc = ReadResource | ReadDirectory

text \<open>\<open>zv_tasks\<close> are the goroutines that read archives, with the URL each was started for.  \<open>zv_key\<close> is
  history: the key an archive was made for.\<close>

record 'c zipVFS =
  zv_cache :: 'c
  zv_openTimeout :: int
  zv_cacheExpirationInterval :: int
  zv_cacheRefreshInterval :: int
  zv_cacheCleanupInterval :: int
  zv_archiveCount :: nat
  zv_allowed :: "string list option"
  zv_now :: int
  zv_heap :: "nat \<rightharpoonup> zip_archive"
  zv_key :: "nat \<Rightarrow> string"
  zv_tasks :: "(nat \<times> string \<times> read_pc) multiset"
  zv_clients :: "nat \<Rightarrow> zip_client"
  zv_panicked :: bool

section \<open>Operations\<close>

definition resetCache :: "'c go_cache \<Rightarrow> 'c zipVFS \<Rightarrow> 'c zipVFS" where
  "resetCache C fs = fs\<lparr>zv_cache := gc_New C (zv_cacheExpirationInterval fs) (zv_cacheCleanupInterval fs)\<rparr>"

definition zip_New :: "'c go_cache \<Rightarrow> ZipServing \<Rightarrow> int \<Rightarrow> 'c zipVFS" where
  "zip_New C cfg now = resetCache C
     \<lparr>zv_cache = gc_New C 0 0, zv_openTimeout = zs_OpenTimeout cfg,
      zv_cacheExpirationInterval = zs_ExpirationInterval cfg, zv_cacheRefreshInterval = zs_RefreshInterval cfg,
      zv_cacheCleanupInterval = zs_CleanupInterval cfg, zv_archiveCount = 0, zv_allowed = None, zv_now = now,
      zv_heap = Map.empty, zv_key = (\<lambda>_. []), zv_tasks = {#}, zv_clients = (\<lambda>_. Idle), zv_panicked = False\<rparr>"

text \<open>\<^verbatim>\<open>RegisterProtocol\<close> of \<^verbatim>\<open>http.Transport\<close> panics, here \<^const>\<open>None\<close>, when the scheme is registered already: a zip file system can be
  reconfigured once.\<close>

definition RegisterProtocol :: "'rt \<Rightarrow> 'rt option \<Rightarrow> 'rt option option" where
  "RegisterProtocol rt registered = (if registered \<noteq> None then None else Some (Some rt))"

definition reconfigureTransport :: "string result \<Rightarrow> ZipServing \<Rightarrow> 'c zipVFS \<Rightarrow> (go_error option \<times> 'c zipVFS) option" where
  "reconfigureTransport cwd cfg fs =
     (case NewFileSystemPath cwd (zs_AllowedPaths cfg) of
        Inl err \<Rightarrow> Some (Some err, fs)
      | Inr fsTransport \<Rightarrow>
          (case RegisterProtocol fsTransport (zv_allowed fs) of
             None \<Rightarrow> None
           | Some allowed \<Rightarrow> Some (None, fs\<lparr>zv_allowed := allowed\<rparr>)))"

definition zip_Reconfigure :: "'c go_cache \<Rightarrow> string result \<Rightarrow> Config \<Rightarrow> 'c zipVFS \<Rightarrow> (go_error option \<times> 'c zipVFS) option" where
  "zip_Reconfigure C cwd cfg fs =
     (let z = c_Zip cfg;
          fs = fs\<lparr>zv_openTimeout := zs_OpenTimeout z, zv_cacheExpirationInterval := zs_ExpirationInterval z,
                  zv_cacheRefreshInterval := zs_RefreshInterval z, zv_cacheCleanupInterval := zs_CleanupInterval z\<rparr>
      in case reconfigureTransport cwd z fs of
           None \<Rightarrow> None
         | Some (Some err, fs) \<Rightarrow> Some (Some err, fs)
         | Some (None, fs) \<Rightarrow> Some (None, resetCache C fs))"

definition keyFromPath :: "string \<Rightarrow> string result" where
  "keyFromPath path =
     (case url_Parse path of
        None \<Rightarrow> Inl (ErrMsg ''parse error'')
      | Some key \<Rightarrow> Inr (url_String (key\<lparr>u_RawQuery := [], u_Fragment := []\<rparr>)))"

text \<open>\<^verbatim>\<open>time.Until\<close> of the zero time, which an item without expiry has, is the least duration.\<close>

definition time_Until :: "int \<Rightarrow> int option \<Rightarrow> int" where
  "time_Until now expiry = (case expiry of Some t \<Rightarrow> t - now | None \<Rightarrow> - (2 ^ 63))"

definition create_archive :: "'c go_cache \<Rightarrow> string \<Rightarrow> 'c zipVFS \<Rightarrow> nat result \<times> 'c zipVFS" where
  "create_archive C key fs =
     (let n = zv_archiveCount fs + 1;
          fs = fs\<lparr>zv_archiveCount := n, zv_heap := (zv_heap fs)(n \<mapsto> newArchive (int n)), zv_key := (zv_key fs)(n := key),
                  zv_cache := gc_Delete C key (zv_cache fs)\<rparr>
      in case gc_Add C (zv_now fs) key n (zv_cacheExpirationInterval fs) (zv_cache fs) of
           (Some err, c) \<Rightarrow> (Inl ErrAlreadyCached, fs\<lparr>zv_cache := c\<rparr>)
         | (None, c) \<Rightarrow> (Inr n, fs\<lparr>zv_cache := c\<rparr>))"

definition findOrCreateArchive :: "'c go_cache \<Rightarrow> string \<Rightarrow> 'c zipVFS \<Rightarrow> nat result \<times> 'c zipVFS" where
  "findOrCreateArchive C key fs =
     (case gc_GetWithExpiration C (zv_now fs) key (zv_cache fs) of
        None \<Rightarrow> create_archive C key fs
      | Some (archive, expiry) \<Rightarrow>
          (case fst (openStatus (the (zv_heap fs archive))) of
             archiveOpening \<Rightarrow> (Inr archive, fs)
           | archiveOpenError \<Rightarrow> (Inr archive, fs)
           | archiveOpened \<Rightarrow>
               (if time_Until (zv_now fs) expiry < zv_cacheRefreshInterval fs
                then (Inr archive, fs\<lparr>zv_cache := gc_SetDefault C (zv_now fs) key archive (zv_cache fs)\<rparr>)
                else (Inr archive, fs))
           | archiveCorrupted \<Rightarrow> create_archive C key fs))"

text \<open>The end of \<^verbatim>\<open>Root\<close>: an archive that does not exist is a known error.\<close>

definition root_result :: "nat \<Rightarrow> go_error option \<Rightarrow> nat result" where
  "root_result archive err =
     (case err of
        None \<Rightarrow> Inr archive
      | Some e \<Rightarrow> Inl (if e = ErrRangeNotFound then ErrVfsNotExist e else e))"

definition update_url :: "string \<Rightarrow> zip_archive \<Rightarrow> zip_archive" where
  "update_url url a = (case za_resource a of Some r \<Rightarrow> a\<lparr>za_resource := Some (SetURL url r)\<rparr> | None \<Rightarrow> a)"

definition set_client :: "nat \<Rightarrow> zip_client \<Rightarrow> 'c zipVFS \<Rightarrow> 'c zipVFS" where
  "set_client i pc fs = fs\<lparr>zv_clients := (zv_clients fs)(i := pc)\<rparr>"

definition set_archive :: "nat \<Rightarrow> zip_archive \<Rightarrow> 'c zipVFS \<Rightarrow> 'c zipVFS" where
  "set_archive x a fs = fs\<lparr>zv_heap := (zv_heap fs)(x \<mapsto> a)\<rparr>"

text \<open>\<^verbatim>\<open>openArchive\<close> up to its \<^verbatim>\<open>select\<close>: the URL is updated, an archive that is read already answers, and
  otherwise the first caller starts the goroutine and everybody waits.\<close>

definition openArchive :: "nat \<Rightarrow> string \<Rightarrow> string \<Rightarrow> nat \<Rightarrow> 'c zipVFS \<Rightarrow> 'c zipVFS" where
  "openArchive i key url x fs =
     (let a = update_url url (the (zv_heap fs x));
          fs = set_archive x a fs
      in case openStatus a of
           (archiveOpening, _) \<Rightarrow>
             (let fs = set_client i (Waiting key url x) fs
              in if za_once a then fs
                 else (set_archive x (a\<lparr>za_once := True\<rparr>) fs)\<lparr>zv_tasks := add_mset (x, url, ReadResource) (zv_tasks fs)\<rparr>)
         | (_, err) \<Rightarrow> set_client i (Returned url (root_result x err)) fs)"

text \<open>One step of the goroutine: when it ends it closes the channel, which panics when it is closed.\<close>

definition finish_read :: "nat \<Rightarrow> zip_archive \<Rightarrow> zip_archive \<Rightarrow> 'c zipVFS \<Rightarrow> 'c zipVFS" where
  "finish_read x old a fs = (set_archive x a fs)\<lparr>zv_panicked := (zv_panicked fs \<or> za_done old \<and> za_done a)\<rparr>"

definition read_step ::
  "range_client \<Rightarrow> (Resource \<Rightarrow> zip_file list result \<times> go_error option) \<Rightarrow> nat \<Rightarrow> string \<Rightarrow> read_pc \<Rightarrow> 'c zipVFS \<Rightarrow> 'c zipVFS" where
  "read_step Do newReader x url pc fs =
     (let old = the (zv_heap fs x); rest = zv_tasks fs - {#(x, url, pc)#}
      in case pc of
           ReadResource \<Rightarrow>
             (let a = read_resource Do url old
              in if za_err a \<noteq> None then (finish_read x old a fs)\<lparr>zv_tasks := rest\<rparr>
                 else (set_archive x a fs)\<lparr>zv_tasks := add_mset (x, url, ReadDirectory) rest\<rparr>)
         | ReadDirectory \<Rightarrow>
             (finish_read x old (read_directory newReader (the (za_resource old)) old) fs)\<lparr>zv_tasks := rest\<rparr>)"

section \<open>Steps\<close>

text \<open>\<open>env\<close> holds of the server and of the reader of zip directories, at the moment they are asked.\<close>

type_synonym zip_env = "range_client \<Rightarrow> (Resource \<Rightarrow> zip_file list result \<times> go_error option) \<Rightarrow> bool"

inductive zip_step :: "'c go_cache \<Rightarrow> zip_env \<Rightarrow> 'c zipVFS \<Rightarrow> 'c zipVFS \<Rightarrow> bool" for C env where
  root_call: "zv_clients fs i = Idle \<Longrightarrow> keyFromPath path = Inr key \<Longrightarrow>
    zip_step C env fs (set_client i (Finding key path) fs)"
| root_badkey: "zv_clients fs i = Idle \<Longrightarrow> keyFromPath path = Inl err \<Longrightarrow>
    zip_step C env fs (set_client i (Returned path (Inl err)) fs)"
| root_found: "zv_clients fs i = Finding key path \<Longrightarrow> findOrCreateArchive C key fs = (Inr x, fs') \<Longrightarrow>
    zip_step C env fs (set_client i (Opening key path x) fs')"
| root_again: "zv_clients fs i = Finding key path \<Longrightarrow> findOrCreateArchive C key fs = (Inl ErrAlreadyCached, fs') \<Longrightarrow>
    zip_step C env fs fs'"
| root_open: "zv_clients fs i = Opening key path x \<Longrightarrow> zip_step C env fs (openArchive i key path x fs)"
| root_done: "zv_clients fs i = Waiting key path x \<Longrightarrow> zv_heap fs x = Some a \<Longrightarrow> za_done a \<Longrightarrow>
    zip_step C env fs (set_client i (Returned path (root_result x (za_err a))) fs)"
| root_cancelled: "zv_clients fs i = Waiting key path x \<Longrightarrow>
    zip_step C env fs (set_client i (Returned path (Inl (ErrMsg msg))) fs)"
| reading: "(x, url, pc) \<in># zv_tasks fs \<Longrightarrow> env Do newReader \<Longrightarrow>
    zip_step C env fs (read_step Do newReader x url pc fs)"
| changed: "zv_heap fs x = Some a \<Longrightarrow> za_resource a = Some r \<Longrightarrow>
    zip_step C env fs (set_archive x (a\<lparr>za_resource := Some (setError err r)\<rparr>) fs)"
| clock: "zv_now fs \<le> now \<Longrightarrow> zip_step C env fs (fs\<lparr>zv_now := now\<rparr>)"
| cleanup: "(\<And>now k. gc_GetWithExpiration C now k c \<in> {None, gc_GetWithExpiration C now k (zv_cache fs)}) \<Longrightarrow>
    zip_step C env fs (fs\<lparr>zv_cache := c\<rparr>)"
| reconfigure: "zip_Reconfigure C cwd cfg fs = Some (err, fs') \<Longrightarrow> zip_step C env fs fs'"

inductive zip_reachable :: "'c go_cache \<Rightarrow> zip_env \<Rightarrow> 'c zipVFS \<Rightarrow> bool" for C env where
  zr_new: "zip_reachable C env (zip_New C cfg now)"
| zr_step: "zip_reachable C env fs \<Longrightarrow> zip_step C env fs fs' \<Longrightarrow> zip_reachable C env fs'"

text \<open>A fresh archive under its own number, which the cache finds from now on; the archives of other keys
  stay.\<close>

definition fresh_archive :: "'c go_cache \<Rightarrow> string \<Rightarrow> 'c zipVFS \<Rightarrow> bool" where
  "fresh_archive C key fs \<longleftrightarrow>
     (\<exists>fs' n. findOrCreateArchive C key fs = (Inr n, fs') \<and> n = zv_archiveCount fs + 1 \<and> zv_archiveCount fs' = n \<and>
        zv_heap fs' = (zv_heap fs)(n \<mapsto> newArchive (int n)) \<and>
        (\<exists>e. gc_GetWithExpiration C (zv_now fs) key (zv_cache fs') = Some (n, e)) \<and>
        (\<forall>now k. k \<noteq> key \<longrightarrow> gc_GetWithExpiration C now k (zv_cache fs') = gc_GetWithExpiration C now k (zv_cache fs)))"

section \<open>The invariant\<close>

definition same_version :: "Resource \<Rightarrow> Resource \<Rightarrow> bool" where
  "same_version r r0 \<longleftrightarrow> rs_ETag r = rs_ETag r0 \<and> rs_LastModified r = rs_LastModified r0 \<and> rs_Size r = rs_Size r0"

text \<open>The resource was made from a URL with the key, and its URL, which requests update, has it too.\<close>

definition resource_read :: "zip_env \<Rightarrow> string \<Rightarrow> Resource \<Rightarrow> bool" where
  "resource_read env key r \<longleftrightarrow>
     (\<exists>Do newReader url r0. env Do newReader \<and> keyFromPath url = Inr key \<and> NewResource Do url = Inr r0 \<and>
        same_version r r0 \<and> keyFromPath (rs_url r) = Inr key)"

text \<open>The files and directories were read from such a resource.\<close>

definition archive_read :: "zip_env \<Rightarrow> string \<Rightarrow> zip_archive \<Rightarrow> bool" where
  "archive_read env key a \<longleftrightarrow>
     (\<exists>Do newReader r entries changed. env Do newReader \<and> resource_read env key r \<and> newReader r = (Inr entries, changed) \<and>
        za_files a = fst (add_entries entries) \<and> za_directories a = snd (add_entries entries))"

definition archive_ok :: "zip_env \<Rightarrow> string \<Rightarrow> nat \<Rightarrow> zip_archive \<Rightarrow> bool" where
  "archive_ok env key x a \<longleftrightarrow> za_namespace a = FormatInt (int x) @ '':'' \<and> (za_done a \<longrightarrow> za_once a) \<and>
     (\<not> za_done a \<longrightarrow> za_err a = None) \<and> (\<forall>r. za_resource a = Some r \<longrightarrow> resource_read env key r) \<and>
     (za_done a \<and> za_err a = None \<longrightarrow> archive_read env key a)"

definition read_task_ok :: "(nat \<rightharpoonup> zip_archive) \<Rightarrow> (nat \<Rightarrow> string) \<Rightarrow> nat \<times> string \<times> read_pc \<Rightarrow> bool" where
  "read_task_ok heap key t \<longleftrightarrow>
     (case t of (x, url, pc) \<Rightarrow>
        (\<exists>a. heap x = Some a \<and> za_once a \<and> \<not> za_done a \<and> za_err a = None \<and> keyFromPath url = Inr (key x) \<and>
           (pc = ReadDirectory \<longrightarrow> za_resource a \<noteq> None)))"

fun zip_client_ok :: "(nat \<rightharpoonup> zip_archive) \<Rightarrow> (nat \<Rightarrow> string) \<Rightarrow> zip_client \<Rightarrow> bool" where
  "zip_client_ok heap key Idle \<longleftrightarrow> True"
| "zip_client_ok heap key (Finding k path) \<longleftrightarrow> keyFromPath path = Inr k"
| "zip_client_ok heap key (Opening k path x) \<longleftrightarrow> keyFromPath path = Inr k \<and> heap x \<noteq> None \<and> key x = k"
| "zip_client_ok heap key (Waiting k path x) \<longleftrightarrow> keyFromPath path = Inr k \<and> heap x \<noteq> None \<and> key x = k"
| "zip_client_ok heap key (Returned path (Inl err)) \<longleftrightarrow> True"
| "zip_client_ok heap key (Returned path (Inr x)) \<longleftrightarrow>
     (\<exists>a. heap x = Some a \<and> za_done a \<and> za_err a = None \<and> keyFromPath path = Inr (key x))"

definition one_task :: "(nat \<times> string \<times> read_pc) multiset \<Rightarrow> bool" where
  "one_task tasks \<longleftrightarrow> (\<forall>x. size (filter_mset (\<lambda>t. fst t = x) tasks) \<le> 1)"

definition zip_inv :: "'c go_cache \<Rightarrow> zip_env \<Rightarrow> 'c zipVFS \<Rightarrow> bool" where
  "zip_inv C env fs \<longleftrightarrow>
     (\<forall>x a. zv_heap fs x = Some a \<longrightarrow> x \<le> zv_archiveCount fs \<and> archive_ok env (zv_key fs x) x a) \<and>
     (\<forall>now k x e. gc_GetWithExpiration C now k (zv_cache fs) = Some (x, e) \<longrightarrow> zv_heap fs x \<noteq> None \<and> zv_key fs x = k) \<and>
     (\<forall>t \<in># zv_tasks fs. read_task_ok (zv_heap fs) (zv_key fs) t) \<and> one_task (zv_tasks fs) \<and>
     (\<forall>i. zip_client_ok (zv_heap fs) (zv_key fs) (zv_clients fs i)) \<and> \<not> zv_panicked fs"

lemma zip_invD:
  assumes "zip_inv C env fs"
  shows "zv_heap fs x = Some a \<Longrightarrow> x \<le> zv_archiveCount fs" "zv_heap fs x = Some a \<Longrightarrow> archive_ok env (zv_key fs x) x a"
    and "gc_GetWithExpiration C now k (zv_cache fs) = Some (x, e) \<Longrightarrow> zv_heap fs x \<noteq> None \<and> zv_key fs x = k"
    and "t \<in># zv_tasks fs \<Longrightarrow> read_task_ok (zv_heap fs) (zv_key fs) t" and "one_task (zv_tasks fs)"
    and "zip_client_ok (zv_heap fs) (zv_key fs) (zv_clients fs i)" and "\<not> zv_panicked fs"
  using assms unfolding zip_inv_def by blast+

lemma zip_invI:
  assumes "zv_heap fs = h" "zv_key fs = k" "zv_archiveCount fs = n"
    and "\<And>x a. h x = Some a \<Longrightarrow> x \<le> n \<and> archive_ok env (k x) x a"
    and "\<And>now key x e. gc_GetWithExpiration C now key c = Some (x, e) \<Longrightarrow> h x \<noteq> None \<and> k x = key"
    and "zv_cache fs = c" and "\<And>t. t \<in># zv_tasks fs \<Longrightarrow> read_task_ok h k t" and "one_task (zv_tasks fs)"
    and "\<And>i. zip_client_ok h k (zv_clients fs i)" and "\<not> zv_panicked fs"
  shows "zip_inv C env fs"
  using assms unfolding zip_inv_def by blast

lemma NewResource_url: "NewResource Do url = Inr r \<Longrightarrow> rs_url r = url"
  by (auto simp: NewResource_def SetURL_def Let_def split: if_split_asm sum.splits)

lemma zip_inv_client:
  assumes "zip_inv C env fs" "zip_client_ok (zv_heap fs) (zv_key fs) pc"
  shows "zip_inv C env (set_client i pc fs)"
  using assms by (simp add: zip_inv_def set_client_def)

lemma zip_inv_cache:
  assumes "zip_inv C env fs"
    and "\<And>now k x e. gc_GetWithExpiration C now k c = Some (x, e) \<Longrightarrow> zv_heap fs x \<noteq> None \<and> zv_key fs x = k"
  shows "zip_inv C env (fs\<lparr>zv_cache := c\<rparr>)"
  using assms by (simp add: zip_inv_def)

text \<open>An archive only moves forward: once read it keeps its outcome.\<close>

definition archive_forward :: "zip_archive \<Rightarrow> zip_archive \<Rightarrow> bool" where
  "archive_forward a b \<longleftrightarrow> (za_done a \<longrightarrow> za_done b \<and> za_err b = za_err a)"

lemma zip_client_ok_forward:
  assumes "zip_client_ok heap key pc" "heap x = Some a" "archive_forward a b"
  shows "zip_client_ok (heap(x \<mapsto> b)) key pc"
  using assms(1)
proof (cases rule: zip_client_ok.cases [of "(heap, key, pc)"])
  case (6 heap' key' path y)
  then show ?thesis using assms by (cases "y = x") (auto simp: archive_forward_def)
qed (use assms in auto)

lemma zip_inv_archive:
  assumes "zip_inv C env fs" "zv_heap fs x = Some a" "archive_forward a b" "archive_ok env (zv_key fs x) x b"
    and "\<And>t. t \<in># tasks \<Longrightarrow> read_task_ok ((zv_heap fs)(x \<mapsto> b)) (zv_key fs) t" and "one_task tasks"
  shows "zip_inv C env ((set_archive x b fs)\<lparr>zv_tasks := tasks\<rparr>)"
proof -
  have "zip_client_ok ((zv_heap fs)(x \<mapsto> b)) (zv_key fs) (zv_clients fs i)" for i
    using zip_client_ok_forward [where heap = "zv_heap fs", OF zip_invD(6) [OF assms(1)] assms(2,3)] .
  then show ?thesis using assms unfolding zip_inv_def set_archive_def by auto
qed

lemma zip_client_ok_new:
  "zip_client_ok heap key pc \<Longrightarrow> heap n = None \<Longrightarrow> zip_client_ok (heap(n \<mapsto> a)) (key(n := k)) pc"
  by (cases rule: zip_client_ok.cases [of "(heap, key, pc)"]) (auto split: if_split)

lemma read_task_ok_new: "read_task_ok heap key t \<Longrightarrow> heap n = None \<Longrightarrow> read_task_ok (heap(n \<mapsto> a)) (key(n := k)) t"
  by (auto simp: read_task_ok_def split: prod.splits)

lemma archive_ok_new: "archive_ok env key n (newArchive (int n))"
  by (simp add: archive_ok_def newArchive_def)

text \<open>The URL of a resource may change to any URL with the same key, and it may be marked with an error.\<close>

lemma resource_read_SetURL:
  "resource_read env key r \<Longrightarrow> keyFromPath url = Inr key \<Longrightarrow> resource_read env key (SetURL url r)"
  unfolding resource_read_def SetURL_def same_version_def by (cases "rs_url r = url") (simp_all, blast)

lemma resource_read_setError: "resource_read env key r \<Longrightarrow> resource_read env key (setError err r)"
  by (simp add: resource_read_def setError_def same_version_def)

lemma archive_ok_resource:
  assumes "archive_ok env key x a" "\<And>r. res = Some r \<Longrightarrow> resource_read env key r"
  shows "archive_ok env key x (a\<lparr>za_resource := res\<rparr>)"
  using assms by (simp add: archive_ok_def archive_read_def)

lemma archive_ok_update_url:
  "archive_ok env key x a \<Longrightarrow> keyFromPath url = Inr key \<Longrightarrow> archive_ok env key x (update_url url a)"
  by (auto simp: update_url_def split: option.splits intro!: archive_ok_resource resource_read_SetURL)
     (simp add: archive_ok_def)

lemma update_url_simps [simp]:
  "za_once (update_url url a) = za_once a" "za_done (update_url url a) = za_done a" "za_err (update_url url a) = za_err a"
  "za_resource (update_url url a) = None \<longleftrightarrow> za_resource a = None"
  by (simp_all add: update_url_def split: option.splits)

lemma read_task_ok_update:
  assumes "read_task_ok heap key t" "heap x = Some a" "za_once b" "za_done b = za_done a" "za_err b = za_err a"
    "za_resource a \<noteq> None \<longrightarrow> za_resource b \<noteq> None"
  shows "read_task_ok (heap(x \<mapsto> b)) key t"
  using assms by (auto simp: read_task_ok_def split: prod.splits)

lemma digit_char_inj: "m < 10 \<Longrightarrow> n < 10 \<Longrightarrow> char_of (48 + m) = (char_of (48 + n) :: char) \<Longrightarrow> m = (n :: nat)"
  by (drule arg_cong [of _ _ "of_char :: char \<Rightarrow> nat"]) simp

lemma nat_digits_inj: "nat_digits m = nat_digits n \<Longrightarrow> m = n"
proof (induction m arbitrary: n rule: less_induct)
  case (less m)
  have ne: "nat_digits k \<noteq> []" for k by (subst nat_digits.simps) simp
  have small: "nat_digits k = [char_of (48 + k)]" if "k < 10" for k using that by (subst nat_digits.simps) simp
  have big: "nat_digits k = nat_digits (k div 10) @ [char_of (48 + k mod 10)]" if "\<not> k < 10" for k
    using that by (subst nat_digits.simps) simp
  show ?case
  proof (cases "m < 10"; cases "n < 10")
    assume "\<not> m < 10" "\<not> n < 10"
    then have "nat_digits (m div 10) = nat_digits (n div 10)" "m mod 10 = n mod 10"
      using less.prems big digit_char_inj [of "m mod 10" "n mod 10"] by simp_all
    moreover have "m div 10 = n div 10" using less.IH [of "m div 10"] calculation(1) \<open>\<not> m < 10\<close> by simp
    ultimately show ?thesis by (metis div_mult_mod_eq)
  next
    assume "m < 10" "n < 10"
    then show ?thesis using less.prems small [of m] small [of n] digit_char_inj [of m n] by simp
  next
    assume "m < 10" "\<not> n < 10"
    then show ?thesis using less.prems small [of m] big [of n] ne [of "n div 10"] by simp
  next
    assume "\<not> m < 10" "n < 10"
    then show ?thesis using less.prems small [of n] big [of m] ne [of "m div 10"] by simp
  qed
qed

lemma namespace_inj: "FormatInt (int m) @ '':'' = FormatInt (int n) @ '':'' \<Longrightarrow> m = n"
  using nat_digits_inj by (simp add: FormatInt_def)

text \<open>At most one goroutine reads an archive.\<close>

lemma one_task_other:
  assumes "one_task T" "t \<in># T" "u \<in># T - {#t#}"
  shows "fst u \<noteq> fst t"
proof
  assume e: "fst u = fst t"
  obtain A where A: "T = add_mset t A" using assms(2) by (meson multi_member_split)
  with assms(3) obtain B where "A = add_mset u B" by (auto dest: multi_member_split)
  with A e have "2 \<le> size (filter_mset (\<lambda>v. fst v = fst t) T)" by simp
  then show False using assms(1) unfolding one_task_def by (metis not_less_eq_eq numeral_2_eq_2 One_nat_def)
qed

lemma one_task_add:
  assumes "one_task T" "\<And>u. u \<in># T \<Longrightarrow> fst u \<noteq> fst t"
  shows "one_task (add_mset t T)"
proof -
  have "filter_mset (\<lambda>u. fst u = fst t) T = {#}" using assms(2) by (fastforce simp: multiset_eq_iff count_eq_zero_iff)
  then show ?thesis using assms(1) by (simp add: one_task_def)
qed

lemma one_task_diff: "one_task T \<Longrightarrow> one_task (T - {#t#})"
  unfolding one_task_def
  by (meson diff_subset_eq_self le_trans multiset_filter_mono size_mset_mono)

lemma openStatus_read: "fst (openStatus a) = archiveOpening \<longleftrightarrow> \<not> za_done a"
  by (simp add: openStatus_def split: option.splits)

lemma read_task_ok_other:
  assumes "read_task_ok heap key t" "fst t \<noteq> x"
  shows "read_task_ok (heap(x \<mapsto> b)) key t"
  using assms by (auto simp: read_task_ok_def split: prod.splits)

lemma openArchive_inv:
  assumes inv: "zip_inv C env fs" and pc: "zv_clients fs i = Opening key path x"
  shows "zip_inv C env (openArchive i key path x fs)"
proof -
  obtain a where a: "zv_heap fs x = Some a" and k: "keyFromPath path = Inr key" "zv_key fs x = key"
    using zip_invD(6) [OF inv, of i] pc by auto
  let ?b = "update_url path a"
  have ok: "archive_ok env (zv_key fs x) x ?b" using archive_ok_update_url [OF zip_invD(2) [OF inv a]] k by simp
  have fwd: "archive_forward a ?b" by (simp add: archive_forward_def)
  have once: "za_once a" if "t \<in># zv_tasks fs" "fst t = x" for t
    using zip_invD(4) [OF inv that(1)] that(2) a by (auto simp: read_task_ok_def split: prod.splits)
  have tasks: "read_task_ok ((zv_heap fs)(x \<mapsto> ?b)) (zv_key fs) t" if "t \<in># zv_tasks fs" for t
  proof (cases "fst t = x")
    case True
    show ?thesis by (rule read_task_ok_update [OF zip_invD(4) [OF inv that] a]) (use once [OF that True] in simp_all)
  qed (use read_task_ok_other [OF zip_invD(4) [OF inv that]] in blast)
  have inv': "zip_inv C env (set_archive x ?b fs)"
    using zip_inv_archive [OF inv a fwd ok tasks zip_invD(5) [OF inv]] by (simp add: set_archive_def)
  show ?thesis
  proof (cases "za_done a")
    case True
    then have "za_err a = None \<Longrightarrow> zip_client_ok ((zv_heap fs)(x \<mapsto> ?b)) (zv_key fs) (Returned path (Inr x))" using k by simp
    then have "zip_client_ok (zv_heap (set_archive x ?b fs)) (zv_key (set_archive x ?b fs))
        (Returned path (root_result x (snd (openStatus ?b))))"
      using True by (auto simp: openStatus_def root_result_def set_archive_def split: option.splits)
    from zip_inv_client [OF inv' this, of i] openStatus_read [of ?b] True a show ?thesis
      by (cases "openStatus ?b"; cases "fst (openStatus ?b)") (simp_all add: openArchive_def Let_def)
  next
    case False
    show ?thesis
    proof (cases "za_once a")
      case True
      then have e: "openArchive i key path x fs = set_client i (Waiting key path x) (set_archive x ?b fs)"
        using False a by (simp add: openArchive_def openStatus_def Let_def)
      show ?thesis unfolding e by (rule zip_inv_client [OF inv']) (use k in \<open>simp add: set_archive_def\<close>)
    next
      case no: False
      let ?c = "?b\<lparr>za_once := True\<rparr>" and ?ts = "add_mset (x, path, ReadResource) (zv_tasks fs)"
      have e: "openArchive i key path x fs = set_client i (Waiting key path x) ((set_archive x ?c fs)\<lparr>zv_tasks := ?ts\<rparr>)"
        using False no a by (simp add: openArchive_def openStatus_def Let_def set_client_def set_archive_def)
      have n: "fst t \<noteq> x" if "t \<in># zv_tasks fs" for t using once [OF that] no by blast
      have err: "za_err a = None" using zip_invD(2) [OF inv a] False by (simp add: archive_ok_def)
      have c: "archive_ok env (zv_key fs x) x ?c" using ok by (simp add: archive_ok_def archive_read_def)
      have new: "read_task_ok ((zv_heap fs)(x \<mapsto> ?c)) (zv_key fs) (x, path, ReadResource)" using k False err by (simp add: read_task_ok_def)
      have "zip_inv C env ((set_archive x ?c fs)\<lparr>zv_tasks := ?ts\<rparr>)"
      proof (rule zip_inv_archive [OF inv a _ c])
        show "archive_forward a ?c" by (simp add: archive_forward_def)
        show "one_task ?ts" using one_task_add [OF zip_invD(5) [OF inv], of "(x, path, ReadResource)"] n by simp
        show "read_task_ok ((zv_heap fs)(x \<mapsto> ?c)) (zv_key fs) t" if "t \<in># ?ts" for t
          by (cases "t = (x, path, ReadResource)")
             (use that new read_task_ok_other [OF zip_invD(4) [OF inv, of t] n] in simp_all)
      qed
      then show ?thesis unfolding e by (rule zip_inv_client) (use k in \<open>simp add: set_archive_def\<close>)
    qed
  qed
qed

lemma read_resource_ok:
  assumes "archive_ok env key x a" "env Do newReader" "keyFromPath url = Inr key" "za_once a" "\<not> za_done a"
  shows "archive_ok env key x (read_resource Do url a)"
  using assms NewResource_url [of Do url]
  by (auto simp: read_resource_def archive_ok_def resource_read_def same_version_def split: sum.splits)

lemma read_directory_ok:
  assumes "archive_ok env key x a" "env Do newReader" "za_resource a = Some r" "za_once a" "\<not> za_done a"
  shows "archive_ok env key x (read_directory newReader r a)"
proof -
  have r: "resource_read env key r" using assms(1,3) by (simp add: archive_ok_def)
  have r': "resource_read env key (case changed of None \<Rightarrow> r | Some err \<Rightarrow> setError err r)" for changed
    using r resource_read_setError by (auto split: option.splits)
  obtain res changed where n: "newReader r = (res, changed)" by (cases "newReader r")
  show ?thesis
  proof (cases res)
    case (Inl err)
    then show ?thesis using assms(1,4) r' by (simp add: read_directory_def n archive_ok_def)
  next
    case (Inr entries)
    have "za_files (read_directory newReader r a) = fst (add_entries entries)"
      "za_directories (read_directory newReader r a) = snd (add_entries entries)"
      by (simp_all add: read_directory_def n Inr Let_def split: prod.splits)
    then have "archive_read env key (read_directory newReader r a)"
      using assms(2) r n Inr unfolding archive_read_def by blast
    then show ?thesis using assms(1,4,5) r' Inr
      by (auto simp: read_directory_def n archive_ok_def Let_def split: prod.splits)
  qed
qed

lemma read_done: "za_done (read_directory newReader r a)"
  by (simp add: read_directory_def Let_def split: prod.splits sum.splits)

lemma read_step_inv:
  assumes inv: "zip_inv C env fs" and t: "(x, url, pc) \<in># zv_tasks fs" and env: "env Do newReader"
  shows "zip_inv C env (read_step Do newReader x url pc fs)"
proof -
  let ?T = "zv_tasks fs - {#(x, url, pc)#}"
  obtain a where a: "zv_heap fs x = Some a" and st: "za_once a" "\<not> za_done a" "za_err a = None"
    and k: "keyFromPath url = Inr (zv_key fs x)" and r: "pc = ReadDirectory \<Longrightarrow> za_resource a \<noteq> None"
    using zip_invD(4) [OF inv t] by (auto simp: read_task_ok_def)
  have ok: "archive_ok env (zv_key fs x) x a" by (rule zip_invD(2) [OF inv a])
  have other: "fst u \<noteq> x" if "u \<in># ?T" for u using one_task_other [OF zip_invD(5) [OF inv] t that] by simp
  have rest: "one_task ?T" by (rule one_task_diff [OF zip_invD(5) [OF inv]])
  have kept: "read_task_ok ((zv_heap fs)(x \<mapsto> b)) (zv_key fs) u" if "u \<in># ?T" for u b
    by (rule read_task_ok_other [OF zip_invD(4) [OF inv in_diffD [OF that]] other [OF that]])
  have fwd: "archive_forward a b" for b using st(2) by (simp add: archive_forward_def)
  have finish: "(finish_read x a b fs)\<lparr>zv_tasks := ?T\<rparr> = (set_archive x b fs)\<lparr>zv_tasks := ?T\<rparr>" for b
    using st(2) by (cases fs) (simp add: finish_read_def set_archive_def)
  show ?thesis
  proof (cases pc)
    case ReadDirectory
    then obtain res where res: "za_resource a = Some res" using r by auto
    have "zip_inv C env ((set_archive x (read_directory newReader res a) fs)\<lparr>zv_tasks := ?T\<rparr>)"
      by (rule zip_inv_archive [OF inv a fwd read_directory_ok [OF ok env res st(1,2)] kept rest])
    then show ?thesis using ReadDirectory a res finish by (simp add: read_step_def Let_def)
  next
    case ReadResource
    let ?b = "read_resource Do url a" and ?U = "add_mset (x, url, ReadDirectory) ?T"
    note b = zip_inv_archive [OF inv a fwd read_resource_ok [OF ok env k st(1,2)]]
    show ?thesis
    proof (cases "za_err ?b = None")
      case False
      then show ?thesis using b [OF kept rest] ReadResource a finish by (simp add: read_step_def Let_def)
    next
      case True
      then have "za_once ?b \<and> \<not> za_done ?b \<and> za_resource ?b \<noteq> None"
        using st by (auto simp: read_resource_def split: sum.splits)
      then have new: "read_task_ok ((zv_heap fs)(x \<mapsto> ?b)) (zv_key fs) (x, url, ReadDirectory)" using True k by (simp add: read_task_ok_def)
      have "zip_inv C env ((set_archive x ?b fs)\<lparr>zv_tasks := ?U\<rparr>)"
      proof (rule b)
        show "one_task ?U" using one_task_add [OF rest, of "(x, url, ReadDirectory)"] other by simp
        show "read_task_ok ((zv_heap fs)(x \<mapsto> ?b)) (zv_key fs) u" if "u \<in># ?U" for u
          by (cases "u = (x, url, ReadDirectory)") (use that new kept in auto)
      qed
      then show ?thesis using True ReadResource a by (simp add: read_step_def Let_def)
    qed
  qed
qed

section \<open>What the cache library promises\<close>

locale archive_store =
  fixes C :: "'c go_cache"
  assumes get_new: "gc_GetWithExpiration C now k (gc_New C de ci) = None"
    and get_delete: "gc_GetWithExpiration C now k (gc_Delete C k' c) = (if k = k' then None else gc_GetWithExpiration C now k c)"
    and set_other: "k \<noteq> k' \<Longrightarrow> gc_GetWithExpiration C now k (gc_SetDefault C t k' x c) = gc_GetWithExpiration C now k c"
    and set_same: "gc_GetWithExpiration C now k (gc_SetDefault C t k x c) = Some (y, e) \<Longrightarrow> y = x"
    and set_found: "\<exists>e. gc_GetWithExpiration C t k (gc_SetDefault C t k x c) = Some (x, e)"
    and add_ok: "gc_GetWithExpiration C t k c = None \<Longrightarrow> fst (gc_Add C t k x d c) = None"
    and add_fails: "fst (gc_Add C t k x d c) \<noteq> None \<Longrightarrow> snd (gc_Add C t k x d c) = c"
    and add_other: "k \<noteq> k' \<Longrightarrow> gc_GetWithExpiration C now k (snd (gc_Add C t k' x d c)) = gc_GetWithExpiration C now k c"
    and add_same: "fst (gc_Add C t k x d c) = None \<Longrightarrow>
      gc_GetWithExpiration C now k (snd (gc_Add C t k x d c)) = Some (y, e) \<Longrightarrow> y = x"
    and add_found: "fst (gc_Add C t k x d c) = None \<Longrightarrow>
      \<exists>e. gc_GetWithExpiration C t k (snd (gc_Add C t k x d c)) = Some (x, e)"
begin

text \<open>Under the lock the key is free when the new archive is added.\<close>

lemma create_archive_result:
  "\<exists>c. create_archive C key fs =
     (Inr (zv_archiveCount fs + 1),
      fs\<lparr>zv_archiveCount := zv_archiveCount fs + 1, zv_heap := (zv_heap fs)(zv_archiveCount fs + 1 \<mapsto> newArchive (int (zv_archiveCount fs + 1))),
         zv_key := (zv_key fs)(zv_archiveCount fs + 1 := key), zv_cache := c\<rparr>) \<and>
     (\<forall>now k. k \<noteq> key \<longrightarrow> gc_GetWithExpiration C now k c = gc_GetWithExpiration C now k (zv_cache fs)) \<and>
     (\<forall>now y e. gc_GetWithExpiration C now key c = Some (y, e) \<longrightarrow> y = zv_archiveCount fs + 1) \<and>
     (\<exists>e. gc_GetWithExpiration C (zv_now fs) key c = Some (zv_archiveCount fs + 1, e))"
proof -
  let ?c = "gc_Delete C key (zv_cache fs)"
  let ?a = "gc_Add C (zv_now fs) key (zv_archiveCount fs + 1) (zv_cacheExpirationInterval fs) ?c"
  have ok: "fst ?a = None" by (rule add_ok) (simp add: get_delete)
  then have "create_archive C key fs =
     (Inr (zv_archiveCount fs + 1),
      fs\<lparr>zv_archiveCount := zv_archiveCount fs + 1, zv_heap := (zv_heap fs)(zv_archiveCount fs + 1 \<mapsto> newArchive (int (zv_archiveCount fs + 1))),
         zv_key := (zv_key fs)(zv_archiveCount fs + 1 := key), zv_cache := snd ?a\<rparr>)"
    by (cases ?a) (simp add: create_archive_def Let_def)
  then show ?thesis using add_other add_same [OF ok] add_found [OF ok] get_delete by (intro exI [of _ "snd ?a"]) auto
qed

lemma findOrCreateArchive_inv:
  assumes inv: "zip_inv C env fs"
  shows "\<exists>x fs'. findOrCreateArchive C key fs = (Inr x, fs') \<and> zip_inv C env fs' \<and> zv_clients fs' = zv_clients fs \<and>
    zv_heap fs' x \<noteq> None \<and> zv_key fs' x = key"
proof -
  let ?n = "zv_archiveCount fs + 1"
  have fresh: "zv_heap fs ?n = None" using zip_invD(1) [OF inv, of ?n] by (cases "zv_heap fs ?n") auto
  have create: "\<exists>x fs'. create_archive C key fs = (Inr x, fs') \<and> zip_inv C env fs' \<and> zv_clients fs' = zv_clients fs \<and>
      zv_heap fs' x \<noteq> None \<and> zv_key fs' x = key"
  proof -
    obtain c where c: "create_archive C key fs = (Inr ?n,
        fs\<lparr>zv_archiveCount := ?n, zv_heap := (zv_heap fs)(?n \<mapsto> newArchive (int ?n)), zv_key := (zv_key fs)(?n := key), zv_cache := c\<rparr>)"
      and o: "\<And>now k. k \<noteq> key \<Longrightarrow> gc_GetWithExpiration C now k c = gc_GetWithExpiration C now k (zv_cache fs)"
      and n: "\<And>now y e. gc_GetWithExpiration C now key c = Some (y, e) \<Longrightarrow> y = ?n"
      using create_archive_result [of key fs] by blast
    let ?h = "(zv_heap fs)(?n \<mapsto> newArchive (int ?n))" and ?k = "(zv_key fs)(?n := key)"
    have h: "x \<le> ?n \<and> archive_ok env (?k x) x a" if "?h x = Some a" for x a
      using that zip_invD(1,2) [OF inv, of x a] archive_ok_new [of env key ?n] by (auto split: if_split_asm)
    have g: "?h x \<noteq> None \<and> ?k x = k" if g: "gc_GetWithExpiration C now k c = Some (x, e)" for now k x e
    proof (cases "k = key")
      case True
      then show ?thesis using g n by simp
    next
      case False
      then have "zv_heap fs x \<noteq> None" "zv_key fs x = k" using g o zip_invD(3) [OF inv, of now k x e] by simp_all
      then show ?thesis using fresh by auto
    qed
    have "zip_inv C env (fs\<lparr>zv_archiveCount := ?n, zv_heap := ?h, zv_key := ?k, zv_cache := c\<rparr>)"
      using read_task_ok_new [OF zip_invD(4) [OF inv] fresh] zip_client_ok_new [OF zip_invD(6) [OF inv] fresh] zip_invD(5,7) [OF inv]
      by (intro zip_invI [where h = ?h and k = ?k and n = ?n, OF _ _ _ h g]) simp_all
    then show ?thesis using c by simp
  qed
  show ?thesis
  proof (cases "gc_GetWithExpiration C (zv_now fs) key (zv_cache fs)")
    case None
    then show ?thesis using create by (simp add: findOrCreateArchive_def)
  next
    case (Some xe)
    then obtain x e where x: "gc_GetWithExpiration C (zv_now fs) key (zv_cache fs) = Some (x, e)" by (cases xe) auto
    have h: "zv_heap fs x \<noteq> None" "zv_key fs x = key" using zip_invD(3) [OF inv x] by auto
    have "zip_inv C env (fs\<lparr>zv_cache := gc_SetDefault C (zv_now fs) key x (zv_cache fs)\<rparr>)"
    proof (rule zip_inv_cache [OF inv])
      fix now k y e'
      assume g: "gc_GetWithExpiration C now k (gc_SetDefault C (zv_now fs) key x (zv_cache fs)) = Some (y, e')"
      show "zv_heap fs y \<noteq> None \<and> zv_key fs y = k"
      proof (cases "k = key")
        case True
        then have "y = x" using g by (auto dest: set_same)
        then show ?thesis using h True by simp
      next
        case False
        then show ?thesis using g zip_invD(3) [OF inv] by (simp add: set_other)
      qed
    qed
    then show ?thesis using create inv h x
      by (cases "fst (openStatus (the (zv_heap fs x)))") (auto simp: findOrCreateArchive_def)
  qed
qed

lemma zip_Reconfigure_inv:
  assumes "zip_inv C env fs" "zip_Reconfigure C cwd cfg fs = Some (err, fs')"
  shows "zip_inv C env fs'"
proof -
  let ?z = "c_Zip cfg"
  let ?g = "fs\<lparr>zv_openTimeout := zs_OpenTimeout ?z, zv_cacheExpirationInterval := zs_ExpirationInterval ?z,
    zv_cacheRefreshInterval := zs_RefreshInterval ?z, zv_cacheCleanupInterval := zs_CleanupInterval ?z\<rparr>"
  have "fs' = ?g \<or> (\<exists>t. fs' = resetCache C (?g\<lparr>zv_allowed := t\<rparr>))"
    using assms(2) by (auto simp: zip_Reconfigure_def reconfigureTransport_def RegisterProtocol_def Let_def split: sum.splits if_split_asm)
  moreover have "zip_inv C env ?g" using assms(1) by (simp add: zip_inv_def)
  moreover have "zip_inv C env (resetCache C (?g\<lparr>zv_allowed := t\<rparr>))" for t
    using assms(1) by (simp add: zip_inv_def resetCache_def get_new)
  ultimately show ?thesis by auto
qed

lemma zip_step_inv:
  assumes "zip_step C env fs fs'" "zip_inv C env fs"
  shows "zip_inv C env fs'"
  using assms
proof (induction rule: zip_step.induct)
  case (root_call fs i path key)
  then show ?case by (intro zip_inv_client) simp_all
next
  case (root_badkey fs i path err)
  then show ?case by (intro zip_inv_client) simp_all
next
  case (root_found fs i key path x fs')
  then obtain y gs where y: "findOrCreateArchive C key fs = (Inr y, gs)" "zip_inv C env gs" "zv_heap gs y \<noteq> None" "zv_key gs y = key"
    using findOrCreateArchive_inv by metis
  have "keyFromPath path = Inr key" using zip_invD(6) [OF root_found(3), of i] root_found(1) by simp
  then show ?case using y root_found(2) by (intro zip_inv_client) simp_all
next
  case (root_again fs i key path fs')
  then show ?case using findOrCreateArchive_inv [of env fs key] by auto
next
  case (root_done fs i key path x a)
  then have "zip_client_ok (zv_heap fs) (zv_key fs) (Returned path (root_result x (za_err a)))"
    using zip_invD(6) [OF root_done(4), of i] by (auto simp: root_result_def split: option.splits)
  then show ?case using root_done by (intro zip_inv_client)
next
  case (root_cancelled fs i key path x msg)
  then show ?case by (intro zip_inv_client) simp_all
next
  case (changed fs x a r err)
  let ?b = "a\<lparr>za_resource := Some (setError err r)\<rparr>"
  have "read_task_ok ((zv_heap fs)(x \<mapsto> ?b)) (zv_key fs) t" if "t \<in># zv_tasks fs" for t
    using zip_invD(4) [OF changed(3) that] changed(1) by (auto simp: read_task_ok_def split: prod.splits)
  moreover have "archive_ok env (zv_key fs x) x ?b"
    using zip_invD(2) [OF changed(3,1)] changed(2) by (intro archive_ok_resource) (auto simp: archive_ok_def intro: resource_read_setError)
  ultimately have "zip_inv C env ((set_archive x ?b fs)\<lparr>zv_tasks := zv_tasks fs\<rparr>)"
    using changed by (intro zip_inv_archive zip_invD(5)) (auto simp: archive_forward_def)
  then show ?case by (simp add: set_archive_def)
next
  case (clock fs now)
  then show ?case by (simp add: zip_inv_def)
next
  case (cleanup c fs)
  show ?case
  proof (rule zip_inv_cache [OF cleanup(2)])
    fix now k x e assume "gc_GetWithExpiration C now k c = Some (x, e)"
    then have "gc_GetWithExpiration C now k (zv_cache fs) = Some (x, e)" using cleanup(1) [of now k] by auto
    then show "zv_heap fs x \<noteq> None \<and> zv_key fs x = k" by (rule zip_invD(3) [OF cleanup(2)])
  qed
qed (blast intro: openArchive_inv read_step_inv zip_Reconfigure_inv)+

lemma zip_inv_reachable: "zip_reachable C env fs \<Longrightarrow> zip_inv C env fs"
proof (induction rule: zip_reachable.induct)
  case (zr_new cfg now)
  then show ?case by (simp add: zip_inv_def zip_New_def resetCache_def get_new one_task_def)
qed (rule zip_step_inv)

end

lemma returned_archive_read:
  assumes "archive_store C" "zip_reachable C env fs" "zv_clients fs i = Returned path (Inr x)"
  shows "\<exists>a key. zv_heap fs x = Some a \<and> za_done a \<and> za_err a = None \<and> keyFromPath path = Inr key \<and> archive_read env key a"
proof -
  have inv: "zip_inv C env fs" by (rule archive_store.zip_inv_reachable [OF assms(1,2)])
  obtain a where "zv_heap fs x = Some a" "za_done a" "za_err a = None" "keyFromPath path = Inr (zv_key fs x)"
    using zip_invD(6) [OF inv, of i] unfolding assms(3) by auto
  moreover have "archive_read env (zv_key fs x) a"
    using zip_invD(2) [OF inv] calculation by (simp add: archive_ok_def)
  ultimately show ?thesis by blast
qed

section \<open>Properties\<close>

text \<open>C12. A request gets the archive it asked for: whatever requests, refreshes, changes, expiries and
  reconfigurations interleave, an archive that \<^verbatim>\<open>Root\<close> hands out for a path was read completely and without
  error, from a resource made for a URL with the same key; it is read by one goroutine only and its
  channel is closed only once; its name space in the shared caches belongs to it alone.\<close>

theorem zip_Root_own_archive:
  assumes "archive_store C" and "zip_reachable C env fs"
  shows "\<not> zv_panicked fs \<and> one_task (zv_tasks fs) \<and>
    (\<forall>i path x. zv_clients fs i = Returned path (Inr x) \<longrightarrow>
       (\<exists>a key. zv_heap fs x = Some a \<and> za_done a \<and> za_err a = None \<and> keyFromPath path = Inr key \<and> archive_read env key a)) \<and>
    (\<forall>x a y b. zv_heap fs x = Some a \<and> zv_heap fs y = Some b \<and> za_namespace a = za_namespace b \<longrightarrow> x = y)"
proof -
  have inv: "zip_inv C env fs" by (rule archive_store.zip_inv_reachable [OF assms])
  have "x = y" if "zv_heap fs x = Some a" "zv_heap fs y = Some b" "za_namespace a = za_namespace b" for x a y b
    using zip_invD(2) [OF inv that(1)] zip_invD(2) [OF inv that(2)] that(3) namespace_inj by (simp add: archive_ok_def)
  then show ?thesis using zip_invD(5,7) [OF inv] returned_archive_read [OF assms] by blast
qed

text \<open>Finding an archive, branch by branch.  The lock makes the search succeed at once: the error for an
  archive that is cached already never occurs.  An archive that is being opened or could not be opened is
  found as it is, until it expires; an opened one is kept, with a new expiry when the old one is near; one
  that changed, or none, is replaced by a fresh archive, which the next search finds.\<close>

theorem findOrCreateArchive_spec:
  assumes "archive_store C"
  shows "case gc_GetWithExpiration C (zv_now fs) key (zv_cache fs) of
      Some (x, expiry) \<Rightarrow>
        (case fst (openStatus (the (zv_heap fs x))) of
           archiveOpened \<Rightarrow>
             (if time_Until (zv_now fs) expiry < zv_cacheRefreshInterval fs
              then findOrCreateArchive C key fs =
                (Inr x, fs\<lparr>zv_cache := gc_SetDefault C (zv_now fs) key x (zv_cache fs)\<rparr>)
              else findOrCreateArchive C key fs = (Inr x, fs))
         | archiveCorrupted \<Rightarrow> fresh_archive C key fs
         | _ \<Rightarrow> findOrCreateArchive C key fs = (Inr x, fs))
    | None \<Rightarrow> fresh_archive C key fs"
proof -
  have "fresh_archive C key fs" if "findOrCreateArchive C key fs = create_archive C key fs"
    using archive_store.create_archive_result [OF assms, of key fs] that by (auto simp: fresh_archive_def)
  then show ?thesis
    by (auto simp: findOrCreateArchive_def split: option.splits archiveStatus.splits)
qed

section \<open>Keys\<close>

lemma getscheme_query:
  assumes "CHR ''?'' \<notin> set s"
  shows "getscheme_from (raw @ t) acc (s @ CHR ''?'' # q) =
    map_option (\<lambda>(scheme, rest). (scheme, if scheme = [] then raw @ t else rest @ CHR ''?'' # q)) (getscheme_from raw acc s)"
  using assms
proof (induction s arbitrary: acc)
  case Nil
  have "\<not> is_alpha (CHR ''?'')" "\<not> is_digit (CHR ''?'')" by code_simp+
  then show ?case by simp
next
  case (Cons c s)
  then show ?case by simp
qed

lemma getscheme_rest: "getscheme_from raw acc s = Some (scheme, rest) \<Longrightarrow> rest = raw \<or> scheme \<noteq> [] \<and> suffix rest s"
  by (induction s arbitrary: acc) (auto split: if_split_asm simp: suffix_ConsI)

lemma parse_rest_query:
  "parse_rest (u\<lparr>u_RawQuery := q\<rparr>) rest = map_option (\<lambda>v. v\<lparr>u_RawQuery := q\<rparr>) (parse_rest u rest)"
proof -
  have p: "setPath (v\<lparr>u_RawQuery := q\<rparr>) p = map_option (\<lambda>w. w\<lparr>u_RawQuery := q\<rparr>) (setPath v p)" for v p
    by (simp add: setPath_def split: option.splits)
  have "setPath (u\<lparr>u_RawQuery := q, u_User := usr, u_Host := host\<rparr>) p =
      map_option (\<lambda>w. w\<lparr>u_RawQuery := q\<rparr>) (setPath (u\<lparr>u_User := usr, u_Host := host\<rparr>) p)" for usr host p
    by (subst p [of "u\<lparr>u_User := usr, u_Host := host\<rparr>" p, symmetric]) (cases u, simp)
  with p [of u] show ?thesis by (simp add: parse_rest_def split: option.splits prod.splits)
qed

text \<open>The signature of a URL does not take part in the key: the archive behind a signed URL is cached
  under the key of the URL without its query, so every new signature finds it again.\<close>

theorem keyFromPath_signature:
  assumes "CHR ''?'' \<notin> set base" and "CHR ''#'' \<notin> set base" and "base \<noteq> ''*''"
    and "query \<noteq> []" and "CHR ''#'' \<notin> set query" and "\<not> list_ex is_ctl query"
  shows "keyFromPath (base @ ''?'' @ query) = keyFromPath base"
proof -
  let ?q = "CHR ''?'' # query"
  have frag: "before_byte (CHR ''#'') s = s" "from_byte (CHR ''#'') s = []" if "CHR ''#'' \<notin> set s" for s
    using that by (auto simp: before_byte_def from_byte_def takeWhile_eq_all_conv dropWhile_eq_Nil_conv)
  have parse: "url_Parse s = url_parse_nofrag s" if "CHR ''#'' \<notin> set s" for s
    using frag [OF that] by (simp add: url_Parse_def split: option.splits)
  have ctl: "list_ex is_ctl (base @ ?q) = list_ex is_ctl base" using assms(6) by (simp add: is_ctl_def byte_def)
  have star: "base @ ?q \<noteq> ''*''" using assms(4) by (cases base) auto
  have "map_option (\<lambda>u. u\<lparr>u_RawQuery := []\<rparr>) (url_parse_nofrag (base @ ?q)) =
      map_option (\<lambda>u. u\<lparr>u_RawQuery := []\<rparr>) (url_parse_nofrag base)"
  proof (cases "getscheme base")
    case None
    then show ?thesis using getscheme_query [OF assms(1), of base ?q "[]" query] ctl star assms(3)
      by (simp add: url_parse_nofrag_def getscheme_def)
  next
    case (Some sr)
    then obtain scheme rest where sr: "getscheme base = Some (scheme, rest)" by (cases sr) auto
    have r: "CHR ''?'' \<notin> set rest" "scheme = [] \<Longrightarrow> rest = base"
      using getscheme_rest [of base "[]" base scheme rest] sr assms(1) by (auto simp: getscheme_def dest: set_mono_suffix)
    have "getscheme (base @ ?q) = Some (scheme, rest @ ?q)"
      using getscheme_query [OF assms(1), of base ?q "[]" query] sr r(2) by (simp add: getscheme_def)
    moreover have "CHR ''?'' \<in> set (butlast (rest @ ?q))" using assms(4) by (simp add: butlast_append)
    moreover have "before_byte (CHR ''?'') (rest @ ?q) = rest" "from_byte (CHR ''?'') (rest @ ?q) = ?q"
      "before_byte (CHR ''?'') rest = rest" "from_byte (CHR ''?'') rest = []" "\<not> HasSuffix rest ''?''"
      using r(1) by (induction rest) (auto simp: before_byte_def from_byte_def HasSuffix_def suffix_def Cons_eq_append_conv)
    ultimately show ?thesis using ctl star assms(3) sr
      by (simp add: url_parse_nofrag_def Let_def parse_rest_query option.map_comp comp_def)
  qed
  then have e: "map_option (\<lambda>u. u\<lparr>u_RawQuery := []\<rparr>) (url_Parse (base @ ?q)) = map_option (\<lambda>u. u\<lparr>u_RawQuery := []\<rparr>) (url_Parse base)"
    using parse [of base] parse [of "base @ ?q"] assms(2,5) by simp
  have "map_option (\<lambda>u. u\<lparr>u_RawQuery := [], u_Fragment := []\<rparr>) (url_Parse (base @ ?q)) =
      map_option (\<lambda>u. u\<lparr>u_RawQuery := [], u_Fragment := []\<rparr>) (url_Parse base)"
    using arg_cong [OF e, of "map_option (\<lambda>u. u\<lparr>u_Fragment := []\<rparr>)"] by (simp add: option.map_comp comp_def)
  then show ?thesis by (cases "url_Parse base"; cases "url_Parse (base @ ?q)") (simp_all add: keyFromPath_def)
qed

section \<open>A cache and a run\<close>

text \<open>A cache that keeps its promises: a map with expiries and the default time to live.\<close>

type_synonym map_cache = "int \<times> (string \<rightharpoonup> nat \<times> int option)"

definition expires_at :: "int \<Rightarrow> int \<Rightarrow> int option" where
  "expires_at now d = (if d > 0 then Some (now + d) else None)"

definition map_cache_get :: "int \<Rightarrow> string \<Rightarrow> map_cache \<Rightarrow> (nat \<times> int option) option" where
  "map_cache_get now k c =
     (case snd c k of
        Some (x, expiry) \<Rightarrow> (case expiry of Some t \<Rightarrow> if now > t then None else Some (x, expiry) | None \<Rightarrow> Some (x, expiry))
      | None \<Rightarrow> None)"

definition map_cache_ops :: "map_cache go_cache" where
  "map_cache_ops =
     \<lparr>gc_New = (\<lambda>de ci. (de, Map.empty)),
      gc_GetWithExpiration = map_cache_get,
      gc_SetDefault = (\<lambda>now k x c. (fst c, (snd c)(k \<mapsto> (x, expires_at now (fst c))))),
      gc_Delete = (\<lambda>k c. (fst c, (snd c)(k := None))),
      gc_Add = (\<lambda>now k x d c. if map_cache_get now k c \<noteq> None then (Some (ErrMsg ''Item already exists''), c)
                else (None, fst c, (snd c)(k \<mapsto> (x, expires_at now (if d = 0 then fst c else d)))))\<rparr>"

interpretation map_archives: archive_store map_cache_ops
  by unfold_locales
     (auto simp: map_cache_ops_def map_cache_get_def expires_at_def split: option.splits if_split_asm)

theorem keyFromPath_signature_witness: "keyFromPath (''http://s/a.zip'' @ ''?'' @ ''sig=1'') = keyFromPath ''http://s/a.zip''"
proof (rule keyFromPath_signature)
  show "\<not> list_ex is_ctl ''sig=1''" by code_simp
qed simp_all

definition demo_zip_cfg :: ZipServing where
  "demo_zip_cfg = \<lparr>zs_ExpirationInterval = 60, zs_CleanupInterval = 30, zs_RefreshInterval = 30, zs_OpenTimeout = 30,
     zs_AllowedPaths = [''/srv'']\<rparr>"

abbreviation demo_zip_new :: "map_cache zipVFS" where
  "demo_zip_new \<equiv> zip_New map_cache_ops demo_zip_cfg 0"

theorem findOrCreateArchive_spec_witness: "fresh_archive map_cache_ops ''k'' demo_zip_new"
  using findOrCreateArchive_spec [OF map_archives.archive_store_axioms, where fs = demo_zip_new and key = "''k''"]
  by (simp add: zip_New_def resetCache_def map_archives.get_new)

text \<open>A run: one request with a signed URL, from the call of \<^verbatim>\<open>Root\<close> to its return.\<close>

definition demo_zip_server :: range_client where
  "demo_zip_server req = Inr \<lparr>rp_StatusCode = 200, rp_Status = [], rp_Header = Map.empty, rp_ContentLength = 10,
     rp_Body = \<lparr>rb_data = demo_file, rb_sizes = [], rb_err = None, rb_eager = True\<rparr>\<rparr>"

definition demo_new_reader :: "Resource \<Rightarrow> zip_file list result \<times> go_error option" where
  "demo_new_reader r = (Inr demo_entries, None)"

definition demo_zip_env :: zip_env where
  "demo_zip_env Do newReader \<longleftrightarrow> Do = demo_zip_server \<and> newReader = demo_new_reader"

lemma demo_zip_reading:
  assumes "zip_reachable C demo_zip_env fs" "zv_heap fs x = Some a" "zv_tasks fs = {#(x, url, ReadResource)#}" "\<not> za_done a" "za_err a = None"
    and "NewResource demo_zip_server url = Inr r"
  shows "\<exists>fs' b. zip_reachable C demo_zip_env fs' \<and> zv_clients fs' = zv_clients fs \<and> zv_heap fs' x = Some b \<and> za_done b \<and> za_err b = None"
proof -
  let ?f = "read_step demo_zip_server demo_new_reader x url ReadResource fs"
  let ?g = "read_step demo_zip_server demo_new_reader x url ReadDirectory ?f"
  have f: "?f = (set_archive x (a\<lparr>za_resource := Some r\<rparr>) fs)\<lparr>zv_tasks := {#(x, url, ReadDirectory)#}\<rparr>"
    using assms by (simp add: read_step_def read_resource_def Let_def)
  have env: "demo_zip_env demo_zip_server demo_new_reader" by (simp add: demo_zip_env_def)
  have "zip_reachable C demo_zip_env ?f"
    by (rule zr_step [OF assms(1)], rule reading [where env = demo_zip_env, OF _ env]) (simp add: assms(3))
  then have "zip_reachable C demo_zip_env ?g"
    by (rule zr_step) (rule reading [where env = demo_zip_env, OF _ env], simp add: f)
  moreover have "zv_clients ?g = zv_clients fs"
    by (simp add: f read_step_def [where pc = ReadDirectory] finish_read_def set_archive_def Let_def)
  moreover have "zv_heap ?g x = Some (read_directory demo_new_reader r (a\<lparr>za_resource := Some r\<rparr>))"
    by (simp add: f read_step_def [where pc = ReadDirectory] finish_read_def set_archive_def Let_def)
  moreover have "za_err (read_directory demo_new_reader r (a\<lparr>za_resource := Some r\<rparr>)) = None"
    using assms(5) by (simp add: read_directory_def demo_new_reader_def Let_def split: prod.splits)
  ultimately show ?thesis using read_done by blast
qed

lemma demo_zip_run:
  assumes k: "keyFromPath p = Inr k" and r: "NewResource demo_zip_server p = Inr r"
  shows "\<exists>fs :: map_cache zipVFS. zip_reachable map_cache_ops demo_zip_env fs \<and> zv_clients fs 0 = Returned p (Inr 1)"
proof -
  let ?f1 = "set_client 0 (Finding k p) demo_zip_new"
  have r1: "zip_reachable map_cache_ops demo_zip_env ?f1"
    by (rule zr_step [OF zr_new], rule root_call [OF _ k]) (simp add: zip_New_def resetCache_def)
  have new: "zv_clients ?f1 = (\<lambda>_. Idle)(0 := Finding k p)" "zv_tasks ?f1 = {#}" "zv_archiveCount ?f1 = 0"
    by (simp_all add: set_client_def zip_New_def resetCache_def)
  obtain f2 where f2: "findOrCreateArchive map_cache_ops k ?f1 = (Inr 1, f2)" "zv_clients f2 = zv_clients ?f1"
      "zv_tasks f2 = {#}" "zv_heap f2 1 = Some (newArchive 1)"
    using map_archives.create_archive_result [of k ?f1] new
    by (auto simp: findOrCreateArchive_def set_client_def zip_New_def resetCache_def map_archives.get_new)
  let ?f2 = "set_client 0 (Opening k p 1) f2"
  have r2: "zip_reachable map_cache_ops demo_zip_env ?f2"
    by (rule zr_step [OF r1], rule root_found [OF _ f2(1), where path = p]) (simp add: new)
  let ?f3 = "openArchive 0 k p 1 ?f2"
  have r3: "zip_reachable map_cache_ops demo_zip_env ?f3"
    by (rule zr_step [OF r2], rule root_open) (simp add: set_client_def)
  have f3: "zv_heap ?f3 1 = Some ((newArchive 1)\<lparr>za_once := True\<rparr>)" "zv_tasks ?f3 = {#(1, p, ReadResource)#}"
    "zv_clients ?f3 0 = Waiting k p 1"
    using f2(3,4) by (simp_all add: openArchive_def set_client_def set_archive_def update_url_def newArchive_def openStatus_def Let_def)
  have "\<not> za_done ((newArchive 1)\<lparr>za_once := True\<rparr>)" "za_err ((newArchive 1)\<lparr>za_once := True\<rparr>) = None"
    by (simp_all add: newArchive_def)
  from demo_zip_reading [OF r3 f3(1,2) this r] obtain f5 a where r5: "zip_reachable map_cache_ops demo_zip_env f5"
    and f5: "zv_clients f5 = zv_clients ?f3" "zv_heap f5 1 = Some a" "za_done a" "za_err a = None"
    by blast
  have "zip_reachable map_cache_ops demo_zip_env (set_client 0 (Returned p (root_result 1 (za_err a))) f5)"
    by (rule zr_step [OF r5], rule root_done [OF _ f5(2,3)], unfold f5(1), rule f3(3))
  moreover have "zv_clients (set_client 0 (Returned p (root_result 1 (za_err a))) f5) 0 = Returned p (Inr 1)"
    by (simp add: set_client_def root_result_def f5(4))
  ultimately show ?thesis by blast
qed

theorem zip_Root_own_archive_witness:
  "\<exists>fs :: map_cache zipVFS. zip_reachable map_cache_ops demo_zip_env fs \<and> zv_clients fs 0 = Returned ''http://s/a.zip?sig=1'' (Inr 1) \<and>
     (\<exists>a. zv_heap fs 1 = Some a \<and> za_done a \<and> archive_read demo_zip_env ''http://s/a.zip'' a)"
proof -
  have k: "keyFromPath ''http://s/a.zip?sig=1'' = Inr ''http://s/a.zip''" by code_simp
  have "case NewResource demo_zip_server ''http://s/a.zip?sig=1'' of Inr _ \<Rightarrow> True | Inl _ \<Rightarrow> False" by code_simp
  then obtain r where "NewResource demo_zip_server ''http://s/a.zip?sig=1'' = Inr r" by (auto split: sum.splits)
  from demo_zip_run [OF k this] obtain fs :: "map_cache zipVFS" where fs: "zip_reachable map_cache_ops demo_zip_env fs"
    and c: "zv_clients fs 0 = Returned ''http://s/a.zip?sig=1'' (Inr 1)" by blast
  from zip_Root_own_archive [OF map_archives.archive_store_axioms fs] c
  obtain a key where "zv_heap fs 1 = Some a" "za_done a" "keyFromPath ''http://s/a.zip?sig=1'' = Inr key" "archive_read demo_zip_env key a"
    by blast
  moreover from this(3) k have "key = ''http://s/a.zip''" by simp
  ultimately show ?thesis using fs c by blast
qed

end
