(* ===== verification/Startup.thy ===== *)
theory Startup
  imports Logging Zip_Vfs
begin

text \<open>
  The start of the application, put together from its components: the configuration as the interface
  \<^verbatim>\<open>client.Config\<close> (\<^verbatim>\<open>internal/source/gitlab/client/config.go\<close>, implemented in \<^verbatim>\<open>internal/config/config.go\<close>), the API client,
  the retriever and the store of the cache made from it, and \<^verbatim>\<open>runApp\<close> with the errors of logging and of the zip
  file system it really gets.
\<close>

section \<open>The configuration as the sources see it\<close>

definition InternalGitLabServerURL :: "Config \<Rightarrow> string" where
  "InternalGitLabServerURL config = gk_InternalServer (c_GitLab config)"

definition GitlabAPISecret :: "Config \<Rightarrow> bytes" where
  "GitlabAPISecret config = gk_APISecretKey (c_GitLab config)"

definition GitlabClientConnectionTimeout :: "Config \<Rightarrow> duration" where
  "GitlabClientConnectionTimeout config = gk_ClientHTTPTimeout (c_GitLab config)"

definition GitlabJWTTokenExpiry :: "Config \<Rightarrow> duration" where
  "GitlabJWTTokenExpiry config = gk_JWTTokenExpiration (c_GitLab config)"

definition NewFromConfig :: "Config \<Rightarrow> Client result" where
  "NewFromConfig config =
     NewClient (InternalGitLabServerURL config) (GitlabAPISecret config) (GitlabClientConnectionTimeout config)
       (GitlabJWTTokenExpiry config)"

section \<open>The cache\<close>

definition NewRetriever :: "duration \<Rightarrow> duration \<Rightarrow> int \<Rightarrow> Retriever" where
  "NewRetriever retrievalTimeout maxRetrievalInterval maxRetrievalRetries =
     \<lparr>re_retrievalTimeout = retrievalTimeout, re_maxRetrievalInterval = maxRetrievalInterval,
      re_maxRetrievalRetries = maxRetrievalRetries\<rparr>"

text \<open>The store: its retriever and the two timeouts of its entries.  \<open>getenv\<close> and \<open>answers\<close> are the parameters of
  the cache that do not come from the configuration.\<close>

definition newMemStore ::
  "(string \<Rightarrow> string) \<Rightarrow> (string \<Rightarrow> Lookup \<Rightarrow> bool) \<Rightarrow> Cache_config \<Rightarrow> Retriever \<times> cache_config" where
  "newMemStore getenv answers cc =
     (NewRetriever (cc_RetrievalTimeout cc) (cc_MaxRetrievalInterval cc) (cc_MaxRetrievalRetries cc),
      \<lparr>cc_getenv = getenv, cc_entryRefreshTimeout = cc_EntryRefreshTimeout cc,
       cc_entryExpirationTimeout = cc_CacheExpiry cc, cc_answers = answers\<rparr>)"

section \<open>The application\<close>

text \<open>\<^verbatim>\<open>Reconfigure\<close> of the serving of archives goes through the disk serving and the instrumented file system to the zip
  file system.\<close>

definition instrumented_Reconfigure :: "(Config \<Rightarrow> 'fs \<Rightarrow> (go_error option \<times> 'fs) option) \<Rightarrow> Config \<Rightarrow> 'fs \<Rightarrow> (go_error option \<times> 'fs) option" where
  "instrumented_Reconfigure fs_Reconfigure cfg fs = fs_Reconfigure cfg fs"

definition Disk_Reconfigure :: "(Config \<Rightarrow> 'fs \<Rightarrow> (go_error option \<times> 'fs) option) \<Rightarrow> Config \<Rightarrow> 'fs \<Rightarrow> (go_error option \<times> 'fs) option" where
  "Disk_Reconfigure vfs_Reconfigure cfg fs = vfs_Reconfigure cfg fs"

text \<open>\<^verbatim>\<open>config.Cache()\<close> is the address of a field, so the source always has a cache configuration.  The zip
  file system is reconfigured last, and the application runs with it.  \<^const>\<open>None\<close> is the panic of a second reconfiguration.\<close>

definition start_app ::
  "app_env \<Rightarrow> 'logger labkit \<Rightarrow> 'c go_cache \<Rightarrow> string result \<Rightarrow> 'c zipVFS \<Rightarrow> Config \<Rightarrow> (theApp \<times> 'c zipVFS) result option" where
  "start_app E lb C cwd fs config =
     (let logging = (case ConfigureLogging lb (c_Log_Format config) (c_Log_Verbose config) of Inl err \<Rightarrow> Some err | Inr _ \<Rightarrow> None);
          run = (\<lambda>reconfigure. runApp E (gitlab_New (NewFromConfig config) True) logging reconfigure config)
      in case Disk_Reconfigure (instrumented_Reconfigure (zip_Reconfigure C cwd)) config fs of
           None \<Rightarrow> (case run None of Inl err \<Rightarrow> Some (Inl err) | Inr _ \<Rightarrow> None)
         | Some (reconfigure, fs) \<Rightarrow> Some (case run reconfigure of Inl err \<Rightarrow> Inl err | Inr a \<Rightarrow> Inr (a, fs)))"

section \<open>Properties\<close>

lemma NewFromConfig_Inr:
  assumes "NewFromConfig c = Inr clnt"
  shows "gk_InternalServer (c_GitLab c) \<noteq> []" "gk_APISecretKey (c_GitLab c) \<noteq> []"
    "cl_secretKey clnt = gk_APISecretKey (c_GitLab c)" "url_Parse (gk_InternalServer (c_GitLab c)) = Some (cl_baseURL clnt)"
  using assms
  by (auto simp: NewFromConfig_def NewClient_def InternalGitLabServerURL_def GitlabAPISecret_def
      split: option.splits if_split_asm)

text \<open>What a loaded configuration holds of the flags.\<close>

lemma loadConfig_flags:
  assumes "loadConfig readFile f = Inr c"
  shows "gk_InternalServer (c_GitLab c) = internalGitlabServerFromFlags f" "c_Zip c = c_Zip (config_of_flags f)"
    "gk_APISecretKey (c_GitLab c) \<noteq> [] \<Longrightarrow> fl_gitLabAPISecretKey f \<noteq> [] \<and> 33 \<le> length (gk_APISecretKey (c_GitLab c))"
proof -
  show "gk_InternalServer (c_GitLab c) = internalGitlabServerFromFlags f" "c_Zip c = c_Zip (config_of_flags f)"
    using assms
    by (auto simp: loadConfig_def Let_def setGitLabAPISecretKey_def split: sum.splits option.splits if_split_asm)
  assume k: "gk_APISecretKey (c_GitLab c) \<noteq> []"
  then obtain encoded out where "fl_gitLabAPISecretKey f \<noteq> []" "b64_Decode encoded = Some out" "length out = 32"
    "gk_APISecretKey (c_GitLab c) = out @ replicate (b64_DecodedLen (length encoded) - length out) (CHR 0x00)"
    using assms
    by (auto simp: loadConfig_def Let_def setGitLabAPISecretKey_def config_of_flags_def
        split: sum.splits option.splits if_split_asm)
  then show "fl_gitLabAPISecretKey f \<noteq> [] \<and> 33 \<le> length (gk_APISecretKey (c_GitLab c))"
    using b64_secret_length [of encoded out] by simp
qed

lemma loadConfig_secret:
  assumes "loadConfig readFile f = Inr c" and "fl_clientID f \<noteq> []"
  shows "fl_secret f \<noteq> []"
proof -
  have "validateAuthConfig c = None" using loadConfig_cases(1) [OF assms(1)] by (auto simp: validateConfig_def split: option.splits)
  then show ?thesis using loadConfig_cases(2) [OF assms(1)] assms(2)
    by (auto simp: validateAuthConfig_def config_of_flags_def Let_def split: if_split_asm)
qed

lemma start_app_cases:
  assumes "start_app E lb C cwd fs c = Some (Inr (a, fs'))"
  shows "zip_Reconfigure C cwd c fs = Some (None, fs')"
    "NewDomains (gitlab_New (NewFromConfig c) True) (DomainConfigSource c) = Inr (ap_domains a)"
    "setAuth (ae_auth E) c = Inr (ap_Auth a)"
    "ap_Artifact a = (if as_URL (c_ArtifactsServer c) \<noteq> []
       then Some (artifact_New (as_URL (c_ArtifactsServer c)) (gc_Domain (c_General c))) else None)"
    "ha_Auth (ap_Handlers a) = ap_Auth a" "ha_Artifact (ap_Handlers a) = ap_Artifact a" "ap_config a = c"
  using assms
  by (auto simp: start_app_def runApp_def Disk_Reconfigure_def instrumented_Reconfigure_def Let_def split: sum.splits option.splits prod.splits if_split_asm)

lemma NewDomains_source:
  assumes "NewDomains glClient opt = Inr d"
  shows "opt \<in> {''gitlab'', ''auto'', ''disk''}" "opt = ''gitlab'' \<Longrightarrow> \<exists>g. glClient = Inr g \<and> ds_gitlab d = Some g"
    "opt \<noteq> ''gitlab'' \<Longrightarrow> ds_disk d \<noteq> None" "opt = ''disk'' \<Longrightarrow> ds_gitlab d = None"
  using assms
  by (auto simp: NewDomains_def setConfigSource_def setGitLabClient_def split: if_split_asm sum.splits)

lemma setAuth_Some:
  assumes "setAuth env c = Inr (Some auth)"
  shows "ac_ClientID (c_Authentication c) \<noteq> [] \<and> au_clientID auth = ac_ClientID (c_Authentication c) \<and>
    au_authSecret auth = ac_Secret (c_Authentication c) \<and> au_pagesDomain auth = gc_Domain (c_General c) \<and>
    au_gitLabServer auth = TrimRight (gk_Server (c_GitLab c)) ''/''"
  using assms by (auto simp: setAuth_def auth_New_def Let_def split: if_split_asm sum.splits)

lemma setAuth_None: "setAuth env c = Inr None \<longleftrightarrow> ac_ClientID (c_Authentication c) = []"
  by (auto simp: setAuth_def Let_def split: sum.splits)

text \<open>The application of a fresh zip file system starts or fails with an error; it cannot be started again with the same one.\<close>

lemma start_app_fresh: "zv_allowed fs = None \<Longrightarrow> start_app E lb C cwd fs c \<noteq> None"
  by (auto simp: start_app_def Disk_Reconfigure_def instrumented_Reconfigure_def zip_Reconfigure_def reconfigureTransport_def
      RegisterProtocol_def Let_def split: sum.splits option.splits)

lemma start_app_again:
  assumes "start_app E lb C cwd fs c = Some (Inr (a, fs'))"
  shows "start_app E lb C cwd fs' c = None"
proof -
  have z: "zip_Reconfigure C cwd c fs = Some (None, fs')" by (rule start_app_cases(1) [OF assms])
  then have "zv_allowed fs' \<noteq> None" "\<exists>t. NewFileSystemPath cwd (zs_AllowedPaths (c_Zip c)) = Inr t"
    by (auto simp: zip_Reconfigure_def reconfigureTransport_def RegisterProtocol_def resetCache_def Let_def
        split: sum.splits prod.splits if_split_asm)
  then have "zip_Reconfigure C cwd c fs' = None"
    by (auto simp: zip_Reconfigure_def reconfigureTransport_def RegisterProtocol_def Let_def)
  then show ?thesis using assms z
    by (auto simp: start_app_def Disk_Reconfigure_def instrumented_Reconfigure_def Let_def split: sum.split_asm)
qed


section \<open>A start\<close>

definition demo_start_flags :: flags where
  "demo_start_flags = demo_flags\<lparr>fl_domainConfigSource := ''gitlab'', fl_gitLabAPISecretKey := ''key'', fl_header := \<lparr>ms_value = [], ms_separator = []\<rparr>\<rparr>"

definition demo_secret_file :: "string \<Rightarrow> string result" where
  "demo_secret_file path = (if path = ''key'' then Inr (replicate 43 (CHR ''A'') @ ''='') else Inl ErrOSNotExist)"

definition demo_labkit :: "unit labkit" where
  "demo_labkit = \<lparr>lb_StandardLogger = (), lb_New = (), lb_Initialize = (\<lambda>_ _ _. Inr ()), lb_AccessLogger = (\<lambda>_ _ _ h. h),
     lb_CorrelationID = (\<lambda>_. [])\<rparr>"

abbreviation demo_start :: "Config \<Rightarrow> (theApp \<times> map_cache zipVFS) result option" where
  "demo_start \<equiv> start_app (demo_E demo_private) demo_labkit map_cache_ops (Inr ''/srv'') demo_zip_new"

lemma demo_started: "\<exists>c a fs'. loadConfig demo_secret_file demo_start_flags = Inr c \<and> DomainConfigSource c = ''gitlab'' \<and> demo_start c = Some (Inr (a, fs'))"
proof -
  have "case loadConfig demo_secret_file demo_start_flags of
      Inr c \<Rightarrow> DomainConfigSource c = ''gitlab'' \<and> (case demo_start c of Some (Inr _) \<Rightarrow> True | Some (Inl _) \<Rightarrow> False | None \<Rightarrow> False)
    | Inl _ \<Rightarrow> False"
    by code_simp
  then show ?thesis by (auto split: sum.split_asm option.split_asm) (metis old.sum.exhaust surj_pair)
qed


end
