(* ===== verification/Jail.thy ===== *)
theory Jail
  imports Vfs "HOL-Library.AList"
begin

text \<open>
  The builder of chroot jails (\<^verbatim>\<open>internal/jail\<close>): directories, files, devices and one bind mount are
  enqueued, then built, and at the end the jail is disposed of.

  The operating system has a tree of nodes, by the elements of their cleaned absolute paths (\<open>jo_paths\<close>
  lists every path that has ever had a node), and the bind mounts of the process, which redirect everything below their destination.  Every system call may
  fail: the record \<open>os_faults\<close> says which do, with the error, and what a failing copy or removal leaves
  behind.  Permissions are read from the sources and kept in the lists of
  the jail; those of the nodes that are made are not modelled.  An error stands for itself: the words \<^verbatim>\<open>fmt.Errorf\<close> puts
  around the error of a system call are left out.  Maps are association
  lists whose order is the order Go happens to iterate in: the theorems hold for every order.
\<close>

section \<open>The operating system\<close>

type_synonym jpath = "string list"

datatype jnode = JDir | JFile bytes | JDev int

record jail_os =
  jo_nodes :: "jpath \<rightharpoonup> jnode"
  jo_paths :: "jpath list"
  jo_perm :: "jpath \<Rightarrow> nat"
  jo_mounts :: "(jpath \<times> jpath) list"

record os_faults =
  of_stat :: "string \<Rightarrow> go_error option"
  of_mkdir :: "string \<Rightarrow> go_error option"
  of_open :: "string \<Rightarrow> go_error option"
  of_create :: "string \<Rightarrow> go_error option"
  of_copy :: "string \<Rightarrow> (nat \<times> go_error) option"
  of_remove :: "string \<Rightarrow> go_error option"
  of_removeAll :: "string \<Rightarrow> (go_error \<times> jpath list) option"
  of_mount :: "string \<Rightarrow> go_error option"
  of_unmount :: "string \<Rightarrow> go_error option"
  of_unshare :: "go_error option"
  of_private :: "go_error option"

definition EEXIST :: go_error where "EEXIST = ErrMsg ''file exists''"
definition EINVAL :: go_error where "EINVAL = ErrMsg ''invalid argument''"
definition ENOTEMPTY :: go_error where "ENOTEMPTY = ErrMsg ''directory not empty''"
definition EISDIR :: go_error where "EISDIR = ErrMsg ''is a directory''"
definition EBUSY :: go_error where "EBUSY = ErrMsg ''device or resource busy''"

definition mount_resolve :: "jail_os \<Rightarrow> jpath \<Rightarrow> jpath" where
  "mount_resolve os p =
     (case find (\<lambda>(d, _). prefix d p) (jo_mounts os) of Some (d, s) \<Rightarrow> s @ drop (length d) p | None \<Rightarrow> p)"

definition os_node_at :: "jail_os \<Rightarrow> string \<Rightarrow> jnode option" where
  "os_node_at os p = jo_nodes os (mount_resolve os (path_elems p))"

definition os_create :: "go_error option \<Rightarrow> string \<Rightarrow> jnode \<Rightarrow> jail_os \<Rightarrow> go_error option \<times> jail_os" where
  "os_create fault p node os =
     (let e = mount_resolve os (path_elems p)
      in case fault of
           Some err \<Rightarrow> (Some err, os)
         | None \<Rightarrow>
             (if e = [] \<or> jo_nodes os e \<noteq> None then (Some EEXIST, os)
              else if butlast e \<noteq> [] \<and> jo_nodes os (butlast e) \<noteq> Some JDir then (Some ErrOSNotExist, os)
              else (None, os\<lparr>jo_nodes := (jo_nodes os)(e \<mapsto> node), jo_paths := e # jo_paths os\<rparr>)))"

text \<open>Whether removing everything at \<open>e\<close> reaches \<open>u\<close>: through the mounts below \<open>e\<close>, or directly where no
  mount hides it.\<close>

definition removal_reaches :: "jail_os \<Rightarrow> jpath \<Rightarrow> jpath \<Rightarrow> bool" where
  "removal_reaches os e u \<longleftrightarrow>
     list_ex (\<lambda>(d, s). prefix e d \<and> prefix s u) (jo_mounts os) \<or>
     prefix (mount_resolve os e) u \<and> \<not> list_ex (\<lambda>(d, s). prefix e d \<and> prefix d u) (jo_mounts os)"

definition os_RemoveAll :: "os_faults \<Rightarrow> string \<Rightarrow> jail_os \<Rightarrow> go_error option \<times> jail_os" where
  "os_RemoveAll F p os =
     (let (err, kept) = (case of_removeAll F p of None \<Rightarrow> (None, []) | Some (e, ks) \<Rightarrow> (Some e, ks))
      in (err, os\<lparr>jo_nodes := (\<lambda>u. if removal_reaches os (path_elems p) u \<and> u \<notin> set kept then None else jo_nodes os u)\<rparr>))"

definition os_Remove :: "os_faults \<Rightarrow> string \<Rightarrow> jail_os \<Rightarrow> go_error option \<times> jail_os" where
  "os_Remove F p os =
     (let e = mount_resolve os (path_elems p)
      in case of_remove F p of
           Some err \<Rightarrow> (Some err, os)
         | None \<Rightarrow>
             (if jo_nodes os e = None then (Some ErrOSNotExist, os)
              else if path_elems p \<in> fst ` set (jo_mounts os) then (Some EBUSY, os)
              else if jo_nodes os e = Some JDir \<and> 
                list_ex (\<lambda>q. q \<noteq> [] \<and> butlast q = e \<and> jo_nodes os q \<noteq> None) (jo_paths os) then (Some ENOTEMPTY, os)
              else (None, os\<lparr>jo_nodes := (jo_nodes os)(e := None)\<rparr>)))"

definition os_Mount :: "os_faults \<Rightarrow> string \<Rightarrow> string \<Rightarrow> jail_os \<Rightarrow> go_error option \<times> jail_os" where
  "os_Mount F src dest os =
     (case of_mount F dest of
        Some err \<Rightarrow> (Some err, os)
      | None \<Rightarrow>
          (if os_node_at os src \<noteq> Some JDir \<or> os_node_at os dest \<noteq> Some JDir then (Some ErrOSNotExist, os)
           else (None, os\<lparr>jo_mounts := (path_elems dest, mount_resolve os (path_elems src)) # jo_mounts os\<rparr>)))"

definition os_Unmount :: "os_faults \<Rightarrow> string \<Rightarrow> jail_os \<Rightarrow> go_error option \<times> jail_os" where
  "os_Unmount F dest os =
     (if path_elems dest \<notin> fst ` set (jo_mounts os) then (Some EINVAL, os)
      else (case of_unmount F dest of
              Some err \<Rightarrow> (Some err, os)
            | None \<Rightarrow> (None, os\<lparr>jo_mounts := filter (\<lambda>(d, _). d \<noteq> path_elems dest) (jo_mounts os)\<rparr>)))"

section \<open>The jail\<close>

record pathAndMode =
  pm_path :: string
  pm_perm :: nat
  pm_charDevice :: bool
  pm_rdev :: int

record Jail =
  jl_root :: string
  jl_deleteRoot :: bool
  jl_directories :: "pathAndMode list"
  jl_files :: "(string \<times> pathAndMode) list"
  jl_bindMounts :: "(string \<times> string) list"

definition jail_Into :: "string \<Rightarrow> Jail" where
  "jail_Into path = \<lparr>jl_root = path, jl_deleteRoot = False, jl_directories = [], jl_files = [], jl_bindMounts = []\<rparr>"

definition dir_entry :: "string \<Rightarrow> nat \<Rightarrow> pathAndMode" where
  "dir_entry path perm = \<lparr>pm_path = path, pm_perm = perm, pm_charDevice = False, pm_rdev = 0\<rparr>"

definition jail_Create :: "string \<Rightarrow> nat \<Rightarrow> Jail" where
  "jail_Create path perm = (jail_Into path)\<lparr>jl_deleteRoot := True, jl_directories := [dir_entry path perm]\<rparr>"

definition CreateTimestamped :: "string \<Rightarrow> int \<Rightarrow> string \<Rightarrow> nat \<Rightarrow> Jail" where
  "CreateTimestamped tempDir now prefix' perm = jail_Create (path_Join [tempDir, prefix' @ ''-'' @ FormatInt now]) perm"

definition ExternalPath :: "Jail \<Rightarrow> string \<Rightarrow> string" where
  "ExternalPath j internal = path_Join [jl_root j, internal]"

definition MkDir :: "string \<Rightarrow> nat \<Rightarrow> Jail \<Rightarrow> Jail" where
  "MkDir path perm j = j\<lparr>jl_directories := jl_directories j @ [dir_entry (ExternalPath j path) perm]\<rparr>"

fun mkdir_parts :: "string \<Rightarrow> nat \<Rightarrow> string list \<Rightarrow> Jail \<Rightarrow> Jail" where
  "mkdir_parts currentParent perm [] j = j"
| "mkdir_parts currentParent perm (subPath # subPaths) j =
     (let currentPath = path_Join [currentParent, subPath]
      in mkdir_parts currentPath perm subPaths (MkDir currentPath perm j))"

definition MkDirAll :: "string \<Rightarrow> nat \<Rightarrow> Jail \<Rightarrow> Jail" where
  "MkDirAll dir perm j = mkdir_parts [] perm (tl (split_on slash dir)) j"

definition CharDev :: "os_faults \<Rightarrow> jail_os \<Rightarrow> string \<Rightarrow> Jail \<Rightarrow> Jail result" where
  "CharDev F os path j =
     (case of_stat F path of
        Some err \<Rightarrow> Inl err
      | None \<Rightarrow>
          (case os_node_at os path of
             None \<Rightarrow> Inl ErrOSNotExist
           | Some (JDev rdev) \<Rightarrow>
               Inr (j\<lparr>jl_files := AList.update (ExternalPath j path)
                        \<lparr>pm_path = path, pm_perm = jo_perm os (mount_resolve os (path_elems path)), pm_charDevice = True, pm_rdev = rdev\<rparr> (jl_files j)\<rparr>)
           | Some _ \<Rightarrow> Inl (ErrMsg ''not a character device'')))"

definition CopyTo :: "os_faults \<Rightarrow> jail_os \<Rightarrow> string \<Rightarrow> string \<Rightarrow> Jail \<Rightarrow> Jail result" where
  "CopyTo F os dest src j =
     (case of_stat F src of
        Some err \<Rightarrow> Inl err
      | None \<Rightarrow>
          (case os_node_at os src of
             None \<Rightarrow> Inl ErrOSNotExist
           | Some JDir \<Rightarrow> Inl (ErrMsg ''cannot copy directories'')
           | Some node \<Rightarrow>
               Inr (j\<lparr>jl_files := AList.update (ExternalPath j dest)
                        \<lparr>pm_path = src, pm_perm = jo_perm os (mount_resolve os (path_elems src)),
                          pm_charDevice = (case node of JDev _ \<Rightarrow> True | _ \<Rightarrow> False), pm_rdev = 0\<rparr>
                        (jl_files j)\<rparr>)))"

definition jail_Copy :: "os_faults \<Rightarrow> jail_os \<Rightarrow> string \<Rightarrow> Jail \<Rightarrow> Jail result" where
  "jail_Copy F os path j = CopyTo F os path path j"

definition jail_Bind :: "string \<Rightarrow> string \<Rightarrow> Jail \<Rightarrow> Jail" where
  "jail_Bind dest src j = j\<lparr>jl_bindMounts := AList.update (ExternalPath j dest) src (jl_bindMounts j)\<rparr>"

section \<open>Building and disposing\<close>

definition copyFile :: "os_faults \<Rightarrow> string \<Rightarrow> string \<Rightarrow> jail_os \<Rightarrow> go_error option \<times> jail_os" where
  "copyFile F dest src os =
     (case of_open F src of
        Some err \<Rightarrow> (Some err, os)
      | None \<Rightarrow>
          (case os_node_at os src of
             Some (JFile content) \<Rightarrow>
               (case of_copy F dest of
                  None \<Rightarrow> os_create (of_create F dest) dest (JFile content) os
                | Some (n, err) \<Rightarrow>
                    (case os_create (of_create F dest) dest (JFile (take n content)) os of
                       (Some e, os) \<Rightarrow> (Some e, os)
                     | (None, os) \<Rightarrow> (Some err, os)))
           | Some _ \<Rightarrow>
               (case os_create (of_create F dest) dest (JFile []) os of
                  (Some e, os) \<Rightarrow> (Some e, os)
                | (None, os) \<Rightarrow> (Some EISDIR, os))
           | None \<Rightarrow> (Some ErrOSNotExist, os)))"

definition handleFile :: "os_faults \<Rightarrow> string \<Rightarrow> pathAndMode \<Rightarrow> jail_os \<Rightarrow> go_error option \<times> jail_os" where
  "handleFile F dest src os =
     (if pm_charDevice src then os_create (of_create F dest) dest (JDev (pm_rdev src)) os
      else copyFile F dest (pm_path src) os)"

text \<open>A loop that stops at the first error.\<close>

fun each :: "('a \<Rightarrow> jail_os \<Rightarrow> go_error option \<times> jail_os) \<Rightarrow> 'a list \<Rightarrow> jail_os \<Rightarrow> go_error option \<times> jail_os" where
  "each f [] os = (None, os)"
| "each f (x # xs) os = (case f x os of (Some err, os) \<Rightarrow> (Some err, os) | (None, os) \<Rightarrow> each f xs os)"

text \<open>The system the daemon is built for: mounts are there on Linux only (\<^verbatim>\<open>mount_linux.go\<close>, \<^verbatim>\<open>mount_not_supported.go\<close>).\<close>

datatype platform = Linux | OtherOS string

definition mount_linux :: "os_faults \<Rightarrow> Jail \<Rightarrow> jail_os \<Rightarrow> go_error option \<times> jail_os" where
  "mount_linux F j os = each (\<lambda>(dest, src). os_Mount F src dest) (jl_bindMounts j) os"

definition unmount_linux :: "os_faults \<Rightarrow> Jail \<Rightarrow> jail_os \<Rightarrow> go_error option \<times> jail_os" where
  "unmount_linux F j os =
     each (\<lambda>(dest, _) os. case os_Unmount F dest os of
             (Some err, os) \<Rightarrow> (if err \<noteq> EINVAL then Some err else None, os)
           | (None, os) \<Rightarrow> (None, os)) (jl_bindMounts j) os"

definition notSupported :: "string \<Rightarrow> Jail \<Rightarrow> go_error option" where
  "notSupported goos j = (if length (jl_bindMounts j) > 0 then Some (ErrMsg (''bind mount not supported on '' @ goos)) else None)"

definition jail_mount :: "platform \<Rightarrow> os_faults \<Rightarrow> Jail \<Rightarrow> jail_os \<Rightarrow> go_error option \<times> jail_os" where
  "jail_mount P F j os = (case P of Linux \<Rightarrow> mount_linux F j os | OtherOS goos \<Rightarrow> (notSupported goos j, os))"

definition jail_unmount :: "platform \<Rightarrow> os_faults \<Rightarrow> Jail \<Rightarrow> jail_os \<Rightarrow> go_error option \<times> jail_os" where
  "jail_unmount P F j os = (case P of Linux \<Rightarrow> unmount_linux F j os | OtherOS goos \<Rightarrow> (notSupported goos j, os))"

definition removeAll :: "os_faults \<Rightarrow> Jail \<Rightarrow> jail_os \<Rightarrow> go_error option \<times> jail_os" where
  "removeAll F j os =
     (if jl_deleteRoot j then os_RemoveAll F (jl_root j) os
      else (case each (\<lambda>(path, _). os_Remove F path) (jl_files j) os of
              (Some err, os) \<Rightarrow> (Some err, os)
            | (None, os) \<Rightarrow> each (\<lambda>dest. os_Remove F (pm_path dest)) (rev (jl_directories j)) os))"

definition jail_Build :: "platform \<Rightarrow> os_faults \<Rightarrow> Jail \<Rightarrow> jail_os \<Rightarrow> go_error option \<times> jail_os" where
  "jail_Build P F j os =
     (if length (jl_bindMounts j) > 1 then (Some (ErrMsg ''BUG: jail does not currently support multiple bind mounts''), os)
      else (case each (\<lambda>dir. os_create (of_mkdir F (pm_path dir)) (pm_path dir) JDir) (jl_directories j) os of
              (Some err, os) \<Rightarrow> (Some err, snd (removeAll F j os))
            | (None, os) \<Rightarrow>
                (case each (\<lambda>(dest, src). handleFile F dest src) (jl_files j) os of
                   (Some err, os) \<Rightarrow> (Some err, snd (removeAll F j os))
                 | (None, os) \<Rightarrow>
                     (case jail_mount P F j os of
                        (Some err, os) \<Rightarrow> (Some err, snd (removeAll F j os))
                      | (None, os) \<Rightarrow> (None, os)))))"

definition jail_Dispose :: "platform \<Rightarrow> os_faults \<Rightarrow> Jail \<Rightarrow> jail_os \<Rightarrow> go_error option \<times> jail_os" where
  "jail_Dispose P F j os =
     (case jail_unmount P F j os of
        (Some err, os) \<Rightarrow> (Some err, os)
      | (None, os) \<Rightarrow> removeAll F j os)"

section \<open>Loops\<close>

lemma each_inv:
  assumes "\<And>x os. x \<in> set xs \<Longrightarrow> P os \<Longrightarrow> P (snd (f x os))" and "P os"
  shows "P (snd (each f xs os))"
  using assms
proof (induction xs arbitrary: os)
  case (Cons x xs)
  have "P (snd (f x os))" using Cons.prems by simp
  with Cons.IH [of "snd (f x os)"] Cons.prems(1) show ?case
    by (cases "f x os") (auto split: option.splits)
qed simp

lemma each_ok:
  assumes "fst (each f xs os) = None" "x \<in> set xs"
    and "\<And>x os. R os (snd (f x os))" "\<And>a b c. R a b \<Longrightarrow> R b c \<Longrightarrow> R a c" "\<And>a. R a a"
  shows "\<exists>os1. R os os1 \<and> fst (f x os1) = None \<and> R (snd (f x os1)) (snd (each f xs os))"
  using assms(1,2)
proof (induction xs arbitrary: os)
  case (Cons y ys)
  then have ok: "fst (f y os) = None" and ys: "each f (y # ys) os = each f ys (snd (f y os))"
    by (cases "f y os"; cases "fst (f y os)"; simp)+
  have tail: "R a (snd (each f ys a))" for a
    by (rule each_inv [where P = "R a"]) (use assms(3-5) in blast)+
  show ?case
  proof (cases "x = y")
    case True
    then show ?thesis using ok tail assms(5) by (metis ys)
  next
    case False
    then have "x \<in> set ys" "fst (each f ys (snd (f y os))) = None" using Cons.prems ys by simp_all
    from Cons.IH [OF this(2,1)] show ?thesis unfolding ys using assms(3,4) by blast
  qed
qed simp

section \<open>What the steps touch\<close>

definition jail_touches :: "Jail \<Rightarrow> jpath \<Rightarrow> bool" where
  "jail_touches j u \<longleftrightarrow> jl_deleteRoot j \<and> prefix (path_elems (jl_root j)) u \<or>
     u \<in> path_elems ` (pm_path ` set (jl_directories j) \<union> fst ` set (jl_files j))"

text \<open>Without mounts, and with nothing changed but what the jail may touch.\<close>

definition quiet :: "Jail \<Rightarrow> jail_os \<Rightarrow> jail_os \<Rightarrow> bool" where
  "quiet j os os' \<longleftrightarrow> jo_mounts os' = [] \<and> (\<forall>u. \<not> jail_touches j u \<longrightarrow> jo_nodes os' u = jo_nodes os u)"

lemma jail_touches_entries:
  "(dest, src) \<in> set (jl_files j) \<Longrightarrow> jail_touches j (path_elems dest)"
  "dir \<in> set (jl_directories j) \<Longrightarrow> jail_touches j (path_elems (pm_path dir))"
  unfolding jail_touches_def by force+

lemma resolve_unmounted [simp]: "jo_mounts os = [] \<Longrightarrow> mount_resolve os p = p"
  by (simp add: mount_resolve_def)

lemma quiet_create:
  assumes "quiet j os os'" "jail_touches j (path_elems p)"
  shows "quiet j os (snd (os_create fault p node os'))"
proof -
  have "jo_mounts os' = []" using assms(1) by (simp add: quiet_def)
  then show ?thesis using assms by (auto simp: quiet_def os_create_def Let_def split: option.splits)
qed

lemma handleFile_creates: "\<exists>fault node. snd (handleFile F dest src os) \<in> {os, snd (os_create fault dest node os)}"
proof -
  have c: "snd (case os_create fault dest node os of (Some e, os) \<Rightarrow> (Some e, os) | (None, os) \<Rightarrow> (Some err, os)) =
      snd (os_create fault dest node os)" for fault node err
    by (auto split: prod.splits option.splits)
  show ?thesis
    unfolding handleFile_def copyFile_def
    by (auto simp: c split: option.splits jnode.splits prod.splits if_split)
qed

lemma quiet_handleFile:
  assumes "quiet j os os'" "jail_touches j (path_elems dest)"
  shows "quiet j os (snd (handleFile F dest src os'))"
proof -
  obtain fault node where "snd (handleFile F dest src os') \<in> {os', snd (os_create fault dest node os')}"
    using handleFile_creates by blast
  then show ?thesis using assms(1) quiet_create [OF assms] by auto
qed

lemma quiet_remove:
  assumes "quiet j os os'" "jail_touches j (path_elems p)"
  shows "quiet j os (snd (os_Remove F p os'))"
proof -
  have "jo_mounts os' = []" using assms(1) by (simp add: quiet_def)
  then show ?thesis using assms by (auto simp: quiet_def os_Remove_def Let_def split: option.splits)
qed

lemma quiet_removeAll:
  assumes "quiet j os os'"
  shows "quiet j os (snd (removeAll F j os'))"
proof (cases "jl_deleteRoot j")
  case True
  have "jo_mounts os' = []" using assms by (simp add: quiet_def)
  then show ?thesis using assms True
    by (auto simp: removeAll_def os_RemoveAll_def quiet_def removal_reaches_def jail_touches_def split: option.splits)
next
  case False
  have f: "quiet j os (snd (each (\<lambda>(path, _). os_Remove F path) (jl_files j) os'))"
    by (rule each_inv [where P = "quiet j os"]) (auto intro!: quiet_remove assms jail_touches_entries)
  have "quiet j os (snd (each (\<lambda>dest. os_Remove F (pm_path dest)) (rev (jl_directories j)) a))" if "quiet j os a" for a
    by (rule each_inv [where P = "quiet j os"]) (auto intro!: quiet_remove that jail_touches_entries)
  then show ?thesis using False f by (auto simp: removeAll_def split: prod.splits option.splits)
qed

text \<open>At most one mount: it fails and nothing is mounted, or it is the only mount.\<close>

lemma jail_mount_cases:
  assumes "length (jl_bindMounts j) \<le> 1" "jo_mounts os = []" "jail_mount P F j os = (err, os')"
  shows "jo_nodes os' = jo_nodes os \<and> (err \<noteq> None \<longrightarrow> os' = os) \<and>
    (err = None \<longrightarrow> jo_mounts os' = map (\<lambda>(dest, src). (path_elems dest, path_elems src)) (jl_bindMounts j))"
proof (cases "jl_bindMounts j")
  case Nil
  then show ?thesis using assms by (auto simp: jail_mount_def mount_linux_def notSupported_def split: platform.split_asm)
next
  case (Cons b bs)
  then have "bs = []" using assms(1) by simp
  then show ?thesis using assms(2,3) Cons
    by (cases P; cases b; cases "of_mount F (fst b)")
      (auto simp: jail_mount_def mount_linux_def notSupported_def os_Mount_def split: if_split_asm, metis)
qed

lemma jail_unmount_cases:
  assumes "\<And>d. of_unmount F d \<noteq> Some EINVAL" "jail_unmount P F j os = (err, os')"
    and "set (map fst (jo_mounts os)) \<subseteq> path_elems ` fst ` set (jl_bindMounts j)"
  shows "jo_nodes os' = jo_nodes os \<and> (err = None \<longrightarrow> jo_mounts os' = [])"
proof -
  let ?f = "\<lambda>(dest, _) os. case os_Unmount F dest os of
      (Some err, os) \<Rightarrow> (if err \<noteq> EINVAL then Some err else None, os) | (None, os) \<Rightarrow> (None, os)"
  have "jo_nodes os' = jo_nodes os \<and> (err = None \<longrightarrow> jo_mounts os' = [])"
    if "each ?f bs os = (err, os')" "set (map fst (jo_mounts os)) \<subseteq> path_elems ` fst ` set bs" for bs os
    using that
  proof (induction bs arbitrary: os)
    case (Cons b bs)
    obtain dest src where b: "b = (dest, src)" by (cases b)
    show ?case
    proof (cases "path_elems dest \<in> fst ` set (jo_mounts os)")
      case False
      then have "set (map fst (jo_mounts os)) \<subseteq> path_elems ` fst ` set bs"
        using Cons.prems(2) unfolding b by (simp add: subset_insert)
      then show ?thesis using Cons.IH [of os] Cons.prems(1) b False by (simp add: os_Unmount_def)
    next
      case True
      show ?thesis
      proof (cases "of_unmount F dest")
        case None
        let ?os = "os\<lparr>jo_mounts := filter (\<lambda>(d, _). d \<noteq> path_elems dest) (jo_mounts os)\<rparr>"
        have "set (map fst (jo_mounts ?os)) \<subseteq> path_elems ` fst ` set bs" using Cons.prems(2) b by auto
        then show ?thesis using Cons.IH [of ?os] Cons.prems(1) b True None by (simp add: os_Unmount_def)
      next
        case (Some e)
        then show ?thesis using Cons.prems(1) b True assms(1) [of dest] by (auto simp: os_Unmount_def)
      qed
    qed
  qed auto
  then have "jo_nodes os' = jo_nodes os \<and> (err = None \<longrightarrow> jo_mounts os' = [])" if "unmount_linux F j os = (err, os')"
    using that assms(3) unfolding unmount_linux_def by blast
  then show ?thesis using assms(2,3)
    by (cases P) (auto simp: jail_unmount_def notSupported_def split: if_split_asm)
qed

lemma quiet_refl: "jo_mounts os = [] \<Longrightarrow> quiet j os os"
  by (simp add: quiet_def)

lemma quiet_dirs: "quiet j os a \<Longrightarrow>
    quiet j os (snd (each (\<lambda>dir. os_create (of_mkdir F (pm_path dir)) (pm_path dir) JDir) (jl_directories j) a))"
  by (rule each_inv [where P = "quiet j os"]) (auto intro!: quiet_create jail_touches_entries)

lemma quiet_files: "quiet j os a \<Longrightarrow> quiet j os (snd (each (\<lambda>(dest, src). handleFile F dest src) (jl_files j) a))"
  by (rule each_inv [where P = "quiet j os"]) (auto intro!: quiet_handleFile jail_touches_entries)

lemma jail_Build_cases:
  assumes "jo_mounts os = []" "jail_Build P F j os = (err, os')"
  shows "err \<noteq> None \<and> quiet j os os' \<or>
    err = None \<and> (\<exists>a b. quiet j os b \<and> length (jl_bindMounts j) \<le> 1 \<and>
      each (\<lambda>dir. os_create (of_mkdir F (pm_path dir)) (pm_path dir) JDir) (jl_directories j) os = (None, a) \<and>
      each (\<lambda>(dest, src). handleFile F dest src) (jl_files j) a = (None, b) \<and> jail_mount P F j b = (None, os'))"
proof (cases "length (jl_bindMounts j) > 1")
  case True
  then show ?thesis using assms by (auto simp: jail_Build_def quiet_refl)
next
  case False
  obtain e1 a where a: "each (\<lambda>dir. os_create (of_mkdir F (pm_path dir)) (pm_path dir) JDir) (jl_directories j) os = (e1, a)"
    by fastforce
  have qa: "quiet j os a" using quiet_dirs [OF quiet_refl [OF assms(1)], of j F] a by simp
  obtain e2 b where b: "each (\<lambda>(dest, src). handleFile F dest src) (jl_files j) a = (e2, b)" by fastforce
  have qb: "quiet j os b" using quiet_files [OF qa, of F] b by simp
  obtain e3 c where c: "jail_mount P F j b = (e3, c)" by fastforce
  have "jo_mounts b = []" using qb by (simp add: quiet_def)
  then have "e3 \<noteq> None \<Longrightarrow> c = b" using jail_mount_cases [OF _ _ c] False by simp
  then show ?thesis using assms(2) False a b c quiet_removeAll [OF qa, of F] quiet_removeAll [OF qb, of F] qb
    by (cases e1; cases e2; cases e3) (auto simp: jail_Build_def)
qed

text \<open>Nothing outside the jail is touched by building and disposing.\<close>

lemma jail_Build_mounts:
  assumes "jo_mounts os = []" "jail_Build P F j os = (err, os1)"
  shows "(\<forall>u. \<not> jail_touches j u \<longrightarrow> jo_nodes os1 u = jo_nodes os u) \<and> (err \<noteq> None \<longrightarrow> jo_mounts os1 = []) \<and>
    set (map fst (jo_mounts os1)) \<subseteq> path_elems ` fst ` set (jl_bindMounts j)"
  using jail_Build_cases [OF assms]
proof (elim disjE conjE exE)
  fix a c
  assume q: "quiet j os c" and l: "length (jl_bindMounts j) \<le> 1" and m: "jail_mount P F j c = (None, os1)" and e: "err = None"
  have "jo_mounts c = []" using q by (simp add: quiet_def)
  from jail_mount_cases [OF l this m] q e show ?thesis by (force simp: quiet_def)
qed (auto simp: quiet_def)

lemma jail_Dispose_cases:
  assumes "\<And>d. of_unmount F d \<noteq> Some EINVAL" "jail_Dispose P F j os = (err, os2)"
    and "set (map fst (jo_mounts os)) \<subseteq> path_elems ` fst ` set (jl_bindMounts j)"
  shows "(\<forall>u. \<not> jail_touches j u \<longrightarrow> jo_nodes os2 u = jo_nodes os u) \<and>
    (err = None \<longrightarrow> jo_mounts os2 = [] \<and>
      (jl_deleteRoot j \<longrightarrow> (\<forall>u. prefix (path_elems (jl_root j)) u \<longrightarrow> jo_nodes os2 u = None)))"
proof -
  obtain e u where u: "jail_unmount P F j os = (e, u)" by fastforce
  note un = jail_unmount_cases [OF assms(1) u assms(3)]
  show ?thesis
  proof (cases e)
    case (Some x)
    then show ?thesis using un assms(2) u by (auto simp: jail_Dispose_def)
  next
    case None
    then have m: "jo_mounts u = []" "jo_nodes u = jo_nodes os" and d: "removeAll F j u = (err, os2)"
      using un assms(2) u by (auto simp: jail_Dispose_def)
    have "quiet j u os2" using quiet_removeAll [OF quiet_refl [OF m(1)], of j F] d by simp
    moreover have "jo_nodes os2 v = None" if "err = None" "jl_deleteRoot j" "prefix (path_elems (jl_root j)) v" for v
      using that d m(1) by (auto simp: removeAll_def os_RemoveAll_def removal_reaches_def split: option.splits)
    ultimately show ?thesis using m by (auto simp: quiet_def)
  qed
qed

lemma jail_protects_host_nodes:
  assumes "jo_mounts os = []" "\<And>d. of_unmount F' d \<noteq> Some EINVAL" "jail_Build P F j os = (err, os1)"
    "jail_Dispose P F' j os1 = (err', os2)" "\<not> jail_touches j u"
  shows "jo_nodes os2 u = jo_nodes os u"
  using jail_Build_mounts [OF assms(1,3)] jail_Dispose_cases [OF assms(2,4)] assms(5) by metis

section \<open>Properties\<close>

text \<open>Building and disposing of a jail never harms what lies outside it, whatever system calls fail: the
  nodes that are neither the jail's own entries nor below the root of a temporary jail stay as they are,
  although the pages are mounted inside and the jail is removed recursively; a failed build leaves no
  mount, and a disposal without error leaves neither mount nor jail.  It relies on the kernel answering
  \<^verbatim>\<open>EINVAL\<close> only where nothing is mounted.\<close>

theorem jail_protects_host:
  assumes "jo_mounts os = []" and "\<And>d. of_unmount F' d \<noteq> Some EINVAL"
    and "jail_Build P F j os = (err, os1)" and "jail_Dispose P F' j os1 = (err', os2)"
  shows "(\<forall>u. \<not> jail_touches j u \<longrightarrow> jo_nodes os1 u = jo_nodes os u \<and> jo_nodes os2 u = jo_nodes os u) \<and>
    (err \<noteq> None \<longrightarrow> jo_mounts os1 = []) \<and>
    (err' = None \<longrightarrow> jo_mounts os2 = [] \<and>
      (jl_deleteRoot j \<longrightarrow> (\<forall>u. prefix (path_elems (jl_root j)) u \<longrightarrow> jo_nodes os2 u = None)))"
  using jail_Build_mounts [OF assms(1,3)] jail_Dispose_cases [OF assms(2,4)] by metis

text \<open>Creating only ever adds nodes.\<close>

definition grows :: "jail_os \<Rightarrow> jail_os \<Rightarrow> bool" where
  "grows a b \<longleftrightarrow> (jo_mounts a = [] \<longrightarrow> jo_mounts b = [] \<and> jo_nodes a \<subseteq>\<^sub>m jo_nodes b)"

lemma grows_refl: "grows a a"
  by (simp add: grows_def)

lemma grows_trans: "grows a b \<Longrightarrow> grows b c \<Longrightarrow> grows a c"
  unfolding grows_def using map_le_trans by blast

lemma grows_create: "grows a (snd (os_create fault p node a))"
  by (auto simp: grows_def os_create_def Let_def map_le_def split: option.splits)

lemma grows_handleFile: "grows a (snd (handleFile F dest src a))"
proof -
  obtain fault node where "snd (handleFile F dest src a) \<in> {a, snd (os_create fault dest node a)}"
    using handleFile_creates by blast
  then show ?thesis using grows_refl grows_create by auto
qed

lemma os_create_ok:
  "jo_mounts a = [] \<Longrightarrow> fst (os_create fault p node a) = None \<Longrightarrow> jo_nodes (snd (os_create fault p node a)) (path_elems p) = Some node"
  by (auto simp: os_create_def Let_def split: option.splits if_split_asm)

lemma handleFile_ok:
  assumes "jo_mounts a = []" "fst (handleFile F dest src a) = None"
  shows "if pm_charDevice src then jo_nodes (snd (handleFile F dest src a)) (path_elems dest) = Some (JDev (pm_rdev src))
    else \<exists>content. jo_nodes a (path_elems (pm_path src)) = Some (JFile content) \<and>
      jo_nodes (snd (handleFile F dest src a)) (path_elems dest) = Some (JFile content)"
proof (cases "pm_charDevice src")
  case True
  then show ?thesis using assms by (simp add: handleFile_def os_create_ok)
next
  case False
  then have "of_open F (pm_path src) = None" "of_copy F dest = None" "\<exists>content. jo_nodes a (path_elems (pm_path src)) = Some (JFile content)"
    using assms by (auto simp: handleFile_def copyFile_def os_node_at_def split: option.splits jnode.splits prod.splits)
  then show ?thesis using assms False by (auto simp: handleFile_def copyFile_def os_node_at_def os_create_ok)
qed

lemma mapsto_le: "m x = Some y \<Longrightarrow> m \<subseteq>\<^sub>m n \<Longrightarrow> n x = Some y"
  by (metis domI map_le_def)

text \<open>A jail that was built without error is complete: every directory and device is there, every file has
  the content of its source, nothing that existed was changed, and below the destination of the mount
  everything below its source is seen.\<close>

theorem jail_Build_complete:
  assumes "jo_mounts os = []" and "jail_Build P F j os = (None, os1)"
  shows "jo_nodes os \<subseteq>\<^sub>m jo_nodes os1 \<and>
    (\<forall>dir \<in> set (jl_directories j). jo_nodes os1 (path_elems (pm_path dir)) = Some JDir) \<and>
    (\<forall>(dest, src) \<in> set (jl_files j). if pm_charDevice src then jo_nodes os1 (path_elems dest) = Some (JDev (pm_rdev src))
       else \<exists>content. jo_nodes os1 (path_elems (pm_path src)) = Some (JFile content) \<and>
         jo_nodes os1 (path_elems dest) = Some (JFile content)) \<and>
    (\<forall>(dest, src) \<in> set (jl_bindMounts j). \<forall>rest. mount_resolve os1 (path_elems dest @ rest) = path_elems src @ rest)"
proof -
  let ?mk = "\<lambda>dir. os_create (of_mkdir F (pm_path dir)) (pm_path dir) JDir" and ?h = "\<lambda>(dest, src). handleFile F dest src"
  obtain a b where l: "length (jl_bindMounts j) \<le> 1" and a: "each ?mk (jl_directories j) os = (None, a)"
    and b: "each ?h (jl_files j) a = (None, b)" and m: "jail_mount P F j b = (None, os1)"
    using jail_Build_cases [OF assms] by blast
  have ra: "grows os a" using each_inv [where P = "grows os" and f = ?mk and xs = "jl_directories j" and os = os]
    a grows_refl grows_trans [OF _ grows_create] by simp
  have rb: "grows a b" using each_inv [where P = "grows a" and f = ?h and xs = "jl_files j" and os = a]
    b grows_refl grows_trans [OF _ grows_handleFile] by (simp split: prod.splits)
  have ma: "jo_mounts a = []" "jo_nodes os \<subseteq>\<^sub>m jo_nodes a" using ra assms(1) by (auto simp: grows_def)
  have mb: "jo_mounts b = []" "jo_nodes a \<subseteq>\<^sub>m jo_nodes b" using rb ma(1) by (auto simp: grows_def)
  have mount: "jo_nodes os1 = jo_nodes b" "jo_mounts os1 = map (\<lambda>(dest, src). (path_elems dest, path_elems src)) (jl_bindMounts j)"
    using jail_mount_cases [OF l mb(1) m] by auto
  have dirs: "jo_nodes b (path_elems (pm_path dir)) = Some JDir" if d: "dir \<in> set (jl_directories j)" for dir
  proof -
    obtain c where c: "grows os c" "fst (?mk dir c) = None" "grows (snd (?mk dir c)) a"
      using each_ok [where R = grows, OF _ d, of ?mk os] a grows_create grows_trans grows_refl by auto
    have mc: "jo_mounts c = []" using c(1) assms(1) by (simp add: grows_def)
    moreover have "jo_mounts (snd (?mk dir c)) = []" using grows_create mc by (simp add: grows_def)
    ultimately have "jo_nodes (snd (?mk dir c)) \<subseteq>\<^sub>m jo_nodes a" using c(3) by (simp add: grows_def)
    then have "jo_nodes (snd (?mk dir c)) \<subseteq>\<^sub>m jo_nodes b" by (rule map_le_trans [OF _ mb(2)])
    then show ?thesis using os_create_ok [OF mc c(2)] by (blast intro: mapsto_le)
  qed
  have files: "if pm_charDevice src then jo_nodes b (path_elems dest) = Some (JDev (pm_rdev src))
       else \<exists>content. jo_nodes b (path_elems (pm_path src)) = Some (JFile content) \<and> jo_nodes b (path_elems dest) = Some (JFile content)"
    if f: "(dest, src) \<in> set (jl_files j)" for dest src
  proof -
    obtain c where c: "grows a c" "fst (handleFile F dest src c) = None" "grows (snd (handleFile F dest src c)) b"
      using each_ok [where R = grows, OF _ f, of ?h a] b grows_handleFile grows_trans grows_refl by (auto split: prod.splits)
    have mc: "jo_mounts c = []" using c(1) ma(1) by (simp add: grows_def)
    then have le: "jo_nodes c \<subseteq>\<^sub>m jo_nodes b" "jo_nodes (snd (handleFile F dest src c)) \<subseteq>\<^sub>m jo_nodes b"
      using grows_handleFile [of c F dest src] c(3) grows_trans unfolding grows_def by (blast, blast)
    show ?thesis using handleFile_ok [OF mc c(2)] mapsto_le [OF _ le(1)] mapsto_le [OF _ le(2)] by (auto split: if_split_asm)
  qed
  have "mount_resolve os1 (path_elems dest @ rest) = path_elems src @ rest" if "(dest, src) \<in> set (jl_bindMounts j)" for dest src rest
  proof -
    have "jl_bindMounts j = [(dest, src)]" using that l by (cases "jl_bindMounts j") auto
    then show ?thesis using mount(2) by (simp add: mount_resolve_def)
  qed
  then show ?thesis using map_le_trans [OF ma(2) mb(2)] dirs files unfolding mount(1) by auto
qed

section \<open>A jail with a mount\<close>

definition no_faults :: os_faults where
  "no_faults = \<lparr>of_stat = \<lambda>_. None, of_mkdir = \<lambda>_. None, of_open = \<lambda>_. None, of_create = \<lambda>_. None, of_copy = \<lambda>_. None,
     of_remove = \<lambda>_. None, of_removeAll = \<lambda>_. None, of_mount = \<lambda>_. None, of_unmount = \<lambda>_. None, of_unshare = None, of_private = None\<rparr>"

definition demo_host :: jail_os where
  "demo_host = \<lparr>jo_nodes = [[''tmp''] \<mapsto> JDir, [''srv''] \<mapsto> JDir, [''srv'', ''index.html''] \<mapsto> JFile ''hi''],
     jo_paths = [[''tmp''], [''srv''], [''srv'', ''index.html'']], jo_perm = \<lambda>_. 493,
     jo_mounts = []\<rparr>"

definition demo_jail :: Jail where
  "demo_jail = jail_Bind ''/srv'' ''/srv'' (MkDirAll ''/srv'' 493 (jail_Create ''/tmp/j'' 493))"

definition demo_built :: jail_os where
  "demo_built = snd (jail_Build Linux no_faults demo_jail demo_host)"

lemma demo_built: "jail_Build Linux no_faults demo_jail demo_host = (None, demo_built)"
proof -
  have "fst (jail_Build Linux no_faults demo_jail demo_host) = None" by code_simp
  then show ?thesis unfolding demo_built_def by (metis prod.collapse)
qed

theorem jail_protects_host_witness:
  "jo_nodes demo_built [''tmp'', ''j'', ''srv''] = Some JDir \<and>
   jo_nodes (snd (jail_Dispose Linux no_faults demo_jail demo_built)) [''tmp'', ''j'', ''srv''] = None \<and>
   jo_nodes (snd (jail_Dispose Linux no_faults demo_jail demo_built)) [''srv'', ''index.html''] = Some (JFile ''hi'')"
proof -
  have m: "jo_mounts demo_host = []" "\<And>d. of_unmount no_faults d \<noteq> Some EINVAL" by (simp_all add: demo_host_def no_faults_def)
  have d: "fst (jail_Dispose Linux no_faults demo_jail demo_built) = None" by code_simp
  then have "jail_Dispose Linux no_faults demo_jail demo_built = (None, snd (jail_Dispose Linux no_faults demo_jail demo_built))"
    by (metis prod.collapse)
  note p = jail_protects_host [OF m demo_built this]
  have t: "\<not> jail_touches demo_jail [''srv'', ''index.html'']" by code_simp
  have r: "jl_deleteRoot demo_jail" "prefix (path_elems (jl_root demo_jail)) [''tmp'', ''j'', ''srv'']" by code_simp+
  have "jo_nodes demo_built [''tmp'', ''j'', ''srv''] = Some JDir" by code_simp
  moreover have "jo_nodes demo_host [''srv'', ''index.html''] = Some (JFile ''hi'')" by code_simp
  ultimately show ?thesis using p t r by simp
qed

theorem jail_Build_complete_witness:
  "jo_nodes demo_built (mount_resolve demo_built [''tmp'', ''j'', ''srv'', ''index.html'']) = Some (JFile ''hi'')"
proof -
  have m: "jo_mounts demo_host = []" by (simp add: demo_host_def)
  have b: "(''/tmp/j/srv'', ''/srv'') \<in> set (jl_bindMounts demo_jail)" by code_simp
  have e: "path_elems ''/tmp/j/srv'' = [''tmp'', ''j'', ''srv'']" "path_elems ''/srv'' = [''srv'']" by code_simp+
  have "mount_resolve demo_built (path_elems ''/tmp/j/srv'' @ [''index.html'']) = path_elems ''/srv'' @ [''index.html'']"
    using jail_Build_complete [OF m demo_built] b by blast
  then have r: "mount_resolve demo_built [''tmp'', ''j'', ''srv'', ''index.html''] = [''srv'', ''index.html'']" unfolding e by simp
  have "jo_nodes demo_built [''srv'', ''index.html''] = Some (JFile ''hi'')" by code_simp
  then show ?thesis unfolding r .
qed

text \<open>\<^verbatim>\<open>Create\<close> does not create its directory if needed: when it exists, building fails and removes it with
  everything in it.\<close>

lemma Create_existing_removed:
  assumes "jo_mounts os = []" and "path_elems path \<noteq> []" and "jo_nodes os (path_elems path) = Some JDir"
  shows "fst (jail_Build Linux no_faults (jail_Create path perm) os) = Some EEXIST \<and>
    (\<forall>u. prefix (path_elems path) u \<longrightarrow> jo_nodes (snd (jail_Build Linux no_faults (jail_Create path perm) os)) u = None)"
  using assms
  by (simp add: jail_Build_def jail_Create_def jail_Into_def dir_entry_def os_create_def removeAll_def os_RemoveAll_def
      removal_reaches_def no_faults_def)

text \<open>Building a second time would remove what is mounted: the guarantee above is for a jail that is built
  once, as the daemon does.\<close>

lemma Build_twice_destroys:
  "jo_nodes demo_built [''srv'', ''index.html''] = Some (JFile ''hi'') \<and>
   jo_nodes (snd (jail_Build Linux no_faults demo_jail demo_built)) [''srv'', ''index.html''] = None"
  by code_simp

end
