(* ===== verification/Daemonize.thy ===== *)
theory Daemonize
  imports Jail Http_Fs Config
begin

text \<open>
  Running the daemon as an unprivileged user (\<^verbatim>\<open>daemon.go\<close>): the program starts itself again inside a
  chroot jail with the configured user, hands it the configuration through a pipe and the listening
  sockets as extra files, waits for it and cleans up.

  What the process finds around it (its executable, environment and working directory, random bytes,
  the clock, directories) and how the calls that start the child end are the record \<open>daemon_env\<close>.
\<close>

section \<open>The command\<close>

record Cmd =
  cm_Path :: string
  cm_Args :: "string list"
  cm_Env :: "string list"
  cm_Uid :: "32 word"
  cm_Gid :: "32 word"
  cm_Setsid :: bool
  cm_Chroot :: string
  cm_Dir :: string
  cm_ExtraFiles :: "nat list"

record daemon_env =
  de_Executable :: "string result"
  de_Environ :: "string list"
  de_Getwd :: "string result"
  de_random :: "bytes result"
  de_Getenv :: "string \<Rightarrow> string"
  de_ReadDir :: "string \<Rightarrow> (string \<times> file_mode) list result"
  de_TempDir :: string
  de_now :: int
  de_Pipe :: "nat result"
  de_Start :: "Cmd \<Rightarrow> go_error option"
  de_Encode :: "go_error option"
  de_Wait :: "go_error option"

definition daemonRunProgram :: string where
  "daemonRunProgram = ''gitlab-pages-unprivileged''"

text \<open>\<^verbatim>\<open>daemonMain\<close>: nothing in the parent; the child refuses an unreachable working directory and runs the
  configuration it reads from the pipe, its file descriptor 3.\<close>

datatype main_outcome = NotTheDaemon | Fatal go_error | RunApp Config

definition daemonMain :: "string \<Rightarrow> string result \<Rightarrow> (nat \<Rightarrow> Config result) \<Rightarrow> main_outcome" where
  "daemonMain arg0 getwd decode =
     (if arg0 \<noteq> daemonRunProgram then NotTheDaemon
      else (case getwd of
              Inl err \<Rightarrow> Fatal err
            | Inr wd \<Rightarrow>
                (if HasPrefix wd ''(unreachable)'' then Fatal ErrOSPermission
                 else (case decode 3 of Inl err \<Rightarrow> Fatal err | Inr config \<Rightarrow> RunApp config))))"

definition daemonReexec :: "daemon_env \<Rightarrow> nat \<Rightarrow> nat \<Rightarrow> string list \<Rightarrow> Cmd result" where
  "daemonReexec env uid gid args =
     (case de_Executable env of
        Inl err \<Rightarrow> Inl err
      | Inr path \<Rightarrow>
          Inr \<lparr>cm_Path = path, cm_Args = args, cm_Env = de_Environ env, cm_Uid = word_of_nat uid, cm_Gid = word_of_nat gid,
               cm_Setsid = True, cm_Chroot = [], cm_Dir = [], cm_ExtraFiles = []\<rparr>)"

definition daemonUpdateFd :: "nat \<Rightarrow> Cmd \<Rightarrow> nat \<times> Cmd" where
  "daemonUpdateFd fd cmd = (3 + length (cm_ExtraFiles cmd), cmd\<lparr>cm_ExtraFiles := cm_ExtraFiles cmd @ [fd]\<rparr>)"

fun daemonUpdateFds :: "nat list \<Rightarrow> Cmd \<Rightarrow> nat list \<times> Cmd" where
  "daemonUpdateFds [] cmd = ([], cmd)"
| "daemonUpdateFds (fd # fds) cmd =
     (let (n, cmd) = daemonUpdateFd fd cmd; (ns, cmd) = daemonUpdateFds fds cmd in (n # ns, cmd))"

definition updateFds :: "Config \<Rightarrow> Cmd \<Rightarrow> Config \<times> Cmd" where
  "updateFds config cmd =
     (let l = c_Listeners config;
          (http, cmd) = daemonUpdateFds (li_HTTP l) cmd;
          (https, cmd) = daemonUpdateFds (li_HTTPS l) cmd;
          (proxy, cmd) = daemonUpdateFds (li_Proxy l) cmd;
          (proxyv2, cmd) = daemonUpdateFds (li_HTTPSProxyv2 l) cmd;
          (m, cmd) = (if c_ListenMetrics config \<noteq> 0 then daemonUpdateFd (c_ListenMetrics config) cmd else (0, cmd))
      in (config\<lparr>c_Listeners := \<lparr>li_HTTP = http, li_HTTPS = https, li_Proxy = proxy, li_HTTPSProxyv2 = proxyv2\<rparr>,
                 c_ListenMetrics := m\<rparr>, cmd))"

section \<open>The jails\<close>

definition hex_lower :: "bytes \<Rightarrow> string" where
  "hex_lower bs = concat (map (\<lambda>c. [lower_char (hex_digit (byte c div 16)), lower_char (hex_digit (byte c mod 16))]) bs)"

definition chrootDaemon :: "os_faults \<Rightarrow> daemon_env \<Rightarrow> jail_os \<Rightarrow> Cmd \<Rightarrow> (Jail \<times> Cmd) result" where
  "chrootDaemon F env os cmd =
     (case de_Getwd env of
        Inl err \<Rightarrow> Inl err
      | Inr wd \<Rightarrow>
          (let chroot = jail_Into wd
           in case de_random env of
                Inl err \<Rightarrow> Inl err
              | Inr suffix' \<Rightarrow>
                  (let tempExecutablePath = ''/.daemon.'' @ hex_lower suffix'
                   in case CopyTo F os tempExecutablePath (cm_Path cmd) chroot of
                        Inl err \<Rightarrow> Inl err
                      | Inr chroot \<Rightarrow>
                          Inr (chroot, cmd\<lparr>cm_Chroot := jl_root chroot, cm_Path := tempExecutablePath, cm_Dir := ''/''\<rparr>))))"

text \<open>A certificate that cannot be copied is skipped.\<close>

fun copy_certs :: "os_faults \<Rightarrow> jail_os \<Rightarrow> string \<Rightarrow> string \<Rightarrow> (string \<times> file_mode) list \<Rightarrow> Jail \<Rightarrow> Jail" where
  "copy_certs F os sslCertDir jailCertsDir [] cage = cage"
| "copy_certs F os sslCertDir jailCertsDir ((name, mode) # entries) cage =
     (if mode = ModeRegular \<or> mode = ModeSymlink
      then (case CopyTo F os (jailCertsDir @ ''/'' @ name) (sslCertDir @ ''/'' @ name) cage of
              Inl err \<Rightarrow> copy_certs F os sslCertDir jailCertsDir entries cage
            | Inr cage \<Rightarrow> copy_certs F os sslCertDir jailCertsDir entries cage)
      else copy_certs F os sslCertDir jailCertsDir entries cage)"

definition jailCopyCertDir :: "os_faults \<Rightarrow> daemon_env \<Rightarrow> jail_os \<Rightarrow> string \<Rightarrow> string \<Rightarrow> Jail \<Rightarrow> Jail result" where
  "jailCopyCertDir F env os sslCertDir jailCertsDir cage =
     (case de_ReadDir env sslCertDir of
        Inl err \<Rightarrow> Inl err
      | Inr entries \<Rightarrow> Inr (copy_certs F os sslCertDir jailCertsDir entries cage))"

definition copy_cert_file :: "os_faults \<Rightarrow> jail_os \<Rightarrow> string \<Rightarrow> Jail \<times> Cmd \<Rightarrow> (Jail \<times> Cmd) result" where
  "copy_cert_file F os sslCertFile s =
     (let (cage, cmd) = s; jailCertsFile = ''/etc/ssl/ca-bundle.pem''
      in if sslCertFile = [] then Inr (cage, cmd)
         else (case CopyTo F os jailCertsFile sslCertFile cage of
                 Inl err \<Rightarrow> Inl err
               | Inr cage \<Rightarrow> Inr (cage, cmd\<lparr>cm_Env := cm_Env cmd @ [''SSL_CERT_FILE='' @ jailCertsFile]\<rparr>)))"

definition jailDaemonCerts :: "os_faults \<Rightarrow> daemon_env \<Rightarrow> jail_os \<Rightarrow> Cmd \<Rightarrow> Jail \<Rightarrow> (Jail \<times> Cmd) result" where
  "jailDaemonCerts F env os cmd cage =
     (let sslCertFile = de_Getenv env ''SSL_CERT_FILE''; sslCertDir = de_Getenv env ''SSL_CERT_DIR''
      in if sslCertFile = [] \<and> sslCertDir = [] then Inr (cage, cmd)
         else (case copy_cert_file F os sslCertFile (MkDir ''/etc/ssl'' 493 cage, cmd) of
                 Inl err \<Rightarrow> Inl err
               | Inr (cage, cmd) \<Rightarrow>
                   (if sslCertDir = [] then Inr (cage, cmd)
                    else (let jailCertsDir = ''/etc/ssl/certs''
                          in case jailCopyCertDir F env os sslCertDir jailCertsDir (MkDir jailCertsDir 493 cage) of
                               Inl err \<Rightarrow> Inl err
                             | Inr cage \<Rightarrow> Inr (cage, cmd\<lparr>cm_Env := cm_Env cmd @ [''SSL_CERT_DIR='' @ jailCertsDir]\<rparr>)))))"

definition jailCreate :: "os_faults \<Rightarrow> daemon_env \<Rightarrow> jail_os \<Rightarrow> Cmd \<Rightarrow> (Jail \<times> Cmd) result" where
  "jailCreate F env os cmd =
     (let cage = MkDir ''/dev'' 493 (CreateTimestamped (de_TempDir env) (de_now env) ''gitlab-pages'' 493)
      in case CharDev F os ''/dev/urandom'' cage of
           Inl err \<Rightarrow> Inl err
         | Inr cage \<Rightarrow>
             (case CharDev F os ''/dev/random'' cage of
                Inl err \<Rightarrow> Inl err
              | Inr cage \<Rightarrow>
                  (case CopyTo F os ''/gitlab-pages'' (cm_Path cmd) cage of
                     Inl err \<Rightarrow> Inl err
                   | Inr cage \<Rightarrow>
                       (case jail_Copy F os ''/etc/resolv.conf'' (MkDir ''/etc'' 493 cage) of
                          Inl err \<Rightarrow> Inl err
                        | Inr cage \<Rightarrow>
                            (case jail_Copy F os ''/etc/hosts'' cage of
                               Inl err \<Rightarrow> Inl err
                             | Inr cage \<Rightarrow> jailDaemonCerts F env os cmd cage)))))"

definition jailDaemon :: "os_faults \<Rightarrow> daemon_env \<Rightarrow> jail_os \<Rightarrow> string \<Rightarrow> Cmd \<Rightarrow> (Jail \<times> Cmd) result" where
  "jailDaemon F env os pagesRoot cmd =
     (case jailCreate F env os cmd of
        Inl err \<Rightarrow> Inl err
      | Inr (cage, cmd) \<Rightarrow>
          (let cage = jail_Bind pagesRoot pagesRoot (MkDirAll pagesRoot 493 cage)
           in Inr (cage, cmd\<lparr>cm_Chroot := jl_root cage, cm_Path := ''/gitlab-pages'', cm_Dir := pagesRoot\<rparr>)))"

section \<open>The daemon\<close>

text \<open>What \<^verbatim>\<open>daemonize\<close> does between building the jail and disposing of it: the result and the child that was
  started, with the configuration written to it.\<close>

definition run_child :: "daemon_env \<Rightarrow> Config \<Rightarrow> Cmd \<Rightarrow> go_error option \<times> (Cmd \<times> Config) option" where
  "run_child env config cmd =
     (case de_Pipe env of
        Inl err \<Rightarrow> (Some err, None)
      | Inr configReader \<Rightarrow>
          (let (config, cmd) = updateFds config (cmd\<lparr>cm_ExtraFiles := cm_ExtraFiles cmd @ [configReader]\<rparr>)
           in case de_Start env cmd of
                Some err \<Rightarrow> (Some err, None)
              | None \<Rightarrow>
                  (case de_Encode env of
                     Some err \<Rightarrow> (Some err, Some (cmd, config))
                   | None \<Rightarrow> (de_Wait env, Some (cmd, config)))))"

text \<open>The wrapper of the command, in both modes.\<close>

definition wrap_command :: "os_faults \<Rightarrow> daemon_env \<Rightarrow> Config \<Rightarrow> jail_os \<Rightarrow> string \<Rightarrow> Cmd \<Rightarrow> (Jail \<times> Cmd) result" where
  "wrap_command F env config os pagesRoot cmd =
     (if dn_InplaceChroot (c_Daemon config) then chrootDaemon F env os cmd else jailDaemon F env os pagesRoot cmd)"

text \<open>\<open>F\<close> are the faults until the jail is built, \<open>F'\<close> those of the deferred disposal.\<close>

definition daemonize ::
  "platform \<Rightarrow> os_faults \<Rightarrow> os_faults \<Rightarrow> daemon_env \<Rightarrow> Config \<Rightarrow> jail_os \<Rightarrow> go_error option \<times> (Cmd \<times> Config) option \<times> jail_os" where
  "daemonize P F F' env config os =
     (case Abs_cwd (de_Getwd env) (gc_RootDir (c_General config)) of
        Inl err \<Rightarrow> (Some err, None, os)
      | Inr pagesRoot \<Rightarrow>
          (case daemonReexec env (dn_UID (c_Daemon config)) (dn_GID (c_Daemon config)) [daemonRunProgram] of
             Inl err \<Rightarrow> (Some err, None, os)
           | Inr cmd \<Rightarrow>
               (case wrap_command F env config os pagesRoot cmd of
                  Inl err \<Rightarrow> (Some err, None, os)
                | Inr (wrapper, cmd) \<Rightarrow>
                    (case jail_Build P F wrapper os of
                       (Some err, os) \<Rightarrow> (Some err, None, snd (jail_Dispose P F' wrapper os))
                     | (None, os) \<Rightarrow>
                         (case run_child env config cmd of
                            (err, started) \<Rightarrow> (err, started, snd (jail_Dispose P F' wrapper os)))))))"

section \<open>The end of the daemon\<close>

text \<open>What happens to the child and to the resources of the daemon, in its order.\<close>

datatype daemon_event = ChildStarted | ChildSignalled | ChildWaited | JailDisposed | ConfigWriterClosed | FileClosed nat

text \<open>\<open>started\<close>: whether \<^verbatim>\<open>cmd.Process\<close> is set.\<close>

definition killProcess :: "bool \<Rightarrow> Cmd \<Rightarrow> daemon_event list" where
  "killProcess started cmd =
     (if started then [ChildSignalled] else []) @ [ChildWaited] @ map FileClosed (cm_ExtraFiles cmd)"

text \<open>The deferred calls run in the reverse order of their statements: the writer of the configuration is closed, the jail
  is disposed of, and the child is killed last.\<close>

definition run_child_events :: "daemon_env \<Rightarrow> Config \<Rightarrow> Cmd \<Rightarrow> daemon_event list" where
  "run_child_events env config cmd =
     (case de_Pipe env of
        Inl err \<Rightarrow> [JailDisposed] @ killProcess False cmd
      | Inr configReader \<Rightarrow>
          (let (config, cmd) = updateFds config (cmd\<lparr>cm_ExtraFiles := cm_ExtraFiles cmd @ [configReader]\<rparr>)
           in case de_Start env cmd of
                Some err \<Rightarrow> [ConfigWriterClosed, JailDisposed] @ killProcess False cmd
              | None \<Rightarrow>
                  (case de_Encode env of
                     Some err \<Rightarrow> [ChildStarted, ConfigWriterClosed, JailDisposed] @ killProcess True cmd
                   | None \<Rightarrow> [ChildStarted, ConfigWriterClosed, ChildWaited, ConfigWriterClosed, JailDisposed] @
                       killProcess True cmd)))"

definition daemonize_events :: "platform \<Rightarrow> os_faults \<Rightarrow> daemon_env \<Rightarrow> Config \<Rightarrow> jail_os \<Rightarrow> daemon_event list" where
  "daemonize_events P F env config os =
     (case Abs_cwd (de_Getwd env) (gc_RootDir (c_General config)) of
        Inl err \<Rightarrow> []
      | Inr pagesRoot \<Rightarrow>
          (case daemonReexec env (dn_UID (c_Daemon config)) (dn_GID (c_Daemon config)) [daemonRunProgram] of
             Inl err \<Rightarrow> []
           | Inr cmd \<Rightarrow>
               (case wrap_command F env config os pagesRoot cmd of
                  Inl err \<Rightarrow> killProcess False cmd
                | Inr (wrapper, cmd) \<Rightarrow>
                    (case jail_Build P F wrapper os of
                       (Some err, os) \<Rightarrow> [JailDisposed] @ killProcess False cmd
                     | (None, os) \<Rightarrow> run_child_events env config cmd))))"

text \<open>Signals for the child.  The channel they are notified on has no buffer, and \<^verbatim>\<open>os/signal\<close> does not wait for a
  receiver: a signal that arrives while the goroutine is not at its receive is dropped.  \<^verbatim>\<open>os.Kill\<close> cannot be
  caught.\<close>

datatype signal = SIGTERM | Interrupt | Kill | OtherSignal

datatype signal_event = SignalArrives signal | GoroutineReceives

fun forward_signals :: "bool \<Rightarrow> signal_event list \<Rightarrow> signal list" where
  "forward_signals receiving [] = []"
| "forward_signals receiving (GoroutineReceives # evs) = forward_signals True evs"
| "forward_signals receiving (SignalArrives s # evs) =
     (if receiving \<and> s \<in> {SIGTERM, Interrupt} then s # forward_signals False evs else forward_signals receiving evs)"

definition passSignals :: "bool \<Rightarrow> signal_event list \<Rightarrow> signal list" where
  "passSignals started evs = (if started then forward_signals False evs else [])"

section \<open>The program (main.go)\<close>

text \<open>How \<^verbatim>\<open>appMain\<close> goes on: with the daemon or with the application itself, in its new working directory.
  \<open>load\<close> is what loading the configuration gives, \<open>logging\<close> and \<open>chdir\<close> the errors of setting up the log and of
  changing into the pages directory, \<open>wd\<close> the working directory the program is started in.\<close>

datatype app_outcome = AppFatal go_error | AppVersion | AppDaemonize Config string | AppRun Config string

definition appMain ::
  "string list \<Rightarrow> Config result \<Rightarrow> go_error option \<Rightarrow> (string \<Rightarrow> go_error option) \<Rightarrow>
   ('os \<Rightarrow> string \<Rightarrow> nat result \<times> 'os) \<Rightarrow> 'os \<Rightarrow> string \<Rightarrow> app_outcome" where
  "appMain args load logging chdir createSocket os wd =
     (case NotAllowed args of
        Some err \<Rightarrow> AppFatal err
      | None \<Rightarrow>
          (case load of
             Inl err \<Rightarrow> AppFatal err
           | Inr config \<Rightarrow>
               (if gc_ShowVersion (c_General config) then AppVersion
                else (case logging of
                        Some err \<Rightarrow> AppFatal err
                      | None \<Rightarrow>
                          (case chdir (gc_RootDir (c_General config)) of
                             Some err \<Rightarrow> AppFatal err
                           | None \<Rightarrow>
                               (let wd = filepath_Abs wd (gc_RootDir (c_General config))
                                in case createAppListeners createSocket os config of
                                     (Inl err, os) \<Rightarrow> AppFatal err
                                   | (Inr config, os) \<Rightarrow>
                                       (case createMetricsListener createSocket os config of
                                          (Inl err, os) \<Rightarrow> AppFatal err
                                        | (Inr config, os) \<Rightarrow>
                                            (if dn_UID (c_Daemon config) \<noteq> 0 \<or> dn_GID (c_Daemon config) \<noteq> 0
                                             then AppDaemonize config wd else AppRun config wd))))))))"

section \<open>File descriptors\<close>

lemma daemonUpdateFds_spec:
  "daemonUpdateFds fds cmd =
     (map (\<lambda>i. 3 + length (cm_ExtraFiles cmd) + i) [0..<length fds], cmd\<lparr>cm_ExtraFiles := cm_ExtraFiles cmd @ fds\<rparr>)"
proof (induction fds arbitrary: cmd)
  case (Cons fd fds)
  have "map (\<lambda>i. 3 + (length (cm_ExtraFiles cmd) + 1) + i) [0..<length fds] =
      map (\<lambda>i. 3 + length (cm_ExtraFiles cmd) + i) [1..<Suc (length fds)]"
    by (simp add: map_Suc_upt [symmetric] comp_def del: upt_Suc)
  then show ?case using Cons [of "cmd\<lparr>cm_ExtraFiles := cm_ExtraFiles cmd @ [fd]\<rparr>"]
    by (simp add: daemonUpdateFd_def Let_def upt_conv_Cons del: upt_Suc)
qed simp

text \<open>The file of the parent that the child finds under a descriptor.\<close>

definition child_file :: "Cmd \<Rightarrow> nat \<Rightarrow> nat option" where
  "child_file cmd fd =
     (if 3 \<le> fd \<and> fd < 3 + length (cm_ExtraFiles cmd) then Some (cm_ExtraFiles cmd ! (fd - 3)) else None)"

definition listener_fds :: "Config \<Rightarrow> nat list" where
  "listener_fds config =
     (let l = c_Listeners config
      in li_HTTP l @ li_HTTPS l @ li_Proxy l @ li_HTTPSProxyv2 l @ (if c_ListenMetrics config \<noteq> 0 then [c_ListenMetrics config] else []))"

lemma child_file_range:
  assumes "cm_ExtraFiles cmd = a @ fds @ b"
  shows "map (child_file cmd) (map (\<lambda>i. 3 + length a + i) [0..<length fds]) = map Some fds"
  using assms by (intro nth_equalityI) (simp_all add: child_file_def nth_append)

lemma updateFds_files: "cm_ExtraFiles (snd (updateFds config cmd)) = cm_ExtraFiles cmd @ listener_fds config"
  by (simp add: updateFds_def Let_def daemonUpdateFds_spec daemonUpdateFd_def listener_fds_def)

lemma updateFds_listeners:
  "listener_fds (fst (updateFds config cmd)) = map (\<lambda>i. 3 + length (cm_ExtraFiles cmd) + i) [0..<length (listener_fds config)]"
proof -
  have split: "map (\<lambda>i. n + i) [0..<k + m] = map (\<lambda>i. n + i) [0..<k] @ map (\<lambda>i. n + k + i) [0..<m]" for n k m :: nat
    by (induction m) (simp_all add: add.assoc)
  show ?thesis
    by (simp add: updateFds_def Let_def daemonUpdateFds_spec daemonUpdateFd_def listener_fds_def split)
qed

text \<open>The other fields of the command stay.\<close>

lemma updateFds_keeps:
  "snd (updateFds config cmd) = cmd\<lparr>cm_ExtraFiles := cm_ExtraFiles cmd @ listener_fds config\<rparr>"
  by (simp add: updateFds_def Let_def daemonUpdateFds_spec daemonUpdateFd_def listener_fds_def)

text \<open>The child finds its sockets: in the configuration handed to it, every listener has the descriptor
  under which the child inherits the parent's socket, list by list and in order, and the extra files that
  were there before, the pipe with the configuration first, keep their descriptors.\<close>

theorem updateFds_inherited:
  "map (child_file (snd (updateFds config cmd))) (listener_fds (fst (updateFds config cmd))) = map Some (listener_fds config) \<and>
   length (li_HTTP (c_Listeners (fst (updateFds config cmd)))) = length (li_HTTP (c_Listeners config)) \<and>
   length (li_HTTPS (c_Listeners (fst (updateFds config cmd)))) = length (li_HTTPS (c_Listeners config)) \<and>
   length (li_Proxy (c_Listeners (fst (updateFds config cmd)))) = length (li_Proxy (c_Listeners config)) \<and>
   length (li_HTTPSProxyv2 (c_Listeners (fst (updateFds config cmd)))) = length (li_HTTPSProxyv2 (c_Listeners config)) \<and>
   (c_ListenMetrics (fst (updateFds config cmd)) = 0) = (c_ListenMetrics config = 0) \<and>
   map (child_file (snd (updateFds config cmd))) (map (\<lambda>i. 3 + i) [0..<length (cm_ExtraFiles cmd)]) = map Some (cm_ExtraFiles cmd)"
proof -
  have f: "cm_ExtraFiles (snd (updateFds config cmd)) = cm_ExtraFiles cmd @ listener_fds config @ []" by (simp add: updateFds_files)
  have "map (child_file (snd (updateFds config cmd))) (listener_fds (fst (updateFds config cmd))) = map Some (listener_fds config)"
    unfolding updateFds_listeners by (rule child_file_range [OF f])
  moreover have "map (child_file (snd (updateFds config cmd))) (map (\<lambda>i. 3 + i) [0..<length (cm_ExtraFiles cmd)]) = map Some (cm_ExtraFiles cmd)"
    using child_file_range [where a = "[]" and fds = "cm_ExtraFiles cmd" and b = "listener_fds config"] f by simp
  ultimately show ?thesis
    by (simp add: updateFds_def Let_def daemonUpdateFds_spec daemonUpdateFd_def)
qed

section \<open>Inside the jail\<close>

definition no_dotdot :: "string \<Rightarrow> bool" where
  "no_dotdot p \<longleftrightarrow> ''..'' \<notin> set (split_on slash p)"

lemma foldl_clean_push: "''..'' \<notin> set xs \<Longrightarrow> \<exists>ys. foldl (clean_step b) acc xs = ys @ acc"
proof (induction xs arbitrary: acc)
  case (Cons x xs)
  have "clean_step b acc x = (if x = [] \<or> x = ''.'' then [] else [x]) @ acc" using Cons.prems by (auto simp: clean_step_def)
  then obtain zs where z: "clean_step b acc x = zs @ acc" by blast
  from Cons obtain ys where "foldl (clean_step b) (zs @ acc) xs = ys @ zs @ acc" by (metis list.set_intros(2))
  then show ?case using z by (metis append.assoc foldl_Cons)
qed simp

lemma ExternalPath_below:
  assumes "clean_root (jl_root j)" "no_dotdot p"
  shows "prefix (path_elems (jl_root j)) (path_elems (ExternalPath j p))"
proof -
  obtain rs where rs: "list_all clean_elem rs" "jl_root j = slash # join_with ''/'' rs"
    using clean_root_elems [OF assms(1)] by blast
  let ?es = "rev (foldl (clean_step True) (rev rs) (split_on slash p))"
  have e: "ExternalPath j p = slash # join_with ''/'' ?es" unfolding ExternalPath_def rs(2) by (rule path_Join_elems [OF rs(1)])
  obtain ys where y: "foldl (clean_step True) (rev rs) (split_on slash p) = ys @ rev rs"
    using foldl_clean_push assms(2) unfolding no_dotdot_def by blast
  have "list_all clean_elem (foldl (clean_step True) (rev rs) (split_on slash p))"
    using rs(1) split_slash_no by (intro foldl_clean_rooted) (auto simp: list_all_iff)
  then have "list_all clean_elem ?es" by (simp add: list_all_iff)
  from path_elems_of_elems [OF this] have "path_elems (ExternalPath j p) = ?es" unfolding e .
  then show ?thesis unfolding y rs(2) using path_elems_of_elems [OF rs(1)] by simp
qed

text \<open>A temporary jail whose entries all lie below its root.\<close>

definition jail_within :: "string \<Rightarrow> Jail \<Rightarrow> bool" where
  "jail_within r j \<longleftrightarrow> jl_root j = r \<and> jl_deleteRoot j \<and>
     (\<forall>p \<in> pm_path ` set (jl_directories j) \<union> fst ` set (jl_files j). prefix (path_elems r) (path_elems p))"

lemma jail_within_touches: "jail_within r j \<Longrightarrow> jail_touches j u \<longleftrightarrow> prefix (path_elems r) u"
  by (auto simp: jail_within_def jail_touches_def)

lemma within_MkDir: "clean_root r \<Longrightarrow> jail_within r j \<Longrightarrow> no_dotdot p \<Longrightarrow> jail_within r (MkDir p perm j)"
  using ExternalPath_below [of j p] by (auto simp: jail_within_def MkDir_def dir_entry_def)

lemma within_file:
  assumes "clean_root r" "jail_within r j" "no_dotdot p"
  shows "jail_within r (j\<lparr>jl_files := AList.update (ExternalPath j p) m (jl_files j)\<rparr>)"
proof -
  have "prefix (path_elems r) (path_elems (ExternalPath j p))" using ExternalPath_below [of j p] assms by (simp add: jail_within_def)
  then show ?thesis using assms(2) by (simp add: jail_within_def dom_update ball_Un)
qed

lemma within_CharDev:
  "clean_root r \<Longrightarrow> jail_within r j \<Longrightarrow> no_dotdot p \<Longrightarrow> CharDev F os p j = Inr j' \<Longrightarrow> jail_within r j'"
  by (auto simp: CharDev_def within_file split: option.split_asm jnode.split_asm)

lemma within_CopyTo:
  "clean_root r \<Longrightarrow> jail_within r j \<Longrightarrow> no_dotdot dest \<Longrightarrow> CopyTo F os dest src j = Inr j' \<Longrightarrow> jail_within r j'"
  by (auto simp: CopyTo_def within_file split: option.split_asm jnode.split_asm)

lemma within_Bind: "jail_within r (jail_Bind dest src j) = jail_within r j"
  by (simp add: jail_within_def jail_Bind_def)

lemma foldl_clean_no_dotdot:
  "''..'' \<notin> set xs \<Longrightarrow> ''..'' \<notin> set acc \<Longrightarrow> ''..'' \<notin> set (foldl (clean_step b) acc xs)"
  by (induction xs arbitrary: acc) (auto simp: clean_step_def)

lemma no_dotdot_Clean:
  assumes "no_dotdot p"
  shows "no_dotdot (path_Clean p)"
proof -
  let ?es = "clean_elems (path_IsAbs p) (split_on slash p)"
  have es: "''..'' \<notin> set ?es" using foldl_clean_no_dotdot [of "split_on slash p" "[]"] assms by (simp add: clean_elems_def no_dotdot_def)
  have sub: "set (foldl (clean_step b) acc xs) \<subseteq> set acc \<union> set xs \<union> {''..''}" for b acc xs
  proof (induction xs arbitrary: acc)
    case (Cons x xs)
    have "set (clean_step b acc x) \<subseteq> set acc \<union> {x, ''..''}" by (auto simp: clean_step_def split: list.splits)
    then show ?case using Cons [of "clean_step b acc x"] by auto
  qed auto
  have no: "slash \<notin> set c" if "c \<in> set ?es" for c
    using that sub [of "path_IsAbs p" "[]" "split_on slash p"] split_slash_no [of c p] by (auto simp: clean_elems_def)
  have "set (split_on slash (join_with ''/'' ?es)) \<subseteq> insert [] (set ?es)"
  proof (cases "?es = []")
    case False
    then show ?thesis using split_join_elems [OF no] by auto
  qed simp
  then have "''..'' \<notin> set (split_on slash (join_with ''/'' ?es))" using es by auto
  moreover have "''..'' \<notin> set (split_on slash ''.'')" by code_simp
  ultimately show ?thesis by (auto simp: no_dotdot_def path_Clean_def Let_def)
qed

lemma no_dotdot_Join:
  assumes "no_dotdot a" "no_dotdot b"
  shows "no_dotdot (path_Join [a, b])"
proof -
  have "no_dotdot (a @ slash # b)" using assms by (simp add: no_dotdot_def split_on_append)
  moreover have "no_dotdot []" by code_simp
  ultimately show ?thesis using no_dotdot_Clean assms by (auto simp: path_Join_def)
qed

lemma within_mkdir_parts:
  assumes "clean_root r"
  shows "jail_within r j \<Longrightarrow> no_dotdot parent \<Longrightarrow> (\<forall>p \<in> set parts. no_dotdot p) \<Longrightarrow> jail_within r (mkdir_parts parent perm parts j)"
  by (induction parts arbitrary: parent j) (simp_all add: Let_def within_MkDir [OF assms] no_dotdot_Join)

lemma within_MkDirAll:
  assumes "clean_root r" "jail_within r j" "no_dotdot dir"
  shows "jail_within r (MkDirAll dir perm j)"
proof -
  have "no_dotdot p" if "p \<in> set (tl (split_on slash dir))" for p
  proof -
    have "p \<in> set (split_on slash dir)" using that by (metis list.set_sel(2) split_on_ne)
    then show ?thesis using assms(3) split_on_single [OF split_slash_no] by (auto simp: no_dotdot_def)
  qed
  moreover have "no_dotdot []" by code_simp
  ultimately show ?thesis unfolding MkDirAll_def using within_mkdir_parts [OF assms(1,2)] by blast
qed

lemma clean_root_no_dotdot: "clean_root r \<Longrightarrow> no_dotdot r"
proof -
  assume "clean_root r"
  then obtain rs where "list_all clean_elem rs" "r = slash # join_with ''/'' rs" using clean_root_elems by blast
  then have "split_on slash r = [] # (if rs = [] then [[]] else rs)"
    using split_on_append_sep [of slash "[]" "join_with ''/'' rs"] split_clean_elems by simp
  then show ?thesis using \<open>list_all clean_elem rs\<close> by (auto simp: no_dotdot_def list_all_iff clean_elem_def)
qed

lemma no_dotdot_append: "no_dotdot a \<Longrightarrow> no_dotdot b \<Longrightarrow> no_dotdot (a @ ''/'' @ b)"
  by (simp add: no_dotdot_def split_on_append)

lemma within_copy_certs:
  assumes "clean_root r" "no_dotdot dir"
  shows "jail_within r j \<Longrightarrow> \<forall>(name, mode) \<in> set entries. no_dotdot name \<Longrightarrow> jail_within r (copy_certs F os src dir entries j)"
proof (induction entries arbitrary: j)
  case (Cons e entries)
  obtain name mode where e: "e = (name, mode)" by (cases e)
  have n: "no_dotdot (dir @ ''/'' @ name)" using Cons.prems(2) assms(2) no_dotdot_append unfolding e by simp
  have "jail_within r j'" if "CopyTo F os (dir @ ''/'' @ name) (src @ ''/'' @ name) j = Inr j'" for j'
    by (rule within_CopyTo [OF assms(1) Cons.prems(1) n that])
  then show ?case using Cons unfolding e by (auto split: sum.splits)
qed simp

text \<open>What the operating system promises of the surroundings: absolute directories, and names of directory
  entries that are single proper elements.\<close>

definition proper_env :: "daemon_env \<Rightarrow> bool" where
  "proper_env env \<longleftrightarrow> path_IsAbs (de_TempDir env) \<and> (\<forall>wd. de_Getwd env = Inr wd \<longrightarrow> path_IsAbs wd) \<and>
     (\<forall>dir entries. de_ReadDir env dir = Inr entries \<longrightarrow> (\<forall>(name, mode) \<in> set entries. clean_elem name))"

definition jail_root :: "daemon_env \<Rightarrow> string" where
  "jail_root env = path_Join [de_TempDir env, ''gitlab-pages-'' @ FormatInt (de_now env)]"

lemma clean_elem_no_dotdot: "clean_elem n \<Longrightarrow> no_dotdot n"
  using split_on_single [of slash n] by (auto simp: no_dotdot_def clean_elem_def)

lemma jail_root_clean: "proper_env env \<Longrightarrow> clean_root (jail_root env)"
  using path_Join_clean [of "de_TempDir env"] path_Clean_of_elems
  unfolding proper_env_def jail_root_def clean_root_def by (metis IsAbs_Cons)

lemma env_only: "cm = cmd\<lparr>cm_Env := cm_Env cm\<rparr> \<Longrightarrow> cm\<lparr>cm_Env := e\<rparr> = cmd\<lparr>cm_Env := e\<rparr>"
  by (cases cm; cases cmd) simp

lemma jailDaemonCerts_within:
  assumes p: "proper_env env" "clean_root r" and c: "jail_within r cage" and d: "jailDaemonCerts F env os cmd cage = Inr (cage', cmd')"
  shows "jail_within r cage' \<and> cmd' = cmd\<lparr>cm_Env := cm_Env cmd'\<rparr>"
proof -
  have k: "no_dotdot ''/etc/ssl''" "no_dotdot ''/etc/ssl/certs''" "no_dotdot ''/etc/ssl/ca-bundle.pem''" by code_simp+
  have m: "jail_within r (MkDir ''/etc/ssl'' 493 cage)" by (rule within_MkDir [OF p(2) c k(1)])
  have f: "jail_within r j \<and> cm = cmd\<lparr>cm_Env := cm_Env cm\<rparr>"
    if "copy_cert_file F os file' (MkDir ''/etc/ssl'' 493 cage, cmd) = Inr (j, cm)" for j cm file'
    using that m within_CopyTo [OF p(2) m k(3)] by (auto simp: copy_cert_file_def Let_def split: if_split_asm sum.splits)
  have g: "jail_within r j'"
    if h: "jailCopyCertDir F env os dir ''/etc/ssl/certs'' (MkDir ''/etc/ssl/certs'' 493 j) = Inr j'" "jail_within r j" for j j' dir
  proof -
    obtain es where es: "de_ReadDir env dir = Inr es" "j' = copy_certs F os dir ''/etc/ssl/certs'' es (MkDir ''/etc/ssl/certs'' 493 j)"
      using h(1) by (auto simp: jailCopyCertDir_def split: sum.splits)
    have "\<forall>(name, mode) \<in> set es. no_dotdot name" using p(1) es(1) clean_elem_no_dotdot unfolding proper_env_def by fast
    then show ?thesis unfolding es(2) by (rule within_copy_certs [OF p(2) k(2) within_MkDir [OF p(2) h(2) k(2)]])
  qed
  show ?thesis
  proof (cases "de_Getenv env ''SSL_CERT_FILE'' = [] \<and> de_Getenv env ''SSL_CERT_DIR'' = []")
    case True
    then show ?thesis using d c by (simp add: jailDaemonCerts_def Let_def)
  next
    case False
    then obtain j cm where j: "copy_cert_file F os (de_Getenv env ''SSL_CERT_FILE'') (MkDir ''/etc/ssl'' 493 cage, cmd) = Inr (j, cm)"
      using d by (auto simp: jailDaemonCerts_def Let_def split: sum.splits)
    note jj = f [OF j]
    show ?thesis
    proof (cases "de_Getenv env ''SSL_CERT_DIR'' = []")
      case True
      then show ?thesis using d j jj False by (simp add: jailDaemonCerts_def Let_def)
    next
      case dir: False
      then obtain j' where "jailCopyCertDir F env os (de_Getenv env ''SSL_CERT_DIR'') ''/etc/ssl/certs'' (MkDir ''/etc/ssl/certs'' 493 j) = Inr j'"
        "cage' = j'" "cmd' = cm\<lparr>cm_Env := cm_Env cm @ [''SSL_CERT_DIR=/etc/ssl/certs'']\<rparr>"
        using d j False by (auto simp: jailDaemonCerts_def Let_def split: sum.splits)
      then show ?thesis using g jj env_only [of cm cmd] by simp
    qed
  qed
qed

lemma jailCreate_within:
  assumes p: "proper_env env" and d: "jailCreate F env os cmd = Inr (cage, cmd')"
  shows "jail_within (jail_root env) cage \<and> cmd' = cmd\<lparr>cm_Env := cm_Env cmd'\<rparr>"
proof -
  let ?r = "jail_root env"
  note r = jail_root_clean [OF p]
  have k: "no_dotdot ''/dev''" "no_dotdot ''/dev/urandom''" "no_dotdot ''/dev/random''" "no_dotdot ''/gitlab-pages''"
    "no_dotdot ''/etc''" "no_dotdot ''/etc/resolv.conf''" "no_dotdot ''/etc/hosts''" by code_simp+
  have "jail_within ?r (CreateTimestamped (de_TempDir env) (de_now env) ''gitlab-pages'' 493)"
    by (simp add: CreateTimestamped_def jail_Create_def jail_Into_def jail_within_def jail_root_def dir_entry_def)
  then have w0: "jail_within ?r (MkDir ''/dev'' 493 (CreateTimestamped (de_TempDir env) (de_now env) ''gitlab-pages'' 493))"
    by (rule within_MkDir [OF r _ k(1)])
  obtain j1 j2 j3 j4 j5 where j:
    "CharDev F os ''/dev/urandom'' (MkDir ''/dev'' 493 (CreateTimestamped (de_TempDir env) (de_now env) ''gitlab-pages'' 493)) = Inr j1"
    "CharDev F os ''/dev/random'' j1 = Inr j2" "CopyTo F os ''/gitlab-pages'' (cm_Path cmd) j2 = Inr j3"
    "CopyTo F os ''/etc/resolv.conf'' ''/etc/resolv.conf'' (MkDir ''/etc'' 493 j3) = Inr j4"
    "CopyTo F os ''/etc/hosts'' ''/etc/hosts'' j4 = Inr j5" "jailDaemonCerts F env os cmd j5 = Inr (cage, cmd')"
    using d by (auto simp: jailCreate_def Let_def jail_Copy_def split: sum.split_asm)
  have "jail_within ?r j3"
    using within_CopyTo [OF r _ k(4) j(3)] within_CharDev [OF r _ k(3) j(2)] within_CharDev [OF r w0 k(2) j(1)] by blast
  then have "jail_within ?r j5"
    using within_CopyTo [OF r _ k(7) j(5)] within_CopyTo [OF r _ k(6) j(4)] within_MkDir [OF r _ k(5)] by blast
  then show ?thesis using jailDaemonCerts_within [OF p r _ j(6)] by blast
qed

text \<open>Where the jail may write: below its temporary root, or only the copy of the executable.\<close>

definition jail_area :: "daemon_env \<Rightarrow> Config \<Rightarrow> jpath \<Rightarrow> bool" where
  "jail_area env config u \<longleftrightarrow>
     (if dn_InplaceChroot (c_Daemon config)
      then (case (de_Getwd env, de_random env) of
              (Inr wd, Inr suffix') \<Rightarrow> u = path_elems (path_Join [wd, ''/.daemon.'' @ hex_lower suffix']) | _ \<Rightarrow> False)
      else prefix (path_elems (jail_root env)) u)"

lemma jailDaemon_spec:
  assumes "proper_env env" "clean_root pagesRoot" "jailDaemon F env os pagesRoot cmd = Inr (j, cmd')"
  shows "(\<forall>u. jail_touches j u \<longrightarrow> prefix (path_elems (jail_root env)) u) \<and> jl_root j = jail_root env \<and>
    cmd' = cmd\<lparr>cm_Env := cm_Env cmd', cm_Chroot := jail_root env, cm_Path := ''/gitlab-pages'', cm_Dir := pagesRoot\<rparr>"
proof -
  obtain cage cm where c: "jailCreate F env os cmd = Inr (cage, cm)"
    "j = jail_Bind pagesRoot pagesRoot (MkDirAll pagesRoot 493 cage)"
    "cmd' = cm\<lparr>cm_Chroot := jl_root j, cm_Path := ''/gitlab-pages'', cm_Dir := pagesRoot\<rparr>"
    using assms(3) by (auto simp: jailDaemon_def Let_def split: sum.splits)
  note w = jailCreate_within [OF assms(1) c(1)]
  have j: "jail_within (jail_root env) j"
    unfolding c(2) within_Bind
    using within_MkDirAll [OF jail_root_clean [OF assms(1)] _ clean_root_no_dotdot [OF assms(2)]] w by blast
  have cm: "cm = cmd\<lparr>cm_Env := cm_Env cm\<rparr>" using w by blast
  have "cm_Env cmd' = cm_Env cm" unfolding c(3) by simp
  then have "cmd' = cmd\<lparr>cm_Env := cm_Env cmd', cm_Chroot := jl_root j, cm_Path := ''/gitlab-pages'', cm_Dir := pagesRoot\<rparr>"
    unfolding c(3) by (subst cm) simp
  then show ?thesis using j jail_within_touches [OF j] by (simp add: jail_within_def)
qed

lemma chrootDaemon_spec:
  assumes "chrootDaemon F env os cmd = Inr (j, cmd')"
  shows "\<exists>wd suffix'. de_Getwd env = Inr wd \<and> de_random env = Inr suffix' \<and> jl_root j = wd \<and>
    (\<forall>u. jail_touches j u \<longrightarrow> u = path_elems (path_Join [wd, ''/.daemon.'' @ hex_lower suffix'])) \<and>
    cmd' = cmd\<lparr>cm_Chroot := wd, cm_Path := ''/.daemon.'' @ hex_lower suffix', cm_Dir := ''/''\<rparr>"
  using assms
  by (auto simp: chrootDaemon_def CopyTo_def jail_Into_def jail_touches_def ExternalPath_def Let_def
      split: sum.split_asm option.split_asm jnode.split_asm)

lemma wrap_command_spec:
  assumes "proper_env env" "clean_root pagesRoot" "wrap_command F env config os pagesRoot cmd = Inr (j, cmd')"
  shows "(\<forall>u. jail_touches j u \<longrightarrow> jail_area env config u) \<and> cm_Chroot cmd' = jl_root j \<and>
    (if dn_InplaceChroot (c_Daemon config) then de_Getwd env = Inr (jl_root j) else jl_root j = jail_root env) \<and>
    cm_Uid cmd' = cm_Uid cmd \<and> cm_Gid cmd' = cm_Gid cmd \<and> cm_Args cmd' = cm_Args cmd \<and> cm_ExtraFiles cmd' = cm_ExtraFiles cmd"
proof (cases "dn_InplaceChroot (c_Daemon config)")
  case True
  then have "chrootDaemon F env os cmd = Inr (j, cmd')" using assms(3) by (simp add: wrap_command_def)
  from chrootDaemon_spec [OF this] show ?thesis using True by (auto simp: jail_area_def)
next
  case False
  then have "jailDaemon F env os pagesRoot cmd = Inr (j, cmd')" using assms(3) by (simp add: wrap_command_def)
  from jailDaemon_spec [OF assms(1,2) this] have t: "\<forall>u. jail_touches j u \<longrightarrow> prefix (path_elems (jail_root env)) u"
    "jl_root j = jail_root env"
    and c: "cmd' = cmd\<lparr>cm_Env := cm_Env cmd', cm_Chroot := jail_root env, cm_Path := ''/gitlab-pages'', cm_Dir := pagesRoot\<rparr>"
    by blast+
  show ?thesis using t False by (subst (1 2 3 4 5) c) (simp add: jail_area_def)
qed

section \<open>Properties\<close>

text \<open>C13. Whatever fails on the way, and however the child ends, running as an unprivileged user leaves the files
  of the host as they were: only the temporary jail, or with the in-place chroot the copy of the
  executable, is written and removed again, although the pages are mounted in the jail while it runs.\<close>

theorem daemonize_protects_host:
  assumes "proper_env env" and "jo_mounts os = []" and "\<And>d. of_unmount F' d \<noteq> Some EINVAL"
    and "daemonize P F F' env config os = (err, started, os')" and "\<not> jail_area env config u"
  shows "jo_nodes os' u = jo_nodes os u"
proof (cases "os' = os")
  case False
  then obtain root cmd j cmd' where c: "Abs_cwd (de_Getwd env) (gc_RootDir (c_General config)) = Inr root"
    "wrap_command F env config os root cmd = Inr (j, cmd')"
    "os' = snd (jail_Dispose P F' j (snd (jail_Build P F j os)))"
    using assms(4) by (auto simp: daemonize_def split: sum.split_asm prod.split_asm option.split_asm)
  have "clean_root root" using Abs_cwd_clean [OF _ c(1)] assms(1) by (simp add: proper_env_def)
  then have "\<not> jail_touches j u" using wrap_command_spec [OF assms(1) _ c(2)] assms(5) by blast
  moreover obtain e1 os1 where b: "jail_Build P F j os = (e1, os1)" by fastforce
  moreover obtain e2 os2 where "jail_Dispose P F' j os1 = (e2, os2)" by fastforce
  ultimately show ?thesis using jail_protects_host_nodes [OF assms(2,3) b] c(3) by simp
qed simp

text \<open>What the child is started with.\<close>

lemma daemonize_started:
  assumes "proper_env env" and "daemonize P F F' env config os = (err, Some (cmd, handed), os')"
  shows "\<exists>j os1. jail_Build P F j os = (None, os1) \<and> cm_Chroot cmd = jl_root j"
    "if dn_InplaceChroot (c_Daemon config) then de_Getwd env = Inr (cm_Chroot cmd) else cm_Chroot cmd = jail_root env"
    "cm_Args cmd = [daemonRunProgram]" "cm_Uid cmd = word_of_nat (dn_UID (c_Daemon config))" "cm_Gid cmd = word_of_nat (dn_GID (c_Daemon config))"
    "\<exists>pipe. de_Pipe env = Inr pipe \<and> child_file cmd 3 = Some pipe"
    "map (child_file cmd) (listener_fds handed) = map Some (listener_fds config)"
proof -
  obtain root cmd0 j cmd1 os1 where c: "Abs_cwd (de_Getwd env) (gc_RootDir (c_General config)) = Inr root"
    "daemonReexec env (dn_UID (c_Daemon config)) (dn_GID (c_Daemon config)) [daemonRunProgram] = Inr cmd0"
    "wrap_command F env config os root cmd0 = Inr (j, cmd1)" "jail_Build P F j os = (None, os1)"
    "run_child env config cmd1 = (err, Some (cmd, handed))"
    using assms(2) by (auto simp: daemonize_def split: sum.split_asm prod.split_asm option.split_asm)
  have "clean_root root" using Abs_cwd_clean [OF _ c(1)] assms(1) by (simp add: proper_env_def)
  note w = wrap_command_spec [OF assms(1) this c(3)]
  have c0: "cm_Uid cmd0 = word_of_nat (dn_UID (c_Daemon config))" "cm_Gid cmd0 = word_of_nat (dn_GID (c_Daemon config))"
    "cm_Args cmd0 = [daemonRunProgram]" "cm_ExtraFiles cmd0 = []"
    using c(2) by (auto simp: daemonReexec_def split: sum.split_asm)
  obtain pipe where pipe: "de_Pipe env = Inr pipe" "updateFds config (cmd1\<lparr>cm_ExtraFiles := [pipe]\<rparr>) = (handed, cmd)"
    using c(5) w c0(4) by (auto simp: run_child_def split: sum.split_asm prod.split_asm option.split_asm)
  have cmd: "cmd = cmd1\<lparr>cm_ExtraFiles := pipe # listener_fds config\<rparr>"
    using updateFds_keeps [of config "cmd1\<lparr>cm_ExtraFiles := [pipe]\<rparr>"] pipe(2) by simp
  show "map (child_file cmd) (listener_fds handed) = map Some (listener_fds config)"
    using updateFds_listeners [of config "cmd1\<lparr>cm_ExtraFiles := [pipe]\<rparr>"] pipe(2)
      child_file_range [of cmd "[pipe]" "listener_fds config" "[]"] cmd by simp
  show "\<exists>pipe. de_Pipe env = Inr pipe \<and> child_file cmd 3 = Some pipe" using pipe(1) by (simp add: cmd child_file_def)
  show "\<exists>j os1. jail_Build P F j os = (None, os1) \<and> cm_Chroot cmd = jl_root j" "cm_Args cmd = [daemonRunProgram]"
    "if dn_InplaceChroot (c_Daemon config) then de_Getwd env = Inr (cm_Chroot cmd) else cm_Chroot cmd = jail_root env"
    "cm_Uid cmd = word_of_nat (dn_UID (c_Daemon config))" "cm_Gid cmd = word_of_nat (dn_GID (c_Daemon config))"
    using w c0 c(4) by (auto simp: cmd)
qed


text \<open>The user and group of the child are the configured ones modulo \<^verbatim>\<open>2^32\<close>: a number that does not fit is
  truncated silently, and a multiple of \<^verbatim>\<open>2^32\<close> keeps the privileges of root.\<close>

theorem daemonReexec_credentials:
  assumes "daemonReexec env uid gid args = Inr cmd"
  shows "unat (cm_Uid cmd) = uid mod 2 ^ 32 \<and> unat (cm_Gid cmd) = gid mod 2 ^ 32"
  using assms by (auto simp: daemonReexec_def unat_of_nat split: sum.splits)

text \<open>With a relative pages root, such as the default, the daemon looks for the pages in the wrong place: the
  program has changed into the pages root before the daemon makes the path absolute, so the path is
  applied twice.\<close>

lemma relative_root_doubled:
  assumes "appMain args load logging chdir createSocket os (slash # join_with ''/'' ws) = AppDaemonize config wd"
    and "list_all clean_elem ws" and "gc_RootDir (c_General config) = join_with ''/'' ps" and "list_all clean_elem ps" "ps \<noteq> []"
  shows "wd = slash # join_with ''/'' (ws @ ps) \<and>
    Abs_cwd (Inr wd) (gc_RootDir (c_General config)) = Inr (slash # join_with ''/'' (ws @ ps @ ps))"
proof -
  let ?r = "join_with ''/'' ps"
  have "wd = filepath_Abs (slash # join_with ''/'' ws) ?r"
    using assms(1,3)
    by (auto simp: appMain_def Let_def createAppListeners_def createMetricsListener_def
        split: option.split_asm sum.split_asm prod.split_asm if_split_asm)
  then have wd: "wd = slash # join_with ''/'' (ws @ ps)"
    using not_IsAbs_elems [OF assms(4)] path_Join_proper [OF assms(2,4)] by (simp add: filepath_Abs_def)
  have "list_all clean_elem (ws @ ps)" using assms(2,4) by simp
  from path_Join_proper [OF this assms(4)] show ?thesis
    using wd not_IsAbs_elems [OF assms(4)] assms(3) by (simp add: Abs_cwd_def)
qed

section \<open>The child is reaped\<close>

lemma run_child_events_started: "ChildStarted \<in> set (run_child_events env config cmd) \<longleftrightarrow> snd (run_child env config cmd) \<noteq> None"
  by (auto simp: run_child_events_def run_child_def killProcess_def split: sum.splits option.splits prod.splits)

text \<open>A child is started at most once, exactly when \<^const>\<open>daemonize\<close> reports one; when the daemon returns it has been
  killed and waited for after its start, the jail has been disposed of, and the descriptors handed to it
  are closed.\<close>

theorem daemonize_reaps:
  assumes "daemonize P F F' env config os = (err, started, os')" and "daemonize_events P F env config os = evs"
  shows "(started \<noteq> None \<longleftrightarrow> ChildStarted \<in> set evs) \<and>
    (\<forall>cmd handed. started = Some (cmd, handed) \<longrightarrow>
      (\<exists>mid. evs = ChildStarted # mid @ [ChildSignalled, ChildWaited] @ map FileClosed (cm_ExtraFiles cmd) \<and>
        ChildStarted \<notin> set mid \<and> JailDisposed \<in> set mid \<and> ConfigWriterClosed \<in> set mid))"
proof -
  show ?thesis
  proof (cases started)
    case None
    then have "ChildStarted \<notin> set evs" using assms run_child_events_started
      by (auto simp: daemonize_def daemonize_events_def killProcess_def split: sum.splits prod.splits option.splits)
    then show ?thesis using None by simp
  next
    case (Some s)
    obtain cmd handed where s: "s = (cmd, handed)" by (cases s)
    obtain cmd1 where "run_child env config cmd1 = (err, Some (cmd, handed))" "evs = run_child_events env config cmd1"
      using assms Some s
      by (auto simp: daemonize_def daemonize_events_def split: sum.split_asm prod.split_asm option.split_asm)
    then have "\<exists>mid. evs = ChildStarted # mid @ [ChildSignalled, ChildWaited] @ map FileClosed (cm_ExtraFiles cmd) \<and>
        ChildStarted \<notin> set mid \<and> JailDisposed \<in> set mid \<and> ConfigWriterClosed \<in> set mid"
      by (auto simp: run_child_def run_child_events_def killProcess_def split: sum.split_asm prod.split_asm option.split_asm)
    then show ?thesis using Some s by auto
  qed
qed

text \<open>When the configuration cannot be written to the child that was started, the jail is taken away while the child
  still runs in it: the deferred disposal comes before the deferred kill.\<close>

lemma jail_disposed_under_child:
  assumes "run_child env config cmd = (err, Some (cmd', handed))" and "de_Encode env = Some err'"
  shows "run_child_events env config cmd =
    [ChildStarted, ConfigWriterClosed, JailDisposed, ChildSignalled, ChildWaited] @ map FileClosed (cm_ExtraFiles cmd')"
  using assms(1) unfolding run_child_def run_child_events_def assms(2)
  by (auto simp: killProcess_def split: sum.split_asm prod.split_asm option.split_asm)

text \<open>Only signals that arrived are passed on, in their order, and only those the daemon asked for; but a termination
  signal that arrives before the goroutine receives is lost, and so is the second of two in a row.\<close>

fun arrivals :: "signal_event list \<Rightarrow> signal list" where
  "arrivals [] = []"
| "arrivals (SignalArrives s # evs) = s # arrivals evs"
| "arrivals (GoroutineReceives # evs) = arrivals evs"

lemma passSignals_arrived: "subseq (passSignals started evs) (arrivals evs)" "set (passSignals started evs) \<subseteq> {SIGTERM, Interrupt}"
proof -
  have "subseq (forward_signals b evs) (arrivals evs) \<and> set (forward_signals b evs) \<subseteq> {SIGTERM, Interrupt}" for b
    by (induction b evs rule: forward_signals.induct) auto
  then show "subseq (passSignals started evs) (arrivals evs)" "set (passSignals started evs) \<subseteq> {SIGTERM, Interrupt}"
    by (cases started; simp add: passSignals_def)+
qed

lemma passSignals_lost:
  "passSignals True (SignalArrives SIGTERM # evs) = passSignals True evs"
  "passSignals True [GoroutineReceives, SignalArrives Interrupt, SignalArrives SIGTERM, GoroutineReceives] = [Interrupt]"
  by (simp_all add: passSignals_def)

section \<open>A run\<close>

definition demo_surroundings :: daemon_env where
  "demo_surroundings =
     \<lparr>de_Executable = Inr ''/bin/pages'', de_Environ = [], de_Getwd = Inr ''/srv'', de_random = Inr ''ab'', de_Getenv = (\<lambda>_. []),
      de_ReadDir = (\<lambda>_. Inr []), de_TempDir = ''/tmp'', de_now = 7, de_Pipe = Inr 9, de_Start = (\<lambda>_. None), de_Encode = None,
      de_Wait = None\<rparr>"

definition demo_machine :: jail_os where
  "demo_machine =
     \<lparr>jo_nodes = [[''tmp''] \<mapsto> JDir, [''srv''] \<mapsto> JDir, [''srv'', ''index.html''] \<mapsto> JFile ''hi'', [''bin'', ''pages''] \<mapsto> JFile ''elf'',
        [''dev'', ''urandom''] \<mapsto> JDev 265, [''dev'', ''random''] \<mapsto> JDev 264, [''etc'', ''hosts''] \<mapsto> JFile [], [''etc'', ''resolv.conf''] \<mapsto> JFile []],
      jo_paths = [], jo_perm = (\<lambda>_. 493), jo_mounts = []\<rparr>"

definition demo_daemon_config :: Config where
  "demo_daemon_config = config_of_flags (demo_flags\<lparr>fl_pagesRoot := ''/srv'', fl_daemonUID := 1000, fl_daemonGID := 1000\<rparr>)
     \<lparr>c_Listeners := \<lparr>li_HTTP = [5], li_HTTPS = [6, 7], li_Proxy = [], li_HTTPSProxyv2 = []\<rparr>\<rparr>"

definition demo_daemon_run :: "go_error option \<times> (Cmd \<times> Config) option \<times> jail_os" where
  "demo_daemon_run = daemonize Linux no_faults no_faults demo_surroundings demo_daemon_config demo_machine"

lemma demo_surroundings_proper: "proper_env demo_surroundings"
  by (simp add: proper_env_def demo_surroundings_def)

theorem daemonize_protects_host_witness:
  "fst demo_daemon_run = None \<and> jo_nodes (snd (snd demo_daemon_run)) [''srv'', ''index.html''] = Some (JFile ''hi'')"
proof -
  have r: "daemonize Linux no_faults no_faults demo_surroundings demo_daemon_config demo_machine =
      (fst demo_daemon_run, fst (snd demo_daemon_run), snd (snd demo_daemon_run))"
    by (simp add: demo_daemon_run_def)
  have m: "jo_mounts demo_machine = []" "\<And>d. of_unmount no_faults d \<noteq> Some EINVAL" by (simp_all add: demo_machine_def no_faults_def)
  have "\<not> jail_area demo_surroundings demo_daemon_config [''srv'', ''index.html'']" by code_simp
  from daemonize_protects_host [OF demo_surroundings_proper m r this]
  have "jo_nodes (snd (snd demo_daemon_run)) [''srv'', ''index.html''] = Some (JFile ''hi'')" by (simp add: demo_machine_def)
  moreover have "fst demo_daemon_run = None" by code_simp
  ultimately show ?thesis by blast
qed


theorem daemonReexec_credentials_witness:
  "\<exists>cmd. daemonReexec demo_surroundings (2 ^ 32) 1000 [] = Inr cmd \<and> unat (cm_Uid cmd) = 0"
proof -
  obtain cmd where c: "daemonReexec demo_surroundings (2 ^ 32) 1000 [] = Inr cmd" by (simp add: daemonReexec_def demo_surroundings_def)
  from daemonReexec_credentials [OF c] c show ?thesis by auto
qed

end
