(* ===== verification/Mount_Namespace.thy ===== *)
theory Mount_Namespace
  imports Daemonize
begin

text \<open>
  Keeping the mounts of the jail to the daemon (\<^verbatim>\<open>Unshare\<close> in \<^verbatim>\<open>internal/jail\<close>): before the jail is built, the program
  moves into a mount namespace of its own and makes all its mounts private, so that the pages mounted in the jail do
  not show up in the namespace it was started from and do not stay there when it dies.  The error of \<^verbatim>\<open>Unshare\<close> is ignored
  by \<^verbatim>\<open>daemonize\<close>.

  What Linux does (mount_namespaces(7)): a new namespace starts as a copy of the old one; a mount made in one of them appears in the
  other as long as the mounts are shared, which they are on most systems, until they are made private.
\<close>

section \<open>Namespaces\<close>

record mount_ns =
  mn_host :: "(jpath \<times> jpath) list"
  mn_unshared :: bool
  mn_shared :: bool

definition mounts_propagate :: "mount_ns \<Rightarrow> bool" where
  "mounts_propagate ns \<longleftrightarrow> \<not> mn_unshared ns \<or> mn_shared ns"

text \<open>The mounts the namespace of the start sees after the daemon's own mounts have changed.\<close>

definition ns_follow :: "jail_os \<Rightarrow> mount_ns \<Rightarrow> mount_ns" where
  "ns_follow os ns = (if mounts_propagate ns then ns\<lparr>mn_host := jo_mounts os\<rparr> else ns)"

definition Unshare_linux :: "os_faults \<Rightarrow> mount_ns \<Rightarrow> go_error option \<times> mount_ns" where
  "Unshare_linux F ns =
     (case of_unshare F of
        Some err \<Rightarrow> (Some err, ns)
      | None \<Rightarrow>
          (let ns = ns\<lparr>mn_unshared := True\<rparr>
           in case of_private F of
                Some err \<Rightarrow> (Some err, ns)
              | None \<Rightarrow> (None, ns\<lparr>mn_shared := False\<rparr>)))"

definition Unshare_other :: "string \<Rightarrow> mount_ns \<Rightarrow> go_error option \<times> mount_ns" where
  "Unshare_other goos ns = (Some (ErrMsg (''unshare not supported on '' @ goos)), ns)"

definition jail_Unshare :: "platform \<Rightarrow> os_faults \<Rightarrow> mount_ns \<Rightarrow> go_error option \<times> mount_ns" where
  "jail_Unshare P F ns = (case P of Linux \<Rightarrow> Unshare_linux F ns | OtherOS goos \<Rightarrow> Unshare_other goos ns)"

section \<open>The daemon\<close>

text \<open>The mounts that the namespace of the start sees as \<^verbatim>\<open>daemonize\<close> goes on: after \<^verbatim>\<open>Unshare\<close>, after \<^verbatim>\<open>Build\<close> (and as long as the child
  runs), and after \<^verbatim>\<open>Dispose\<close>.  When the daemon dies on the way, the last of them stays.\<close>

definition wrapper_views ::
  "platform \<Rightarrow> os_faults \<Rightarrow> os_faults \<Rightarrow> Jail \<Rightarrow> jail_os \<Rightarrow> mount_ns \<Rightarrow> (jpath \<times> jpath) list list" where
  "wrapper_views P F F' wrapper os ns =
     (let ns0 = snd (jail_Unshare P F ns);
          os1 = snd (jail_Build P F wrapper os); ns1 = ns_follow os1 ns0;
          os2 = snd (jail_Dispose P F' wrapper os1); ns2 = ns_follow os2 ns1
      in [mn_host ns0, mn_host ns1, mn_host ns2])"

definition daemonize_views ::
  "platform \<Rightarrow> os_faults \<Rightarrow> os_faults \<Rightarrow> daemon_env \<Rightarrow> Config \<Rightarrow> jail_os \<Rightarrow> mount_ns \<Rightarrow> (jpath \<times> jpath) list list" where
  "daemonize_views P F F' env config os ns =
     (case Abs_cwd (de_Getwd env) (gc_RootDir (c_General config)) of
        Inl err \<Rightarrow> []
      | Inr pagesRoot \<Rightarrow>
          (case daemonReexec env (dn_UID (c_Daemon config)) (dn_GID (c_Daemon config)) [daemonRunProgram] of
             Inl err \<Rightarrow> []
           | Inr cmd \<Rightarrow>
               (case wrap_command F env config os pagesRoot cmd of
                  Inl err \<Rightarrow> []
                | Inr (wrapper, cmd) \<Rightarrow> wrapper_views P F F' wrapper os ns)))"

section \<open>Properties\<close>

lemma jail_Unshare_private: "jail_Unshare P F ns = (None, ns') \<Longrightarrow> \<not> mounts_propagate ns' \<and> mn_host ns' = mn_host ns"
  by (auto simp: jail_Unshare_def Unshare_linux_def Unshare_other_def mounts_propagate_def Let_def split: platform.splits option.splits)

lemma jail_Unshare_host: "mn_host (snd (jail_Unshare P F ns)) = mn_host ns"
  by (auto simp: jail_Unshare_def Unshare_linux_def Unshare_other_def Let_def split: platform.splits option.splits)

lemma ns_follow_propagate: "mounts_propagate (ns_follow os ns) = mounts_propagate ns"
  by (simp add: ns_follow_def mounts_propagate_def)

text \<open>When \<^verbatim>\<open>Unshare\<close> succeeds, the namespace the daemon was started from never sees a mount of the jail, whatever fails
  afterwards and whenever the daemon dies: its mounts stay what they were.\<close>

theorem daemonize_unshared:
  assumes "fst (jail_Unshare P F ns) = None" and "view \<in> set (daemonize_views P F F' env config os ns)"
  shows "view = mn_host ns"
proof -
  obtain ns0 where n: "jail_Unshare P F ns = (None, ns0)" using assms(1) by (metis prod.collapse)
  note p = jail_Unshare_private [OF n]
  have "ns_follow x ns0 = ns0" for x using p by (simp add: ns_follow_def)
  then have "set (wrapper_views P F F' j os ns) \<subseteq> {mn_host ns}" for j
    using p by (simp add: wrapper_views_def Let_def n)
  then show ?thesis using assms(2) by (auto simp: daemonize_views_def split: sum.splits prod.splits)
qed

text \<open>When it fails, the mounts of the jail show up there as long as the daemon runs, and are gone with the jail when it
  is disposed of without an error.\<close>

lemma wrapper_views_shared:
  assumes "mounts_propagate (snd (jail_Unshare P F ns))" and "jo_mounts os = []" and "mn_host ns = []"
    and "\<And>d. of_unmount F' d \<noteq> Some EINVAL" and "jail_Build P F j os = (err, os1)" and "jail_Dispose P F' j os1 = (None, os2)"
  shows "wrapper_views P F F' j os ns = [[], jo_mounts os1, []]"
proof -
  have b: "jo_mounts os2 = []"
    using jail_Build_mounts [OF assms(2,5)] jail_Dispose_cases [OF assms(4,6)] by metis
  then show ?thesis using assms(1,3) ns_follow_propagate [of os1 "snd (jail_Unshare P F ns)"]
    unfolding wrapper_views_def Let_def assms(5) snd_conv assms(6) by (simp add: ns_follow_def jail_Unshare_host mounts_propagate_def)
qed

text \<open>On other systems the daemon cannot run in a temporary jail: building it always fails, and what was made is removed.\<close>

theorem other_systems_refuse:
  assumes "\<not> dn_InplaceChroot (c_Daemon config)"
    and "daemonize (OtherOS goos) F F' env config os = (err, started, os')"
  shows "err \<noteq> None \<and> started = None"
proof -
  have "fst (jail_Build (OtherOS goos) F j os) \<noteq> None" if j: "jailDaemon F env os root cmd = Inr (j, cmd')" for root cmd j cmd'
  proof -
    have "jl_bindMounts j \<noteq> []" using j by (auto simp: jailDaemon_def jail_Bind_def Let_def update_conv' split: sum.splits)
    then have "notSupported goos j \<noteq> None" by (simp add: notSupported_def)
    then show ?thesis
      by (auto simp: jail_Build_def jail_mount_def split: prod.splits option.splits)
  qed
  then show ?thesis using assms
    by (fastforce simp: daemonize_def wrap_command_def split: sum.split_asm prod.split_asm option.split_asm)
qed

end
