(* ===== verification/Command_Line.thy ===== *)
theory Command_Line
  imports Config Http_Range "HOL-Library.Multiset" "HOL-Library.Char_ord" "HOL-Library.List_Lexorder"
begin

text \<open>
  The flags of the program (\<^verbatim>\<open>internal/config/flags.go\<close>): their names, types and defaults, what setting one of them does, and
  \<^verbatim>\<open>LoadConfig\<close>, which parses them and loads the configuration.

  Which flags are set to what, from the command line, the environment and the configuration file, is the business of the
  package \<^verbatim>\<open>namsral/flag\<close>: a list of settings, in the order it applies them, is an argument.  The values are parsed
  as that package does, with \<^verbatim>\<open>strconv\<close>; \<^verbatim>\<open>time.ParseDuration\<close> is an argument as well.
\<close>

section \<open>Defaults\<close>

abbreviation seconds :: "int \<Rightarrow> int" where "seconds n \<equiv> n * 1000000000"
abbreviation minutes :: "int \<Rightarrow> int" where "minutes n \<equiv> seconds (n * 60)"

definition default_flags :: flags where
  "default_flags =
     \<lparr>fl_pagesRootCert = [], fl_pagesRootKey = [], fl_redirectHTTP = False, fl_useHTTP2 = True, fl_pagesRoot = ''shared/pages'',
      fl_pagesDomain = ''gitlab-example.com'', fl_artifactsServer = [], fl_artifactsServerTimeout = 10, fl_pagesStatus = [],
      fl_metricsAddress = [], fl_sentryDSN = [], fl_sentryEnvironment = [], fl_daemonUID = 0, fl_daemonGID = 0,
      fl_daemonInplaceChroot = False, fl_propagateCorrelationID = False, fl_logFormat = ''text'', fl_logVerbose = False,
      fl_secret = [], fl_gitLabAuthServer = [], fl_gitLabServer = [], fl_internalGitLabServer = [], fl_gitLabAPISecretKey = [],
      fl_gitlabClientHTTPTimeout = seconds 10, fl_gitlabClientJWTExpiry = seconds 30,
      fl_gitlabCache =
        \<lparr>cc_CacheExpiry = minutes 10, cc_CacheCleanupInterval = minutes 1, cc_EntryRefreshTimeout = minutes 1,
         cc_RetrievalTimeout = seconds 30, cc_MaxRetrievalInterval = seconds 1, cc_MaxRetrievalRetries = 3\<rparr>,
      fl_domainConfigSource = ''auto'', fl_useLegacyStorage = False, fl_clientID = [], fl_clientSecret = [], fl_redirectURI = [],
      fl_authScope = ''api'', fl_maxConns = 0, fl_insecureCiphers = False, fl_tlsMinVersion = ''tls1.2'', fl_tlsMaxVersion = [],
      fl_zipCacheExpiration = seconds 60, fl_zipCacheCleanup = seconds 30, fl_zipCacheRefresh = seconds 30,
      fl_zipOpenTimeout = seconds 30, fl_disableCrossOriginRequests = False, fl_showVersion = False,
      fl_listenHTTP = \<lparr>ms_value = [], ms_separator = '',''\<rparr>, fl_listenHTTPS = \<lparr>ms_value = [], ms_separator = '',''\<rparr>,
      fl_listenProxy = \<lparr>ms_value = [], ms_separator = '',''\<rparr>, fl_listenHTTPSProxyv2 = \<lparr>ms_value = [], ms_separator = '',''\<rparr>,
      fl_header = \<lparr>ms_value = [], ms_separator = '';;''\<rparr>\<rparr>"

section \<open>Setting a flag\<close>

text \<open>What is stored for a flag of each type.\<close>

datatype flag_setter =
    StringFlag "string \<Rightarrow> flags \<Rightarrow> flags"
  | BoolFlag "bool \<Rightarrow> flags \<Rightarrow> flags"
  | IntFlag "int \<Rightarrow> flags \<Rightarrow> flags"
  | UintFlag "nat \<Rightarrow> flags \<Rightarrow> flags"
  | DurationFlag "duration \<Rightarrow> flags \<Rightarrow> flags"
  | MultiFlag "flags \<Rightarrow> MultiStringFlag" "MultiStringFlag \<Rightarrow> flags \<Rightarrow> flags"

abbreviation unused_flag :: "string \<Rightarrow> string \<times> flag_setter" where
  "unused_flag name \<equiv> (name, StringFlag (\<lambda>_ f. f))"

text \<open>The flags of the variable block, in its order.\<close>

definition variable_flags :: "(string \<times> flag_setter) list" where
  "variable_flags =
     [(''root-cert'', StringFlag (\<lambda>v f. f\<lparr>fl_pagesRootCert := v\<rparr>)),
      (''root-key'', StringFlag (\<lambda>v f. f\<lparr>fl_pagesRootKey := v\<rparr>)),
      (''redirect-http'', BoolFlag (\<lambda>v f. f\<lparr>fl_redirectHTTP := v\<rparr>)),
      (''use-http2'', BoolFlag (\<lambda>v f. f\<lparr>fl_useHTTP2 := v\<rparr>)),
      (''pages-root'', StringFlag (\<lambda>v f. f\<lparr>fl_pagesRoot := v\<rparr>)),
      (''pages-domain'', StringFlag (\<lambda>v f. f\<lparr>fl_pagesDomain := v\<rparr>)),
      (''artifacts-server'', StringFlag (\<lambda>v f. f\<lparr>fl_artifactsServer := v\<rparr>)),
      (''artifacts-server-timeout'', IntFlag (\<lambda>v f. f\<lparr>fl_artifactsServerTimeout := v\<rparr>)),
      (''pages-status'', StringFlag (\<lambda>v f. f\<lparr>fl_pagesStatus := v\<rparr>)),
      (''metrics-address'', StringFlag (\<lambda>v f. f\<lparr>fl_metricsAddress := v\<rparr>)),
      (''sentry-dsn'', StringFlag (\<lambda>v f. f\<lparr>fl_sentryDSN := v\<rparr>)),
      (''sentry-environment'', StringFlag (\<lambda>v f. f\<lparr>fl_sentryEnvironment := v\<rparr>)),
      (''daemon-uid'', UintFlag (\<lambda>v f. f\<lparr>fl_daemonUID := v\<rparr>)),
      (''daemon-gid'', UintFlag (\<lambda>v f. f\<lparr>fl_daemonGID := v\<rparr>)),
      (''daemon-inplace-chroot'', BoolFlag (\<lambda>v f. f\<lparr>fl_daemonInplaceChroot := v\<rparr>)),
      (''propagate-correlation-id'', BoolFlag (\<lambda>v f. f\<lparr>fl_propagateCorrelationID := v\<rparr>)),
      (''log-format'', StringFlag (\<lambda>v f. f\<lparr>fl_logFormat := v\<rparr>)),
      (''log-verbose'', BoolFlag (\<lambda>v f. f\<lparr>fl_logVerbose := v\<rparr>)),
      unused_flag ''admin-secret-path'', unused_flag ''admin-unix-listener'', unused_flag ''admin-https-listener'',
      unused_flag ''admin-https-cert'', unused_flag ''admin-https-key'',
      (''auth-secret'', StringFlag (\<lambda>v f. f\<lparr>fl_secret := v\<rparr>)),
      (''auth-server'', StringFlag (\<lambda>v f. f\<lparr>fl_gitLabAuthServer := v\<rparr>)),
      (''gitlab-server'', StringFlag (\<lambda>v f. f\<lparr>fl_gitLabServer := v\<rparr>)),
      (''internal-gitlab-server'', StringFlag (\<lambda>v f. f\<lparr>fl_internalGitLabServer := v\<rparr>)),
      (''api-secret-key'', StringFlag (\<lambda>v f. f\<lparr>fl_gitLabAPISecretKey := v\<rparr>)),
      (''gitlab-client-http-timeout'', DurationFlag (\<lambda>v f. f\<lparr>fl_gitlabClientHTTPTimeout := v\<rparr>)),
      (''gitlab-client-jwt-expiry'', DurationFlag (\<lambda>v f. f\<lparr>fl_gitlabClientJWTExpiry := v\<rparr>)),
      (''gitlab-cache-expiry'', DurationFlag (\<lambda>v f. f\<lparr>fl_gitlabCache := (fl_gitlabCache f)\<lparr>cc_CacheExpiry := v\<rparr>\<rparr>)),
      (''gitlab-cache-refresh'', DurationFlag (\<lambda>v f. f\<lparr>fl_gitlabCache := (fl_gitlabCache f)\<lparr>cc_EntryRefreshTimeout := v\<rparr>\<rparr>)),
      (''gitlab-cache-cleanup'', DurationFlag (\<lambda>v f. f\<lparr>fl_gitlabCache := (fl_gitlabCache f)\<lparr>cc_CacheCleanupInterval := v\<rparr>\<rparr>)),
      (''gitlab-retrieval-timeout'', DurationFlag (\<lambda>v f. f\<lparr>fl_gitlabCache := (fl_gitlabCache f)\<lparr>cc_RetrievalTimeout := v\<rparr>\<rparr>)),
      (''gitlab-retrieval-interval'', DurationFlag (\<lambda>v f. f\<lparr>fl_gitlabCache := (fl_gitlabCache f)\<lparr>cc_MaxRetrievalInterval := v\<rparr>\<rparr>)),
      (''gitlab-retrieval-retries'', IntFlag (\<lambda>v f. f\<lparr>fl_gitlabCache := (fl_gitlabCache f)\<lparr>cc_MaxRetrievalRetries := v\<rparr>\<rparr>)),
      (''domain-config-source'', StringFlag (\<lambda>v f. f\<lparr>fl_domainConfigSource := v\<rparr>)),
      (''use-legacy-storage'', BoolFlag (\<lambda>v f. f\<lparr>fl_useLegacyStorage := v\<rparr>)),
      (''auth-client-id'', StringFlag (\<lambda>v f. f\<lparr>fl_clientID := v\<rparr>)),
      (''auth-client-secret'', StringFlag (\<lambda>v f. f\<lparr>fl_clientSecret := v\<rparr>)),
      (''auth-redirect-uri'', StringFlag (\<lambda>v f. f\<lparr>fl_redirectURI := v\<rparr>)),
      (''auth-scope'', StringFlag (\<lambda>v f. f\<lparr>fl_authScope := v\<rparr>)),
      (''max-conns'', IntFlag (\<lambda>v f. f\<lparr>fl_maxConns := v\<rparr>)),
      (''insecure-ciphers'', BoolFlag (\<lambda>v f. f\<lparr>fl_insecureCiphers := v\<rparr>)),
      (''tls-min-version'', StringFlag (\<lambda>v f. f\<lparr>fl_tlsMinVersion := v\<rparr>)),
      (''tls-max-version'', StringFlag (\<lambda>v f. f\<lparr>fl_tlsMaxVersion := v\<rparr>)),
      (''zip-cache-expiration'', DurationFlag (\<lambda>v f. f\<lparr>fl_zipCacheExpiration := v\<rparr>)),
      (''zip-cache-cleanup'', DurationFlag (\<lambda>v f. f\<lparr>fl_zipCacheCleanup := v\<rparr>)),
      (''zip-cache-refresh'', DurationFlag (\<lambda>v f. f\<lparr>fl_zipCacheRefresh := v\<rparr>)),
      (''zip-open-timeout'', DurationFlag (\<lambda>v f. f\<lparr>fl_zipOpenTimeout := v\<rparr>)),
      (''disable-cross-origin-requests'', BoolFlag (\<lambda>v f. f\<lparr>fl_disableCrossOriginRequests := v\<rparr>)),
      (''version'', BoolFlag (\<lambda>v f. f\<lparr>fl_showVersion := v\<rparr>))]"

text \<open>The flags \<^verbatim>\<open>initFlags\<close> adds; the configuration file itself is read by the flag package.\<close>

definition init_flags :: "(string \<times> flag_setter) list" where
  "init_flags =
     [(''listen-http'', MultiFlag fl_listenHTTP (\<lambda>v f. f\<lparr>fl_listenHTTP := v\<rparr>)),
      (''listen-https'', MultiFlag fl_listenHTTPS (\<lambda>v f. f\<lparr>fl_listenHTTPS := v\<rparr>)),
      (''listen-proxy'', MultiFlag fl_listenProxy (\<lambda>v f. f\<lparr>fl_listenProxy := v\<rparr>)),
      (''listen-https-proxyv2'', MultiFlag fl_listenHTTPSProxyv2 (\<lambda>v f. f\<lparr>fl_listenHTTPSProxyv2 := v\<rparr>)),
      (''header'', MultiFlag fl_header (\<lambda>v f. f\<lparr>fl_header := v\<rparr>)),
      unused_flag ''config'']"

definition registered_flags :: "(string \<times> flag_setter) list" where
  "registered_flags = variable_flags @ init_flags"

text \<open>\<^verbatim>\<open>strconv.ParseBool\<close>.\<close>

definition ParseBool :: "string \<Rightarrow> bool option" where
  "ParseBool s =
     (if s \<in> {''1'', ''t'', ''T'', ''true'', ''TRUE'', ''True''} then Some True
      else if s \<in> {''0'', ''f'', ''F'', ''false'', ''FALSE'', ''False''} then Some False else None)"

definition bad_value :: go_error where "bad_value = ErrMsg ''invalid value''"

text \<open>\<^verbatim>\<open>strconv.ParseUint(s, 0, 64)\<close>.\<close>

definition ParseUint :: "string \<Rightarrow> nat option" where
  "ParseUint s =
     (let prefixed = (take 1 s = ''0'' \<and> length s \<ge> 2 \<and> lower_char (s ! 1) \<in> {CHR ''b'', CHR ''o'', CHR ''x''});
          body = (if prefixed then drop 2 s else s);
          (base, digits) = number_base s
      in if s = [] then None
         else if CHR ''_'' \<in> set s \<and> \<not> underscores_ok (prefixed \<and> lower_char (s ! 1) = CHR ''x'') (if prefixed then CHR ''0'' else CHR ''^'') body
           then None
         else (case digits_value base 0 (filter (\<lambda>c. c \<noteq> CHR ''_'') digits) of
                 None \<Rightarrow> None | Some n \<Rightarrow> if int n < 2 ^ 64 then Some n else None))"

definition set_value :: "(string \<Rightarrow> duration option) \<Rightarrow> flag_setter \<Rightarrow> string \<Rightarrow> flags \<Rightarrow> flags result" where
  "set_value ParseDuration setter v f =
     (case setter of
        StringFlag g \<Rightarrow> Inr (g v f)
      | BoolFlag g \<Rightarrow> (case ParseBool v of None \<Rightarrow> Inl bad_value | Some b \<Rightarrow> Inr (g b f))
      | IntFlag g \<Rightarrow> (case ParseInt v of Inl err \<Rightarrow> Inl bad_value | Inr i \<Rightarrow> Inr (g i f))
      | UintFlag g \<Rightarrow> (case ParseUint v of None \<Rightarrow> Inl bad_value | Some n \<Rightarrow> Inr (g n f))
      | DurationFlag g \<Rightarrow> (case ParseDuration v of None \<Rightarrow> Inl bad_value | Some d \<Rightarrow> Inr (g d f))
      | MultiFlag get g \<Rightarrow> (case ms_Set v (get f) of Inl err \<Rightarrow> Inl bad_value | Inr m \<Rightarrow> Inr (g m f)))"

definition set_flag :: "(string \<Rightarrow> duration option) \<Rightarrow> string \<Rightarrow> string \<Rightarrow> flags \<Rightarrow> flags result" where
  "set_flag ParseDuration name v f =
     (case map_of registered_flags name of
        None \<Rightarrow> Inl (ErrMsg (''flag provided but not defined: -'' @ name))
      | Some setter \<Rightarrow> set_value ParseDuration setter v f)"

fun set_flags :: "(string \<Rightarrow> duration option) \<Rightarrow> (string \<times> string) list \<Rightarrow> flags \<Rightarrow> flags result" where
  "set_flags PD [] f = Inr f"
| "set_flags PD ((name, v) # settings) f =
     (case set_flag PD name v f of Inl err \<Rightarrow> Inl err | Inr f \<Rightarrow> set_flags PD settings f)"

text \<open>A file that cannot be read is fatal.\<close>

definition config_readFile :: "(string \<Rightarrow> bytes result) \<Rightarrow> string \<Rightarrow> bytes result" where
  "config_readFile ReadFile path = (case ReadFile path of Inl err \<Rightarrow> Inl err | Inr contents \<Rightarrow> Inr contents)"

definition LoadConfig ::
  "(string \<Rightarrow> duration option) \<Rightarrow> (string \<Rightarrow> bytes result) \<Rightarrow> (string \<times> string) list \<Rightarrow> Config result" where
  "LoadConfig PD ReadFile settings =
     (case set_flags PD settings default_flags of Inl err \<Rightarrow> Inl err | Inr f \<Rightarrow> loadConfig (config_readFile ReadFile) f)"

definition config_Cache :: "Config \<Rightarrow> Cache_config" where
  "config_Cache config = gk_Cache (c_GitLab config)"

section \<open>The usage of the TLS flags\<close>

text \<open>\<open>versions\<close> are the keys of \<^const>\<open>AllTLSVersions\<close> in the order Go happens to iterate in; all of them are quoted as they are.\<close>

definition FlagUsage :: "string list \<Rightarrow> string \<Rightarrow> string" where
  "FlagUsage versions minOrMax =
     ''Specifies the '' @ minOrMax @ ''imum SSL/TLS version, supported values are '' @
     join_with '', '' (sort (map (\<lambda>v. ''\"'' @ v @ ''\"'') (filter (\<lambda>v. v \<noteq> []) versions)))"

section \<open>Properties\<close>

text \<open>No flag is registered twice, which would be a panic before the program starts.\<close>

lemma registered_distinct: "distinct (map fst registered_flags)"
  by code_simp

text \<open>The arguments that are refused or deprecated on the command line are flags.\<close>

lemma refused_registered: "set (notAllowedArgs @ deprecatedArgs) \<subseteq> (\<lambda>(name, _). CHR ''-'' # name) ` set registered_flags"
  by code_simp

text \<open>The usage text does not depend on the order of the map.\<close>

lemma FlagUsage_order:
  assumes "mset vs = mset vs'"
  shows "FlagUsage vs minOrMax = FlagUsage vs' minOrMax"
proof -
  have "sort (map g (filter P vs)) = sort (map g (filter P vs'))" for g :: "string \<Rightarrow> string" and P
    by (rule properties_for_sort) (simp_all add: assms)
  then show ?thesis unfolding FlagUsage_def by simp
qed

lemma FlagUsage_min:
  "FlagUsage [''tls1.1'', [], ''ssl3'', ''tls1.3'', ''tls1.0'', ''tls1.2''] ''min'' =
     ''Specifies the minimum SSL/TLS version, supported values are \"ssl3\", \"tls1.0\", \"tls1.1\", \"tls1.2\", \"tls1.3\"''"
  by code_simp

text \<open>Settings are applied one after the other.\<close>

lemma set_flags_append: "set_flags PD (xs @ ys) f = (case set_flags PD xs f of Inl err \<Rightarrow> Inl err | Inr f \<Rightarrow> set_flags PD ys f)"
  by (induction PD xs f rule: set_flags.induct) (auto split: sum.splits)

text \<open>A repeated flag collects its values in their order, and its addresses are those between the separators.\<close>

lemma set_multi:
  assumes "map_of registered_flags name = Some (MultiFlag get g)" "\<And>m f. get (g m f) = m" "\<forall>v \<in> set vs. v \<noteq> []"
  shows "\<exists>f'. set_flags PD (map (\<lambda>v. (name, v)) vs) f = Inr f' \<and> ms_value (get f') = ms_value (get f) @ vs \<and>
    ms_separator (get f') = ms_separator (get f)"
  using assms(3)
proof (induction vs arbitrary: f)
  case (Cons v vs)
  let ?f = "g ((get f)\<lparr>ms_value := ms_value (get f) @ [v]\<rparr>) f"
  have "set_flag PD name v f = Inr ?f" using Cons.prems by (simp add: set_flag_def assms(1) set_value_def ms_Set_def)
  then show ?case using Cons.IH [of ?f] Cons.prems by (simp add: assms(2))
qed simp

lemma listen_http_collected:
  assumes "\<forall>v \<in> set vs. v \<noteq> []"
  shows "\<exists>f. set_flags PD (map (\<lambda>v. (''listen-http'', v)) vs) default_flags = Inr f \<and>
    ms_Split (fl_listenHTTP f) = concat (map (split_str '','') vs)"
proof -
  have m: "map_of registered_flags ''listen-http'' = Some (MultiFlag fl_listenHTTP (\<lambda>v f. f\<lparr>fl_listenHTTP := v\<rparr>))"
    by (simp add: registered_flags_def variable_flags_def init_flags_def)
  obtain f where "set_flags PD (map (\<lambda>v. (''listen-http'', v)) vs) default_flags = Inr f" "ms_value (fl_listenHTTP f) = vs"
    "ms_separator (fl_listenHTTP f) = '',''"
    using set_multi [OF m _ assms, of PD default_flags] by (auto simp: default_flags_def)
  then show ?thesis by (simp add: ms_Split_def ms_sep_def)
qed

text \<open>The program starts without any setting: with HTTP/2, TLS 1.2 as the least version, no access control, the source chosen
  automatically and archives of the default pages root.\<close>

lemma LoadConfig_default:
  "\<exists>c. LoadConfig PD ReadFile [] = Inr c \<and> gc_HTTP2 (c_General c) \<and> c_TLS_MinVersion c = 0x0303 \<and> c_TLS_MaxVersion c = 0 \<and>
     ac_ClientID (c_Authentication c) = [] \<and> DomainConfigSource c = ''auto'' \<and> zs_AllowedPaths (c_Zip c) = [''shared/pages'']"
proof -
  have "case LoadConfig (\<lambda>_. None) (\<lambda>_. Inl ErrOSNotExist) [] of
      Inr c \<Rightarrow> gc_HTTP2 (c_General c) \<and> c_TLS_MinVersion c = 0x0303 \<and> c_TLS_MaxVersion c = 0 \<and>
        ac_ClientID (c_Authentication c) = [] \<and> DomainConfigSource c = ''auto'' \<and> zs_AllowedPaths (c_Zip c) = [''shared/pages'']
    | Inl _ \<Rightarrow> False" by code_simp
  moreover have "LoadConfig PD ReadFile [] = LoadConfig (\<lambda>_. None) (\<lambda>_. Inl ErrOSNotExist) []"
    by (simp add: LoadConfig_def loadConfig_def read_optional_def default_flags_def)
  ultimately show ?thesis by (auto split: sum.splits)
qed

end
