(* ===== verification/Program.thy ===== *)
theory Program
  imports Startup Mount_Namespace Command_Line
begin

text \<open>
  The whole program (\<^verbatim>\<open>main\<close> in \<^verbatim>\<open>main.go\<close>) in its two roles: called by a user it loads the configuration, opens the
  sockets and either runs the application or starts itself as an unprivileged child; called as that child it runs
  the application with the configuration read from its parent.  Setting the output of the log and the seed of the random
  numbers has no effect in the model, and the registration of the collectors is in the theory \<open>Metrics\<close>.

  The configuration goes from the parent to the child as JSON, which carries the exported fields: the raw strings of the
  listeners have none and arrive empty (\<open>wire_config\<close>).  Its strings are taken to be UTF-8, which JSON keeps.
\<close>

section \<open>The program\<close>

datatype program_outcome = ChildProgram main_outcome | ParentProgram app_outcome

text \<open>\<open>settings\<close> are the flags set by the user, see the theory \<open>Command_Line\<close>; the other arguments are those of
  \<^const>\<open>daemonMain\<close> and \<^const>\<open>appMain\<close>.\<close>

definition program_main ::
  "string \<Rightarrow> string list \<Rightarrow> string result \<Rightarrow> (nat \<Rightarrow> Config result) \<Rightarrow> (string \<Rightarrow> duration option) \<Rightarrow>
   (string \<Rightarrow> bytes result) \<Rightarrow> (string \<times> string) list \<Rightarrow> go_error option \<Rightarrow> (string \<Rightarrow> go_error option) \<Rightarrow>
   ('os \<Rightarrow> string \<Rightarrow> nat result \<times> 'os) \<Rightarrow> 'os \<Rightarrow> string \<Rightarrow> program_outcome" where
  "program_main arg0 args getwd decode PD ReadFile settings logging chdir createSocket os wd =
     (case daemonMain arg0 getwd decode of
        NotTheDaemon \<Rightarrow> ParentProgram (appMain args (LoadConfig PD ReadFile settings) logging chdir createSocket os wd)
      | child \<Rightarrow> ChildProgram child)"

definition no_strings :: MultiStringFlag where
  "no_strings = \<lparr>ms_value = [], ms_separator = []\<rparr>"

definition wire_config :: "Config \<Rightarrow> Config" where
  "wire_config config =
     config\<lparr>c_ListenHTTPStrings := no_strings, c_ListenHTTPSStrings := no_strings, c_ListenProxyStrings := no_strings,
       c_ListenHTTPSProxyv2Strings := no_strings\<rparr>"

section \<open>What the child is started with\<close>

text \<open>Two configurations that differ in their sockets, in the raw strings of the listeners and in the error reporting only.\<close>

definition same_settings :: "Config \<Rightarrow> Config \<Rightarrow> bool" where
  "same_settings c c' \<longleftrightarrow>
     c_General c' = c_General c \<and> c_ArtifactsServer c' = c_ArtifactsServer c \<and> c_Authentication c' = c_Authentication c \<and>
     c_Daemon c' = c_Daemon c \<and> c_GitLab c' = c_GitLab c \<and> c_Log_Format c' = c_Log_Format c \<and>
     c_Log_Verbose c' = c_Log_Verbose c \<and> c_TLS_MinVersion c' = c_TLS_MinVersion c \<and>
     c_TLS_MaxVersion c' = c_TLS_MaxVersion c \<and> c_Zip c' = c_Zip c"

lemma same_settings_sockets: "c' = c\<lparr>c_Listeners := l, c_ListenMetrics := m\<rparr> \<Longrightarrow> same_settings c c'"
  by (simp add: same_settings_def)

lemma same_settings_wire: "same_settings c c' \<Longrightarrow> same_settings c (wire_config c')"
  by (simp add: same_settings_def wire_config_def)

lemma same_settings_trans: "same_settings a b \<Longrightarrow> same_settings b c \<Longrightarrow> same_settings a c"
  by (simp add: same_settings_def)

lemma wire_config_listeners:
  "c_Listeners (wire_config c) = c_Listeners c" "c_ListenMetrics (wire_config c) = c_ListenMetrics c"
  by (simp_all add: wire_config_def)

text \<open>Nothing else goes into the application: with the same settings the same one is started, with its own copy of the
  configuration.\<close>

lemma NewFromConfig_same: "same_settings c c' \<Longrightarrow> NewFromConfig c' = NewFromConfig c"
  by (simp add: same_settings_def NewFromConfig_def InternalGitLabServerURL_def GitlabAPISecret_def
      GitlabClientConnectionTimeout_def GitlabJWTTokenExpiry_def)

lemma zip_Reconfigure_same: "same_settings c c' \<Longrightarrow> zip_Reconfigure C cwd c' fs = zip_Reconfigure C cwd c fs"
  by (simp add: same_settings_def zip_Reconfigure_def reconfigureTransport_def)

lemma runApp_same:
  "same_settings c c' \<Longrightarrow> runApp E g l rc c' = map_sum id (\<lambda>a. a\<lparr>ap_config := c'\<rparr>) (runApp E g l rc c)"
  by (simp add: same_settings_def runApp_def setAuth_def DomainConfigSource_def Let_def split: sum.split option.split)

lemma start_app_same:
  assumes "same_settings c c'"
  shows "start_app E lb C cwd fs c' =
    map_option (map_sum id (map_prod (\<lambda>a. a\<lparr>ap_config := c'\<rparr>) id)) (start_app E lb C cwd fs c)"
proof -
  have "c_Log_Format c' = c_Log_Format c" "c_Log_Verbose c' = c_Log_Verbose c" using assms by (simp_all add: same_settings_def)
  then show ?thesis
    by (simp add: start_app_def Disk_Reconfigure_def instrumented_Reconfigure_def NewFromConfig_same [OF assms]
        zip_Reconfigure_same [OF assms] runApp_same [OF assms] Let_def split: sum.split option.split prod.split)
qed

section \<open>From the flags to the child\<close>

lemma program_main_parent:
  assumes "program_main arg0 args getwd decode PD ReadFile settings logging chdir createSocket os wd =
      ParentProgram (AppDaemonize config wd')"
  shows "NotAllowed args = None \<and> (dn_UID (c_Daemon config) \<noteq> 0 \<or> dn_GID (c_Daemon config) \<noteq> 0) \<and>
    (\<exists>c. LoadConfig PD ReadFile settings = Inr c \<and>
       config = c\<lparr>c_Listeners := c_Listeners config, c_ListenMetrics := c_ListenMetrics config\<rparr>)"
  using assms
  by (auto simp: program_main_def appMain_def Let_def createAppListeners_def createMetricsListener_def
      split: main_outcome.split_asm option.split_asm sum.split_asm prod.split_asm if_split_asm)

lemma daemonize_handed:
  assumes "daemonize P F F' env config os = (err, Some (cmd, handed), os')"
  shows "handed = config\<lparr>c_Listeners := c_Listeners handed, c_ListenMetrics := c_ListenMetrics handed\<rparr>"
  using assms
  by (auto simp: daemonize_def run_child_def updateFds_def Let_def
      split: sum.split_asm prod.split_asm option.split_asm if_split_asm)

text \<open>C16. The unprivileged child is the program the user configured.  When the program decides to run as another user and the
  child is started, the program called with the command line of the child neither reads flags nor starts a child of its own:
  it runs the application with the configuration its parent sent, in which every listener has the descriptor under which the
  child inherits the socket the parent opened; the child has the user and group of the flags, and the application it starts is
  the one these flags configure, under whatever faults the operating system has shown on the way.\<close>

theorem program_unprivileged:
  assumes "proper_env env"
    and "program_main arg0 args getwd decode PD ReadFile settings logging chdir createSocket os wd =
      ParentProgram (AppDaemonize config wd')"
    and "daemonize P F F' env config host = (err, Some (cmd, handed), host')"
    and "\<not> HasPrefix cwd ''(unreachable)''" and "decode' 3 = Inr (wire_config handed)"
  shows "program_main (hd (cm_Args cmd)) (tl (cm_Args cmd)) (Inr cwd) decode' PD' ReadFile' settings' logging' chdir' createSocket' os' wd'' =
      ChildProgram (RunApp (wire_config handed)) \<and>
    map (child_file cmd) (listener_fds (wire_config handed)) = map Some (listener_fds config) \<and>
    (\<exists>c. LoadConfig PD ReadFile settings = Inr c \<and>
       unat (cm_Uid cmd) = dn_UID (c_Daemon c) mod 2 ^ 32 \<and> unat (cm_Gid cmd) = dn_GID (c_Daemon c) mod 2 ^ 32 \<and>
       start_app E lb C dir fs (wire_config handed) =
         map_option (map_sum id (map_prod (\<lambda>a. a\<lparr>ap_config := wire_config handed\<rparr>) id)) (start_app E lb C dir fs c))"
proof -
  note started = daemonize_started [OF assms(1,3)]
  then have "daemonMain (hd (cm_Args cmd)) (Inr cwd) decode' = RunApp (wire_config handed)"
    using assms(4,5) by (simp add: daemonMain_def)
  moreover obtain c where c: "LoadConfig PD ReadFile settings = Inr c"
      "config = c\<lparr>c_Listeners := c_Listeners config, c_ListenMetrics := c_ListenMetrics config\<rparr>"
    using program_main_parent [OF assms(2)] by blast
  have same: "same_settings c (wire_config handed)"
    using same_settings_sockets [OF c(2)] same_settings_sockets [OF daemonize_handed [OF assms(3)]]
    by (blast intro: same_settings_trans same_settings_wire)
  have "c_Daemon config = c_Daemon c" using same_settings_sockets [OF c(2)] by (simp add: same_settings_def)
  moreover have "listener_fds (wire_config handed) = listener_fds handed" by (simp add: listener_fds_def wire_config_listeners)
  ultimately show ?thesis using started c(1) start_app_same [OF same] by (simp add: program_main_def unat_of_nat)
qed

definition demo_settings :: "(string \<times> string) list" where
  "demo_settings = [(''pages-root'', ''/srv''), (''daemon-uid'', ''1000''), (''daemon-gid'', ''1000''), (''listen-http'', '':80''),
     (''listen-http'', '':81'')]"

definition demo_program :: "string \<Rightarrow> (nat \<Rightarrow> Config result) \<Rightarrow> program_outcome" where
  "demo_program arg0 decode =
     program_main arg0 [] (Inr ''/'') decode (\<lambda>_. None) (\<lambda>_. Inl ErrOSNotExist) demo_settings None (\<lambda>_. None)
       (\<lambda>n addr. (Inr n, Suc n)) 5 ''/root''"

definition demo_parent :: "Config option" where
  "demo_parent = (case demo_program ''/usr/bin/gitlab-pages'' (\<lambda>_. Inl ErrOSNotExist) of ParentProgram (AppDaemonize config _) \<Rightarrow> Some config | _ \<Rightarrow> None)"

definition demo_child :: "(Cmd \<times> Config) option" where
  "demo_child = (case demo_parent of None \<Rightarrow> None | Some config \<Rightarrow>
     fst (snd (daemonize Linux no_faults no_faults demo_surroundings config demo_machine)))"

theorem program_unprivileged_witness:
  "\<exists>cmd handed. demo_child = Some (cmd, handed) \<and> unat (cm_Uid cmd) = 1000 \<and>
     map (child_file cmd) (listener_fds (wire_config handed)) = [Some 5, Some 6] \<and>
     demo_program (hd (cm_Args cmd)) (\<lambda>fd. if fd = 3 then Inr (wire_config handed) else Inl ErrOSNotExist) =
       ChildProgram (RunApp (wire_config handed))"
proof -
  have "case demo_parent of Some config \<Rightarrow> listener_fds config = [5, 6] | None \<Rightarrow> False" by code_simp
  then obtain config where config: "demo_parent = Some config" "listener_fds config = [5, 6]" by (auto split: option.splits)
  then obtain wd where parent: "demo_program ''/usr/bin/gitlab-pages'' (\<lambda>_. Inl ErrOSNotExist) = ParentProgram (AppDaemonize config wd)"
    by (auto simp: demo_parent_def split: program_outcome.split_asm app_outcome.split_asm)
  have "demo_child \<noteq> None" by code_simp
  then obtain cmd handed where child: "demo_child = Some (cmd, handed)" by auto
  then obtain err host' where run: "daemonize Linux no_faults no_faults demo_surroundings config demo_machine = (err, Some (cmd, handed), host')"
    using config(1) by (metis demo_child_def option.simps(5) prod.collapse)
  have args: "case demo_child of Some (cmd, _) \<Rightarrow> tl (cm_Args cmd) = [] | None \<Rightarrow> False" by code_simp
  have uid: "case LoadConfig (\<lambda>_. None) (\<lambda>_. Inl ErrOSNotExist) demo_settings of Inr c \<Rightarrow> dn_UID (c_Daemon c) = 1000 | Inl _ \<Rightarrow> False" by code_simp
  have wd: "\<not> HasPrefix ''/'' ''(unreachable)''" by code_simp
  note parent' = parent [unfolded demo_program_def]
  let ?decode = "\<lambda>fd :: nat. if fd = 3 then Inr (wire_config handed) else Inl ErrOSNotExist"
  have "?decode 3 = Inr (wire_config handed)" by simp
  note app = program_unprivileged [OF demo_surroundings_proper parent' run wd, of ?decode, OF this]
  have "tl (cm_Args cmd) = []" using args unfolding child option.case prod.case .
  moreover have "\<exists>c. LoadConfig (\<lambda>_. None) (\<lambda>_. Inl ErrOSNotExist) demo_settings = Inr c \<and> unat (cm_Uid cmd) = dn_UID (c_Daemon c) mod 2 ^ 32"
    by (rule exE [OF app [THEN conjunct2, THEN conjunct2]]) blast
  then have "unat (cm_Uid cmd) = 1000" using uid by auto
  ultimately show ?thesis
    unfolding demo_program_def
    using app [THEN conjunct1] app [THEN conjunct2, THEN conjunct1] child config(2)
    by (intro exI [of _ cmd] exI [of _ handed]) simp
qed

end
