(* ===== verification/Fixtures.thy ===== *)
theory Fixtures
  imports Gitlab_Source Http_Fs
begin

text \<open>
  What the tests of the program use in place of its surroundings: the client that reads a lookup from a file
  (\<^verbatim>\<open>internal/source/gitlab/client/client_stub.go\<close>), the API answers of the acceptance tests
  (\<^verbatim>\<open>test/acceptance/testdata/api_responses.go\<close>), and the helpers of \<^verbatim>\<open>internal/testhelpers\<close> that work on the current
  directory and on log entries.  An assertion that fails ends the test: its helper returns \<^const>\<open>None\<close>.

  The locale \<open>lookup_client\<close> is what the cache relies on in both clients: a lookup carries the name it was asked for.
\<close>

section \<open>The stubbed client (client\_stub.go)\<close>

text \<open>\<^verbatim>\<open>os.Open\<close> gives the bytes of the file; \<open>decode\<close> is the JSON decoder, which may fill the domain before it fails.\<close>

record StubClient =
  sb_File :: string
  sb_StatusErr :: "go_error option"

definition stub_GetLookup ::
  "(string \<Rightarrow> bytes result) \<Rightarrow> (bytes \<Rightarrow> VirtualDomain option \<times> go_error option) \<Rightarrow> StubClient \<Rightarrow> string \<Rightarrow> Lookup" where
  "stub_GetLookup os_Open decode c host =
     (let lookup = \<lparr>lk_Name = host, lk_Error = None, lk_Domain = None\<rparr>
      in case os_Open (sb_File c) of
           Inl err \<Rightarrow> lookup\<lparr>lk_Error := Some err\<rparr>
         | Inr f \<Rightarrow> (let (domain, err) = decode f in lookup\<lparr>lk_Error := err, lk_Domain := domain\<rparr>))"

definition stub_Status :: "StubClient \<Rightarrow> go_error option" where
  "stub_Status c = sb_StatusErr c"

text \<open>\<^verbatim>\<open>Resolve\<close> of both clients returns the address of the lookup.\<close>

definition stub_Resolve ::
  "(string \<Rightarrow> bytes result) \<Rightarrow> (bytes \<Rightarrow> VirtualDomain option \<times> go_error option) \<Rightarrow> StubClient \<Rightarrow> string \<Rightarrow> Lookup" where
  "stub_Resolve os_Open decode c host = stub_GetLookup os_Open decode c host"

definition client_Resolve :: "api_env \<Rightarrow> Client \<Rightarrow> string \<Rightarrow> Lookup" where
  "client_Resolve env gc host = client_GetLookup env gc host"

locale lookup_client =
  fixes Resolve :: "string \<Rightarrow> Lookup"
  assumes lookup_name: "lk_Name (Resolve host) = host"
begin

text \<open>Lookups of different hosts are never confused, however alike their domains are.\<close>

lemma Resolve_inj: "inj Resolve"
  by (rule injI) (metis lookup_name)

end

interpretation stub: lookup_client "stub_Resolve os_Open decode c" for os_Open decode c
  by unfold_locales (simp add: stub_Resolve_def stub_GetLookup_def Let_def split: sum.split prod.split)

interpretation api: lookup_client "client_Resolve env gc" for env gc
  by unfold_locales (simp add: client_Resolve_def client_GetLookup_def Let_def split: sum.split prod.split option.split)

section \<open>The answers of the acceptance tests (api\_responses.go)\<close>

definition zip_response :: "string \<Rightarrow> VirtualDomain" where
  "zip_response path =
     \<lparr>vd_Certificate = [], vd_Key = [],
      vd_LookupPaths =
        [\<lparr>al_ProjectID = 123, al_AccessControl = False, al_HTTPSOnly = False, al_Prefix = ''/'',
          al_Source = \<lparr>so_Type = ''zip'', so_Path = path\<rparr>\<rparr>]\<rparr>"

definition deployment_dir :: string where
  "deployment_dir = ''/@hashed/67/06/670671cd97404156226e507973f2ab8330d3022ca96e0c93bdbdb320c41adcaf/pages_deployments/01/''"

definition ZipFromFile :: "string \<Rightarrow> VirtualDomain" where
  "ZipFromFile wd = zip_response (''file://'' @ wd @ deployment_dir @ ''artifacts.zip'')"

definition ZipFromFileNotFound :: "string \<Rightarrow> VirtualDomain" where
  "ZipFromFileNotFound wd = zip_response (''file://'' @ wd @ deployment_dir @ ''unknown.zip'')"

definition ZipFromNotAllowedPath :: "string \<Rightarrow> VirtualDomain" where
  "ZipFromNotAllowedPath wd = zip_response ''file:///some/random/path/public.zip''"

definition DomainResponses :: "string \<rightharpoonup> (string \<Rightarrow> VirtualDomain)" where
  "DomainResponses =
     [''zip-from-disk.gitlab.io'' \<mapsto> ZipFromFile, ''zip-from-disk-not-found.gitlab.io'' \<mapsto> ZipFromFileNotFound,
      ''zip-not-allowed-path.gitlab.io'' \<mapsto> ZipFromNotAllowedPath]"

section \<open>Helpers (testhelpers)\<close>

text \<open>The state is the directory of the process and the variable \<^verbatim>\<open>chdirSet\<close> of the test; \<open>getwd\<close> is what \<^verbatim>\<open>os.Getwd\<close> says of
  the directory, \<open>chdir\<close> the errors of \<^verbatim>\<open>os.Chdir\<close>.\<close>

type_synonym test_dir = "string \<times> bool"

definition ChdirInPath ::
  "(string \<Rightarrow> string result) \<Rightarrow> (string \<Rightarrow> go_error option) \<Rightarrow> string \<Rightarrow> test_dir \<Rightarrow> (test_dir \<times> (test_dir \<Rightarrow> test_dir option)) option" where
  "ChdirInPath getwd chdir path s =
     (if snd s then Some (s, Some)
      else (case getwd (fst s) of
              Inl err \<Rightarrow> None
            | Inr cwd \<Rightarrow>
                (if chdir path \<noteq> None then None
                 else Some ((filepath_Abs (fst s) path, True),
                        \<lambda>s. if chdir cwd \<noteq> None then None else Some (filepath_Abs (fst s) cwd, False)))))"

definition testhelpers_Getwd :: "string result \<Rightarrow> string option" where
  "testhelpers_Getwd getwd = (case getwd of Inl err \<Rightarrow> None | Inr wd \<Rightarrow> Some wd)"

definition ToFileProtocol :: "string result \<Rightarrow> string \<Rightarrow> string option" where
  "ToFileProtocol getwd path = map_option (\<lambda>wd. ''file://'' @ wd @ ''/'' @ path) (testhelpers_Getwd getwd)"

definition AssertLogContains :: "string \<Rightarrow> string list \<Rightarrow> unit option" where
  "AssertLogContains wantLogEntry messages =
     (if wantLogEntry \<noteq> [] \<and> wantLogEntry \<notin> set messages then None else Some ())"

section \<open>Properties\<close>

text \<open>Nested changes of the directory: the inner one does nothing and its cleanup neither; the cleanup of the outer one
  goes back to where the test began.\<close>

lemma ChdirInPath_nested:
  assumes "ChdirInPath getwd chdir p (dir, False) = Some (s, outer)" and "getwd dir = Inr dir" and "clean_root dir" and "chdir dir = None"
  shows "ChdirInPath getwd chdir q s = Some (s, Some)" "outer s' = Some (dir, False)"
  using assms by (auto simp: ChdirInPath_def filepath_Abs_def clean_root_def split: if_split_asm sum.split_asm)

text \<open>The fixtures separate what the daemon allows from what it does not: with the pages root of the acceptance tests as the
  only allowed path, the archive of the first answer is asked for under its own path, and that of the last one is refused
  without asking the operating system.\<close>

lemma fixtures_allowed:
  "httpfs_Open cwd os_Open [''/srv/pages''] (''/srv/pages'' @ deployment_dir @ ''artifacts.zip'') =
     os_Open (''/srv/pages'' @ deployment_dir @ ''artifacts.zip'')"
  "httpfs_Open cwd os_Open [''/srv/pages''] ''/some/random/path/public.zip'' = Inl ErrOSPermission"
proof -
  have n: "path_Clean (''/'' @ ''/srv/pages'' @ deployment_dir @ ''artifacts.zip'') = ''/srv/pages'' @ deployment_dir @ ''artifacts.zip''"
    "HasPrefix (''/srv/pages'' @ deployment_dir @ ''artifacts.zip'') (''/srv/pages'' @ ''/'')"
    "path_Clean (''/'' @ ''/some/random/path/public.zip'') = ''/some/random/path/public.zip''"
    "\<not> HasPrefix ''/some/random/path/public.zip'' (''/srv/pages'' @ ''/'')" by code_simp+
  have a: "Abs_cwd cwd (path_Clean (''/'' @ name)) = Inr (path_Clean (''/'' @ name))" for name
    by (rule Abs_rooted) simp
  show "httpfs_Open cwd os_Open [''/srv/pages''] (''/srv/pages'' @ deployment_dir @ ''artifacts.zip'') =
      os_Open (''/srv/pages'' @ deployment_dir @ ''artifacts.zip'')"
    unfolding httpfs_Open_def a sum.case using n(1,2) by simp
  show "httpfs_Open cwd os_Open [''/srv/pages''] ''/some/random/path/public.zip'' = Inl ErrOSPermission"
    unfolding httpfs_Open_def a sum.case using n(3,4) by simp
qed

end
