(* ===== verification/Readiness.thy ===== *)
theory Readiness
  imports Pipeline
begin

text \<open>
  When the daemon is ready: the flag \<^verbatim>\<open>isReady\<close> of the GitLab source (\<^verbatim>\<open>internal/source/gitlab\<close>) is set once by \<^verbatim>\<open>poll\<close>,
  taken back by \<^verbatim>\<open>GetDomain\<close> when the API refuses the daemon, and asked by the handler pipeline for every request
  (\<^verbatim>\<open>tryAuxiliaryHandlers\<close> in \<^verbatim>\<open>app.go\<close>).
\<close>

section \<open>Lookups over time\<close>

text \<open>Lookups of names, each with the answers the API gives at that moment.\<close>

fun lookups :: "((string \<Rightarrow> Lookup) \<times> string) list \<Rightarrow> Domains \<Rightarrow> Domains" where
  "lookups [] d = d"
| "lookups ((lookup, name) # qs) d = lookups qs (snd (domains_GetDomain lookup d name))"

lemma gitlab_GetDomain_ready:
  assumes "gitlab_GetDomain lookup g name = (res, g')"
  shows "gl_isReady g' \<longleftrightarrow> gl_isReady g \<and> lk_Error (lookup name) \<noteq> Some ErrUnauthorizedAPI"
  using assms by (auto simp: gitlab_GetDomain_def Let_def split: option.splits if_split_asm)

lemma domains_GetDomain_gitlab:
  assumes "ds_configSource d = sourceGitlab" "ds_gitlab d = Some g"
  shows "\<exists>g'. ds_configSource (snd (domains_GetDomain lookup d name)) = sourceGitlab \<and>
    ds_gitlab (snd (domains_GetDomain lookup d name)) = Some g' \<and>
    (gl_isReady g' \<longleftrightarrow> gl_isReady g \<and> lk_Error (lookup name) \<noteq> Some ErrUnauthorizedAPI)"
proof -
  obtain res g' where g: "gitlab_GetDomain lookup g name = (res, g')" by fastforce
  have "domains_source d name = Some (UseGitlab g)" using assms by (simp add: domains_source_def)
  then show ?thesis using assms(1) g gitlab_GetDomain_ready [OF g] by (simp add: domains_GetDomain_def)
qed

text \<open>The source stays ready exactly as long as no lookup is refused.\<close>

theorem lookups_ready:
  assumes "ds_configSource d = sourceGitlab" "ds_gitlab d = Some g"
  shows "domains_IsReady (lookups qs d) =
    Some (gl_isReady g \<and> (\<forall>(lookup, name) \<in> set qs. lk_Error (lookup name) \<noteq> Some ErrUnauthorizedAPI))"
  using assms
proof (induction qs arbitrary: d g)
  case Nil
  then show ?case by (simp add: domains_IsReady_def gitlab_IsReady_def)
next
  case (Cons q qs)
  obtain lookup name where q: "q = (lookup, name)" by (cases q)
  from domains_GetDomain_gitlab [OF Cons.prems, of lookup name] obtain g' where
    "ds_configSource (snd (domains_GetDomain lookup d name)) = sourceGitlab" "ds_gitlab (snd (domains_GetDomain lookup d name)) = Some g'"
    "gl_isReady g' \<longleftrightarrow> gl_isReady g \<and> lk_Error (lookup name) \<noteq> Some ErrUnauthorizedAPI" by blast
  then show ?case using Cons.IH q by auto
qed

section \<open>What visitors see\<close>

text \<open>A daemon that is not ready answers requests for sites, artifacts and redirects to HTTPS apart, with 503.\<close>

lemma not_ready_unavailable:
  assumes "app_isReady a = Some False" "https \<or> \<not> gc_RedirectHTTP (c_General (ap_config a))"
    and "HandleArtifactRequest (ap_Handlers a) host r w = (False, w)"
  shows "tryAuxiliaryHandlers E a https host d r w = (True, Serve503 w)"
  using assms by (auto simp: tryAuxiliaryHandlers_def)

text \<open>One refusal takes the daemon down for good: with the GitLab source alone, after a single lookup the API answered
  with 401, every request for a site is answered with 503, whatever the API answers to later lookups (polling,
  which alone makes the source ready, ends with its first success).\<close>

theorem unauthorized_stays_unavailable:
  assumes "ds_configSource (ap_domains a) = sourceGitlab" and "ds_gitlab (ap_domains a) = Some g"
    and "lk_Error (lookup name) = Some ErrUnauthorizedAPI"
    and "https \<or> \<not> gc_RedirectHTTP (c_General (ap_config a))" and "HandleArtifactRequest (ap_Handlers a) host r w = (False, w)"
  shows "tryAuxiliaryHandlers E (a\<lparr>ap_domains := lookups ((lookup, name) # later) (ap_domains a)\<rparr>) https host d r w = (True, Serve503 w)"
proof -
  have "domains_IsReady (lookups ((lookup, name) # later) (ap_domains a)) = Some False"
    using lookups_ready [OF assms(1,2), of "(lookup, name) # later"] assms(3) by auto
  then show ?thesis using assms(4,5) by (intro not_ready_unavailable) (simp_all add: app_isReady_def)
qed

definition demo_refused :: "string \<Rightarrow> Lookup" where
  "demo_refused h = \<lparr>lk_Name = h, lk_Error = Some ErrUnauthorizedAPI, lk_Domain = None\<rparr>"

theorem unauthorized_stays_unavailable_witness:
  "tryAuxiliaryHandlers (demo_E demo_public)
     (demo_a\<lparr>ap_domains := lookups [(demo_refused, ''g.io''), (demo_source demo_public, ''g.io'')] (ap_domains demo_a)\<rparr>)
     False ''g.io'' None demo_r new_resp = (True, Serve503 new_resp)"
proof -
  have "ds_configSource (ap_domains demo_a) = sourceGitlab" "ds_gitlab (ap_domains demo_a) = Some \<lparr>gl_isReady = True\<rparr>"
    by (simp_all add: demo_app_def)
  moreover have "HandleArtifactRequest (ap_Handlers demo_a) ''g.io'' demo_r new_resp = (False, new_resp)"
    by (simp add: demo_app_def HandleArtifactRequest_def GetTokenIfExists_def checkSession_def demo_anon_env_def getSessionFromStore_def
        TryMakeRequest_def)
  moreover have "\<not> gc_RedirectHTTP (c_General (ap_config demo_a))" by code_simp
  moreover have "lk_Error (demo_refused ''g.io'') = Some ErrUnauthorizedAPI" by (simp add: demo_refused_def)
  ultimately show ?thesis using unauthorized_stays_unavailable by blast
qed

end
