(* ===== verification/Login_Flow.thy ===== *)
theory Login_Flow
  imports Auth
begin

text \<open>
  The login as a whole: the requests of one visitor to a protected site, to the pages domain that stands
  between it and GitLab, and back, each answered by the handlers of \<^verbatim>\<open>internal/auth\<close>.

  Between the requests a browser keeps the session cookie of every host and sends it back.  The codec of the
  cookies (\<^verbatim>\<open>gorilla/securecookie\<close>) is a parameter, of which is used that it decodes what it encoded.
\<close>

section \<open>A browser\<close>

record cookie_codec =
  ck_encode :: "(string \<rightharpoonup> string) \<Rightarrow> string"
  ck_decode :: "string \<Rightarrow> (string \<rightharpoonup> string)"

definition session_keys :: "string set" where
  "session_keys = {''access_token'', ''state'', ''uri'', ''proxy_auth_domain''}"

definition codec_ok :: "cookie_codec \<Rightarrow> bool" where
  "codec_ok C \<longleftrightarrow> (\<forall>v. dom v \<subseteq> session_keys \<longrightarrow> ck_decode C (ck_encode C v) = v)"

text \<open>The session a browser has on every host.\<close>

type_synonym cookie_jar = "string \<Rightarrow> (string \<rightharpoonup> string)"

text \<open>The cookie store when a browser with these cookies visits at time \<open>t\<close>, with the random string \<open>rnd\<close>.\<close>

definition visit_env :: "auth_env \<Rightarrow> cookie_codec \<Rightarrow> timestamp \<Rightarrow> string \<Rightarrow> cookie_jar \<Rightarrow> auth_env" where
  "visit_env env C t rnd jar =
     env\<lparr>av_store_Get := (\<lambda>r. (\<lparr>se_Values = jar (r_Host r), se_Path = ''/'', se_HttpOnly = False, se_Secure = False, se_MaxAge = 0\<rparr>, None)),
         av_Save := (\<lambda>s r w. (None, hadd ''Set-Cookie'' (ck_encode C (se_Values s)) w)),
         av_now := t, av_random := rnd\<rparr>"

definition receive :: "cookie_codec \<Rightarrow> string \<Rightarrow> resp \<Rightarrow> cookie_jar \<Rightarrow> cookie_jar" where
  "receive C host w jar =
     (case sent_header w ''Set-Cookie'' of Some (c # cs) \<Rightarrow> jar(host := ck_decode C (last (c # cs))) | _ \<Rightarrow> jar)"

text \<open>The requests of a login in their order: the protected page, the pages domain before and after GitLab, the
  callback of the site, and the page again.  The result has the four answers on the way and the last check.\<close>

record login =
  lg_page :: request
  lg_proxy :: request
  lg_return :: request
  lg_callback :: request

definition login_run ::
  "auth_env \<Rightarrow> cookie_codec \<Rightarrow> Auth \<Rightarrow> 'r resolve_fn \<Rightarrow> 'r domain option \<Rightarrow> (string \<Rightarrow> 'd option result) \<Rightarrow> string \<Rightarrow> string \<Rightarrow>
     timestamp \<Rightarrow> timestamp \<Rightarrow> login \<Rightarrow> cookie_jar \<Rightarrow> resp list \<times> bool \<times> resp" where
  "login_run env C a R d getDomain state nonce t t' l jar =
     (let w1 = snd (CheckAuthentication (visit_env env C t state jar) (Some a) R d (lg_page l) new_resp);
          jar = receive C (r_Host (lg_page l)) w1 jar;
          w2 = snd (TryAuthenticate (visit_env env C t nonce jar) (Some a) getDomain (lg_proxy l) new_resp);
          jar = receive C (r_Host (lg_proxy l)) w2 jar;
          w3 = snd (TryAuthenticate (visit_env env C t nonce jar) (Some a) getDomain (lg_return l) new_resp);
          jar = receive C (r_Host (lg_return l)) w3 jar;
          w4 = snd (TryAuthenticate (visit_env env C t' nonce jar) (Some a) getDomain (lg_callback l) new_resp);
          jar = receive C (r_Host (lg_callback l)) w4 jar
      in ([w1, w2, w3, w4], CheckAuthentication (visit_env env C t' nonce jar) (Some a) R d (lg_page l) new_resp))"

section \<open>One request\<close>

lemma http_Redirect_header:
  assumes "rw_sent w = None" "k \<noteq> ''Location''" "k \<noteq> ''Content-Type''"
  shows "sent_header (http_Redirect r target code w) k = rw_header w k"
proof -
  define ct where "ct = rw_header w ''Content-Type''"
  define m where "m = r_Method r"
  show ?thesis
    unfolding http_Redirect_def Let_def ct_def [symmetric] m_def [symmetric]
    using assms
    by (cases ct; cases "m = ''GET''"; cases "m = ''HEAD''"; simp add: sent_header_def resp_simps)
qed

abbreviation saved :: "cookie_codec \<Rightarrow> (string \<rightharpoonup> string) \<Rightarrow> resp" where
  "saved C v \<equiv> hadd ''Set-Cookie'' (ck_encode C v) new_resp"

lemma saved_header: "rw_header (saved C v) ''Set-Cookie'' = Some [ck_encode C v]"
proof -
  have "CanonicalHeaderKey ''Set-Cookie'' = ''Set-Cookie''" by code_simp
  then show ?thesis by (simp add: hadd_def header_Add_def resp_simps)
qed

lemma saved_sent [simp]: "rw_sent (saved C v) = None"
  by (simp add: resp_simps)

lemma receive_redirect:
  assumes "codec_ok C" "dom v \<subseteq> session_keys"
  shows "receive C host (http_Redirect r target code (saved C v)) jar = jar(host := v)"
proof -
  have "sent_header (http_Redirect r target code (saved C v)) ''Set-Cookie'' = Some [ck_encode C v]"
    by (subst http_Redirect_header) (simp_all add: saved_header)
  then show ?thesis using assms by (simp add: receive_def codec_ok_def)
qed

text \<open>A protected page without a token: the visitor is sent to the pages domain.\<close>

lemma page_redirects:
  assumes "jar (r_Host r) ''access_token'' = None"
  shows "CheckAuthentication (visit_env env C t state jar) (Some a) R d r new_resp =
    (True, http_Redirect r (getProxyAddress a r state) 302
       (saved C ((jar (r_Host r))(''state'' \<mapsto> state, ''uri'' \<mapsto> getRequestAddress r, ''proxy_auth_domain'' := None))))"
  using assms
  by (simp add: CheckAuthentication_def checkAuthentication_def checkSessionIsValid_def checkSession_def getSessionFromStore_def
      checkTokenExists_def visit_env_def Let_def)

lemma visit_session:
  "checkSession (visit_env env C t rnd jar) r w =
    (Inr \<lparr>se_Values = jar (r_Host r), se_Path = ''/'', se_HttpOnly = True, se_Secure = IsHTTPS r, se_MaxAge = authSessionMaxAge\<rparr>, w)"
  by (simp add: checkSession_def getSessionFromStore_def visit_env_def)

lemma visit_cipher:
  "newAesGcmCipher (visit_env env C t rnd jar) a site n = newAesGcmCipher env a site n"
  "newAesGcmCipher (env\<lparr>av_random := rnd\<rparr>) a site n = newAesGcmCipher env a site n"
  by (simp_all add: newAesGcmCipher_def codeKey_def visit_env_def Let_def split: sum.split option.split)

lemma visit_encrypt:
  "EncryptAndSignCode (visit_env env C t rnd jar) a site code = EncryptAndSignCode (env\<lparr>av_now := t, av_random := rnd\<rparr>) a site code"
  unfolding EncryptAndSignCode_def visit_cipher cipher_at by (simp add: visit_env_def split: sum.split)

lemma visit_decrypt:
  "DecryptCode (visit_env env C t rnd jar) a sc site = DecryptCode (env\<lparr>av_now := t\<rparr>) a sc site"
  "DecryptCode (env\<lparr>av_random := rnd, av_now := t\<rparr>) a sc site = DecryptCode (env\<lparr>av_now := t\<rparr>) a sc site"
  unfolding DecryptCode_def parseJWTClaims_def visit_cipher cipher_at
  by (simp_all add: visit_env_def split: sum.split option.split)

lemma visit_fetch: "fetchAccessToken (visit_env env C t rnd jar) a code = fetchAccessToken env a code"
proof -
  have "av_Do (visit_env env C t rnd jar) = av_Do env" "av_decode_token (visit_env env C t rnd jar) = av_decode_token env"
    by (simp_all add: visit_env_def)
  note same = this
  show ?thesis unfolding fetchAccessToken_def same ..
qed

lemma decrypt_in_time:
  assumes "crypto_ok env" and "EncryptAndSignCode (env\<lparr>av_now := t, av_random := nonce\<rparr>) a site code = Inr sc"
    and "t \<le> t'" "t' \<le> t + au_jwtExpiry a"
  shows "DecryptCode (env\<lparr>av_now := t'\<rparr>) a sc site = Inr code"
proof -
  let ?env = "env\<lparr>av_now := t, av_random := nonce\<rparr>"
  have "crypto_ok ?env" using assms(1) by (simp add: crypto_ok_def)
  from DecryptCode_of_encrypted [OF this assms(2), of t' site] assms(3,4)
  have "DecryptCode (?env\<lparr>av_now := t'\<rparr>) a sc site = Inr code"
    using \<open>crypto_ok ?env\<close> by (auto simp: crypto_ok_def)
  then show ?thesis by (simp add: visit_decrypt)
qed

text \<open>The pages domain sends the visitor on to GitLab and remembers the site.\<close>

lemma proxy_redirects:
  assumes "u_Path (r_URL r) = callbackPath" "query_Get r ''domain'' = site" "site \<noteq> []" "query_Get r ''state'' = state" "state \<noteq> []"
    and "url_Parse site = Some u"
    and "domainAllowed a getDomain (case SplitHostPort (u_Host u) of Some (h, _) \<Rightarrow> h | None \<Rightarrow> u_Host u)"
  shows "TryAuthenticate (visit_env env C t rnd jar) (Some a) getDomain r new_resp =
    (True, http_Redirect r (authorizeURL a state) 302 (saved C ((jar (r_Host r))(''proxy_auth_domain'' \<mapsto> site))))"
  using assms
  by (simp add: TryAuthenticate_def visit_session handleProxyingAuth_def shouldProxyAuthToGitlab_def proxy_to_gitlab_def Let_def)
     (simp add: visit_env_def)

text \<open>Back from GitLab, the pages domain sends the visitor to the site with the code encrypted for it.\<close>

lemma return_redirects:
  assumes "u_Path (r_URL r) = callbackPath" "query_Get r ''domain'' = []" "jar (r_Host r) ''proxy_auth_domain'' = Some site"
    and "EncryptAndSignCode (env\<lparr>av_now := t, av_random := rnd\<rparr>) a site (query_Get r ''code'') = Inr sc"
  shows "TryAuthenticate (visit_env env C t rnd jar) (Some a) getDomain r new_resp =
    (True, http_Redirect r (site @ callbackPath @ ''?'' @ values_Encode (values_Set ''code'' sc (values_Del ''token'' (url_Query (r_URL r))))) 302
       (saved C ((jar (r_Host r))(''proxy_auth_domain'' := None))))"
proof -
  have "EncryptAndSignCode (visit_env env C t rnd jar) a site (values_Get (url_Query (r_URL r)) ''code'') = Inr sc"
    using assms(4) by (simp add: visit_encrypt query_Get_def)
  with assms(1-3) show ?thesis
    by (simp add: TryAuthenticate_def visit_session handleProxyingAuth_def shouldProxyAuthToGitlab_def proxy_callback_def Let_def)
       (simp add: visit_env_def)
qed

text \<open>The callback of the site redeems the code and sends the visitor back to the page.\<close>

lemma callback_redirects:
  assumes "u_Path (r_URL r) = callbackPath" "query_Get r ''domain'' = []" "query_Get r ''error'' = []"
    and "jar (r_Host r) ''proxy_auth_domain'' = None" "jar (r_Host r) ''state'' = Some state" "jar (r_Host r) ''uri'' = Some uri"
    and "query_Get r ''state'' = state" "state \<noteq> []" "query_Get r ''code'' \<noteq> []"
    and "DecryptCode (env\<lparr>av_now := t\<rparr>) a (query_Get r ''code'') (getRequestDomain r) = Inr code"
    and "fetchAccessToken env a code = Inr token"
  shows "TryAuthenticate (visit_env env C t rnd jar) (Some a) getDomain r new_resp =
    (True, http_Redirect r uri 302 (saved C ((jar (r_Host r))(''access_token'' \<mapsto> token))))"
proof -
  have "DecryptCode (visit_env env C t rnd jar) a (query_Get r ''code'') (getRequestDomain r) = Inr code"
    using assms(10) by (simp add: visit_decrypt)
  moreover have "fetchAccessToken (visit_env env C t rnd jar) a code = Inr token"
    using assms(11) by (simp add: visit_fetch)
  ultimately show ?thesis using assms(1-9)
    by (simp add: TryAuthenticate_def visit_session handleProxyingAuth_def shouldProxyAuthToGitlab_def
        checkAuthenticationResponse_def validateState_def verifyCodeAndStateGiven_def Let_def)
       (simp add: visit_env_def)
qed

text \<open>With a token that GitLab accepts for the project the page is served.\<close>

lemma page_granted:
  assumes "jar (r_Host r) ''access_token'' = Some token" "url_Parse (access_url a (GetProjectID R d r)) \<noteq> None"
    and "av_Do env \<lparr>oq_Method = ''GET'', oq_URL = access_url a (GetProjectID R d r), oq_Body = [], oq_Bearer = Some token\<rparr> = Inr resp"
    and "or_StatusCode resp = 200"
  shows "CheckAuthentication (visit_env env C t rnd jar) (Some a) R d r new_resp = (False, new_resp)"
  using assms
  by (simp add: CheckAuthentication_def checkAuthentication_def checkSessionIsValid_def visit_session checkTokenExists_def
      Let_def) (simp add: visit_env_def checkResponseForInvalidToken_def)

section \<open>Properties\<close>

text \<open>C5. The login completes: a visitor without a token who asks for a protected page, follows the redirects and
  is authorised by GitLab, is sent from the site to the pages domain, to GitLab, back to the site with a
  code encrypted for it and on to the page, and then passes the access check, whatever other sessions the
  browser had, provided the code is redeemed before it expires.\<close>

theorem login_completes:
  fixes l :: login
  defines "site \<equiv> getRequestDomain (lg_page l)"
  assumes "codec_ok C" and "crypto_ok env" and "\<And>h. dom (jar h) \<subseteq> session_keys"
    and "jar (r_Host (lg_page l)) ''access_token'' = None" and "state \<noteq> []"
    \<comment> \<open>the pages domain knows the site\<close>
    and "url_Parse site = Some u"
    and "domainAllowed a getDomain (case SplitHostPort (u_Host u) of Some (h, _) \<Rightarrow> h | None \<Rightarrow> u_Host u)"
    \<comment> \<open>the requests carry the parameters of the redirects\<close>
    and "u_Path (r_URL (lg_proxy l)) = callbackPath" "query_Get (lg_proxy l) ''domain'' = site" "query_Get (lg_proxy l) ''state'' = state"
    and "u_Path (r_URL (lg_return l)) = callbackPath" "query_Get (lg_return l) ''domain'' = []" "query_Get (lg_return l) ''code'' = code"
      "r_Host (lg_return l) = r_Host (lg_proxy l)"
    and "u_Path (r_URL (lg_callback l)) = callbackPath" "query_Get (lg_callback l) ''domain'' = []" "query_Get (lg_callback l) ''error'' = []"
      "query_Get (lg_callback l) ''state'' = state" "query_Get (lg_callback l) ''code'' = sc" "sc \<noteq> []"
      "r_Host (lg_callback l) = r_Host (lg_page l)" "getRequestDomain (lg_callback l) = site"
    \<comment> \<open>the code is encrypted in time, GitLab exchanges it and grants access\<close>
    and "EncryptAndSignCode (env\<lparr>av_now := t, av_random := nonce\<rparr>) a site code = Inr sc"
    and "t \<le> t'" "t' \<le> t + au_jwtExpiry a" and "fetchAccessToken env a code = Inr token"
    and "url_Parse (access_url a (GetProjectID R d (lg_page l))) \<noteq> None" and "or_StatusCode resp = 200"
    and "av_Do env \<lparr>oq_Method = ''GET'', oq_URL = access_url a (GetProjectID R d (lg_page l)), oq_Body = [], oq_Bearer = Some token\<rparr> = Inr resp"
  shows "\<exists>ws. login_run env C a R d getDomain state nonce t t' l jar = (ws, False, new_resp) \<and>
    map (\<lambda>w. sent_header w ''Location'') ws = map (\<lambda>(r, target). Some [hexEscapeNonASCII (redirect_target (u_Path (r_URL r)) target)])
      [(lg_page l, getProxyAddress a (lg_page l) state), (lg_proxy l, authorizeURL a state),
       (lg_return l, site @ callbackPath @ ''?'' @ values_Encode (values_Set ''code'' sc (values_Del ''token'' (url_Query (r_URL (lg_return l)))))),
       (lg_callback l, getRequestAddress (lg_page l))]"
proof -
  let ?H = "r_Host (lg_page l)" and ?P = "r_Host (lg_proxy l)" and ?q = "url_Query (r_URL (lg_return l))"
  let ?return = "site @ callbackPath @ ''?'' @ values_Encode (values_Set ''code'' sc (values_Del ''token'' ?q))"
  have site: "site \<noteq> []" by (simp add: site_def getRequestDomain_def)
  note keys = session_keys_def
  define v1 where "v1 = (jar ?H)(''state'' \<mapsto> state, ''uri'' \<mapsto> getRequestAddress (lg_page l), ''proxy_auth_domain'' := None)"
  define jar1 where "jar1 = jar(?H := v1)"
  define jar2 where "jar2 = jar1(?P := (jar1 ?P)(''proxy_auth_domain'' \<mapsto> site))"
  define jar3 where "jar3 = jar2(?P := (jar2 ?P)(''proxy_auth_domain'' := None))"
  define jar4 where "jar4 = jar3(?H := (jar3 ?H)(''access_token'' \<mapsto> token))"
  have d: "dom (jar h) \<subseteq> session_keys" "dom (jar1 h) \<subseteq> session_keys" "dom (jar2 h) \<subseteq> session_keys" "dom (jar3 h) \<subseteq> session_keys" for h
    using assms(4) [of h] assms(4) [of ?H] assms(4) [of ?P]
    by (auto simp: jar1_def jar2_def jar3_def v1_def keys split: if_split_asm)
  have dec: "DecryptCode (env\<lparr>av_now := t'\<rparr>) a sc site = Inr code"
    by (rule decrypt_in_time [OF assms(3) assms(24-26)])
  have w1: "CheckAuthentication (visit_env env C t state jar) (Some a) R d (lg_page l) new_resp =
      (True, http_Redirect (lg_page l) (getProxyAddress a (lg_page l) state) 302 (saved C v1))"
    unfolding v1_def by (rule page_redirects) (rule assms(5))
  have r1: "receive C ?H (http_Redirect (lg_page l) (getProxyAddress a (lg_page l) state) 302 (saved C v1)) jar = jar1"
    using receive_redirect [OF assms(2) d(2) [of ?H]] by (simp add: jar1_def)
  have w2: "TryAuthenticate (visit_env env C t nonce jar1) (Some a) getDomain (lg_proxy l) new_resp =
      (True, http_Redirect (lg_proxy l) (authorizeURL a state) 302 (saved C (jar2 ?P)))"
    using proxy_redirects [OF assms(9,10) site assms(11,6,7,8)] by (simp add: jar2_def)
  have r2: "receive C ?P (http_Redirect (lg_proxy l) (authorizeURL a state) 302 (saved C (jar2 ?P))) jar1 = jar2"
    using receive_redirect [OF assms(2) d(3) [of ?P]] by (simp add: jar2_def)
  have w3: "TryAuthenticate (visit_env env C t nonce jar2) (Some a) getDomain (lg_return l) new_resp =
      (True, http_Redirect (lg_return l) ?return 302 (saved C (jar3 ?P)))"
    using return_redirects [where jar = jar2 and r = "lg_return l" and site = site and env = env, OF assms(12,13) _ assms(24) [folded assms(14)]]
    by (simp add: assms(15)) (simp add: jar2_def jar3_def)
  have r3: "receive C ?P (http_Redirect (lg_return l) ?return 302 (saved C (jar3 ?P))) jar2 = jar3"
    using receive_redirect [OF assms(2) d(4) [of ?P]] by (simp add: jar3_def)
  have "jar3 ?H ''proxy_auth_domain'' = None" "jar3 ?H ''state'' = Some state" "jar3 ?H ''uri'' = Some (getRequestAddress (lg_page l))"
    by (auto simp: jar1_def jar2_def jar3_def v1_def)
  from callback_redirects [OF assms(16-18), of jar3 state, unfolded assms(19,20,22,23), OF this refl assms(6) assms(21) dec assms(27)]
  have w4: "TryAuthenticate (visit_env env C t' nonce jar3) (Some a) getDomain (lg_callback l) new_resp =
      (True, http_Redirect (lg_callback l) (getRequestAddress (lg_page l)) 302 (saved C (jar4 ?H)))"
    by (simp add: jar4_def)
  have r4: "receive C ?H (http_Redirect (lg_callback l) (getRequestAddress (lg_page l)) 302 (saved C (jar4 ?H))) jar3 = jar4"
    using receive_redirect [OF assms(2), of "jar4 ?H"] d(4) [of ?H] by (auto simp: jar4_def keys)
  have w5: "CheckAuthentication (visit_env env C t' nonce jar4) (Some a) R d (lg_page l) new_resp = (False, new_resp)"
    by (rule page_granted [OF _ assms(28) assms(30) assms(29)]) (simp add: jar4_def)
  show ?thesis
    unfolding login_run_def Let_def w1 snd_conv r1 w2 r2 w3 assms(15) r3 w4 assms(22) r4 w5
    by (simp add: http_Redirect_Location)
qed

section \<open>Witness\<close>

text \<open>A codec that writes the fields of a session one after the other.\<close>

fun take_key :: "string \<Rightarrow> string \<times> string" where
  "take_key (c # s) =
     (if c = CHR 0x01 then (case s of d # s' \<Rightarrow> (d # fst (take_key s'), snd (take_key s')) | [] \<Rightarrow> ([], [])) else ([], s))"
| "take_key [] = ([], [])"

lemma take_key_demo: "take_key (demo_key x @ r) = (x, r)"
  by (induction x) (simp_all add: demo_key_def)

fun read_fields :: "string list \<Rightarrow> string \<Rightarrow> (string \<rightharpoonup> string)" where
  "read_fields (k # ks) (c # s) =
     (if c = CHR 0x03 then (read_fields ks (snd (take_key s)))(k \<mapsto> fst (take_key s)) else read_fields ks s)"
| "read_fields _ _ = Map.empty"

definition write_fields :: "string list \<Rightarrow> (string \<rightharpoonup> string) \<Rightarrow> string" where
  "write_fields ks v = concat (map (\<lambda>k. case v k of None \<Rightarrow> [CHR 0x02] | Some x \<Rightarrow> CHR 0x03 # demo_key x) ks)"

lemma read_write_fields: "distinct ks \<Longrightarrow> read_fields ks (write_fields ks v) = v |` set ks"
proof (induction ks)
  case (Cons k ks)
  have "write_fields (k # ks) v = (case v k of None \<Rightarrow> [CHR 0x02] | Some x \<Rightarrow> CHR 0x03 # demo_key x) @ write_fields ks v"
    by (simp add: write_fields_def)
  with Cons show ?case
    by (cases "v k") (auto simp: take_key_demo fun_eq_iff restrict_map_def)
qed simp

definition demo_keys :: "string list" where
  "demo_keys = [''access_token'', ''state'', ''uri'', ''proxy_auth_domain'']"

definition demo_codec :: cookie_codec where
  "demo_codec = \<lparr>ck_encode = write_fields demo_keys, ck_decode = read_fields demo_keys\<rparr>"

lemma demo_codec_ok: "codec_ok demo_codec"
proof -
  have "v |` session_keys = v" if "dom v \<subseteq> session_keys" for v :: "string \<rightharpoonup> string"
    using that unfolding restrict_map_def by (intro ext) (metis domIff subsetD)
  moreover have "distinct demo_keys" "set demo_keys = session_keys" by (auto simp: demo_keys_def session_keys_def)
  ultimately show ?thesis by (simp add: codec_ok_def demo_codec_def read_write_fields)
qed

definition demo_login :: login where
  "demo_login =
     (let get = (\<lambda>host path query. (demo_request [])\<lparr>r_Host := host, r_URL := empty_url\<lparr>u_Path := path, u_RawQuery := query\<rparr>\<rparr>)
      in \<lparr>lg_page = get ''a.io'' ''/'' [], lg_proxy = get ''example.com'' ''/auth'' ''domain=http://a.io&state=x'',
          lg_return = get ''example.com'' ''/auth'' ''code=c&state=x'', lg_callback = get ''a.io'' ''/auth'' ''code=tok&state=x''\<rparr>)"

theorem login_completes_witness:
  "\<exists>ws. login_run (demo_auth_env 200) demo_codec demo_auth (\<lambda>_ _. Inl ErrDomainDoesNotExist) (None :: unit domain option)
     (\<lambda>_. Inr (Some ())) ''x'' ''n'' 0 second demo_login (\<lambda>_. Map.empty) = (ws, False, new_resp)"
proof -
  let ?l = demo_login
  have site: "getRequestDomain (lg_page ?l) = ''http://a.io''" by code_simp
  have "url_Parse ''http://a.io'' \<noteq> None" by code_simp
  then obtain u where u: "url_Parse (getRequestDomain (lg_page ?l)) = Some u" unfolding site by auto
  have al: "domainAllowed demo_auth (\<lambda>_. Inr (Some ())) h" for h by (simp add: domainAllowed_def)
  have q: "u_Path (r_URL (lg_proxy ?l)) = callbackPath" "query_Get (lg_proxy ?l) ''domain'' = getRequestDomain (lg_page ?l)"
    "query_Get (lg_proxy ?l) ''state'' = ''x''"
    "u_Path (r_URL (lg_return ?l)) = callbackPath" "query_Get (lg_return ?l) ''domain'' = []" "query_Get (lg_return ?l) ''code'' = ''c''"
    "r_Host (lg_return ?l) = r_Host (lg_proxy ?l)"
    "u_Path (r_URL (lg_callback ?l)) = callbackPath" "query_Get (lg_callback ?l) ''domain'' = []" "query_Get (lg_callback ?l) ''error'' = []"
    "query_Get (lg_callback ?l) ''state'' = ''x''" "query_Get (lg_callback ?l) ''code'' = ''tok''"
    "r_Host (lg_callback ?l) = r_Host (lg_page ?l)" "getRequestDomain (lg_callback ?l) = getRequestDomain (lg_page ?l)"
    by code_simp+
  have e: "EncryptAndSignCode ((demo_auth_env 200)\<lparr>av_now := 0, av_random := ''n''\<rparr>) demo_auth (getRequestDomain (lg_page ?l)) ''c'' = Inr ''tok''"
    using demo_encrypted [of 200] unfolding site by (simp add: demo_auth_env_def)
  have f: "fetchAccessToken (demo_auth_env 200) demo_auth ''c'' = Inr ''t''" by code_simp
  have p: "url_Parse (access_url demo_auth (GetProjectID (\<lambda>_ _. Inl ErrDomainDoesNotExist) (None :: unit domain option) (lg_page ?l))) \<noteq> None"
    by code_simp
  have i: "dom (Map.empty :: string \<rightharpoonup> string) \<subseteq> session_keys" "(Map.empty :: string \<rightharpoonup> string) ''access_token'' = None"
    "''x'' \<noteq> []" "''tok'' \<noteq> []" "(0 :: int) \<le> second" "second \<le> 0 + au_jwtExpiry demo_auth"
    by (simp_all add: demo_auth_def)
  have g: "av_Do (demo_auth_env 200) rq = Inr \<lparr>or_StatusCode = 200, or_Body = []\<rparr>" for rq by (simp add: demo_auth_env_def)
  have "or_StatusCode \<lparr>or_StatusCode = 200, or_Body = []\<rparr> = 200" by simp
  note run = login_completes [OF demo_codec_ok demo_crypto(1) i(1,2,3) u al q(1-12) i(4) q(13,14) e i(5,6) f p this g]
  from run show ?thesis by blast
qed

end
