(* ===== verification/Zip_Serving.thy ===== *)
theory Zip_Serving
  imports Zip_Vfs Disk_Serving
begin

text \<open>
  Serving a site from an archive: the serving of \<^verbatim>\<open>internal/serving/disk\<close> on the roots that the file system of
  zip archives hands out, under every interleaving of its requests.
\<close>

section \<open>Files of an archive\<close>

lemma zip_serveFile_cases:
  assumes "za_files a = fst (add_entries entries)"
  shows "(\<exists>w0. snd (serveFile senv q (zip_root Do inflate resource a) p ac w) = serveErrorPage content500 w0) \<or>
    (\<exists>e off f fi w0. e \<in> set entries \<and> HasPrefix (zf_Name e) dirPrefix \<and> fi_mode (zf_info e) = ModeRegular \<and>
       zf_Name e \<in> (\<lambda>ext. path_Clean (dirPrefix @ p @ ext)) ` {[], ''.br'', ''.gz''} \<and>
       zf_DataOffset e = Inr off \<and> open_at Do inflate resource e off = Inr f \<and>
       snd (serveFile senv q (zip_root Do inflate resource a) p ac w) = serve_open_file senv q p fi f w0)"
  using vfs_root_ops.serveFile_regular [OF zip_ops.vfs_root_ops_axioms [of Do inflate resource a], of senv q p ac w]
proof (elim disjE exE conjE)
  fix p' f fi w0
  assume o: "rt_Open (zip_root Do inflate resource a) p' = Inr f" and p: "p' \<in> {p, p @ ''.br'', p @ ''.gz''}"
    and s: "snd (serveFile senv q (zip_root Do inflate resource a) p ac w) = serve_open_file senv q p fi f w0"
  from zip_Open_entry [OF assms o] obtain e off where e: "e \<in> set entries" "zf_Name e = path_Clean (dirPrefix @ p')"
    "HasPrefix (zf_Name e) dirPrefix" "fi_mode (zf_info e) = ModeRegular" "zf_DataOffset e = Inr off"
    "open_at Do inflate resource e off = Inr f" by blast
  then have "zf_Name e \<in> (\<lambda>ext. path_Clean (dirPrefix @ p @ ext)) ` {[], ''.br'', ''.gz''}" using p by auto
  with e s show ?thesis by blast
qed blast

section \<open>Properties\<close>

text \<open>C24. A site served from an archive shows nothing but that archive: whatever requests, refreshes, changes and
  reconfigurations interleave, a file served from a root that was handed out for a path is a regular entry
  below \<^verbatim>\<open>public/\<close>, in a zip directory that was read from a resource with the key of that path; its name is the cleaned
  path of the file or of its compressed variant.  Everything else is a redirect, the status of the
  redirect rules or an error.\<close>

theorem zip_site_content:
  assumes "archive_store C" and "zip_reachable C env fs" and "zv_clients fs i = Returned path (Inr x)" and "zv_heap fs x = Some a"
    and "lp_Path (h_LookupPath h) = path" and "roots path = Inr (zip_root Do inflate resource a)"
    and "tryFile senv roots h w = (True, w')"
  shows "w' = http_Redirect (h_Request h) (redirectPath (h_Request h)) 302 w \<or>
    w' = serveRedirectsStatus (ParseRedirects (e_netlify senv) (zip_root Do inflate resource a)) w \<or> w' = WriteHeader 403 w \<or>
    (\<exists>w0. w' = serveErrorPage content500 w0) \<or>
    (\<exists>key Do0 newReader r entries changed e p off f fi w0. keyFromPath path = Inr key \<and>
       env Do0 newReader \<and> resource_read env key r \<and> newReader r = (Inr entries, changed) \<and>
       e \<in> set entries \<and> HasPrefix (zf_Name e) dirPrefix \<and> fi_mode (zf_info e) = ModeRegular \<and>
       zf_Name e \<in> (\<lambda>ext. path_Clean (dirPrefix @ p @ ext)) ` {[], ''.br'', ''.gz''} \<and>
       zf_DataOffset e = Inr off \<and> open_at Do inflate resource e off = Inr f \<and>
       w' = serve_open_file senv (h_Request h) p fi f w0)"
proof -
  let ?rt = "zip_root Do inflate resource a"
  have rt: "roots (lp_Path (h_LookupPath h)) = Inr ?rt" using assms(5,6) by simp
  obtain key where key: "keyFromPath path = Inr key" "archive_read env key a"
    using returned_archive_read [OF assms(1-3)] assms(4) by auto
  then obtain Do0 newReader r entries changed where r: "env Do0 newReader" "resource_read env key r"
    "newReader r = (Inr entries, changed)" "za_files a = fst (add_entries entries)" unfolding archive_read_def by blast
  from tryFile_answers [OF rt assms(7)] consider
      "w' = http_Redirect (h_Request h) (redirectPath (h_Request h)) 302 w"
    | "w' = serveRedirectsStatus (ParseRedirects (e_netlify senv) ?rt) w" | "w' = WriteHeader 403 w"
    | p where "w' = snd (serveFile senv (h_Request h) ?rt p (lp_HasAccessControl (h_LookupPath h)) w)" by blast
  then show ?thesis
  proof cases
    case 4
    from zip_serveFile_cases [OF r(4), of senv "h_Request h" Do inflate resource p "lp_HasAccessControl (h_LookupPath h)" w] show ?thesis
    proof (elim disjE exE conjE)
      fix e off f fi w0
      assume e: "e \<in> set entries" "HasPrefix (zf_Name e) dirPrefix" "fi_mode (zf_info e) = ModeRegular"
        "zf_Name e \<in> (\<lambda>ext. path_Clean (dirPrefix @ p @ ext)) ` {[], ''.br'', ''.gz''}"
        "zf_DataOffset e = Inr off" "open_at Do inflate resource e off = Inr f"
        "snd (serveFile senv (h_Request h) ?rt p (lp_HasAccessControl (h_LookupPath h)) w) = serve_open_file senv (h_Request h) p fi f w0"
      show ?thesis using key(1) r(1,2,3) e 4 by (intro disjI2 exI conjI) (assumption | simp)+
    qed (use 4 in blast)
  qed simp_all
qed

section \<open>Witness\<close>

lemma zip_root_files:
  assumes "za_files a = za_files b" "za_directories a = za_directories b"
  shows "zip_root Do inflate resource a = zip_root Do inflate resource b"
  unfolding zip_root_def zip_Lstat_def zip_readlink_with_def zip_open_with_def findFile_def findDirectory_def fun_eq_iff assms by simp

declare read_full.simps [code]

definition demo_zip_handler :: serving_handler where
  "demo_zip_handler = (demo_handler ''x.html'')\<lparr>h_LookupPath := demo_lookup\<lparr>lp_Path := ''http://s/a.zip?sig=1''\<rparr>\<rparr>"

lemma demo_zip_served:
  "fst (tryFile (demo_env []) (\<lambda>_. Inr demo_zip_root) demo_zip_handler new_resp)"
  "rw_status (snd (tryFile (demo_env []) (\<lambda>_. Inr demo_zip_root) demo_zip_handler new_resp)) = Some 200"
  "rw_body (snd (tryFile (demo_env []) (\<lambda>_. Inr demo_zip_root) demo_zip_handler new_resp)) = [FileBytes ''34567'']"
  by code_simp+

theorem zip_site_content_witness:
  "\<exists>(fs :: map_cache zipVFS) a w'. zip_reachable map_cache_ops demo_zip_env fs \<and> zv_clients fs 0 = Returned ''http://s/a.zip?sig=1'' (Inr 1) \<and>
     zv_heap fs 1 = Some a \<and> rw_body w' = [FileBytes ''34567''] \<and>
     tryFile (demo_env []) (\<lambda>_. Inr (zip_root demo_range_server id demo_resource a)) demo_zip_handler new_resp = (True, w') \<and>
     (\<exists>entries e p off f fi w0. e \<in> set entries \<and> HasPrefix (zf_Name e) dirPrefix \<and>
        open_at demo_range_server id demo_resource e off = Inr f \<and> w' = serve_open_file (demo_env []) (h_Request demo_zip_handler) p fi f w0)"
proof -
  let ?p = "''http://s/a.zip?sig=1''" and ?C = "map_cache_ops :: map_cache go_cache"
  let ?w = "snd (tryFile (demo_env []) (\<lambda>_. Inr demo_zip_root) demo_zip_handler new_resp)"
  have k: "keyFromPath ?p = Inr ''http://s/a.zip''" by code_simp
  have "case NewResource demo_zip_server ?p of Inr _ \<Rightarrow> True | Inl _ \<Rightarrow> False" by code_simp
  then obtain r where "NewResource demo_zip_server ?p = Inr r" by (auto split: sum.splits)
  from demo_zip_run [OF k this] obtain fs where fs: "zip_reachable ?C demo_zip_env fs" "zv_clients fs 0 = Returned ?p (Inr 1)" by blast
  from returned_archive_read [OF map_archives.archive_store_axioms fs] obtain a where a: "zv_heap fs 1 = Some a"
    "za_files a = fst (add_entries demo_entries)" "za_directories a = snd (add_entries demo_entries)"
    by (auto simp: archive_read_def demo_zip_env_def demo_new_reader_def)
  have root: "zip_root demo_range_server id demo_resource a = demo_zip_root"
    by (rule zip_root_files) (simp_all add: a(2,3) demo_archive_def)
  have t: "tryFile (demo_env []) (\<lambda>_. Inr (zip_root demo_range_server id demo_resource a)) demo_zip_handler new_resp = (True, ?w)"
    unfolding root using demo_zip_served(1) by (simp add: prod_eq_iff)
  have l: "lp_Path (h_LookupPath demo_zip_handler) = ?p" by (simp add: demo_zip_handler_def)
  note served = zip_site_content [OF map_archives.archive_store_axioms fs a(1) l refl t]
  have "\<exists>entries e p off f fi w0. e \<in> set entries \<and> HasPrefix (zf_Name e) dirPrefix \<and>
      open_at demo_range_server id demo_resource e off = Inr f \<and> ?w = serve_open_file (demo_env []) (h_Request demo_zip_handler) p fi f w0"
    using served file_not_other_answer [OF demo_zip_served(3,2)] by blast
  with fs a(1) t demo_zip_served(3) show ?thesis by blast
qed

end
