(* ===== verification/Zip_Gauges.thy ===== *)
theory Zip_Gauges
  imports Zip_Vfs
begin

text \<open>
  The gauges of the zip file system: \<^verbatim>\<open>ZipCachedEntries\<close> counts the cached archives, \<^verbatim>\<open>ZipArchiveEntriesCached\<close> the files in
  them.  They are moved by the callback of the cache (\<^verbatim>\<open>resetCache\<close> in \<^verbatim>\<open>internal/vfs/zip/vfs.go\<close>, \<^verbatim>\<open>onEvicted\<close> in
  \<^verbatim>\<open>archive.go\<close>), by \<^verbatim>\<open>findOrCreateArchive\<close> and at the end of \<^verbatim>\<open>readArchive\<close>.  The theory follows them over any
  interleaving of creation, reading, eviction and reconfiguration.
\<close>

section \<open>State and operations\<close>

text \<open>\<open>zg_files\<close> is \<^verbatim>\<open>len(a.files)\<close> of an archive, \<open>zg_read\<close> the archives whose reading has ended.\<close>

record zip_gauges =
  zg_items :: "string \<rightharpoonup> nat"
  zg_next :: nat
  zg_files :: "nat \<Rightarrow> nat"
  zg_read :: "nat set"
  zg_cached :: int
  zg_entries :: int

definition new_gauges :: zip_gauges where
  "new_gauges = \<lparr>zg_items = Map.empty, zg_next = 0, zg_files = (\<lambda>_. 0), zg_read = {}, zg_cached = 0, zg_entries = 0\<rparr>"

definition archive_onEvicted :: "nat \<Rightarrow> zip_gauges \<Rightarrow> zip_gauges" where
  "archive_onEvicted x s = s\<lparr>zg_entries := zg_entries s - int (zg_files s x)\<rparr>"

definition cache_OnEvicted :: "nat \<Rightarrow> zip_gauges \<Rightarrow> zip_gauges" where
  "cache_OnEvicted x s = archive_onEvicted x (s\<lparr>zg_cached := zg_cached s - 1\<rparr>)"

text \<open>An item leaves the cache, deleted or expired.\<close>

definition evict :: "string \<Rightarrow> zip_gauges \<Rightarrow> zip_gauges" where
  "evict key s =
     (case zg_items s key of None \<Rightarrow> s | Some x \<Rightarrow> cache_OnEvicted x (s\<lparr>zg_items := (zg_items s)(key := None)\<rparr>))"

definition count_created :: "string \<Rightarrow> zip_gauges \<Rightarrow> zip_gauges" where
  "count_created key s =
     (let s = evict key s
      in s\<lparr>zg_items := (zg_items s)(key \<mapsto> zg_next s), zg_next := zg_next s + 1, zg_cached := zg_cached s + 1\<rparr>)"

text \<open>Reading ends: with \<open>n\<close> files, or with an error.\<close>

definition count_read :: "nat \<Rightarrow> nat option \<Rightarrow> zip_gauges \<Rightarrow> zip_gauges" where
  "count_read x res s =
     (case res of
        None \<Rightarrow> s\<lparr>zg_read := insert x (zg_read s)\<rparr>
      | Some n \<Rightarrow> s\<lparr>zg_read := insert x (zg_read s), zg_files := (zg_files s)(x := n), zg_entries := zg_entries s + int n\<rparr>)"

text \<open>A new cache takes the place of the old one, whose items are not evicted.\<close>

definition count_reset :: "zip_gauges \<Rightarrow> zip_gauges" where
  "count_reset s = s\<lparr>zg_items := Map.empty\<rparr>"

text \<open>\<open>calm\<close>: archives are evicted only after they were read, and only an empty cache is replaced.\<close>

inductive gauges_reachable :: "bool \<Rightarrow> zip_gauges \<Rightarrow> bool" for calm where
  gr_new: "gauges_reachable calm new_gauges"
| gr_created: "gauges_reachable calm s \<Longrightarrow> (calm \<Longrightarrow> set_option (zg_items s key) \<subseteq> zg_read s) \<Longrightarrow>
    gauges_reachable calm (count_created key s)"
| gr_read: "gauges_reachable calm s \<Longrightarrow> x < zg_next s \<Longrightarrow> x \<notin> zg_read s \<Longrightarrow> gauges_reachable calm (count_read x res s)"
| gr_evicted: "gauges_reachable calm s \<Longrightarrow> (calm \<Longrightarrow> set_option (zg_items s key) \<subseteq> zg_read s) \<Longrightarrow>
    gauges_reachable calm (evict key s)"
| gr_reset: "gauges_reachable calm s \<Longrightarrow> (calm \<Longrightarrow> zg_items s = Map.empty) \<Longrightarrow> gauges_reachable calm (count_reset s)"

section \<open>What the gauges should show\<close>

definition cached_files :: "zip_gauges \<Rightarrow> int" where
  "cached_files s = (\<Sum>k \<in> dom (zg_items s). int (zg_files s (the (zg_items s k))))"

definition gauges_inv :: "bool \<Rightarrow> zip_gauges \<Rightarrow> bool" where
  "gauges_inv calm s \<longleftrightarrow>
     finite (dom (zg_items s)) \<and> inj_on (zg_items s) (dom (zg_items s)) \<and> ran (zg_items s) \<subseteq> {..<zg_next s} \<and>
     (\<forall>x. x \<notin> zg_read s \<longrightarrow> zg_files s x = 0) \<and> zg_read s \<subseteq> {..<zg_next s} \<and>
     int (card (dom (zg_items s))) \<le> zg_cached s \<and> cached_files s \<le> zg_entries s \<and>
     (calm \<longrightarrow> zg_cached s = int (card (dom (zg_items s))) \<and> zg_entries s = cached_files s \<and>
        {..<zg_next s} - zg_read s \<subseteq> ran (zg_items s))"

lemma evict_inv:
  assumes "gauges_inv calm s" "calm \<Longrightarrow> set_option (zg_items s key) \<subseteq> zg_read s"
  shows "gauges_inv calm (evict key s)"
proof (cases "zg_items s key")
  case (Some x)
  let ?m = "zg_items s"
  have d: "dom (?m(key := None)) = dom ?m - {key}" "key \<in> dom ?m" "finite (dom ?m)" using Some assms(1) by (auto simp: gauges_inv_def)
  have c: "int (card (dom ?m - {key})) = int (card (dom ?m)) - 1" using d(2,3) card_gt_0_iff [of "dom ?m"] by (subst card_Diff_singleton) auto
  have f: "cached_files (evict key s) = cached_files s - int (zg_files s x)"
  proof -
    have "cached_files s = int (zg_files s x) + (\<Sum>k \<in> dom ?m - {key}. int (zg_files s (the (?m k))))"
      unfolding cached_files_def using sum.remove [OF d(3,2), of "\<lambda>k. int (zg_files s (the (?m k)))"] Some by simp
    moreover have "(\<Sum>k \<in> dom ?m - {key}. int (zg_files s (the ((?m(key := None)) k)))) = (\<Sum>k \<in> dom ?m - {key}. int (zg_files s (the (?m k))))"
      by (rule sum.cong) auto
    ultimately show ?thesis using Some d(1) by (simp add: cached_files_def evict_def cache_OnEvicted_def archive_onEvicted_def)
  qed
  have i: "inj_on (?m(key := None)) (dom ?m - {key})" "ran (?m(key := None)) \<subseteq> ran ?m"
    using assms(1) by (auto simp: gauges_inv_def inj_on_def ran_def split: if_split_asm)
  have r: "{..<zg_next s} - zg_read s \<subseteq> ran (?m(key := None))" if cl: calm
  proof
    fix y assume y: "y \<in> {..<zg_next s} - zg_read s"
    then obtain k where k: "?m k = Some y" using assms(1) cl by (auto simp: gauges_inv_def ran_def)
    then have "k \<noteq> key" using y assms(2) cl by auto
    then show "y \<in> ran (?m(key := None))" using k by (auto simp: ran_def)
  qed
  have e: "zg_items (evict key s) = ?m(key := None)" "zg_next (evict key s) = zg_next s" "zg_files (evict key s) = zg_files s"
    "zg_read (evict key s) = zg_read s" "zg_cached (evict key s) = zg_cached s - 1" "zg_entries (evict key s) = zg_entries s - int (zg_files s x)"
    using Some by (simp_all add: evict_def cache_OnEvicted_def archive_onEvicted_def)
  show ?thesis using assms(1) i r unfolding gauges_inv_def e f d(1) c by auto
qed (use assms in \<open>simp add: evict_def\<close>)

lemma created_inv:
  assumes "gauges_inv calm s" "zg_items s key = None"
  shows "gauges_inv calm (s\<lparr>zg_items := (zg_items s)(key \<mapsto> zg_next s), zg_next := zg_next s + 1, zg_cached := zg_cached s + 1\<rparr>)"
    (is "gauges_inv calm ?t")
proof -
  let ?m = "zg_items s"
  have new: "key \<notin> dom ?m" "finite (dom ?m)" "zg_next s \<notin> ran ?m" "zg_files s (zg_next s) = 0" using assms by (auto simp: gauges_inv_def)
  have "cached_files ?t = cached_files s"
  proof -
    have "(\<Sum>k \<in> dom ?m. int (zg_files s (the ((?m(key \<mapsto> zg_next s)) k)))) = (\<Sum>k \<in> dom ?m. int (zg_files s (the (?m k))))"
      using new(1) by (intro sum.cong) auto
    then show ?thesis using new by (simp add: cached_files_def)
  qed
  moreover have "inj_on (?m(key \<mapsto> zg_next s)) (insert key (dom ?m))"
    using assms(1) new(3) by (auto simp: gauges_inv_def inj_on_def ran_def)
  moreover have "ran (?m(key \<mapsto> zg_next s)) = insert (zg_next s) (ran ?m)" using assms(2) by simp
  moreover have "{..<zg_next s + 1} - zg_read s \<subseteq> insert (zg_next s) ({..<zg_next s} - zg_read s)" by auto
  ultimately show ?thesis using assms(1) new(1,2) unfolding gauges_inv_def by auto
qed

lemma read_files:
  assumes "gauges_inv calm s" "x \<notin> zg_read s"
  shows "cached_files (s\<lparr>zg_files := (zg_files s)(x := n)\<rparr>) = cached_files s + (if x \<in> ran (zg_items s) then int n else 0)"
proof (cases "x \<in> ran (zg_items s)")
  case True
  let ?m = "zg_items s"
  obtain key where key: "?m key = Some x" using True by (auto simp: ran_def)
  have "finite (dom ?m)" "key \<in> dom ?m" using assms(1) key by (auto simp: gauges_inv_def)
  note split = sum.remove [OF this]
  have other: "the (?m k) \<noteq> x" if "k \<in> dom ?m - {key}" for k
    using that key assms(1) unfolding gauges_inv_def inj_on_def by (metis DiffE domD domI option.sel singletonI)
  have "(\<Sum>k \<in> dom ?m - {key}. int (((zg_files s)(x := n)) (the (?m k)))) = (\<Sum>k \<in> dom ?m - {key}. int (zg_files s (the (?m k))))"
    using other by (intro sum.cong) auto
  moreover have "zg_files s x = 0" using assms by (simp add: gauges_inv_def)
  ultimately show ?thesis
    using split [of "\<lambda>k. int (((zg_files s)(x := n)) (the (?m k)))"] split [of "\<lambda>k. int (zg_files s (the (?m k)))"] key True
    by (simp add: cached_files_def)
next
  case False
  then have "(\<Sum>k \<in> dom (zg_items s). int (((zg_files s)(x := n)) (the (zg_items s k)))) = cached_files s"
    unfolding cached_files_def by (intro sum.cong) (auto simp: ran_def)
  then show ?thesis using False by (simp add: cached_files_def)
qed

lemma read_inv:
  assumes "gauges_inv calm s" "x < zg_next s" "x \<notin> zg_read s"
  shows "gauges_inv calm (count_read x res s)"
proof (cases res)
  case None
  then show ?thesis using assms by (auto simp: gauges_inv_def count_read_def cached_files_def)
next
  case (Some n)
  have "cached_files (count_read x res s) = cached_files s + (if x \<in> ran (zg_items s) then int n else 0)"
    using read_files [OF assms(1,3), of n] Some by (simp add: count_read_def cached_files_def)
  moreover have "calm \<longrightarrow> x \<in> ran (zg_items s)" using assms by (auto simp: gauges_inv_def)
  ultimately show ?thesis using assms Some by (auto simp: gauges_inv_def count_read_def)
qed

lemma gauges_reachable_inv: "gauges_reachable calm s \<Longrightarrow> gauges_inv calm s"
proof (induction rule: gauges_reachable.induct)
  case gr_new
  then show ?case by (simp add: new_gauges_def gauges_inv_def cached_files_def)
next
  case (gr_created s key)
  have "zg_items (evict key s) key = None"
    by (simp add: evict_def cache_OnEvicted_def archive_onEvicted_def split: option.splits)
  from created_inv [OF evict_inv [OF gr_created.IH gr_created.hyps(2)] this] show ?case by (simp add: count_created_def Let_def)
next
  case (gr_read s x res)
  then show ?case using read_inv by blast
next
  case (gr_evicted s key)
  then show ?case using evict_inv by blast
next
  case (gr_reset s)
  have "0 \<le> cached_files s" by (simp add: cached_files_def sum_nonneg)
  with gr_reset show ?case by (auto simp: gauges_inv_def count_reset_def cached_files_def)
qed

section \<open>Properties\<close>

text \<open>The gauges of the archives never show less than the cache holds; and they are exact as long as no archive leaves
  the cache while it is being read and no cache with items is replaced.\<close>

theorem zip_gauges_exact:
  assumes "gauges_reachable calm s"
  shows "int (card (dom (zg_items s))) \<le> zg_cached s \<and> cached_files s \<le> zg_entries s \<and>
    (calm \<longrightarrow> zg_cached s = int (card (dom (zg_items s))) \<and> zg_entries s = cached_files s)"
  using gauges_reachable_inv [OF assms] by (auto simp: gauges_inv_def)

text \<open>Otherwise they drift for good: an archive that expires while it is being read has its files added and never taken
  away, and the archives of a cache that is replaced are counted for ever.\<close>

lemma evicted_while_reading:
  "\<exists>s. gauges_reachable False s \<and> zg_items s = Map.empty \<and> zg_cached s = 0 \<and> zg_entries s = int n"
proof -
  let ?s = "count_read 0 (Some n) (evict ''k'' (count_created ''k'' new_gauges))"
  have s: "?s = \<lparr>zg_items = Map.empty, zg_next = 1, zg_files = (\<lambda>_. 0)(0 := n), zg_read = {0}, zg_cached = 0, zg_entries = int n\<rparr>"
    by (simp add: new_gauges_def count_created_def count_read_def evict_def cache_OnEvicted_def archive_onEvicted_def)
  have "gauges_reachable False ?s"
    by (rule gr_read, rule gr_evicted, rule gr_created, rule gr_new)
      (simp_all add: new_gauges_def count_created_def evict_def cache_OnEvicted_def archive_onEvicted_def)
  then show ?thesis unfolding s by (intro exI conjI) (assumption, simp_all)
qed

lemma reset_keeps_gauges:
  "\<exists>s. gauges_reachable False s \<and> zg_items s = Map.empty \<and> zg_cached s = 1"
proof -
  have "gauges_reachable False (count_reset (count_created ''k'' new_gauges))"
    by (rule gr_reset, rule gr_created, rule gr_new) simp_all
  then show ?thesis
    by (rule exI [of _ "count_reset (count_created ''k'' new_gauges)", OF conjI])
      (simp add: count_reset_def count_created_def evict_def new_gauges_def)
qed

end
