(* ===== verification/Error_Page.thy ===== *)
theory Error_Page
  imports Http_Base
begin

text \<open>
  The text of the error pages (\<^verbatim>\<open>internal/httperrors/httperrors.go\<close>): the HTML template \<^verbatim>\<open>predefinedErrorPage\<close> as
  it stands in the source, the part of \<^verbatim>\<open>fmt.Sprintf\<close> it uses, and the page a response with an error carries.
\<close>

section \<open>The template\<close>

text \<open>The pieces of the template between its four verbs.\<close>

abbreviation nl :: string where "nl \<equiv> [CHR 0x0A]"

definition page_head :: string where
  \<open>page_head =
     nl @
     ''<!DOCTYPE html>'' @ nl @
     ''<html>'' @ nl @
     ''<head>'' @ nl @
     ''  <meta content="width=device-width, initial-scale=1, maximum-scale=1" name="viewport">'' @ nl @
     ''  <title>''\<close>

definition page_style :: string where
  \<open>page_style =
     ''</title>'' @ nl @
     ''  <style>'' @ nl @
     ''    body {'' @ nl @
     ''      color: #666;'' @ nl @
     ''      text-align: center;'' @ nl @
     ''      font-family: "Helvetica Neue", Helvetica, Arial, sans-serif;'' @ nl @
     ''      margin: auto;'' @ nl @
     ''      font-size: 14px;'' @ nl @
     ''    }'' @ nl @
     nl @
     ''    h1 {'' @ nl @
     ''      font-size: 56px;'' @ nl @
     ''      line-height: 100px;'' @ nl @
     ''      font-weight: 400;'' @ nl @
     ''      color: #456;'' @ nl @
     ''    }'' @ nl @
     nl @
     ''    h2 {'' @ nl @
     ''      font-size: 24px;'' @ nl @
     ''      color: #666;'' @ nl @
     ''      line-height: 1.5em;'' @ nl @
     ''    }'' @ nl @
     nl @
     ''    h3 {'' @ nl @
     ''      color: #456;'' @ nl @
     ''      font-size: 20px;'' @ nl @
     ''      font-weight: 400;'' @ nl @
     ''      line-height: 28px;'' @ nl @
     ''    }'' @ nl @
     nl @
     ''    hr {'' @ nl @
     ''      max-width: 800px;'' @ nl @
     ''      margin: 18px auto;'' @ nl @
     ''      border: 0;'' @ nl @
     ''      border-top: 1px solid #EEE;'' @ nl @
     ''      border-bottom: 1px solid white;'' @ nl @
     ''    }'' @ nl @
     nl @
     ''    img {'' @ nl @
     ''      max-width: 40vw;'' @ nl @
     ''      display: block;'' @ nl @
     ''      margin: 40px auto;'' @ nl @
     ''    }'' @ nl @
     nl @
     ''    a {'' @ nl @
     ''      line-height: 100px;'' @ nl @
     ''      font-weight: 400;'' @ nl @
     ''      color: #4A8BEE;'' @ nl @
     ''      font-size: 18px;'' @ nl @
     ''      text-decoration: none;'' @ nl @
     ''    }'' @ nl @
     nl @
     ''    .container {'' @ nl @
     ''      margin: auto 20px;'' @ nl @
     ''    }'' @ nl @
     nl @
     ''    .go-back {'' @ nl @
     ''      display: none;'' @ nl @
     ''    }'' @ nl @
     nl @
     ''  </style>'' @ nl @
     ''</head>'' @ nl @
     nl @
     ''<body>'' @ nl @
     ''  <img src="data:image/svg+xml;base64,PHN2ZyB3aWR0aD0iMjEwIiBoZWlnaHQ9IjIxMCIgdmlld0JveD0iMCAwIDIxMCAyMTAiIHht'' @
     ''bG5zPSJodHRwOi8vd3d3LnczLm9yZy8yMDAwL3N2ZyI+CiAgPHBhdGggZD0iTTEwNS4wNjE0IDIwMy42NTVsMzguNjQtMTE4LjkyMWgtNzcuMj'' @
     ''hsMzguNjQgMTE4LjkyMXoiIGZpbGw9IiNlMjQzMjkiLz4KICA8cGF0aCBkPSJNMTA1LjA2MTQgMjAzLjY1NDhsLTM4LjY0LTExOC45MjFoLTU0'' @
     ''LjE1M2w5Mi43OTMgMTE4LjkyMXoiIGZpbGw9IiNmYzZkMjYiLz4KICA8cGF0aCBkPSJNMTIuMjY4NSA4NC43MzQxbC0xMS43NDIgMzYuMTM5Yy'' @
     ''0xLjA3MSAzLjI5Ni4xMDIgNi45MDcgMi45MDYgOC45NDRsMTAxLjYyOSA3My44MzgtOTIuNzkzLTExOC45MjF6IiBmaWxsPSIjZmNhMzI2Ii8+'' @
     ''CiAgPHBhdGggZD0iTTEyLjI2ODUgODQuNzM0Mmg1NC4xNTNsLTIzLjI3My03MS42MjVjLTEuMTk3LTMuNjg2LTYuNDExLTMuNjg1LTcuNjA4ID'' @
     ''BsLTIzLjI3MiA3MS42MjV6IiBmaWxsPSIjZTI0MzI5Ii8+CiAgPHBhdGggZD0iTTEwNS4wNjE0IDIwMy42NTQ4bDM4LjY0LTExOC45MjFoNTQu'' @
     ''MTUzbC05Mi43OTMgMTE4LjkyMXoiIGZpbGw9IiNmYzZkMjYiLz4KICA8cGF0aCBkPSJNMTk3Ljg1NDQgODQuNzM0MWwxMS43NDIgMzYuMTM5Yz'' @
     ''EuMDcxIDMuMjk2LS4xMDIgNi45MDctMi45MDYgOC45NDRsLTEwMS42MjkgNzMuODM4IDkyLjc5My0xMTguOTIxeiIgZmlsbD0iI2ZjYTMyNiIv'' @
     ''PgogIDxwYXRoIGQ9Ik0xOTcuODU0NCA4NC43MzQyaC01NC4xNTNsMjMuMjczLTcxLjYyNWMxLjE5Ny0zLjY4NiA2LjQxMS0zLjY4NSA3LjYwOC'' @
     ''AwbDIzLjI3MiA3MS42MjV6IiBmaWxsPSIjZTI0MzI5Ii8+Cjwvc3ZnPgo="'' @ nl @
     ''       alt="GitLab Logo" />'' @ nl @
     ''  <h1>'' @ nl @
     ''    ''\<close>

definition page_title :: string where
  \<open>page_title =
     nl @
     ''  </h1>'' @ nl @
     ''  <div class="container">'' @ nl @
     ''    <h3>''\<close>

definition page_rule :: string where
  \<open>page_rule =
     ''</h3>'' @ nl @
     ''    <hr />'' @ nl @
     ''    ''\<close>

definition page_foot :: string where
  \<open>page_foot =
     nl @
     ''    <a href="javascript:history.back()" class="js-go-back go-back">Go back</a>'' @ nl @
     ''  </div>'' @ nl @
     ''  <script>'' @ nl @
     ''    (function () {'' @ nl @
     ''      var goBack = document.querySelector('.js-go-back');'' @ nl @
     nl @
     ''      if (history.length > 1) {'' @ nl @
     ''        goBack.style.display = 'inline';'' @ nl @
     ''      }'' @ nl @
     ''    })();'' @ nl @
     ''  </script>'' @ nl @
     ''</body>'' @ nl @
     ''</html>'' @ nl\<close>

definition predefinedErrorPage :: string where
  "predefinedErrorPage =
     page_head @ ''%v'' @ page_style @ ''%v'' @ page_title @ ''%v'' @ page_rule @ ''%v'' @ page_foot"

section \<open>Formatting\<close>

text \<open>\<^verbatim>\<open>fmt.Sprintf\<close> for a format whose verbs are \<^verbatim>\<open>%v\<close> and whose operands are strings.  A verb without an operand is
  marked as missing, operands that are left over are listed at the end (each with its type and value), and any other character after a percent sign
  is marked as a bad verb.\<close>

fun extra_operands :: "string list \<Rightarrow> string" where
  "extra_operands [] = []"
| "extra_operands [a] = ''string='' @ a"
| "extra_operands (a # args) = ''string='' @ a @ '', '' @ extra_operands args"

fun fmt_Sprintf :: "string \<Rightarrow> string list \<Rightarrow> string" where
  "fmt_Sprintf [] args = (if args = [] then [] else ''%!(EXTRA '' @ extra_operands args @ '')'')"
| "fmt_Sprintf [c] args = (if c = CHR ''%'' then ''%!(NOVERB)'' else [c]) @ fmt_Sprintf [] args"
| "fmt_Sprintf (c # d # fmt) args =
     (if c \<noteq> CHR ''%'' then c # fmt_Sprintf (d # fmt) args
      else if d = CHR ''%'' then d # fmt_Sprintf fmt args
      else (case args of
              [] \<Rightarrow> ''%!'' @ d # ''(MISSING)'' @ fmt_Sprintf fmt []
            | a # args \<Rightarrow> (if d = CHR ''v'' then a else ''%!'' @ d # ''(string='' @ a @ '')'') @ fmt_Sprintf fmt args))"

section \<open>The pages\<close>

text \<open>What a piece of the body of a response is on the wire when it is an error page; \<^verbatim>\<open>Fprintln\<close> ends it with a newline.\<close>

definition error_page_text :: "content \<Rightarrow> string" where
  "error_page_text c =
     fmt_Sprintf predefinedErrorPage [c_title c, c_statusString c, c_header c, c_subHeader c] @ nl"

lemma fmt_Sprintf_verb:
  assumes "CHR ''%'' \<notin> set p"
  shows "fmt_Sprintf (p @ CHR ''%'' # CHR ''v'' # fmt) (a # args) = p @ a @ fmt_Sprintf fmt args"
  using assms
proof (induction p)
  case (Cons c p)
  obtain d q where "p @ CHR ''%'' # CHR ''v'' # fmt = d # q" by (cases p) auto
  then show ?case using Cons by auto
qed simp

lemma fmt_Sprintf_plain: "CHR ''%'' \<notin> set p \<Longrightarrow> fmt_Sprintf p [] = p"
  by (induction p "[] :: string list" rule: fmt_Sprintf.induct) auto

lemma page_no_percent:
  "CHR ''%'' \<notin> set page_head" "CHR ''%'' \<notin> set page_style" "CHR ''%'' \<notin> set page_title"
  "CHR ''%'' \<notin> set page_rule" "CHR ''%'' \<notin> set page_foot"
  unfolding page_head_def page_style_def page_title_def page_rule_def page_foot_def by simp_all

text \<open>Every error page is the template with its four texts in their places: the template has no other verb, so
  nothing is marked as missing, extra or bad.\<close>

theorem error_page_exact:
  "error_page_text c =
     page_head @ c_title c @ page_style @ c_statusString c @ page_title @ c_header c @ page_rule @ c_subHeader c @
     page_foot @ nl"
  unfolding error_page_text_def predefinedErrorPage_def
  by (simp add: fmt_Sprintf_verb fmt_Sprintf_plain page_no_percent)

text \<open>The five pages are told apart by their text.\<close>

lemma error_pages_distinct:
  "distinct (map c_statusString [content401, content404, content500, content502, content503])"
  by code_simp

end
