(* ===== verification/Metrics.thy ===== *)
theory Metrics
  imports Http_Range
begin

text \<open>
  The metrics of the daemon (\<^verbatim>\<open>metrics/metrics.go\<close>): the collectors, their registration, and the accounting of
  the gauge of open range requests over the operations of the readers (\<^verbatim>\<open>internal/httprange\<close>).

  A collector is what it is registered with: its kind, name, label names and the buckets of a histogram.
  Buckets are in thousandths, which makes all of them integers; help texts are left out.
\<close>

section \<open>Collectors\<close>

datatype metric_kind = Counter | Gauge | Histogram

record collector =
  mc_kind :: metric_kind
  mc_Name :: string
  mc_labels :: "string list"
  mc_Buckets :: "int list option"

definition new_collector :: "metric_kind \<Rightarrow> string \<Rightarrow> string list \<Rightarrow> int list option \<Rightarrow> collector" where
  "new_collector kind name labels buckets = \<lparr>mc_kind = kind, mc_Name = name, mc_labels = labels, mc_Buckets = buckets\<rparr>"

text \<open>\<^verbatim>\<open>prometheus.ExponentialBuckets\<close>.\<close>

definition ExponentialBuckets :: "int \<Rightarrow> int \<Rightarrow> nat \<Rightarrow> int list" where
  "ExponentialBuckets start factor count = map (\<lambda>i. start * factor ^ i) [0..<count]"

definition DomainsServed :: collector where
  "DomainsServed = new_collector Gauge ''gitlab_pages_served_domains'' [] None"

definition DomainFailedUpdates :: collector where
  "DomainFailedUpdates = new_collector Counter ''gitlab_pages_domains_failed_total'' [] None"

definition DomainUpdates :: collector where
  "DomainUpdates = new_collector Counter ''gitlab_pages_domains_updated_total'' [] None"

definition DomainLastUpdateTime :: collector where
  "DomainLastUpdateTime = new_collector Gauge ''gitlab_pages_last_domain_update_seconds'' [] None"

definition DomainsConfigurationUpdateDuration :: collector where
  "DomainsConfigurationUpdateDuration = new_collector Gauge ''gitlab_pages_domains_configuration_update_duration'' [] None"

definition DomainsSourceCacheHit :: collector where
  "DomainsSourceCacheHit = new_collector Counter ''gitlab_pages_domains_source_cache_hit'' [] None"

definition DomainsSourceCacheMiss :: collector where
  "DomainsSourceCacheMiss = new_collector Counter ''gitlab_pages_domains_source_cache_miss'' [] None"

definition DomainsSourceFailures :: collector where
  "DomainsSourceFailures = new_collector Counter ''gitlab_pages_domains_source_failures_total'' [] None"

definition ServerlessRequests :: collector where
  "ServerlessRequests = new_collector Counter ''gitlab_pages_serverless_requests'' [] None"

definition ServerlessLatency :: collector where
  "ServerlessLatency = new_collector Histogram ''gitlab_pages_serverless_latency'' [] None"

definition DomainsSourceAPIReqTotal :: collector where
  "DomainsSourceAPIReqTotal = new_collector Counter ''gitlab_pages_domains_source_api_requests_total'' [''status_code''] None"

definition DomainsSourceAPICallDuration :: collector where
  "DomainsSourceAPICallDuration = new_collector Histogram ''gitlab_pages_domains_source_api_call_duration'' [''status_code''] None"

definition DomainsSourceAPITraceDuration :: collector where
  "DomainsSourceAPITraceDuration = new_collector Histogram ''gitlab_pages_domains_source_api_trace_duration'' [''request_stage''] (Some [1, 5, 10, 20, 50, 100, 250, 500, 1000, 2000, 5000, 10000, 20000, 50000])"

definition DiskServingFileSize :: collector where
  "DiskServingFileSize = new_collector Histogram ''gitlab_pages_disk_serving_file_size_bytes'' [''vfs_name''] (Some (map (\<lambda>x. 1000 * x) (ExponentialBuckets 1 10 9)))"

definition ServingTime :: collector where
  "ServingTime = new_collector Histogram ''gitlab_pages_serving_time_seconds'' [] (Some [100, 500, 1000, 2500, 5000, 10000, 60000, 180000])"

definition VFSOperations :: collector where
  "VFSOperations = new_collector Counter ''gitlab_pages_vfs_operations_total'' [''vfs_name'', ''operation'', ''success''] None"

definition HTTPRangeRequestsTotal :: collector where
  "HTTPRangeRequestsTotal = new_collector Counter ''gitlab_pages_httprange_requests_total'' [''status_code''] None"

definition HTTPRangeRequestDuration :: collector where
  "HTTPRangeRequestDuration = new_collector Histogram ''gitlab_pages_httprange_requests_duration'' [''status_code''] None"

definition HTTPRangeTraceDuration :: collector where
  "HTTPRangeTraceDuration = new_collector Histogram ''gitlab_pages_httprange_trace_duration'' [''request_stage''] (Some [1, 5, 10, 20, 50, 100, 250, 500, 1000, 2000, 5000, 10000, 20000, 50000])"

definition HTTPRangeOpenRequests :: collector where
  "HTTPRangeOpenRequests = new_collector Gauge ''gitlab_pages_httprange_open_requests'' [] None"

definition ZipOpened :: collector where
  "ZipOpened = new_collector Counter ''gitlab_pages_zip_opened'' [''state''] None"

definition ZipCacheRequests :: collector where
  "ZipCacheRequests = new_collector Counter ''gitlab_pages_zip_cache_requests'' [''op'', ''cache''] None"

definition ZipCachedEntries :: collector where
  "ZipCachedEntries = new_collector Gauge ''gitlab_pages_zip_cached_entries'' [''op''] None"

definition ZipArchiveEntriesCached :: collector where
  "ZipArchiveEntriesCached = new_collector Gauge ''gitlab_pages_zip_archive_entries_cached'' [] None"

definition ZipOpenedEntriesCount :: collector where
  "ZipOpenedEntriesCount = new_collector Counter ''gitlab_pages_zip_opened_entries_count'' [] None"

definition RejectedRequestsCount :: collector where
  "RejectedRequestsCount = new_collector Counter ''gitlab_pages_unknown_method_rejected_requests'' [] None"

definition LimitListenerMaxConns :: collector where
  "LimitListenerMaxConns = new_collector Gauge ''gitlab_pages_limit_listener_max_conns'' [] None"

definition LimitListenerConcurrentConns :: collector where
  "LimitListenerConcurrentConns = new_collector Gauge ''gitlab_pages_limit_listener_concurrent_conns'' [] None"

definition LimitListenerWaitingConns :: collector where
  "LimitListenerWaitingConns = new_collector Gauge ''gitlab_pages_limit_listener_waiting_conns'' [] None"

section \<open>Registration\<close>

text \<open>The collectors \<^verbatim>\<open>MustRegister\<close> hands to the registry, in its order.\<close>

definition MustRegister :: "collector list" where
  "MustRegister =
     [DomainsServed, DomainFailedUpdates, DomainUpdates, DomainLastUpdateTime,
      DomainsConfigurationUpdateDuration, DomainsSourceCacheHit, DomainsSourceCacheMiss, DomainsSourceAPIReqTotal,
      DomainsSourceAPICallDuration, DomainsSourceAPITraceDuration, DomainsSourceFailures, ServerlessRequests,
      ServerlessLatency, DiskServingFileSize, ServingTime, VFSOperations,
      HTTPRangeRequestsTotal, HTTPRangeRequestDuration, HTTPRangeTraceDuration, HTTPRangeOpenRequests,
      ZipOpened, ZipOpenedEntriesCount, ZipCacheRequests, ZipArchiveEntriesCached,
      ZipCachedEntries, RejectedRequestsCount, LimitListenerMaxConns, LimitListenerConcurrentConns,
      LimitListenerWaitingConns]"

text \<open>What the registry of Prometheus asks for, and panics without: names and label names are well formed, no two
  collectors have one name, no label is given twice or is reserved for histograms, and the buckets of a
  histogram increase.\<close>

definition name_ok :: "string \<Rightarrow> bool" where
  "name_ok s \<longleftrightarrow> s \<noteq> [] \<and> list_all (\<lambda>c. is_alpha c \<or> is_digit c \<or> c = CHR ''_'') s \<and> \<not> is_digit (hd s)"

definition collector_ok :: "collector \<Rightarrow> bool" where
  "collector_ok c \<longleftrightarrow> name_ok (mc_Name c) \<and> list_all name_ok (mc_labels c) \<and> distinct (mc_labels c) \<and> ''le'' \<notin> set (mc_labels c) \<and>
     (case mc_Buckets c of None \<Rightarrow> True | Some bs \<Rightarrow> mc_kind c = Histogram \<and> sorted_wrt (<) bs)"

text \<open>Registering the metrics at the start of the program does not panic.\<close>

lemma MustRegister_ok: "list_all collector_ok MustRegister" "distinct (map mc_Name MustRegister)"
  by code_simp+

text \<open>The labels a call of \<^verbatim>\<open>WithLabelValues\<close> gives are as many as the collector has, which panics otherwise: the
  collectors that the wrappers of \<^verbatim>\<open>internal/vfs\<close>, the caches of archives and the round trippers use.\<close>

lemma label_counts:
  "length (mc_labels VFSOperations) = 3" "length (mc_labels ZipCacheRequests) = 2" "length (mc_labels ZipCachedEntries) = 1"
  "length (mc_labels ZipOpened) = 1" "length (mc_labels DiskServingFileSize) = 1"
  "\<forall>c \<in> {HTTPRangeRequestsTotal, HTTPRangeRequestDuration, HTTPRangeTraceDuration, DomainsSourceAPIReqTotal,
     DomainsSourceAPICallDuration, DomainsSourceAPITraceDuration}. length (mc_labels c) = 1"
  by code_simp+

section \<open>Open range requests\<close>

text \<open>How far the operations of a reader move the gauge \<^verbatim>\<open>HTTPRangeOpenRequests\<close>.\<close>

definition ensureResponse_gauge :: "range_client \<Rightarrow> Resource \<Rightarrow> Reader \<Rightarrow> int" where
  "ensureResponse_gauge Do resource r =
     (if rd_res r \<noteq> None then 0
      else (case prepareRequest resource r of
              Inl err \<Rightarrow> 0
            | Inr req \<Rightarrow>
                1 + (case Do req of
                       Inl err \<Rightarrow> - 1
                     | Inr res \<Rightarrow> (if fst (reader_setResponse resource res r) \<noteq> None then - 1 else 0))))"

definition reader_Close_gauge :: "Reader \<Rightarrow> int" where
  "reader_Close_gauge r = (if rd_res r \<noteq> None then - 1 else 0)"

datatype reader_call = CallRead range_client nat | CallSeek int seek_whence | CallClose

fun do_reader_call :: "reader_call \<Rightarrow> Resource \<times> Reader \<Rightarrow> Resource \<times> Reader" where
  "do_reader_call (CallRead Do n) s = snd (reader_Read Do n s)"
| "do_reader_call (CallSeek offset whence) s = (fst s, snd (reader_Seek offset whence (snd s)))"
| "do_reader_call CallClose s = (fst s, reader_Close (snd s))"

text \<open>A read asks for a response unless its buffer is empty; a seek closes the reader when it moves it, which is when it
  drops a response.\<close>

fun reader_call_gauge :: "reader_call \<Rightarrow> Resource \<times> Reader \<Rightarrow> int" where
  "reader_call_gauge (CallRead Do n) s = (if n = 0 then 0 else ensureResponse_gauge Do (fst s) (snd s))"
| "reader_call_gauge (CallSeek offset whence) s =
     (if rd_offset (snd (reader_Seek offset whence (snd s))) \<noteq> rd_offset (snd s) then reader_Close_gauge (snd s) else 0)"
| "reader_call_gauge CallClose s = reader_Close_gauge (snd s)"

fun reader_calls :: "reader_call list \<Rightarrow> Resource \<times> Reader \<Rightarrow> int \<Rightarrow> (Resource \<times> Reader) \<times> int" where
  "reader_calls [] s g = (s, g)"
| "reader_calls (c # cs) s g = reader_calls cs (do_reader_call c s) (g + reader_call_gauge c s)"

definition open_requests :: "Reader \<Rightarrow> int" where
  "open_requests r = (if rd_res r \<noteq> None then 1 else 0)"

lemma reader_setResponse_open:
  "rd_res (snd (snd (reader_setResponse resource res r))) =
     (if fst (reader_setResponse resource res r) = None then Some (rp_Body res) else rd_res r)"
  by (simp add: reader_setResponse_def Let_def)

lemma ensureResponse_open:
  "open_requests (snd (snd (ensureResponse Do resource r))) = open_requests r + ensureResponse_gauge Do resource r"
  by (auto simp: ensureResponse_def ensureResponse_gauge_def open_requests_def reader_setResponse_open split: sum.splits)

lemma ensureResponse_has_response:
  assumes "ensureResponse Do resource r = (None, resource', r')"
  shows "rd_res r' \<noteq> None"
  using assms reader_setResponse_open [of resource _ r]
  by (auto simp: ensureResponse_def split: if_split_asm sum.splits) (metis fst_conv option.distinct(1) snd_conv)

lemma reader_call_open: "open_requests (snd (do_reader_call c s)) = open_requests (snd s) + reader_call_gauge c s"
proof (cases c)
  case (CallRead Do n)
  obtain err resource r where e: "ensureResponse Do (fst s) (snd s) = (err, resource, r)" by (metis prod_cases3)
  have o: "open_requests r = open_requests (snd s) + ensureResponse_gauge Do (fst s) (snd s)"
    using ensureResponse_open [of Do "fst s" "snd s"] by (simp add: e)
  show ?thesis
  proof (cases err)
    case None
    then have "rd_res r \<noteq> None" using ensureResponse_has_response e by blast
    then show ?thesis using CallRead None e o
      by (auto simp: reader_Read_def Let_def open_requests_def split: prod.splits)
  next
    case (Some x)
    then show ?thesis using CallRead e o by (auto simp: reader_Read_def)
  qed
next
  case (CallSeek offset whence)
  then show ?thesis
    by (auto simp: reader_Seek_def reader_Close_def reader_Close_gauge_def open_requests_def Let_def split: seek_whence.splits if_splits)
next
  case CallClose
  then show ?thesis by (simp add: reader_Close_def reader_Close_gauge_def open_requests_def)
qed

text \<open>The gauge of open range requests is exact: after any sequence of reads, seeks and closes, with any answers of the
  server, it has moved by one for a reader that holds a response and not at all for one that does not;
  after a last close it is back where it was.\<close>

theorem open_requests_exact:
  assumes "reader_calls cs (resource, NewReader offset size') g = (s, g')"
  shows "g' = g + open_requests (snd s)" and "snd (reader_calls (cs @ [CallClose]) (resource, NewReader offset size') g) = g"
proof -
  have run: "snd (reader_calls cs s g) = g + open_requests (snd (fst (reader_calls cs s g))) - open_requests (snd s)" for cs s g
    by (induction cs arbitrary: s g) (simp_all add: reader_call_open)
  have new: "open_requests (NewReader offset size') = 0" by (simp add: open_requests_def NewReader_def)
  show "g' = g + open_requests (snd s)" using run [of cs "(resource, NewReader offset size')" g] assms new by simp
  have "open_requests (snd (fst (reader_calls (cs @ [CallClose]) s g))) = 0" for s g
    by (induction cs arbitrary: s g) (simp_all add: open_requests_def reader_Close_def)
  then show "snd (reader_calls (cs @ [CallClose]) (resource, NewReader offset size') g) = g"
    using run [of "cs @ [CallClose]" "(resource, NewReader offset size')" g] new by simp
qed

end
