(* ===== verification/Transport.thy ===== *)
theory Transport
  imports Vfs
begin

text \<open>
  The transport of the HTTP clients (\<^verbatim>\<open>internal/httptransport/transport.go\<close>) and the pool of root certificates it
  trusts, with the variant for macOS that reads the files \<^verbatim>\<open>SSL_CERT_FILE\<close> and \<^verbatim>\<open>SSL_CERT_DIR\<close> name
  (\<^verbatim>\<open>transport_darwin.go\<close>).

  Pools are those of \<^verbatim>\<open>crypto/x509\<close>: \<open>ce_Append\<close> is \<^verbatim>\<open>AppendCertsFromPEM\<close>, which says whether it added a
  certificate.  The environment variables and the file system are fields of the record \<open>cert_env\<close>.
\<close>

section \<open>Extra certificates on macOS (transport_darwin.go)\<close>

record 'pool cert_env =
  ce_Getenv :: "string \<Rightarrow> string"
  ce_ReadFile :: "string \<Rightarrow> bytes result"
  ce_ReadDir :: "string \<Rightarrow> (string \<times> file_mode) list result"
  ce_Readlink :: "string \<Rightarrow> string result"
  ce_Append :: "bytes \<Rightarrow> 'pool \<Rightarrow> bool \<times> 'pool"
  ce_SystemCertPool :: "'pool result"
  ce_extra :: bool

definition certFileEnv :: string where "certFileEnv = ''SSL_CERT_FILE''"
definition certDirEnv :: string where "certDirEnv = ''SSL_CERT_DIR''"

text \<open>A file that does not exist is read as empty.\<close>

definition loadCertFile :: "'pool cert_env \<Rightarrow> 'pool \<Rightarrow> go_error option \<times> 'pool" where
  "loadCertFile E pool =
     (let sslCertFile = ce_Getenv E certFileEnv
      in if sslCertFile = [] then (None, pool)
         else (case ce_ReadFile E sslCertFile of
                 Inl err \<Rightarrow> (if err \<noteq> ErrOSNotExist then (Some err, pool) else (None, snd (ce_Append E [] pool)))
               | Inr data \<Rightarrow> (None, snd (ce_Append E data pool))))"

definition isSameDirSymlink :: "'pool cert_env \<Rightarrow> string \<times> file_mode \<Rightarrow> string \<Rightarrow> bool" where
  "isSameDirSymlink E fi dir =
     (if snd fi \<noteq> ModeSymlink then False
      else (case ce_Readlink E (path_Join [dir, fst fi]) of Inr target \<Rightarrow> slash \<notin> set target | Inl err \<Rightarrow> False))"

definition readUniqueDirectoryEntries :: "'pool cert_env \<Rightarrow> string \<Rightarrow> (string \<times> file_mode) list result" where
  "readUniqueDirectoryEntries E dir =
     (case ce_ReadDir E dir of Inl err \<Rightarrow> Inl err | Inr fis \<Rightarrow> Inr (filter (\<lambda>fi. \<not> isSameDirSymlink E fi dir) fis))"

text \<open>The inner loop: whether a file added a certificate.\<close>

fun load_dir_files :: "'pool cert_env \<Rightarrow> string \<Rightarrow> (string \<times> file_mode) list \<Rightarrow> bool \<Rightarrow> 'pool \<Rightarrow> bool \<times> 'pool" where
  "load_dir_files E dir [] rootsAdded pool = (rootsAdded, pool)"
| "load_dir_files E dir (fi # fis) rootsAdded pool =
     (case ce_ReadFile E (dir @ ''/'' @ fst fi) of
        Inl err \<Rightarrow> load_dir_files E dir fis rootsAdded pool
      | Inr data \<Rightarrow>
          (let (added, pool) = ce_Append E data pool
           in load_dir_files E dir fis (rootsAdded \<or> added) pool))"

text \<open>The outer loop: it stops at the first directory that added a certificate.\<close>

fun load_dirs :: "'pool cert_env \<Rightarrow> string list \<Rightarrow> go_error option \<Rightarrow> 'pool \<Rightarrow> go_error option \<times> 'pool" where
  "load_dirs E [] firstErr pool = (firstErr, pool)"
| "load_dirs E (dir # dirs) firstErr pool =
     (case readUniqueDirectoryEntries E dir of
        Inl err \<Rightarrow> load_dirs E dirs (if firstErr = None \<and> err \<noteq> ErrOSNotExist then Some err else firstErr) pool
      | Inr fis \<Rightarrow>
          (let (rootsAdded, pool) = load_dir_files E dir fis False pool
           in if rootsAdded then (None, pool) else load_dirs E dirs firstErr pool))"

definition loadCertDir :: "'pool cert_env \<Rightarrow> 'pool \<Rightarrow> go_error option \<times> 'pool" where
  "loadCertDir E pool =
     (let d = ce_Getenv E certDirEnv; dirs = (if d \<noteq> [] then split_on colon d else [])
      in load_dirs E dirs None pool)"

text \<open>The errors of both are only logged.\<close>

definition loadExtraCerts :: "'pool cert_env \<Rightarrow> 'pool \<Rightarrow> 'pool" where
  "loadExtraCerts E pool = snd (loadCertDir E (snd (loadCertFile E pool)))"

section \<open>The pool (transport.go)\<close>

text \<open>\<open>ce_extra\<close> says whether \<^verbatim>\<open>loadExtraCerts\<close> is the one of macOS or the empty function.  A system pool that cannot be
  loaded leaves the pool nil, with which \<^verbatim>\<open>crypto/tls\<close> uses the roots of the host.\<close>

record 'pool sys_pool =
  sp_once :: bool
  sp_pool :: "'pool option"

definition loadPool :: "'pool cert_env \<Rightarrow> 'pool option" where
  "loadPool E =
     (case ce_SystemCertPool E of
        Inl err \<Rightarrow> None
      | Inr pool \<Rightarrow> Some (if ce_extra E then loadExtraCerts E pool else pool))"

definition pool :: "'pool cert_env \<Rightarrow> 'pool sys_pool \<Rightarrow> 'pool option \<times> 'pool sys_pool" where
  "pool E s =
     (let s = (if sp_once s then s else \<lparr>sp_once = True, sp_pool = loadPool E\<rparr>)
      in (sp_pool s, s))"

text \<open>The settings of the transport; times are in nanoseconds, and \<^verbatim>\<open>DialTLS\<close> asks for the pool when it dials.\<close>

record http_Transport =
  ht_MaxIdleConns :: int
  ht_MaxIdleConnsPerHost :: int
  ht_IdleConnTimeout :: duration
  ht_TLSHandshakeTimeout :: duration
  ht_ResponseHeaderTimeout :: duration
  ht_ExpectContinueTimeout :: duration

definition DefaultTTFBTimeout :: duration where "DefaultTTFBTimeout = 15 * 1000000000"

definition NewTransport :: http_Transport where
  "NewTransport =
     \<lparr>ht_MaxIdleConns = 100, ht_MaxIdleConnsPerHost = 100, ht_IdleConnTimeout = 90 * 1000000000,
      ht_TLSHandshakeTimeout = 10 * 1000000000, ht_ResponseHeaderTimeout = 15 * 1000000000,
      ht_ExpectContinueTimeout = 15 * 1000000000\<rparr>"

section \<open>Properties\<close>

text \<open>The pool is loaded once: after the first call every call gives the same pool, whatever has become of the
  environment in the meantime.\<close>

lemma pool_once:
  assumes "pool E s = (p, s')"
  shows "pool E' s' = (p, s')"
  using assms by (auto simp: pool_def Let_def)

text \<open>Nothing but the files of one of the listed directories is added, and only files that can be read.\<close>

inductive cert_added :: "'pool cert_env \<Rightarrow> 'pool \<Rightarrow> 'pool \<Rightarrow> bool" for E where
  ca_same: "cert_added E p p"
| ca_file: "cert_added E p q \<Longrightarrow> ce_ReadFile E (dir @ ''/'' @ name) = Inr data \<Longrightarrow>
    dir \<in> set (split_on colon (ce_Getenv E certDirEnv)) \<Longrightarrow>
    ce_ReadDir E dir = Inr fis \<Longrightarrow> (name, m) \<in> set fis \<Longrightarrow> \<not> isSameDirSymlink E (name, m) dir \<Longrightarrow>
    cert_added E p (snd (ce_Append E data q))"

lemma load_dir_files_added:
  assumes "dir \<in> set (split_on colon (ce_Getenv E certDirEnv))" "ce_ReadDir E dir = Inr all"
    and "set fis \<subseteq> {fi \<in> set all. \<not> isSameDirSymlink E fi dir}" "cert_added E p q"
  shows "cert_added E p (snd (load_dir_files E dir fis b q))"
  using assms(3,4)
proof (induction fis arbitrary: b q)
  case (Cons fi fis)
  obtain n m where fi: "fi = (n, m)" by (cases fi)
  show ?case
  proof (cases "ce_ReadFile E (dir @ ''/'' @ fst fi)")
    case (Inl e)
    then show ?thesis using Cons by simp
  next
    case (Inr data)
    then have "cert_added E p (snd (ce_Append E data q))"
      using Cons.prems assms(1,2) fi by (intro ca_file [where dir = dir and name = n]) auto
    moreover obtain added q' where "ce_Append E data q = (added, q')" by (cases "ce_Append E data q")
    ultimately show ?thesis using Cons Inr by simp
  qed
qed simp

text \<open>Directories of certificates: only readable files of the directories in \<^verbatim>\<open>SSL_CERT_DIR\<close> are added, links within a
  directory left out.\<close>

theorem loadCertDir_added: "cert_added E p (snd (loadCertDir E p))"
proof -
  have "cert_added E p (snd (load_dirs E dirs err q))"
    if "set dirs \<subseteq> set (split_on colon (ce_Getenv E certDirEnv))" "cert_added E p q" for dirs err q
    using that
  proof (induction dirs arbitrary: err q)
    case (Cons dir dirs)
    show ?case
    proof (cases "ce_ReadDir E dir")
      case (Inl e)
      then show ?thesis using Cons by (simp add: readUniqueDirectoryEntries_def)
    next
      case (Inr all)
      let ?fis = "filter (\<lambda>fi. \<not> isSameDirSymlink E fi dir) all"
      have "cert_added E p (snd (load_dir_files E dir ?fis False q))"
        using Cons.prems Inr by (intro load_dir_files_added [where all = all]) auto
      then show ?thesis using Cons Inr by (auto simp: readUniqueDirectoryEntries_def split: prod.splits)
    qed
  qed simp
  then show ?thesis by (simp add: loadCertDir_def Let_def ca_same)
qed

text \<open>An error is reported only for one of the directories, and never because it is missing.\<close>

lemma load_dirs_error:
  assumes "fst (load_dirs E dirs firstErr q) = Some err"
  shows "firstErr = Some err \<or> err \<noteq> ErrOSNotExist \<and> (\<exists>dir \<in> set dirs. ce_ReadDir E dir = Inl err)"
  using assms
proof (induction dirs arbitrary: firstErr q)
  case (Cons dir dirs)
  show ?case
  proof (cases "ce_ReadDir E dir")
    case (Inl e)
    then show ?thesis using Cons by (auto simp: readUniqueDirectoryEntries_def split: if_split_asm)
  next
    case (Inr fis)
    then show ?thesis using Cons by (auto simp: readUniqueDirectoryEntries_def split: if_split_asm prod.splits)
  qed
qed simp

lemma loadCertDir_error:
  assumes "fst (loadCertDir E p) = Some err"
  shows "err \<noteq> ErrOSNotExist \<and> (\<exists>dir \<in> set (split_on colon (ce_Getenv E certDirEnv)). ce_ReadDir E dir = Inl err)"
  using load_dirs_error [of E "split_on colon (ce_Getenv E certDirEnv)" None p err] assms
  by (auto simp: loadCertDir_def Let_def split: if_split_asm)

end
