(* ===== verification/Limiter.thy ===== *)
theory Limiter
  imports Pages_Prelude "HOL-Library.Multiset"
begin

text \<open>
  The limit on simultaneous connections (\<^verbatim>\<open>internal/netutil\<close>): listeners that share a pool of
  slots, a buffered channel used as a semaphore.  A call of \<^verbatim>\<open>Accept\<close> takes a slot before it
  accepts, gives it back when accepting fails, and hands it to the connection otherwise; closing the
  connection gives it back, once.  Three gauges show the limit, the slots in use and the calls that wait.

  The calls of any number of goroutines interleave: a state holds the calls under way with their
  program counter, the connections made so far, and which listeners are closed.  The semaphore and the gauges
  change in separate steps, as in the code.  A listener is closed
  before its \<^verbatim>\<open>done\<close> channel, and \<^verbatim>\<open>net.Listener.Accept\<close> fails on a closed listener.
\<close>

section \<open>State and steps\<close>

text \<open>Where a call of \<^verbatim>\<open>Accept\<close> is: at the \<^verbatim>\<open>select\<close> of \<^verbatim>\<open>acquire\<close>; with its slot taken but not counted; at the end of
  \<^verbatim>\<open>acquire\<close>, with its result; at the listener's \<^verbatim>\<open>Accept\<close>; before and after giving the slot back in \<^verbatim>\<open>release\<close>.\<close>

datatype accept_pc = Acquiring | Acquired | Returning bool | Accepting bool | ReleasingCall | ReleasedCall

text \<open>A connection that was handed out: open, closed and about to give its slot back, with the slot given back but still
  counted, and done.\<close>

datatype conn_state = ConnOpen | ConnReleasing | ConnUncounted | ConnReleased

record limiter =
  lm_n :: nat
  lm_sem :: nat
  lm_maxConnsCount :: int
  lm_concurrentConnsCount :: int
  lm_waitingConnsCount :: int
  lm_closed :: "nat set"
  lm_done :: "nat set"
  lm_calls :: "(nat \<times> accept_pc) multiset"
  lm_conns :: "conn_state list"

definition NewLimiterWithMetrics :: "nat \<Rightarrow> limiter" where
  "NewLimiterWithMetrics n =
     \<lparr>lm_n = n, lm_sem = 0, lm_maxConnsCount = int n, lm_concurrentConnsCount = 0, lm_waitingConnsCount = 0,
      lm_closed = {}, lm_done = {}, lm_calls = {#}, lm_conns = []\<rparr>"

definition move_call :: "limiter \<Rightarrow> nat \<times> accept_pc \<Rightarrow> (nat \<times> accept_pc) multiset \<Rightarrow> limiter" where
  "move_call s c cs = s\<lparr>lm_calls := lm_calls s - {#c#} + cs\<rparr>"

inductive limiter_step :: "limiter \<Rightarrow> limiter \<Rightarrow> bool" where
  accept: "limiter_step s (s\<lparr>lm_calls := add_mset (l, Acquiring) (lm_calls s), lm_waitingConnsCount := lm_waitingConnsCount s + 1\<rparr>)"
| acquire_slot: "(l, Acquiring) \<in># lm_calls s \<Longrightarrow> lm_sem s < lm_n s \<Longrightarrow>
    limiter_step s ((move_call s (l, Acquiring) {#(l, Acquired)#})\<lparr>lm_sem := lm_sem s + 1\<rparr>)"
| acquire_count: "(l, Acquired) \<in># lm_calls s \<Longrightarrow>
    limiter_step s ((move_call s (l, Acquired) {#(l, Returning True)#})\<lparr>lm_concurrentConnsCount := lm_concurrentConnsCount s + 1\<rparr>)"
| acquire_done: "(l, Acquiring) \<in># lm_calls s \<Longrightarrow> l \<in> lm_done s \<Longrightarrow>
    limiter_step s (move_call s (l, Acquiring) {#(l, Returning False)#})"
| acquire_return: "(l, Returning acquired) \<in># lm_calls s \<Longrightarrow>
    limiter_step s ((move_call s (l, Returning acquired) {#(l, Accepting acquired)#})\<lparr>lm_waitingConnsCount := lm_waitingConnsCount s - 1\<rparr>)"
| accept_ok: "(l, Accepting acquired) \<in># lm_calls s \<Longrightarrow> l \<notin> lm_closed s \<Longrightarrow>
    limiter_step s ((move_call s (l, Accepting acquired) {#})\<lparr>lm_conns := lm_conns s @ [ConnOpen]\<rparr>)"
| accept_error: "(l, Accepting acquired) \<in># lm_calls s \<Longrightarrow>
    limiter_step s (move_call s (l, Accepting acquired) (if acquired then {#(l, ReleasingCall)#} else {#}))"
| release_call: "(l, ReleasingCall) \<in># lm_calls s \<Longrightarrow> lm_sem s > 0 \<Longrightarrow>
    limiter_step s ((move_call s (l, ReleasingCall) {#(l, ReleasedCall)#})\<lparr>lm_sem := lm_sem s - 1\<rparr>)"
| uncount_call: "(l, ReleasedCall) \<in># lm_calls s \<Longrightarrow>
    limiter_step s ((move_call s (l, ReleasedCall) {#})\<lparr>lm_concurrentConnsCount := lm_concurrentConnsCount s - 1\<rparr>)"
| close_listener: "limiter_step s (s\<lparr>lm_closed := insert l (lm_closed s)\<rparr>)"
| close_done: "l \<in> lm_closed s \<Longrightarrow> limiter_step s (s\<lparr>lm_done := insert l (lm_done s)\<rparr>)"
| conn_close: "i < length (lm_conns s) \<Longrightarrow> lm_conns s ! i = ConnOpen \<Longrightarrow>
    limiter_step s (s\<lparr>lm_conns := (lm_conns s)[i := ConnReleasing]\<rparr>)"
| conn_close_again: "i < length (lm_conns s) \<Longrightarrow> lm_conns s ! i \<noteq> ConnOpen \<Longrightarrow> limiter_step s s"
| conn_release: "i < length (lm_conns s) \<Longrightarrow> lm_conns s ! i = ConnReleasing \<Longrightarrow> lm_sem s > 0 \<Longrightarrow>
    limiter_step s (s\<lparr>lm_conns := (lm_conns s)[i := ConnUncounted], lm_sem := lm_sem s - 1\<rparr>)"
| conn_uncount: "i < length (lm_conns s) \<Longrightarrow> lm_conns s ! i = ConnUncounted \<Longrightarrow>
    limiter_step s (s\<lparr>lm_conns := (lm_conns s)[i := ConnReleased], lm_concurrentConnsCount := lm_concurrentConnsCount s - 1\<rparr>)"

inductive limiter_reachable :: "nat \<Rightarrow> limiter \<Rightarrow> bool" for n where
  new: "limiter_reachable n (NewLimiterWithMetrics n)"
| step: "limiter_reachable n s \<Longrightarrow> limiter_step s s' \<Longrightarrow> limiter_reachable n s'"

section \<open>Keep-alive of an accepted connection\<close>

text \<open>\<open>tcp\<close> is \<^const>\<open>None\<close> for a connection that is not a TCP connection; otherwise the operation on
  it, which returns its error.\<close>

definition SetKeepAlive :: "('a \<Rightarrow> string option) option \<Rightarrow> 'a \<Rightarrow> string option" where
  "SetKeepAlive tcp arg = (case tcp of None \<Rightarrow> Some ''Keepalive not supported'' | Some f \<Rightarrow> f arg)"

section \<open>The invariant: slots are accounted for\<close>

text \<open>The calls at given program counters, and the connections in given states.\<close>

definition calls_at :: "accept_pc set \<Rightarrow> limiter \<Rightarrow> nat" where
  "calls_at P s = size (filter_mset (\<lambda>c. snd c \<in> P) (lm_calls s))"

definition conns_in :: "conn_state set \<Rightarrow> limiter \<Rightarrow> nat" where
  "conns_in Q s = length (filter (\<lambda>c. c \<in> Q) (lm_conns s))"

text \<open>Who holds a slot, who is counted as a connection, and who is counted as waiting.\<close>

definition holding_pcs :: "accept_pc set" where "holding_pcs = {Acquired, Returning True, Accepting True, ReleasingCall}"
definition counted_pcs :: "accept_pc set" where "counted_pcs = {Returning True, Accepting True, ReleasingCall, ReleasedCall}"
definition waiting_pcs :: "accept_pc set" where "waiting_pcs = {Acquiring, Acquired, Returning True, Returning False}"
definition holding_conns :: "conn_state set" where "holding_conns = {ConnOpen, ConnReleasing}"
definition counted_conns :: "conn_state set" where "counted_conns = {ConnOpen, ConnReleasing, ConnUncounted}"

lemmas pc_sets = holding_pcs_def counted_pcs_def waiting_pcs_def holding_conns_def counted_conns_def

definition tally :: "accept_pc set \<Rightarrow> conn_state set \<Rightarrow> limiter \<Rightarrow> int" where
  "tally P Q s = int (calls_at P s) + int (conns_in Q s)"

definition limiter_inv :: "nat \<Rightarrow> limiter \<Rightarrow> bool" where
  "limiter_inv n s \<longleftrightarrow> lm_n s = n \<and> lm_sem s \<le> n \<and> int (lm_sem s) = tally holding_pcs holding_conns s \<and>
     lm_maxConnsCount s = int n \<and> lm_concurrentConnsCount s = tally counted_pcs counted_conns s \<and>
     lm_waitingConnsCount s = tally waiting_pcs {} s \<and> lm_done s \<subseteq> lm_closed s \<and>
     (\<forall>l. (l, Returning False) \<in># lm_calls s \<or> (l, Accepting False) \<in># lm_calls s \<longrightarrow> l \<in> lm_closed s)"

abbreviation one_if :: "bool \<Rightarrow> int" where "one_if b \<equiv> (if b then 1 else 0)"

text \<open>How a step changes the tallies.\<close>

lemma tally_move:
  assumes "c \<in># lm_calls s"
  shows "tally P Q (move_call s c cs) = tally P Q s - one_if (snd c \<in> P) + int (size (filter_mset (\<lambda>c. snd c \<in> P) cs))"
proof -
  obtain A where "lm_calls s = add_mset c A" using assms by (meson multi_member_split)
  then show ?thesis by (simp add: tally_def calls_at_def conns_in_def move_call_def)
qed

lemma length_filter_update:
  "i < length cs \<Longrightarrow> int (length (filter P (cs[i := x]))) = int (length (filter P cs)) - one_if (P (cs ! i)) + one_if (P x)"
proof (induction cs arbitrary: i)
  case (Cons a cs)
  show ?case using Cons.IH [of "i - 1"] Cons.prems by (cases i) (auto split: if_split_asm)
qed simp

lemma tally_update:
  assumes "i < length (lm_conns s)"
  shows "tally P Q (s\<lparr>lm_conns := (lm_conns s)[i := x]\<rparr>) = tally P Q s - one_if (lm_conns s ! i \<in> Q) + one_if (x \<in> Q)"
  using length_filter_update [OF assms, of "\<lambda>c. c \<in> Q" x] by (simp add: tally_def calls_at_def conns_in_def)

lemma tally_fields [simp]:
  "tally P Q (s\<lparr>lm_sem := a\<rparr>) = tally P Q s"
  "tally P Q (s\<lparr>lm_concurrentConnsCount := b\<rparr>) = tally P Q s" "tally P Q (s\<lparr>lm_waitingConnsCount := b\<rparr>) = tally P Q s"
  "tally P Q (s\<lparr>lm_closed := x\<rparr>) = tally P Q s" "tally P Q (s\<lparr>lm_done := x\<rparr>) = tally P Q s"
  "tally P Q (s\<lparr>lm_conns := lm_conns s @ [y]\<rparr>) = tally P Q s + one_if (y \<in> Q)"
  "tally P Q (s\<lparr>lm_calls := add_mset c (lm_calls s)\<rparr>) = tally P Q s + one_if (snd c \<in> P)"
  by (simp_all add: tally_def calls_at_def conns_in_def)

lemma tally_accepted [simp]:
  "tally P Q ((move_call s c cs)\<lparr>lm_conns := lm_conns s @ [y]\<rparr>) = tally P Q (move_call s c cs) + one_if (y \<in> Q)"
  by (simp add: tally_def calls_at_def conns_in_def move_call_def)

lemma move_call_fields [simp]:
  "lm_n (move_call s c cs) = lm_n s" "lm_sem (move_call s c cs) = lm_sem s" "lm_maxConnsCount (move_call s c cs) = lm_maxConnsCount s"
  "lm_concurrentConnsCount (move_call s c cs) = lm_concurrentConnsCount s" "lm_waitingConnsCount (move_call s c cs) = lm_waitingConnsCount s"
  "lm_closed (move_call s c cs) = lm_closed s" "lm_done (move_call s c cs) = lm_done s" "lm_conns (move_call s c cs) = lm_conns s"
  "lm_calls (move_call s c cs) = lm_calls s - {#c#} + cs"
  by (simp_all add: move_call_def)

lemma calls_at_pos: "c \<in># lm_calls s \<Longrightarrow> snd c \<in> P \<Longrightarrow> 0 < calls_at P s"
  by (metis (mono_tags, lifting) calls_at_def filter_mset_eq_conv gr0I mem_Collect_eq set_mset_filter size_eq_0_iff_empty set_mset_empty empty_iff)

lemma conns_in_pos: "i < length (lm_conns s) \<Longrightarrow> lm_conns s ! i \<in> Q \<Longrightarrow> 0 < conns_in Q s"
  unfolding conns_in_def by (metis (mono_tags, lifting) filter_empty_conv length_greater_0_conv nth_mem)

text \<open>Each step changes the semaphore and the gauges as it changes the tallies they stand for.\<close>

lemma limiter_step_inv:
  assumes "limiter_step s s'" "limiter_inv n s"
  shows "limiter_inv n s'"
  using assms
proof (induction rule: limiter_step.induct)
  case (accept s l)
  then show ?case by (auto simp: limiter_inv_def pc_sets)
next
  case (acquire_slot l s)
  then show ?case by (auto simp: limiter_inv_def tally_move pc_sets dest: in_diffD)
next
  case (acquire_count l s)
  then show ?case by (auto simp: limiter_inv_def tally_move pc_sets dest: in_diffD)
next
  case (acquire_done l s)
  then show ?case by (auto simp: limiter_inv_def tally_move pc_sets dest: in_diffD)
next
  case (acquire_return l acquired s)
  then show ?case by (cases acquired) (auto simp: limiter_inv_def tally_move pc_sets dest: in_diffD)
next
  case (accept_ok l acquired s)
  then have "acquired" by (cases acquired) (auto simp: limiter_inv_def)
  then show ?case using accept_ok by (auto simp: limiter_inv_def tally_move pc_sets dest: in_diffD)
next
  case (accept_error l acquired s)
  then show ?case by (cases acquired) (auto simp: limiter_inv_def tally_move pc_sets dest: in_diffD)
next
  case (release_call l s)
  then show ?case by (auto simp: limiter_inv_def tally_move pc_sets of_nat_diff dest: in_diffD)
next
  case (uncount_call l s)
  then show ?case by (auto simp: limiter_inv_def tally_move pc_sets dest: in_diffD)
next
  case (conn_close i s)
  then show ?case by (simp add: limiter_inv_def tally_update [OF conn_close(1)] pc_sets)
next
  case (conn_release i s)
  then show ?case by (auto simp: limiter_inv_def tally_update [OF conn_release(1)] pc_sets of_nat_diff)
next
  case (conn_uncount i s)
  then show ?case by (simp add: limiter_inv_def tally_update [OF conn_uncount(1)] pc_sets)
qed (auto simp: limiter_inv_def)

lemma limiter_reachable_inv: "limiter_reachable n s \<Longrightarrow> limiter_inv n s"
proof (induction rule: limiter_reachable.induct)
  case new
  then show ?case by (simp add: limiter_inv_def NewLimiterWithMetrics_def tally_def calls_at_def conns_in_def)
next
  case (step s s')
  then show ?case by (blast intro: limiter_step_inv)
qed

text \<open>Between the steps that move a slot and those that count it, the gauge is the semaphore.\<close>

lemma counted_holding:
  assumes "calls_at {Acquired, ReleasedCall} s = 0" "conns_in {ConnUncounted} s = 0"
  shows "tally counted_pcs counted_conns s = tally holding_pcs holding_conns s"
proof -
  have "\<forall>c \<in># lm_calls s. snd c \<noteq> Acquired \<and> snd c \<noteq> ReleasedCall" using assms(1) by (auto simp: calls_at_def filter_mset_eq_conv)
  then have "filter_mset (\<lambda>c. snd c \<in> counted_pcs) (lm_calls s) = filter_mset (\<lambda>c. snd c \<in> holding_pcs) (lm_calls s)"
    by (intro filter_mset_cong) (auto simp: pc_sets)
  moreover have "ConnUncounted \<notin> set (lm_conns s)" using assms(2) by (auto simp: conns_in_def filter_empty_conv)
  then have "filter (\<lambda>c. c \<in> counted_conns) (lm_conns s) = filter (\<lambda>c. c \<in> holding_conns) (lm_conns s)"
    by (intro filter_cong) (auto simp: pc_sets)
  ultimately show ?thesis by (simp add: tally_def calls_at_def conns_in_def)
qed

text \<open>C19. Over all listeners sharing a limiter and all interleavings, no more connections are open than
  the limit allows, and every slot taken belongs to exactly one call under way or one connection not
  yet released: none leaks and none is given back twice.  The gauges tell the truth: the limit, the calls that wait for a slot,
  and, whenever no slot is just being moved, the slots in use.\<close>

theorem limiter_bound:
  assumes "limiter_reachable n s"
  shows "conns_in holding_conns s \<le> n \<and> lm_sem s = calls_at holding_pcs s + conns_in holding_conns s \<and>
    lm_maxConnsCount s = int n \<and> lm_waitingConnsCount s = int (calls_at waiting_pcs s) \<and>
    lm_concurrentConnsCount s = int (calls_at counted_pcs s + conns_in counted_conns s) \<and>
    (calls_at {Acquired, ReleasedCall} s = 0 \<and> conns_in {ConnUncounted} s = 0 \<longrightarrow> lm_concurrentConnsCount s = int (lm_sem s))"
proof -
  note inv = limiter_reachable_inv [OF assms]
  then have "int (lm_sem s) = int (calls_at holding_pcs s + conns_in holding_conns s)" by (simp add: limiter_inv_def tally_def)
  then have "lm_sem s = calls_at holding_pcs s + conns_in holding_conns s" by (rule of_nat_eq_iff [THEN iffD1])
  moreover have "conns_in {} s = 0" by (simp add: conns_in_def)
  ultimately show ?thesis using inv counted_holding [of s] by (simp add: limiter_inv_def tally_def)
qed

text \<open>Giving a slot back never blocks: a call that failed to accept and a connection being closed
  can always take their slot out of the semaphore.\<close>

theorem limiter_release_enabled:
  assumes "limiter_reachable n s"
    and "(l, ReleasingCall) \<in># lm_calls s \<or> (i < length (lm_conns s) \<and> lm_conns s ! i = ConnReleasing)"
  shows "lm_sem s > 0"
proof -
  have inv: "int (lm_sem s) = int (calls_at holding_pcs s + conns_in holding_conns s)"
    using limiter_reachable_inv [OF assms(1)] by (simp add: limiter_inv_def tally_def)
  have "0 < calls_at holding_pcs s \<or> 0 < conns_in holding_conns s"
    using assms(2) calls_at_pos [of "(l, ReleasingCall)" s holding_pcs] conns_in_pos [of i s holding_conns] by (auto simp: pc_sets)
  then show ?thesis using inv by linarith
qed

text \<open>The gauge of connections is not bounded by the limit at every moment: a slot that is given back can be taken and
  counted again before its release is.\<close>

definition demo_limited :: limiter where
  "demo_limited = \<lparr>lm_n = 1, lm_sem = 1, lm_maxConnsCount = 1, lm_concurrentConnsCount = 1, lm_waitingConnsCount = 0,
     lm_closed = {}, lm_done = {}, lm_calls = {#}, lm_conns = [ConnReleasing]\<rparr>"

definition demo_overcounted :: limiter where
  "demo_overcounted = demo_limited\<lparr>lm_concurrentConnsCount := 2, lm_waitingConnsCount := 1, lm_calls := {#(0, Returning True)#},
     lm_conns := [ConnUncounted]\<rparr>"

lemma demo_limited_reachable: "limiter_reachable 1 demo_limited"
proof -
  define s1 where "s1 = (NewLimiterWithMetrics 1)\<lparr>lm_calls := {#(0, Acquiring)#}, lm_waitingConnsCount := 1\<rparr>"
  define s2 where "s2 = s1\<lparr>lm_calls := {#(0, Acquired)#}, lm_sem := 1\<rparr>"
  define s3 where "s3 = s2\<lparr>lm_calls := {#(0, Returning True)#}, lm_concurrentConnsCount := 1\<rparr>"
  define s4 where "s4 = s3\<lparr>lm_calls := {#(0, Accepting True)#}, lm_waitingConnsCount := 0\<rparr>"
  define s5 where "s5 = s4\<lparr>lm_calls := {#}, lm_conns := [ConnOpen]\<rparr>"
  note states = s1_def s2_def s3_def s4_def s5_def demo_limited_def NewLimiterWithMetrics_def move_call_def
  have t1: "limiter_step (NewLimiterWithMetrics 1) s1" using limiter_step.accept [of "NewLimiterWithMetrics 1" 0] by (simp add: states)
  have t2: "limiter_step s1 s2" using limiter_step.acquire_slot [of 0 s1] by (simp add: states)
  have t3: "limiter_step s2 s3" using limiter_step.acquire_count [of 0 s2] by (simp add: states)
  have t4: "limiter_step s3 s4" using limiter_step.acquire_return [of 0 True s3] by (simp add: states)
  have t5: "limiter_step s4 s5" using limiter_step.accept_ok [of 0 True s4] by (simp add: states)
  have t6: "limiter_step s5 demo_limited" using limiter_step.conn_close [of 0 s5] by (simp add: states)
  show ?thesis using limiter_reachable.new [of 1] t1 t2 t3 t4 t5 t6 by (meson limiter_reachable.step)
qed

lemma demo_overcounted_reachable: "limiter_reachable 1 demo_overcounted"
proof -
  define s1 where "s1 = demo_limited\<lparr>lm_conns := [ConnUncounted], lm_sem := 0\<rparr>"
  define s2 where "s2 = s1\<lparr>lm_calls := {#(0, Acquiring)#}, lm_waitingConnsCount := 1\<rparr>"
  define s3 where "s3 = s2\<lparr>lm_calls := {#(0, Acquired)#}, lm_sem := 1\<rparr>"
  note states = s1_def s2_def s3_def demo_limited_def demo_overcounted_def move_call_def
  have t1: "limiter_step demo_limited s1" using limiter_step.conn_release [of 0 demo_limited] by (simp add: states)
  have t2: "limiter_step s1 s2" using limiter_step.accept [of s1 0] by (simp add: states)
  have t3: "limiter_step s2 s3" using limiter_step.acquire_slot [of 0 s2] by (simp add: states)
  have t4: "limiter_step s3 demo_overcounted" using limiter_step.acquire_count [of 0 s3] by (simp add: states)
  show ?thesis using demo_limited_reachable t1 t2 t3 t4 by (meson limiter_reachable.step)
qed

lemma gauge_above_limit: "\<exists>s. limiter_reachable 1 s \<and> lm_concurrentConnsCount s > lm_maxConnsCount s"
  using demo_overcounted_reachable by (intro exI [of _ demo_overcounted]) (simp add: demo_overcounted_def demo_limited_def)

theorem limiter_bound_witness:
  "conns_in holding_conns demo_limited \<le> 1 \<and> lm_concurrentConnsCount demo_limited = int (lm_sem demo_limited)"
proof -
  have "calls_at {Acquired, ReleasedCall} demo_limited = 0 \<and> conns_in {ConnUncounted} demo_limited = 0"
    by (simp add: calls_at_def conns_in_def demo_limited_def)
  then show ?thesis using limiter_bound [OF demo_limited_reachable] by blast
qed

theorem limiter_release_enabled_witness: "lm_sem demo_limited > 0"
  by (rule limiter_release_enabled [OF demo_limited_reachable, of 0 0]) (simp add: demo_limited_def)

end
