(* ===== verification/Instrumented.thy ===== *)
theory Instrumented
  imports Disk_Serving Zip_Archive
begin

text \<open>
  The wrappers that count and trace: the virtual file system (\<^verbatim>\<open>internal/vfs/vfs.go\<close>, \<^verbatim>\<open>root.go\<close>) and the
  round tripper of the HTTP clients (\<^verbatim>\<open>internal/httptransport\<close>).  Counters are part of the state; the fields of the
  log entries are functions of their own.
\<close>

section \<open>The instrumented file system\<close>

text \<open>\<^verbatim>\<open>VFSOperations\<close>: how often an operation of a file system succeeded or failed.\<close>

type_synonym vfs_counters = "string \<times> string \<times> bool \<Rightarrow> nat"

definition vfs_increment :: "string \<Rightarrow> string \<Rightarrow> 'a result \<Rightarrow> vfs_counters \<Rightarrow> vfs_counters" where
  "vfs_increment name operation res m =
     (let k = (name, operation, case res of Inl _ \<Rightarrow> False | Inr _ \<Rightarrow> True) in m(k := m k + 1))"

record instrumentedRoot =
  ir_root :: vfs_root
  ir_name :: string
  ir_rootPath :: string

definition instrumented_Root :: "vfs \<Rightarrow> string \<Rightarrow> string \<Rightarrow> vfs_counters \<Rightarrow> instrumentedRoot result \<times> vfs_counters" where
  "instrumented_Root fs name path m =
     (let res = fs path; m = vfs_increment name ''Root'' res m
      in case res of
           Inl err \<Rightarrow> (Inl err, m)
         | Inr rt \<Rightarrow> (Inr \<lparr>ir_root = rt, ir_name = name, ir_rootPath = path\<rparr>, m))"

definition instrumented_Lstat :: "instrumentedRoot \<Rightarrow> string \<Rightarrow> vfs_counters \<Rightarrow> file_info result \<times> vfs_counters" where
  "instrumented_Lstat i name m =
     (let res = rt_Lstat (ir_root i) name in (res, vfs_increment (ir_name i) ''Lstat'' res m))"

definition instrumented_Readlink :: "instrumentedRoot \<Rightarrow> string \<Rightarrow> vfs_counters \<Rightarrow> string result \<times> vfs_counters" where
  "instrumented_Readlink i name m =
     (let res = rt_Readlink (ir_root i) name in (res, vfs_increment (ir_name i) ''Readlink'' res m))"

definition instrumented_Open :: "instrumentedRoot \<Rightarrow> string \<Rightarrow> vfs_counters \<Rightarrow> vfs_file result \<times> vfs_counters" where
  "instrumented_Open i name m =
     (let res = rt_Open (ir_root i) name in (res, vfs_increment (ir_name i) ''Open'' res m))"

text \<open>The fields of the trace entries: the call itself is the message.\<close>

datatype log_value = LogString string | LogInt int | LogError "go_error option"

definition error_field :: "'a result \<Rightarrow> string \<times> log_value" where
  "error_field res = (''error'', LogError (case res of Inl err \<Rightarrow> Some err | Inr _ \<Rightarrow> None))"

definition instrumentedVFS_log :: "string \<Rightarrow> (string \<times> log_value) list" where
  "instrumentedVFS_log name = [(''vfs'', LogString name)]"

definition instrumentedRoot_log :: "instrumentedRoot \<Rightarrow> (string \<times> log_value) list" where
  "instrumentedRoot_log i = [(''vfs'', LogString (ir_name i)), (''root-path'', LogString (ir_rootPath i))]"

definition Root_entry :: "vfs \<Rightarrow> string \<Rightarrow> string \<Rightarrow> (string \<times> log_value) list" where
  "Root_entry fs name path = instrumentedVFS_log name @ [(''path'', LogString path), error_field (fs path)]"

definition Lstat_entry :: "instrumentedRoot \<Rightarrow> string \<Rightarrow> (string \<times> log_value) list" where
  "Lstat_entry i name = instrumentedRoot_log i @ [(''name'', LogString name), error_field (rt_Lstat (ir_root i) name)]"

definition Readlink_entry :: "instrumentedRoot \<Rightarrow> string \<Rightarrow> (string \<times> log_value) list" where
  "Readlink_entry i name =
     (let res = rt_Readlink (ir_root i) name
      in instrumentedRoot_log i @
         [(''name'', LogString name), (''ret-target'', LogString (case res of Inl _ \<Rightarrow> [] | Inr target \<Rightarrow> target)), error_field res])"

definition Open_entry :: "instrumentedRoot \<Rightarrow> string \<Rightarrow> (string \<times> log_value) list" where
  "Open_entry i name = instrumentedRoot_log i @ [(''name'', LogString name), error_field (rt_Open (ir_root i) name)]"

text \<open>The calls a client may make on the root of a file system, with and without the wrapper.\<close>

datatype vfs_call = CallLstat string | CallReadlink string | CallOpen string

datatype vfs_answer = AnsLstat "file_info result" | AnsReadlink "string result" | AnsOpen "vfs_file result"

fun plain_call :: "vfs_root \<Rightarrow> vfs_call \<Rightarrow> vfs_answer" where
  "plain_call r (CallLstat n) = AnsLstat (rt_Lstat r n)"
| "plain_call r (CallReadlink n) = AnsReadlink (rt_Readlink r n)"
| "plain_call r (CallOpen n) = AnsOpen (rt_Open r n)"

fun instrumented_call :: "instrumentedRoot \<Rightarrow> vfs_call \<Rightarrow> vfs_counters \<Rightarrow> vfs_answer \<times> vfs_counters" where
  "instrumented_call i (CallLstat n) m = (let (x, m) = instrumented_Lstat i n m in (AnsLstat x, m))"
| "instrumented_call i (CallReadlink n) m = (let (x, m) = instrumented_Readlink i n m in (AnsReadlink x, m))"
| "instrumented_call i (CallOpen n) m = (let (x, m) = instrumented_Open i n m in (AnsOpen x, m))"

fun instrumented_calls :: "instrumentedRoot \<Rightarrow> vfs_call list \<Rightarrow> vfs_counters \<Rightarrow> vfs_answer list \<times> vfs_counters" where
  "instrumented_calls i [] m = ([], m)"
| "instrumented_calls i (c # cs) m =
     (let (x, m) = instrumented_call i c m; (xs, m) = instrumented_calls i cs m in (x # xs, m))"

text \<open>What a call is counted as.\<close>

fun call_label :: "vfs_answer \<Rightarrow> string \<times> bool" where
  "call_label (AnsLstat res) = (''Lstat'', \<not> isl res)"
| "call_label (AnsReadlink res) = (''Readlink'', \<not> isl res)"
| "call_label (AnsOpen res) = (''Open'', \<not> isl res)"

section \<open>The metered round tripper\<close>

text \<open>\<open>'next\<close> are the round trippers of \<^verbatim>\<open>net/http\<close>, \<open>'vec\<close> the collectors.\<close>

record ('next, 'vec) meteredRoundTripper =
  mrt_next :: 'next
  mrt_name :: string
  mrt_tracer :: 'vec
  mrt_durations :: 'vec
  mrt_counter :: 'vec
  mrt_ttfbTimeout :: duration

definition NewMeteredRoundTripper ::
  "'next \<Rightarrow> 'next option \<Rightarrow> string \<Rightarrow> 'vec \<Rightarrow> 'vec \<Rightarrow> 'vec \<Rightarrow> duration \<Rightarrow> ('next, 'vec) meteredRoundTripper" where
  "NewMeteredRoundTripper DefaultTransport transport name tracerVec durationsVec counterVec ttfbTimeout =
     (let transport = (case transport of None \<Rightarrow> DefaultTransport | Some t \<Rightarrow> t)
      in \<lparr>mrt_next = transport, mrt_name = name, mrt_tracer = tracerVec, mrt_durations = durationsVec, mrt_counter = counterVec,
          mrt_ttfbTimeout = ttfbTimeout\<rparr>)"

text \<open>\<^verbatim>\<open>logResponse\<close>: at the trace level an entry with the client, the request, the status and every header of the response;
  \<open>keys\<close> are the names of its headers in the order Go happens to iterate in.  A later field replaces one of the same name.\<close>

definition header_field :: "header \<Rightarrow> string \<Rightarrow> (string \<rightharpoonup> log_value) \<Rightarrow> (string \<rightharpoonup> log_value)" where
  "header_field h k l = l(ToLower k \<mapsto> LogString (join_with '';'' (case h k of None \<Rightarrow> [] | Some vs \<Rightarrow> vs)))"

definition logResponse :: "bool \<Rightarrow> string \<Rightarrow> string list \<Rightarrow> range_request \<Rightarrow> range_response \<Rightarrow> (string \<rightharpoonup> log_value) option" where
  "logResponse trace name keys req resp =
     (if trace
      then Some (fold (header_field (rp_Header resp)) keys
             [''client_name'' \<mapsto> LogString name, ''req_url'' \<mapsto> LogString (rq_URL req), ''res_status_code'' \<mapsto> LogInt (rp_StatusCode resp)])
      else None)"

record metered =
  mt_counter :: "string \<Rightarrow> nat"
  mt_durations :: "string \<Rightarrow> nat"

text \<open>\<open>next\<close> gives the time the response headers take and the outcome; the timer cancels the request when
  they take longer than \<open>ttfbTimeout\<close>.\<close>

definition metered_RoundTrip ::
  "int \<Rightarrow> (range_request \<Rightarrow> int \<times> range_response result) \<Rightarrow> range_request \<Rightarrow> metered \<Rightarrow> range_response result \<times> metered" where
  "metered_RoundTrip ttfbTimeout next' r m =
     (let (delay, outcome) = next' r;
          outcome = (if delay > ttfbTimeout then Inl (ErrMsg ''context canceled'') else outcome)
      in case outcome of
           Inl err \<Rightarrow> (Inl err, m\<lparr>mt_counter := (mt_counter m)(''error'' := mt_counter m ''error'' + 1)\<rparr>)
         | Inr resp \<Rightarrow>
             (let statusCode = FormatInt (rp_StatusCode resp)
              in (Inr resp, m\<lparr>mt_durations := (mt_durations m)(statusCode := mt_durations m statusCode + 1),
                              mt_counter := (mt_counter m)(statusCode := mt_counter m statusCode + 1)\<rparr>)))"

section \<open>Tracing the requests of the HTTP clients (trace.go)\<close>

text \<open>The hooks of \<^verbatim>\<open>httptrace.ClientTrace\<close> the tracer sets, with what they are told as far as it is logged.\<close>

datatype trace_event =
    GetConn string
  | GotConn bool bool int
  | GotFirstResponseByte
  | DNSStart
  | DNSDone "go_error option"
  | ConnectStart string string
  | ConnectDone string string "go_error option"
  | TLSHandshakeStart
  | TLSHandshakeDone nat bool "go_error option"

text \<open>The stage a hook observes, and the fields of its log entry where it has one.\<close>

datatype trace_field = TraceString string | TraceBool bool | TraceInt int | TraceError "go_error option"

fun trace_stage :: "trace_event \<Rightarrow> string" where
  "trace_stage (GetConn _) = ''GetConn''"
| "trace_stage (GotConn _ _ _) = ''GotConn''"
| "trace_stage GotFirstResponseByte = ''GotFirstResponseByte''"
| "trace_stage DNSStart = ''DNSStart''"
| "trace_stage (DNSDone _) = ''DNSDone''"
| "trace_stage (ConnectStart _ _) = ''ConnectStart''"
| "trace_stage (ConnectDone _ _ _) = ''ConnectDone''"
| "trace_stage TLSHandshakeStart = ''TLSHandshakeStart''"
| "trace_stage (TLSHandshakeDone _ _ _) = ''TLSHandshakeDone''"

fun trace_log :: "trace_event \<Rightarrow> (string \<times> trace_field) list option" where
  "trace_log (GetConn host) = Some [(''host'', TraceString host)]"
| "trace_log (GotConn reused was_idle idle) =
     Some [(''reused'', TraceBool reused), (''was_idle'', TraceBool was_idle), (''idle_time_ms'', TraceInt (idle div 1000000))]"
| "trace_log (DNSDone err) = Some [(''error'', TraceError err)]"
| "trace_log (ConnectStart net addr) = Some [(''network'', TraceString net), (''address'', TraceString addr)]"
| "trace_log (ConnectDone net addr err) =
     Some [(''network'', TraceString net), (''address'', TraceString addr), (''error'', TraceError err)]"
| "trace_log (TLSHandshakeDone version resumed err) =
     Some [(''version'', TraceInt (int version)), (''connection_resumed'', TraceBool resumed), (''error'', TraceError err)]"
| "trace_log _ = None"

text \<open>The histogram of a tracer: the durations observed under each label, in nanoseconds.\<close>

type_synonym trace_durations = "string \<Rightarrow> int list"

definition httpTraceObserve :: "string \<Rightarrow> int \<Rightarrow> int \<Rightarrow> trace_durations \<Rightarrow> trace_durations" where
  "httpTraceObserve label start now m = m(label := m label @ [now - start])"

definition newTracer :: "int \<Rightarrow> trace_event \<Rightarrow> int \<Rightarrow> trace_durations \<Rightarrow> trace_durations" where
  "newTracer start ev now m = httpTraceObserve (''httptrace.ClientTrace.'' @ trace_stage ev) start now m"

section \<open>Properties\<close>

lemma instrumented_call_spec:
  "instrumented_call i c m =
     (plain_call (ir_root i) c,
      let (op, ok) = call_label (plain_call (ir_root i) c); k = (ir_name i, op, ok) in m(k := m k + 1))"
  by (cases c) (auto simp: instrumented_Lstat_def instrumented_Readlink_def instrumented_Open_def vfs_increment_def Let_def
      split: sum.splits)

text \<open>The instrumented file system is transparent and counts exactly: any sequence of calls on a root gets
  the answers of the root itself, and every counter grows by the number of the calls with its operation
  and outcome.\<close>

theorem instrumented_transparent:
  "fst (instrumented_calls i cs m) = map (plain_call (ir_root i)) cs \<and>
   snd (instrumented_calls i cs m) (name, op, ok) =
     m (name, op, ok) +
     (if name = ir_name i then length (filter (\<lambda>c. call_label (plain_call (ir_root i) c) = (op, ok)) cs) else 0)"
proof (induction cs arbitrary: m)
  case (Cons c cs)
  obtain op' ok' where l: "call_label (plain_call (ir_root i) c) = (op', ok')" by fastforce
  let ?k = "(ir_name i, op', ok')"
  have s: "instrumented_call i c m = (plain_call (ir_root i) c, m(?k := m ?k + 1))"
    unfolding instrumented_call_spec l by (simp add: Let_def)
  define m' where "m' = m(?k := m ?k + 1)"
  obtain xs m'' where r: "instrumented_calls i cs m' = (xs, m'')" by fastforce
  have c: "instrumented_calls i (c # cs) m = (plain_call (ir_root i) c # xs, m'')" using s r by (simp add: m'_def)
  have "m' (name, op, ok) = m (name, op, ok) + (if name = ir_name i \<and> (op', ok') = (op, ok) then 1 else 0)" by (auto simp: m'_def)
  then show ?case using Cons.IH [of m'] unfolding r c by (simp add: l)
qed simp

text \<open>The metered round tripper gives the answer of its transport when the headers come in time, an error
  otherwise, and counts every call once.\<close>

lemma metered_RoundTrip_spec:
  assumes "next' r = (delay, outcome)"
  shows "fst (metered_RoundTrip ttfb next' r m) = (if delay > ttfb then Inl (ErrMsg ''context canceled'') else outcome)"
    and "\<exists>label. mt_counter (snd (metered_RoundTrip ttfb next' r m)) = (mt_counter m)(label := mt_counter m label + 1)"
  using assms by (auto simp: metered_RoundTrip_def Let_def split: sum.splits)

text \<open>A traced request observes every event once, under the label of its stage, with the time since its start:
  the labels of different hooks do not run together, and the order of the events is kept.\<close>

theorem newTracer_observes:
  "fold (\<lambda>(ev, now). newTracer start ev now) evs m (''httptrace.ClientTrace.'' @ stage) =
     m (''httptrace.ClientTrace.'' @ stage) @ map (\<lambda>(ev, now). now - start) (filter (\<lambda>(ev, now). trace_stage ev = stage) evs)"
  by (induction evs arbitrary: m) (auto simp: newTracer_def httpTraceObserve_def)

text \<open>At the trace level every header of the response is logged under its lower-case name, whatever the order they are visited in,
  as long as no two of them differ in case only; the other fields are those of the request unless a header has their name.\<close>

lemma header_field_apply:
  "header_field h k l n =
     (if n = ToLower k then Some (LogString (join_with '';'' (case h k of None \<Rightarrow> [] | Some vs \<Rightarrow> vs))) else l n)"
  by (simp add: header_field_def)

lemma fold_header_field_other: "n \<notin> ToLower ` set keys \<Longrightarrow> fold (header_field h) keys l n = l n"
  by (induction keys arbitrary: l) (simp_all add: header_field_apply)

lemma fold_header_field:
  assumes "inj_on ToLower (set keys)" "distinct keys" "k \<in> set keys"
  shows "fold (header_field h) keys l (ToLower k) = Some (LogString (join_with '';'' (case h k of None \<Rightarrow> [] | Some vs \<Rightarrow> vs)))"
  using assms
proof (induction keys arbitrary: l)
  case (Cons a keys)
  show ?case
  proof (cases "k = a")
    case True
    then have "ToLower k \<notin> ToLower ` set keys" using Cons.prems by (auto simp: inj_on_def)
    then show ?thesis using True unfolding fold_simps by (subst fold_header_field_other) (simp_all add: header_field_apply)
  next
    case False
    then show ?thesis using Cons.IH [of "header_field h a l"] Cons.prems by simp
  qed
qed simp

lemma logResponse_headers:
  assumes "distinct keys" "inj_on ToLower (set keys)" "k \<in> set keys" "rp_Header resp k = Some vs"
  shows "\<exists>l. logResponse True name keys req resp = Some l \<and> l (ToLower k) = Some (LogString (join_with '';'' vs))"
  using assms(4) fold_header_field [OF assms(2,1,3), of "rp_Header resp"] by (simp add: logResponse_def)

end
