(* ===== verification/Serverless.thy ===== *)
theory Serverless
  imports Disk_Serving
begin

text \<open>
  The serving that forwards requests to a Knative cluster (\<^verbatim>\<open>internal/serving/serverless\<close>).  The reverse proxy
  of \<^verbatim>\<open>net/http/httputil\<close>, reading a key pair, finding the client's address and \<^verbatim>\<open>json.Marshal\<close> are parameters.
  The factory of servings does not hand this serving out at this commit.
\<close>

section \<open>Clusters (cluster.go, certs.go)\<close>

record 'cert Certs =
  ct_RootCerts :: string
  ct_Certificate :: 'cert

record 'cert Cluster =
  cu_Address :: string
  cu_Port :: string
  cu_Name :: string
  cu_Certs :: "'cert Certs"

record 'cert client_tls =
  tc_Certificates :: "'cert list"
  tc_RootCAs :: string
  tc_ServerName :: string

definition NewClusterCerts :: "(string \<Rightarrow> string \<Rightarrow> 'cert result) \<Rightarrow> string \<Rightarrow> string \<Rightarrow> 'cert Certs result" where
  "NewClusterCerts X509KeyPair clientCert clientKey =
     (case X509KeyPair clientCert clientKey of
        Inl err \<Rightarrow> Inl err
      | Inr cert \<Rightarrow> Inr \<lparr>ct_RootCerts = clientCert, ct_Certificate = cert\<rparr>)"

definition Cluster_Host :: "'cert Cluster \<Rightarrow> string" where
  "Cluster_Host c = join_with '':'' [cu_Address c, cu_Port c]"

definition Cluster_TLSConfig :: "'cert Cluster \<Rightarrow> 'cert client_tls" where
  "Cluster_TLSConfig c =
     \<lparr>tc_Certificates = [ct_Certificate (cu_Certs c)], tc_RootCAs = ct_RootCerts (cu_Certs c), tc_ServerName = cu_Name c\<rparr>"

section \<open>Transport, director and error handler\<close>

text \<open>The transport dials the cluster whatever address it is asked for.\<close>

record 'cert cluster_transport =
  st_dial :: "string \<Rightarrow> string \<Rightarrow> string \<times> string"
  st_TLS :: "'cert client_tls"

definition serverless_NewTransport :: "'cert Cluster \<Rightarrow> 'cert cluster_transport" where
  "serverless_NewTransport cluster =
     \<lparr>st_dial = (\<lambda>network address. (network, Cluster_Host cluster)), st_TLS = Cluster_TLSConfig cluster\<rparr>"

definition NewDirectorFunc :: "(request \<Rightarrow> string) \<Rightarrow> string \<Rightarrow> request \<Rightarrow> request" where
  "NewDirectorFunc realip service r =
     (let r = r\<lparr>r_Host := service, r_URL := (r_URL r)\<lparr>u_Host := service, u_Scheme := ''https''\<rparr>\<rparr>;
          r = r\<lparr>r_Header := header_Set ''User-Agent'' ''GitLab Pages Daemon'' (r_Header r)\<rparr>;
          r = r\<lparr>r_Header := header_Set ''X-Forwarded-For'' (realip r) (r_Header r)\<rparr>
      in r\<lparr>r_Header := header_Set ''X-Forwarded-Proto'' ''https'' (r_Header r)\<rparr>)"

definition NewErrorHandler :: "(string \<Rightarrow> string option) \<Rightarrow> string \<Rightarrow> resp \<Rightarrow> resp" where
  "NewErrorHandler marshal err w =
     (let w = WriteHeader 500 w; message = ''cluster error: '' @ err
      in case marshal message of
           None \<Rightarrow> rw_Write (Text message) w
         | Some json \<Rightarrow> rw_Write (Text json) (hset ''Content-Type'' ''application/json'' w))"

section \<open>The serving (serverless.go)\<close>

record api_Cluster =
  ay_Address :: string
  ay_Port :: string
  ay_Hostname :: string
  ay_CertificateCert :: string
  ay_CertificateKey :: string

record api_Serverless =
  ax_Service :: string
  ax_Cluster :: api_Cluster

text \<open>\<open>reverseProxy\<close> is \<^verbatim>\<open>ReverseProxy.ServeHTTP\<close> with its director, transport and error handler.\<close>

type_synonym 'cert reverse_proxy =
  "(request \<Rightarrow> request) \<Rightarrow> 'cert cluster_transport \<Rightarrow> (string \<Rightarrow> resp \<Rightarrow> resp) \<Rightarrow> request \<Rightarrow> resp \<Rightarrow> resp"

definition Serverless_ServeFileHTTP :: "(resp \<Rightarrow> resp) \<Rightarrow> resp \<Rightarrow> bool \<times> resp" where
  "Serverless_ServeFileHTTP proxy w = (True, proxy w)"

definition serverless_New ::
  "'cert reverse_proxy \<Rightarrow> (request \<Rightarrow> string) \<Rightarrow> (string \<Rightarrow> string option) \<Rightarrow> string \<Rightarrow> 'cert Cluster \<Rightarrow> serving" where
  "serverless_New reverseProxy realip marshal service cluster =
     \<lparr>sv_ServeFileHTTP = (\<lambda>h. Serverless_ServeFileHTTP
        (reverseProxy (NewDirectorFunc realip service) (serverless_NewTransport cluster) (NewErrorHandler marshal) (h_Request h))),
      sv_ServeNotFoundHTTP = (\<lambda>h. Serve404)\<rparr>"

definition NewFromAPISource ::
  "(string \<Rightarrow> string \<Rightarrow> 'cert result) \<Rightarrow> 'cert reverse_proxy \<Rightarrow> (request \<Rightarrow> string) \<Rightarrow> (string \<Rightarrow> string option) \<Rightarrow>
   api_Serverless \<Rightarrow> serving result" where
  "NewFromAPISource X509KeyPair reverseProxy realip marshal config =
     (if ax_Service config = [] then Inl (ErrMsg ''incomplete serverless serving config'')
      else (case NewClusterCerts X509KeyPair (ay_CertificateCert (ax_Cluster config)) (ay_CertificateKey (ax_Cluster config)) of
              Inl err \<Rightarrow> Inl err
            | Inr certs \<Rightarrow>
                Inr (serverless_New reverseProxy realip marshal (ax_Service config)
                  \<lparr>cu_Address = ay_Address (ax_Cluster config), cu_Port = ay_Port (ax_Cluster config),
                   cu_Name = ay_Hostname (ax_Cluster config), cu_Certs = certs\<rparr>)))"

section \<open>Lemmas\<close>

text \<open>Requests go to the configured service, over TLS and to the address of the cluster only.\<close>

lemma director_service:
  "r_Host (NewDirectorFunc realip service r) = service" "u_Host (r_URL (NewDirectorFunc realip service r)) = service"
  "u_Scheme (r_URL (NewDirectorFunc realip service r)) = ''https''" "u_Path (r_URL (NewDirectorFunc realip service r)) = u_Path (r_URL r)"
  "snd (st_dial (serverless_NewTransport cluster) network address) = Cluster_Host cluster"
  by (simp_all add: NewDirectorFunc_def serverless_NewTransport_def Let_def)

text \<open>The content type of the error handler comes too late: the headers have been sent, so the client gets
  JSON without it.\<close>

lemma error_content_type_lost:
  assumes "rw_sent w = None"
  shows "rw_sent (NewErrorHandler marshal err w) = Some (500, rw_header w)"
  using assms by (auto simp: NewErrorHandler_def Let_def rw_Write_def WriteHeader_def hset_def split: option.splits)

end
