(* ===== verification/Server.thy ===== *)
theory Server
  imports Pipeline Limiter
begin

text \<open>
  The listeners of the application (\<^verbatim>\<open>Run\<close> and the \<^verbatim>\<open>listen...FD\<close> methods of \<^verbatim>\<open>app.go\<close>, \<^verbatim>\<open>server.go\<close>): which
  socket gets which handler, and what a connection passes on its way to it.  Each listener runs in a
  goroutine of its own that joins a wait group; \<^verbatim>\<open>http2.ConfigureServer\<close> and \<^verbatim>\<open>net.FileListener\<close> are
  parameters.
\<close>

section \<open>A listener (server.go)\<close>

text \<open>The layers around a socket, from the socket outwards.\<close>

datatype 'tls layer = LimitConnections | KeepAlive | RequireProxyHeader | TLS 'tls

record 'tls served =
  sd_fd :: nat
  sd_layers :: "'tls layer list"
  sd_handler :: handler

definition listenAndServe ::
  "go_error option \<Rightarrow> (nat \<Rightarrow> go_error option) \<Rightarrow> nat \<Rightarrow> handler \<Rightarrow> bool \<Rightarrow> 'tls option \<Rightarrow> bool \<Rightarrow> bool \<Rightarrow> 'tls served result" where
  "listenAndServe http2 fileListener fd h useHTTP2 tlsConfig limited proxyv2 =
     (case (if useHTTP2 then http2 else None) of
        Some err \<Rightarrow> Inl err
      | None \<Rightarrow>
          (case fileListener fd of
             Some err \<Rightarrow> Inl (ErrMsg ''failed to listen on FD'')
           | None \<Rightarrow>
               (let l = (if limited then [LimitConnections] else []);
                    l = l @ [KeepAlive];
                    l = (if proxyv2 then l @ [RequireProxyHeader] else l);
                    l = (case tlsConfig of Some c \<Rightarrow> l @ [TLS c] | None \<Rightarrow> l)
                in Inr \<lparr>sd_fd = fd, sd_layers = l, sd_handler = h\<rparr>)))"

text \<open>A connection as the listeners see it: a TCP connection with its two keep-alive operations, one of another
  kind, or one that counts for the limiter, with the TCP connection inside it if there is one.\<close>

type_synonym keep_alive_ops = "(bool \<Rightarrow> string option) \<times> (duration \<Rightarrow> string option)"

datatype net_conn = TCPConn keep_alive_ops | OtherConn | LimitedConn net_conn "keep_alive_ops option"

definition SharedLimitListener_conn :: "net_conn \<Rightarrow> net_conn" where
  "SharedLimitListener_conn c = LimitedConn c (case c of TCPConn ops \<Rightarrow> Some ops | _ \<Rightarrow> None)"

text \<open>The interface \<^verbatim>\<open>keepAliveSetter\<close>: the operations of a connection that has them.\<close>

fun keepAliveSetter :: "net_conn \<Rightarrow> keep_alive_ops option" where
  "keepAliveSetter (TCPConn ops) = Some ops"
| "keepAliveSetter OtherConn = None"
| "keepAliveSetter (LimitedConn c tcp) = Some (SetKeepAlive (map_option fst tcp), SetKeepAlive (map_option snd tcp))"

text \<open>\<^verbatim>\<open>Accept\<close>: the connection and the errors of the two operations, which are ignored.  The type assertion
  panics, which is \<^const>\<open>None\<close>, for a connection without them.\<close>

definition keepAlive_Accept :: "net_conn result \<Rightarrow> (net_conn result \<times> string option list) option" where
  "keepAlive_Accept accepted =
     (case accepted of
        Inl err \<Rightarrow> Some (Inl err, [])
      | Inr conn \<Rightarrow>
          (case keepAliveSetter conn of
             None \<Rightarrow> None
           | Some (setKeepAlive, setPeriod) \<Rightarrow> Some (Inr conn, [setKeepAlive True, setPeriod (3 * 60 * 1000000000)])))"

text \<open>\<open>net_Listen\<close> is \<^verbatim>\<open>net.Listen("tcp", addr)\<close>, \<open>file_of\<close> the descriptor of a listener; a failure of either is fatal.\<close>

definition fileForListener :: "('l \<Rightarrow> nat result) \<Rightarrow> 'l \<Rightarrow> nat result" where
  "fileForListener file_of l = (case file_of l of Inl err \<Rightarrow> Inl (ErrMsg ''could not find file for listener'') | Inr f \<Rightarrow> Inr f)"

definition createSocket :: "('os \<Rightarrow> string \<Rightarrow> 'l result \<times> 'os) \<Rightarrow> ('l \<Rightarrow> nat result) \<Rightarrow> 'os \<Rightarrow> string \<Rightarrow> nat result \<times> 'os" where
  "createSocket net_Listen file_of os addr =
     (case net_Listen os addr of
        (Inl err, os) \<Rightarrow> (Inl (ErrMsg ''could not create socket''), os)
      | (Inr l, os) \<Rightarrow> (fileForListener file_of l, os))"

section \<open>Running the application (app.go)\<close>

text \<open>A goroutine of a listener: how often it and its start add to the wait group, how often it says it is done
  when it ends, and what it serves.\<close>

record 'tls listener_task =
  lt_added :: nat
  lt_done :: nat
  lt_serves :: "'tls served result"

type_synonym app_tls = "(certificate, string \<Rightarrow> certificate option \<times> theApp) tls_Config"

record listen_env =
  le_http2 :: "go_error option"
  le_fileListener :: "nat \<Rightarrow> go_error option"
  le_metrics :: "go_error option"

definition listenHTTPFD :: "listen_env \<Rightarrow> theApp \<Rightarrow> bool \<Rightarrow> handler \<Rightarrow> nat \<Rightarrow> app_tls listener_task" where
  "listenHTTPFD L a limited h fd =
     \<lparr>lt_added = 1, lt_done = 1,
      lt_serves = listenAndServe (le_http2 L) (le_fileListener L) fd h (gc_HTTP2 (c_General (ap_config a))) None limited False\<rparr>"

definition listen_tls :: "app_env \<Rightarrow> listen_env \<Rightarrow> theApp \<Rightarrow> bool \<Rightarrow> handler \<Rightarrow> bool \<Rightarrow> nat \<Rightarrow> app_tls listener_task" where
  "listen_tls E L a limited h proxyv2 fd =
     \<lparr>lt_added = 1, lt_done = 1,
      lt_serves =
        (case app_TLSConfig E a of
           Inl err \<Rightarrow> Inl err
         | Inr tlsConfig \<Rightarrow>
             listenAndServe (le_http2 L) (le_fileListener L) fd h (gc_HTTP2 (c_General (ap_config a))) (Some tlsConfig) limited proxyv2)\<rparr>"

definition listenHTTPSFD :: "app_env \<Rightarrow> listen_env \<Rightarrow> theApp \<Rightarrow> bool \<Rightarrow> handler \<Rightarrow> nat \<Rightarrow> app_tls listener_task" where
  "listenHTTPSFD E L a limited h fd = listen_tls E L a limited h False fd"

definition ListenHTTPSProxyv2FD :: "app_env \<Rightarrow> listen_env \<Rightarrow> theApp \<Rightarrow> bool \<Rightarrow> handler \<Rightarrow> nat \<Rightarrow> app_tls listener_task" where
  "ListenHTTPSProxyv2FD E L a limited h fd = listen_tls E L a limited h True fd"

text \<open>The proxy listener adds once before its goroutine and once inside it, and is done once.\<close>

definition listenProxyFD :: "listen_env \<Rightarrow> theApp \<Rightarrow> bool \<Rightarrow> handler \<Rightarrow> nat \<Rightarrow> app_tls listener_task" where
  "listenProxyFD L a limited h fd =
     \<lparr>lt_added = 2, lt_done = 1,
      lt_serves = listenAndServe (le_http2 L) (le_fileListener L) fd h (gc_HTTP2 (c_General (ap_config a))) None limited False\<rparr>"

text \<open>The metrics listener serves the monitoring pages, not the application.\<close>

definition listenMetricsFD :: "listen_env \<Rightarrow> handler \<Rightarrow> nat \<Rightarrow> app_tls listener_task" where
  "listenMetricsFD L monitoring fd =
     \<lparr>lt_added = 1, lt_done = 1,
      lt_serves = (case le_fileListener L fd of
                     Some err \<Rightarrow> Inl (ErrMsg ''failed to listen on FD'')
                   | None \<Rightarrow> (case le_metrics L of Some err \<Rightarrow> Inl err
                                | None \<Rightarrow> Inr \<lparr>sd_fd = fd, sd_layers = [], sd_handler = monitoring\<rparr>))\<rparr>"

definition app_Run :: "app_env \<Rightarrow> listen_env \<Rightarrow> handler \<Rightarrow> theApp \<Rightarrow> app_tls listener_task list result" where
  "app_Run E L monitoring a =
     (let limited = (gc_MaxConns (c_General (ap_config a)) > 0); l = c_Listeners (ap_config a)
      in case http_handler E a of
           Inl err \<Rightarrow> Inl err
         | Inr httpHandler \<Rightarrow>
             (case proxy_handler E a of
                Inl err \<Rightarrow> Inl err
              | Inr proxyHandler \<Rightarrow>
                  Inr (map (listenHTTPFD L a limited httpHandler) (li_HTTP l)
                     @ map (listenHTTPSFD E L a limited httpHandler) (li_HTTPS l)
                     @ map (listenProxyFD L a limited proxyHandler) (li_Proxy l)
                     @ map (ListenHTTPSProxyv2FD E L a limited httpHandler) (li_HTTPSProxyv2 l)
                     @ (if c_ListenMetrics (ap_config a) \<noteq> 0 then [listenMetricsFD L monitoring (c_ListenMetrics (ap_config a))] else []))))"

text \<open>The wait group when every listener has ended.\<close>

definition wait_group :: "'tls listener_task list \<Rightarrow> int" where
  "wait_group ts = int (sum_list (map lt_added ts)) - int (sum_list (map lt_done ts))"

section \<open>Properties\<close>

definition limit_layers :: "theApp \<Rightarrow> 'tls layer list" where
  "limit_layers a = (if gc_MaxConns (c_General (ap_config a)) > 0 then [LimitConnections] else [])"

lemma listenAndServe_layers:
  assumes "listenAndServe http2 fl fd h useHTTP2 tlsConfig (gc_MaxConns (c_General (ap_config a)) > 0) proxyv2 = Inr s"
  shows "sd_fd s = fd \<and> sd_handler s = h \<and>
    sd_layers s = limit_layers a @ [KeepAlive] @ (if proxyv2 then [RequireProxyHeader] else []) @
      (case tlsConfig of Some c \<Rightarrow> [TLS c] | None \<Rightarrow> [])"
  using assms by (auto simp: listenAndServe_def limit_layers_def Let_def split: option.split_asm option.split)


text \<open>The wait group keeps one count for every proxy listener: with one, \<^verbatim>\<open>Run\<close> does not return even when
  every listener has ended.\<close>

lemma app_Run_wait_group:
  assumes "app_Run E L monitoring a = Inr ts"
  shows "wait_group ts = int (length (li_Proxy (c_Listeners (ap_config a))))"
proof -
  have const: "sum_list (map (\<lambda>x. k) xs) = k * length xs" for k :: nat and xs :: "nat list"
    by (induction xs) simp_all
  show ?thesis using assms
    by (auto simp: app_Run_def Let_def wait_group_def comp_def listenHTTPFD_def listenHTTPSFD_def ListenHTTPSProxyv2FD_def
        listen_tls_def listenProxyFD_def listenMetricsFD_def const split: sum.split_asm)
qed

text \<open>Accepting never panics on the sockets of the daemon: they are TCP sockets, and with the limiter not even
  a connection of another kind panics; the connection is handed on as it is, whatever its operations say.\<close>

lemma keepAlive_Accept_no_panic:
  "\<exists>errs. keepAlive_Accept (Inr (TCPConn ops)) = Some (Inr (TCPConn ops), errs)"
  "\<exists>errs. keepAlive_Accept (Inr (SharedLimitListener_conn c)) = Some (Inr (SharedLimitListener_conn c), errs)"
  by (cases ops) (auto simp: keepAlive_Accept_def SharedLimitListener_conn_def)

lemma keepAlive_Accept_panics: "keepAlive_Accept (Inr c) = None \<longleftrightarrow> c = OtherConn"
  by (cases c) (auto simp: keepAlive_Accept_def split: prod.splits)

section \<open>An application with listeners\<close>

definition demo_listening :: theApp where
  "demo_listening = demo_a\<lparr>ap_config := (ap_config demo_a)
     \<lparr>c_Listeners := \<lparr>li_HTTP = [5], li_HTTPS = [], li_Proxy = [7], li_HTTPSProxyv2 = []\<rparr>\<rparr>\<rparr>"

definition demo_listen_env :: listen_env where
  "demo_listen_env = \<lparr>le_http2 = None, le_fileListener = (\<lambda>_. None), le_metrics = None\<rparr>"

lemma demo_server_run:
  "\<exists>h p. http_handler (demo_E []) demo_listening = Inr h \<and> proxy_handler (demo_E []) demo_listening = Inr p \<and>
     app_Run (demo_E []) demo_listen_env (\<lambda>_. id) demo_listening =
       Inr [listenHTTPFD demo_listen_env demo_listening False h 5, listenProxyFD demo_listen_env demo_listening False p 7]"
proof -
  obtain g where g: "buildHandlerPipeline (demo_E []) demo_listening = Inr g"
    unfolding buildHandlerPipeline_def
    by (simp add: pipeline_with_def healthCheckMiddleware_def demo_app_env_def)
  have "c_Listeners (ap_config demo_listening) = \<lparr>li_HTTP = [5], li_HTTPS = [], li_Proxy = [7], li_HTTPSProxyv2 = []\<rparr>"
    "c_ListenMetrics (ap_config demo_listening) = 0" "\<not> gc_MaxConns (c_General (ap_config demo_listening)) > 0"
    by (simp_all add: demo_listening_def demo_app_def config_of_flags_def demo_flags_def)
  then show ?thesis using g by (simp add: app_Run_def Let_def http_handler_def proxy_handler_def)
qed


end
