(* ===== verification/Spec2Isabelle.thy ===== *)
theory Spec2Isabelle
  imports Serve_Content Program Fixtures Site_Serving Readiness Login_Flow Startup Zip_Serving Zip_Gauges Error_Page Metrics Transport Limiter Gitlab_Cache Zip_Vfs Daemonize
    Instrumented Serverless Server
begin

text \<open>
  \<^bold>\<open>A verification library for the GitLab Pages daemon\<close> (Go 1.13, the repository under \<^verbatim>\<open>src/\<close>).

  \<^bold>\<open>The program.\<close>  The daemon serves static sites.  A request arrives at one of its listeners
  (\<^verbatim>\<open>app.go\<close>, \<^verbatim>\<open>server.go\<close>), behind a limit on connections (\<^verbatim>\<open>internal/netutil\<close>).  The handler pipeline of
  \<^verbatim>\<open>app.go\<close> finds the domain of the host in a source of domains (\<^verbatim>\<open>internal/source\<close>): either a map read from
  the pages directory, or the GitLab API through a cache.  It answers health checks, artifacts, ACME
  challenges, the OAuth flow and redirects to HTTPS, asks GitLab for access where the project is private
  (\<^verbatim>\<open>internal/auth\<close>), and at last lets the domain serve the file or the not-found page
  (\<^verbatim>\<open>internal/domain\<close>, \<^verbatim>\<open>internal/serving\<close>).  The files come from a root of the virtual file system
  (\<^verbatim>\<open>internal/vfs\<close>): a local directory, or a zip archive read over HTTP in ranges (\<^verbatim>\<open>internal/httprange\<close>) or
  from \<^verbatim>\<open>file://\<close> URLs (\<^verbatim>\<open>internal/httpfs\<close>).  On request the program starts itself again as an unprivileged
  child in a chroot jail (\<^verbatim>\<open>daemon.go\<close>, \<^verbatim>\<open>internal/jail\<close>).

  \<^bold>\<open>The theories.\<close>  Every theory keeps the order and the names of the code it models; structs are records
  (their fields with a short prefix), errors are values of \<open>go_error\<close>, fallible calls return
  \<open>'a result\<close>, which is \<open>go_error + 'a\<close>, a panic or a nil is an \<open>option\<close>, and a handler is a function of the
  request and the response writer.

  \<^item> \<open>Pages_Prelude\<close>, \<open>Go_Path\<close>, \<open>Go_Url\<close>, \<open>Http_Base\<close>: Go's strings, paths, URLs, headers, requests and the
    response writer as far as the daemon uses them; \<^verbatim>\<open>internal/httperrors\<close>, \<^verbatim>\<open>internal/host\<close>,
    \<^verbatim>\<open>internal/request\<close>, \<^verbatim>\<open>internal/rejectmethods\<close>, \<^verbatim>\<open>internal/middleware\<close>.  \<open>Error_Page\<close> has the text of
    the error pages.
  \<^item> \<open>Http_Header\<close>: \<^verbatim>\<open>internal/httputil\<close>.  The parsers never slice out of range, and the negotiated
    encoding has the best quality among the offers; dates and copies of headers.
  \<^item> \<open>Vfs\<close>, \<open>Symlinks\<close>: \<^verbatim>\<open>internal/vfs\<close>, \<^verbatim>\<open>internal/vfs/local\<close>, \<^verbatim>\<open>internal/serving/disk/symlink\<close>.  The locale
    \<open>vfs_root_ops\<close> is the contract of a root (local directories and archives satisfy it); paths stay
    below the root; the walk ends after at most 255 links.
  \<^item> \<open>Redirects\<close>, \<open>Disk_Serving\<close>: \<^verbatim>\<open>internal/redirects\<close>, \<^verbatim>\<open>internal/serving/disk\<close>.  Which rule applies, which file
    is served with which encoding, that a local file served lies below the root, and where redirects
    lead.  The locale \<open>serving_ops\<close> is the contract of a serving.
  \<^item> \<open>Domain\<close>: \<^verbatim>\<open>internal/domain\<close>, over any resolver (locale \<open>resolver_ops\<close>, interpreted for the disk source,
    the GitLab source and the choice between them).
  \<^item> \<open>Disk_Source\<close>, \<open>Gitlab_Cache\<close>, \<open>Gitlab_Source\<close>, \<open>Source_Domains\<close>: \<^verbatim>\<open>internal/source\<close>.  What is read is found
    again; the scan with interleaved workers never panics; the cache (a step relation over clients,
    retrievals and refreshes) answers for the domain asked for and retrieves once; the first matching lookup
    path wins; the locale \<open>domain_source\<close> says that a domain has the name it was asked for under.
  \<^item> \<open>Limiter\<close>: \<^verbatim>\<open>internal/netutil\<close> as a step relation.  Never more connections than slots, no slot is
    lost, a release is always possible, and what the gauges count at every moment.
  \<^item> \<open>Auth\<close>, \<open>Artifact\<close>: \<^verbatim>\<open>internal/auth\<close>, \<^verbatim>\<open>internal/artifact\<close>, \<^verbatim>\<open>internal/handlers\<close>, \<^verbatim>\<open>internal/acme\<close>.  Access is
    granted only on GitLab's word; the state of the OAuth flow is checked; the secure code decrypts only
    on the domain it was made for.  \<open>Login_Flow\<close> runs the whole login with a browser that keeps cookies: a
    visitor GitLab authorises ends on the page asked for, with access.
  \<^item> \<open>Config\<close>, \<open>Command_Line\<close>, \<open>Startup\<close>: \<^verbatim>\<open>internal/config\<close>, \<^verbatim>\<open>internal/validateargs\<close>, and the start of the
    application from it.  The flags with their defaults and what setting them does, what a loaded configuration
    satisfies, that the application is wired as the flags say, and that it can be configured only once.
  \<^item> \<open>App\<close>, \<open>Pipeline\<close>, \<open>Server\<close>: \<^verbatim>\<open>app.go\<close>, \<^verbatim>\<open>server.go\<close>.  The middlewares and their composition; what never
    reaches the file handler; what an anonymous visitor can tell; which socket is served how.
  \<^item> \<open>Site_Serving\<close>, \<open>Serve_Content\<close>, \<open>Isolation\<close>: the pipeline composed with the sources, the servings and the roots.  A page of a site is
    answered with exactly its bytes, or those of its compressed variant; \<open>Serve_Content\<close> has \<^verbatim>\<open>http.ServeContent\<close> of the standard library, with
    conditions and ranges, shows what is required of it, and that a range of a page is answered with exactly its bytes; and the answer depends on nothing outside the roots of the project
    and of its namespace project.  \<open>Readiness\<close>: when the daemon answers that it is not available.
  \<^item> \<open>Http_Range\<close>, \<open>Zip_Archive\<close>, \<open>Zip_Vfs\<close>, \<open>Http_Fs\<close>: reading archives.  The range reader refines reading
    from the bytes of the resource (locale \<open>byte_reader\<close>); the caches of offsets and links are transparent
    (locale \<open>memo\<close>); the pool never hands one inflating reader to two files; \<^verbatim>\<open>Root\<close> hands out the archive
    asked for, read once, under every interleaving (locale \<open>archive_store\<close>).  \<open>Zip_Serving\<close> composes it with the
    serving: what a site shows are regular entries of its own archive.  \<open>Zip_Gauges\<close>: when the gauges of cached
    archives are exact.
  \<^item> \<open>Jail\<close>, \<open>Daemonize\<close>: \<^verbatim>\<open>internal/jail\<close>, \<^verbatim>\<open>daemon.go\<close>, the start in \<^verbatim>\<open>main.go\<close>.  Whatever calls fail, nothing of the
    host outside the jail is changed, in particular not the mounted pages, and the child is confined to the
    jail with the configured user; a child that was started is killed and waited for when the daemon returns.
    \<open>Mount_Namespace\<close>: what the mount namespace of the host sees of it, with and without a successful
    \<^verbatim>\<open>Unshare\<close>, and on systems without bind mounts.  \<open>Program\<close>: the whole \<^verbatim>\<open>main\<close> in its two roles, from the flags
    of the parent to the application of the child.
  \<^item> \<open>Instrumented\<close>, \<open>Metrics\<close>, \<open>Logging\<close>: the wrappers that count and log and change no answer, the tracer, the collectors
    with their registration and the gauge of open range requests, the access log and the logged configuration,
    which shows no secret.
  \<^item> \<open>Transport\<close>, \<open>Serverless\<close>: the settings and the certificate pool of the HTTP clients, with the variant for macOS;
    the serving that forwards to a cluster.
  \<^item> \<open>Fixtures\<close>: the stubbed API client (with the real one behind the locale \<open>lookup_client\<close>), the API answers of the acceptance
    tests and some helpers of the tests.

  \<^bold>\<open>Parameters.\<close>  Code that is not in the repository is an argument of the definitions: \<^verbatim>\<open>go-cache\<close> and
  \<^verbatim>\<open>ccache\<close>, the rules parser \<^verbatim>\<open>tj/go-redirects\<close>, the cookie store, the JWT library, HKDF and AES-GCM, what
  the HTTP clients are answered, JSON decoding, X.509, inflating, and the contents of archives and of the
  operating system.  Where a theorem relies on them, it says so: \<open>crypto_ok\<close> for the cryptographic packages,
  \<open>archive_store\<close> for \<^verbatim>\<open>go-cache\<close>, \<open>wrappers_forward\<close> and \<open>wrappers_pass\<close> for the handlers of other packages that
  wrap a handler, \<open>serve_content_full\<close> for \<^verbatim>\<open>http.ServeContent\<close> (which \<open>Serve_Content\<close> proves of its model), \<open>codec_ok\<close> for the cookies.
  The witnesses instantiate them with concrete functions.

  \<^bold>\<open>Concurrency.\<close>  The API cache, the limiter, the archives and the inflating readers are step relations; what
  the code does under one lock or one \<^verbatim>\<open>sync.Once\<close> is one step, everything else interleaves.  The pipeline is
  modelled for one request at a time.

  \<^bold>\<open>Bounds, fuel and loops.\<close>  The limits of the code are kept: 255 links in a walk, 256 bytes of a link
  target, 64 KB of a redirects file, 64-bit offsets of ranges and 32-bit user
  numbers as words or with their wrap-around.  Loops are total functions with termination proofs, and the
  depth of the scan of groups is the limit of the code itself; only \<^verbatim>\<open>io.ReadFull\<close>, which may wait for ever
  on a reader that returns nothing, is a \<^verbatim>\<open>partial_function\<close> on options, and the readers of the daemon are
  shown to end it.

  \<^bold>\<open>Not modelled.\<close>  How the package \<^verbatim>\<open>namsral/flag\<close> finds the settings on the command line, in the environment and in
  the configuration file: it is not in the repository, and the list of settings it applies is a parameter.  Error reporting, and
  log messages other than the access log, the logged configuration and the entries of the instrumentation: they
  have no effect on the program.  The schedule of the retries while polling GitLab belongs to the package \<^verbatim>\<open>backoff\<close>, so the
  polling is modelled by its outcome.  The MIME tables and the formatting and parsing of dates are parameters of the handlers.
  Of the test support, the certificates of the fixtures are data, the mocks are generated or rest on \<^verbatim>\<open>testify\<close>, and the
  assertions on HTTP answers rest on \<^verbatim>\<open>testify\<close> and \<^verbatim>\<open>httptest\<close>.  Methods that only give a name or
  the text of an error, and the constants of the build (the version), are left out.
\<close>

end
